(* ===== verification/Tea_Prelude.thy ===== *)
theory Tea_Prelude
  imports Main "HOL-Library.Word" "HOL-Library.Char_ord" "HOL-Library.List_Lexorder"
    "HOL-Library.Product_Lexorder"
begin

text \<open>
  Shared vocabulary of the development.

  \<^item> \<open>Result\<close>: a fallible Rust function returns \<open>'e + 'a\<close>; \<open>Err\<close> and \<open>Ok\<close> name the two
    injections, \<open>and_then\<close> is the \<open>?\<close> operator and \<open>try_fold\<close> a loop whose body may
    return early with an error.
  \<^item> \<open>u16\<close>, \<open>u32\<close>, \<open>u64\<close> and \<open>i64\<close> are machine words; \<open>saturating_add\<close> is the Rust method.
  \<^item> \<open>BTreeMap\<close> is an association list kept strictly increasing in its keys
    (\<open>btree_ok\<close>), with the byte-lexicographic order of Rust strings on string keys.
    Lookups after updates hold for every list; the iteration order needs \<open>btree_ok\<close>.
  \<^item> \<open>BTreeSet\<close>, where only membership matters, is a HOL set.
\<close>

section \<open>Results\<close>

type_synonym ('e, 'a) result = "'e + 'a"

abbreviation Err :: "'e \<Rightarrow> ('e, 'a) result" where
  "Err \<equiv> Inl"

abbreviation Ok :: "'a \<Rightarrow> ('e, 'a) result" where
  "Ok \<equiv> Inr"

fun and_then :: "('e, 'a) result \<Rightarrow> ('a \<Rightarrow> ('e, 'b) result) \<Rightarrow> ('e, 'b) result" where
  "and_then (Inl e) f = Inl e"
| "and_then (Inr a) f = f a"

text \<open>Evaluated as a case distinction, the continuation waits for its argument.\<close>

lemma and_then_case [code_unfold]: "and_then r f = (case r of Inl e \<Rightarrow> Inl e | Inr a \<Rightarrow> f a)"
  by (cases r) auto

fun is_ok :: "('e, 'a) result \<Rightarrow> bool" where
  "is_ok (Inl e) = False"
| "is_ok (Inr a) = True"

fun map_err :: "('e \<Rightarrow> 'f) \<Rightarrow> ('e, 'a) result \<Rightarrow> ('f, 'a) result" where
  "map_err g (Inl e) = Inl (g e)"
| "map_err g (Inr a) = Inr a"

named_theorems result_simps "how the branches of a fallible computation are read"

lemma and_then_ok [result_simps]:
  "and_then r f = Inr b \<longleftrightarrow> (\<exists>a. r = Inr a \<and> f a = Inr b)"
  by (cases r) auto

lemma and_then_err:
  "and_then r f = Inl e \<longleftrightarrow> r = Inl e \<or> (\<exists>a. r = Inr a \<and> f a = Inl e)"
  by (cases r) auto

lemma map_err_ok [simp]: "map_err g r = Inr a \<longleftrightarrow> r = Inr a"
  by (cases r) auto

lemma is_ok_iff: "is_ok r \<longleftrightarrow> (\<exists>a. r = Inr a)"
  by (cases r) auto

lemma is_ok_map_err [simp]: "is_ok (map_err g r) = is_ok r"
  by (cases r) auto

lemma is_ok_and_then: "is_ok (and_then r f) \<longleftrightarrow> (\<exists>a. r = Inr a \<and> is_ok (f a))"
  by (cases r) auto

lemma and_then_assoc: "and_then (and_then r f) g = and_then r (\<lambda>a. and_then (f a) g)"
  by (cases r) auto

subsection \<open>Loops that may return early\<close>

fun try_fold :: "('s \<Rightarrow> 'm \<Rightarrow> ('e, 's) result) \<Rightarrow> 's \<Rightarrow> 'm list \<Rightarrow> ('e, 's) result" where
  "try_fold f s [] = Inr s"
| "try_fold f s (m # ms) = and_then (f s m) (\<lambda>s'. try_fold f s' ms)"

lemma try_fold_append:
  "try_fold f s (xs @ ys) = and_then (try_fold f s xs) (\<lambda>s'. try_fold f s' ys)"
  by (induction xs arbitrary: s) (simp_all add: and_then_assoc)

lemma try_fold_prefix:
  assumes "try_fold f s (xs @ ys) = Inr t"
  obtains u where "try_fold f s xs = Inr u" and "try_fold f u ys = Inr t"
  using assms by (auto simp: try_fold_append result_simps)

lemma try_fold_snoc_ok:
  "try_fold f s (xs @ [x]) = Inr t \<longleftrightarrow> (\<exists>u. try_fold f s xs = Inr u \<and> f u x = Inr t)"
  by (auto simp: try_fold_append result_simps)

text \<open>A loop that collects: \<open>map\<close> into \<open>Result<Vec<_>, _>\<close>.\<close>

fun try_map :: "('a \<Rightarrow> ('e, 'b) result) \<Rightarrow> 'a list \<Rightarrow> ('e, 'b list) result" where
  "try_map f [] = Ok []"
| "try_map f (a # as) = and_then (f a) (\<lambda>b. and_then (try_map f as) (\<lambda>bs. Ok (b # bs)))"

lemma try_map_ok:
  "try_map f xs = Inr ys \<longleftrightarrow> list_all2 (\<lambda>x y. f x = Inr y) xs ys"
  by (induction xs arbitrary: ys) (auto simp: result_simps list_all2_Cons1)

text \<open>A loop whose body only checks: it succeeds when every element passes.\<close>

fun check_all :: "('m \<Rightarrow> ('e, unit) result) \<Rightarrow> 'm list \<Rightarrow> ('e, unit) result" where
  "check_all f [] = Inr ()"
| "check_all f (m # ms) = and_then (f m) (\<lambda>_. check_all f ms)"

lemma check_all_ok: "check_all f ms = Inr () \<longleftrightarrow> (\<forall>m \<in> set ms. f m = Inr ())"
  by (induction ms) (auto simp: result_simps)

lemma is_ok_unit: "is_ok (r :: ('e, unit) result) \<longleftrightarrow> r = Inr ()"
  by (cases r) auto

text \<open>
  The interface of every replayed structure in this development: a step function over a
  state and an invariant that successful steps keep. Clients obtain the invariant of every
  state a successful replay reaches.
\<close>

locale checked_replay =
  fixes step :: "'s \<Rightarrow> 'm \<Rightarrow> ('e, 's) result"
    and inv :: "'s \<Rightarrow> bool"
  assumes step_inv: "inv s \<Longrightarrow> step s m = Inr s' \<Longrightarrow> inv s'"
begin

lemma replay_inv: "inv s \<Longrightarrow> try_fold step s ms = Inr t \<Longrightarrow> inv t"
proof (induction ms arbitrary: s)
  case Nil
  then show ?case by simp
next
  case (Cons m ms)
  then obtain u where "step s m = Inr u" and "try_fold step u ms = Inr t"
    by (auto simp: result_simps)
  with Cons.prems(1) show ?case
    using Cons.IH step_inv by blast
qed

lemma replay_prefix_inv:
  assumes "inv s" and "try_fold step s (xs @ ys) = Inr t"
  shows "\<exists>u. try_fold step s xs = Inr u \<and> inv u"
  using assms by (auto elim!: try_fold_prefix intro: replay_inv)

end

text \<open>
  A replayed quantity that, along states satisfying the invariant, only moves up in a
  preorder: what one step relates, every successful replay relates.
\<close>

locale monotone_replay = checked_replay step inv
  for step :: "'s \<Rightarrow> 'm \<Rightarrow> ('e, 's) result" and inv :: "'s \<Rightarrow> bool" +
  fixes le :: "'s \<Rightarrow> 's \<Rightarrow> bool"
  assumes le_refl: "le s s"
    and le_trans: "le s t \<Longrightarrow> le t u \<Longrightarrow> le s u"
    and step_le: "inv s \<Longrightarrow> step s m = Inr s' \<Longrightarrow> le s s'"
begin

lemma replay_le: "inv s \<Longrightarrow> try_fold step s ms = Inr t \<Longrightarrow> le s t"
proof (induction ms arbitrary: s)
  case Nil
  then show ?case by (simp add: le_refl)
next
  case (Cons m ms)
  then obtain u where "step s m = Inr u" and "try_fold step u ms = Inr t"
    by (auto simp: result_simps)
  with Cons show ?case
    using step_le step_inv le_trans by blast
qed

end

text \<open>
  \<open>yields bad P r\<close>: the computation does not end with the error \<open>bad\<close>, and a result it returns
  satisfies \<open>P\<close>.
\<close>

definition yields :: "'e \<Rightarrow> ('a \<Rightarrow> bool) \<Rightarrow> ('e, 'a) result \<Rightarrow> bool" where
  "yields bad P r \<longleftrightarrow> r \<noteq> Inl bad \<and> (\<forall>a. r = Inr a \<longrightarrow> P a)"

lemma yields_and_then:
  "yields bad P r \<Longrightarrow> (\<And>a. r = Inr a \<Longrightarrow> P a \<Longrightarrow> yields bad Q (f a)) \<Longrightarrow> yields bad Q (and_then r f)"
  by (cases r) (auto simp: yields_def)

lemma yields_ok: "P a \<Longrightarrow> yields bad P (Inr a)"
  by (simp add: yields_def)

text \<open>
  A loop over known elements whose body may fail, but never with the error \<open>bad\<close> (a failing
  \<open>expect\<close>) while the invariant holds.
\<close>

locale panic_free_fold =
  fixes step :: "'s \<Rightarrow> 'm \<Rightarrow> ('e, 's) result"
    and inv :: "'s \<Rightarrow> bool"
    and good :: "'m \<Rightarrow> bool"
    and bad :: 'e
  assumes step_keeps: "inv s \<Longrightarrow> good m \<Longrightarrow> step s m = Inr s' \<Longrightarrow> inv s'"
    and step_not_bad: "inv s \<Longrightarrow> good m \<Longrightarrow> step s m \<noteq> Inl bad"
begin

lemma fold_keeps:
  "inv s \<Longrightarrow> (\<And>m. m \<in> set ms \<Longrightarrow> good m) \<Longrightarrow> try_fold step s ms = Inr t \<Longrightarrow> inv t"
proof (induction ms arbitrary: s)
  case (Cons m ms)
  then obtain u where "step s m = Inr u" and "try_fold step u ms = Inr t"
    by (auto simp: result_simps)
  with Cons show ?case using step_keeps by (meson list.set_intros)
qed simp

lemma fold_not_bad:
  "inv s \<Longrightarrow> (\<And>m. m \<in> set ms \<Longrightarrow> good m) \<Longrightarrow> try_fold step s ms \<noteq> Inl bad"
proof (induction ms arbitrary: s)
  case (Cons m ms)
  then show ?case
    using step_not_bad [of s m] step_keeps [of s m] by (cases "step s m") auto
qed simp

lemma fold_yields:
  "inv s \<Longrightarrow> (\<And>m. m \<in> set ms \<Longrightarrow> good m) \<Longrightarrow> yields bad inv (try_fold step s ms)"
  unfolding yields_def using fold_keeps fold_not_bad by blast

end

section \<open>Machine integers\<close>

type_synonym u8 = "8 word"
type_synonym u16 = "16 word"
type_synonym u32 = "32 word"
type_synonym u64 = "64 word"
type_synonym i64 = "64 word"

definition saturating_add :: "'a::len word \<Rightarrow> 'a word \<Rightarrow> 'a word" where
  "saturating_add a b =
     (if unat a + unat b < 2 ^ LENGTH('a) then a + b else - 1)"

lemma unat_saturating_add:
  "unat (saturating_add a b) = min (unat a + unat b) (2 ^ LENGTH('a) - 1)"
  for a b :: "'a::len word"
proof (cases "unat a + unat b < 2 ^ LENGTH('a)")
  case True
  then show ?thesis
    by (simp add: saturating_add_def unat_word_ariths)
next
  case False
  then show ?thesis
    by (simp add: saturating_add_def unsigned_minus_1_eq_mask mask_eq_exp_minus_1)
qed

lemma saturating_add_comm: "saturating_add a b = saturating_add b a"
  by (simp add: saturating_add_def add.commute)

lemma saturating_add_ge: "a \<le> saturating_add a b" for a b :: "'a::len word"
proof -
  have "unat a < 2 ^ LENGTH('a)" by (rule unsigned_less)
  then have "unat a \<le> 2 ^ LENGTH('a) - 1" by linarith
  then show ?thesis
    by (simp add: word_le_nat_alt unat_saturating_add)
qed

text \<open>The carry test evaluates without computing the modulus.\<close>

lemma saturating_add_code [code]:
  "saturating_add a b = (if a + b < a then - 1 else a + b)" for a b :: "'a::len word"
proof -
  have lt: "unat a < 2 ^ LENGTH('a)" "unat b < 2 ^ LENGTH('a)" by (rule unsigned_less)+
  have "a + b < a \<longleftrightarrow> \<not> unat a + unat b < 2 ^ LENGTH('a)"
  proof (cases "unat a + unat b < 2 ^ LENGTH('a)")
    case True
    then show ?thesis by (simp add: word_less_nat_alt unat_word_ariths)
  next
    case False
    then have "(unat a + unat b) mod 2 ^ LENGTH('a) =
        (unat a + unat b - 2 ^ LENGTH('a)) mod 2 ^ LENGTH('a)"
      by (intro le_mod_geq) linarith
    also have "\<dots> = unat a + unat b - 2 ^ LENGTH('a)"
      using lt by (intro mod_less) linarith
    finally have "unat (a + b) < unat a"
      unfolding unat_word_ariths using lt False by linarith
    with False show ?thesis by (simp add: word_less_nat_alt)
  qed
  then show ?thesis by (simp add: saturating_add_def)
qed

section \<open>Ordered maps\<close>

type_synonym ('k, 'v) btree = "('k \<times> 'v) list"

abbreviation btree_get :: "('k, 'v) btree \<Rightarrow> 'k \<Rightarrow> 'v option" where
  "btree_get \<equiv> map_of"

fun btree_insert :: "'k::linorder \<Rightarrow> 'v \<Rightarrow> ('k, 'v) btree \<Rightarrow> ('k, 'v) btree" where
  "btree_insert k v [] = [(k, v)]"
| "btree_insert k v (p # m) =
     (if k < fst p then (k, v) # p # m
      else if fst p < k then p # btree_insert k v m
      else (k, v) # m)"

definition btree_remove :: "'k \<Rightarrow> ('k, 'v) btree \<Rightarrow> ('k, 'v) btree" where
  "btree_remove k m = filter (\<lambda>p. fst p \<noteq> k) m"

definition btree_contains :: "('k, 'v) btree \<Rightarrow> 'k \<Rightarrow> bool" where
  "btree_contains m k = (map_of m k \<noteq> None)"

definition btree_values :: "('k, 'v) btree \<Rightarrow> 'v list" where
  "btree_values m = map snd m"

definition btree_ok :: "('k::linorder, 'v) btree \<Rightarrow> bool" where
  "btree_ok m = sorted_wrt (<) (map fst m)"

text \<open>\<open>BTreeMap::from_iter\<close>: later pairs replace earlier ones.\<close>

definition btree_of :: "('k::linorder \<times> 'v) list \<Rightarrow> ('k, 'v) btree" where
  "btree_of ps = fold (\<lambda>(k, v). btree_insert k v) ps []"

named_theorems btree_simps "lookup, membership and iteration of ordered maps"

lemma map_of_btree_insert [btree_simps, simp]:
  "map_of (btree_insert k v m) = (map_of m)(k \<mapsto> v)"
proof (induction m)
  case Nil
  then show ?case by simp
next
  case (Cons p m)
  then show ?case
    by (cases p) (auto simp: fun_eq_iff)
qed

lemma map_of_btree_remove [btree_simps, simp]:
  "map_of (btree_remove k m) = (map_of m)(k := None)"
  unfolding btree_remove_def by (induction m) (auto simp: fun_eq_iff)

lemma btree_contains_iff [btree_simps]:
  "btree_contains m k \<longleftrightarrow> k \<in> dom (map_of m)"
  by (auto simp: btree_contains_def)

lemma set_btree_insert_subset: "set (btree_insert k v m) \<subseteq> insert (k, v) (set m)"
  by (induction m) auto

lemma fst_set_btree_insert: "fst ` set (btree_insert k v m) = insert k (fst ` set m)"
proof (induction m)
  case (Cons p m)
  then show ?case by (cases p) auto
qed simp

lemma btree_ok_Nil [simp]: "btree_ok []"
  by (simp add: btree_ok_def)

lemma btree_ok_insert [simp]: "btree_ok m \<Longrightarrow> btree_ok (btree_insert k v m)"
proof (induction m)
  case Nil
  then show ?case by (simp add: btree_ok_def)
next
  case (Cons p m)
  then show ?case
    using fst_set_btree_insert [of k v m]
    by (fastforce simp: btree_ok_def dest: order.strict_trans)
qed

lemma btree_ok_remove [simp]: "btree_ok m \<Longrightarrow> btree_ok (btree_remove k m)"
  unfolding btree_ok_def btree_remove_def by (induction m) auto

lemma btree_ok_distinct: "btree_ok m \<Longrightarrow> distinct (map fst m)"
  by (simp add: btree_ok_def strict_sorted_iff)

lemma btree_mem_iff: "btree_ok m \<Longrightarrow> (k, v) \<in> set m \<longleftrightarrow> map_of m k = Some v"
  by (simp add: btree_ok_distinct)

lemma btree_values_iff:
  "btree_ok m \<Longrightarrow> v \<in> set (btree_values m) \<longleftrightarrow> (\<exists>k. map_of m k = Some v)"
  by (force simp: btree_values_def btree_ok_distinct image_iff)

lemma btree_ok_of [simp]: "btree_ok (btree_of ps)"
proof -
  have "btree_ok m \<Longrightarrow> btree_ok (fold (\<lambda>(k, v). btree_insert k v) ps m)" for m :: "('a, 'b) btree"
    by (induction ps arbitrary: m) auto
  then show ?thesis by (simp add: btree_of_def)
qed

text \<open>Mapping the values commutes with insertion and lookup.\<close>

definition btree_map :: "('v \<Rightarrow> 'w) \<Rightarrow> ('k, 'v) btree \<Rightarrow> ('k, 'w) btree" where
  "btree_map f m = map (\<lambda>p. (fst p, f (snd p))) m"

lemma btree_map_insert: "btree_map f (btree_insert k v m) = btree_insert k (f v) (btree_map f m)"
  by (induction m) (auto simp: btree_map_def)

lemma map_of_btree_map [simp]: "map_of (btree_map f m) = (\<lambda>k. map_option f (map_of m k))"
  by (induction m) (auto simp: btree_map_def fun_eq_iff)

lemma btree_map_Nil [simp]: "btree_map f [] = []"
  by (simp add: btree_map_def)

text \<open>
  The contract of an ordered map, and what clients use of it: two maps with the same
  lookups iterate the same way.
\<close>

locale ordered_map =
  fixes get :: "'m \<Rightarrow> 'k::linorder \<Rightarrow> 'v option"
    and insert_kv :: "'k \<Rightarrow> 'v \<Rightarrow> 'm \<Rightarrow> 'm"
    and remove_key :: "'k \<Rightarrow> 'm \<Rightarrow> 'm"
    and pairs :: "'m \<Rightarrow> ('k \<times> 'v) list"
    and ok :: "'m \<Rightarrow> bool"
  assumes get_insert: "get (insert_kv k v m) = (get m)(k \<mapsto> v)"
    and get_remove: "get (remove_key k m) = (get m)(k := None)"
    and pairs_get: "ok m \<Longrightarrow> map_of (pairs m) = get m"
    and pairs_sorted: "ok m \<Longrightarrow> sorted_wrt (<) (map fst (pairs m))"
    and ok_insert: "ok m \<Longrightarrow> ok (insert_kv k v m)"
    and ok_remove: "ok m \<Longrightarrow> ok (remove_key k m)"
begin

lemma get_insert_same: "get (insert_kv k v m) k = Some v"
  by (simp add: get_insert)

lemma get_insert_other: "k' \<noteq> k \<Longrightarrow> get (insert_kv k v m) k' = get m k'"
  by (simp add: get_insert)

lemma iteration_determined:
  assumes "ok m" and "ok m'" and "get m = get m'"
  shows "pairs m = pairs m'"
proof (rule map_sorted_distinct_set_unique [of fst])
  have m: "sorted_wrt (<) (map fst (pairs m))" "sorted_wrt (<) (map fst (pairs m'))"
    using assms pairs_sorted by auto
  then show sd: "distinct (map fst (pairs m))" "distinct (map fst (pairs m'))"
    "sorted (map fst (pairs m))" "sorted (map fst (pairs m'))"
    by (simp_all add: strict_sorted_iff)
  have eq: "map_of (pairs m) = map_of (pairs m')"
    using assms by (simp add: pairs_get)
  have "map_of (pairs m) k = Some v \<longleftrightarrow> (k, v) \<in> set (pairs m)"
    and "map_of (pairs m') k = Some v \<longleftrightarrow> (k, v) \<in> set (pairs m')" for k v
    using sd by simp_all
  with eq show same: "set (pairs m) = set (pairs m')" by auto
  show "inj_on fst (set (pairs m) \<union> set (pairs m'))"
    using sd(1) same by (simp add: distinct_map)
qed

end

interpretation btree: ordered_map btree_get btree_insert btree_remove "\<lambda>m. m" btree_ok
  by unfold_locales (simp_all add: btree_ok_def [symmetric])

section \<open>UTF-8 text\<close>

text \<open>
  A Rust \<open>String\<close> is its list of UTF-8 bytes, one \<open>char\<close> per byte, so \<open>len()\<close> is
  \<open>length\<close>. \<open>char::is_control\<close> holds for U+0000 to U+001F, U+007F and U+0080 to U+009F;
  in UTF-8 the last range is the byte C2 followed by 80 to 9F.
\<close>

definition byte_of :: "char \<Rightarrow> nat" where
  "byte_of c = of_char c"

fun has_control :: "string \<Rightarrow> bool" where
  "has_control [] = False"
| "has_control (c # cs) =
     (byte_of c < 32 \<or> byte_of c = 127 \<or>
      (byte_of c = 194 \<and> (case cs of [] \<Rightarrow> False | d # _ \<Rightarrow> 128 \<le> byte_of d \<and> byte_of d < 160)) \<or>
      has_control cs)"

text \<open>
  \<open>str::trim\<close> strips \<open>White_Space\<close> characters, here as their UTF-8 encodings; a blank text is one
  whose trim is empty.
\<close>

definition whitespace_encodings :: "nat list list" where
  "whitespace_encodings =
     map (\<lambda>b. [b]) [9, 10, 11, 12, 13, 32] @ [[194, 133], [194, 160], [225, 154, 128]] @
     map (\<lambda>b. [226, 128, b]) [128, 129, 130, 131, 132, 133, 134, 135, 136, 137, 138, 168, 169, 175] @
     [[226, 129, 159], [227, 128, 128]]"

fun blank_bytes :: "nat list \<Rightarrow> bool" where
  "blank_bytes [] = True"
| "blank_bytes (b # bs) =
     (case find (\<lambda>w. take (length w) (b # bs) = w) whitespace_encodings of
        None \<Rightarrow> False
      | Some w \<Rightarrow> blank_bytes (drop (length w - 1) bs))"

definition is_blank :: "string \<Rightarrow> bool" where
  "is_blank s = blank_bytes (map byte_of s)"

text \<open>A number printed in decimal digits.\<close>

fun decimal :: "nat \<Rightarrow> string" where
  "decimal n = (if n < 10 then [char_of (48 + n)] else decimal (n div 10) @ [char_of (48 + n mod 10)])"

declare decimal.simps [simp del]

text \<open>\<open>str::split\<close> on one byte.\<close>

fun split_on :: "char \<Rightarrow> string \<Rightarrow> string list" where
  "split_on d [] = [[]]"
| "split_on d (c # cs) =
     (if c = d then [] # split_on d cs
      else (case split_on d cs of [] \<Rightarrow> [[c]] | w # ws \<Rightarrow> (c # w) # ws))"

lemma split_on_not_Nil [simp]: "split_on d cs \<noteq> []"
  by (induction cs) (auto split: list.splits)

lemma split_on_no_sep: "w \<in> set (split_on d cs) \<Longrightarrow> d \<notin> set w"
proof (induction cs arbitrary: w)
  case (Cons c cs)
  then show ?case
    by (cases "split_on d cs") (auto split: if_splits)
qed simp

end
