(* ===== verification/Tea_Json.thy ===== *)
theory Tea_Json
  imports Complex_Main Tea_Prelude
begin

text \<open>
  The protocol value of \<open>crates/tea-protocol/src/json.rs\<close>: the closed JSON datatype and its
  accessors. Writing and parsing text (\<open>to_json_string\<close>, \<open>parse\<close>) is done by the Miniserde package,
  which is a parameter of the definitions that need it.

  A float is a finite value, an infinity or NaN. Structural equality agrees with Rust's
  \<open>PartialEq\<close> on everything but NaN; a negative zero is not told apart from zero, as
  \<open>PartialEq\<close> does not.
\<close>

datatype f64 = Finite rat | Infinite bool | NaN

fun is_finite :: "f64 \<Rightarrow> bool" where
  "is_finite (Finite _) = True"
| "is_finite (Infinite _) = False"
| "is_finite NaN = False"

datatype json_number = Signed i64 | Unsigned u64 | Float f64

datatype json_value =
    JNull
  | JBool bool
  | JNumber json_number
  | JString string
  | JArray "json_value list"
  | JObject "(string \<times> json_value) list"

datatype json_kind = KNull | KBoolean | KNumber | KString | KArray | KObject

datatype json_error =
    TypeMismatch json_kind json_kind
  | MissingField string
  | InvalidNumber
  | Unsupported string
  | JsonMessage string

fun number :: "json_number \<Rightarrow> (json_error, json_value) result" where
  "number (Float v) = (if is_finite v then Ok (JNumber (Float v)) else Err InvalidNumber)"
| "number n = Ok (JNumber n)"

fun kind :: "json_value \<Rightarrow> json_kind" where
  "kind JNull = KNull"
| "kind (JBool _) = KBoolean"
| "kind (JNumber _) = KNumber"
| "kind (JString _) = KString"
| "kind (JArray _) = KArray"
| "kind (JObject _) = KObject"

fun as_str :: "json_value \<Rightarrow> string option" where
  "as_str (JString v) = Some v"
| "as_str _ = None"

fun as_bool :: "json_value \<Rightarrow> bool option" where
  "as_bool (JBool v) = Some v"
| "as_bool _ = None"

fun as_u64 :: "json_value \<Rightarrow> u64 option" where
  "as_u64 (JNumber (Unsigned v)) = Some v"
| "as_u64 _ = None"

fun as_array :: "json_value \<Rightarrow> json_value list option" where
  "as_array (JArray vs) = Some vs"
| "as_array _ = None"

fun as_object :: "json_value \<Rightarrow> (string, json_value) btree option" where
  "as_object (JObject fs) = Some fs"
| "as_object _ = None"

definition is_null :: "json_value \<Rightarrow> bool" where
  "is_null v = (v = JNull)"

definition is_object :: "json_value \<Rightarrow> bool" where
  "is_object v = (kind v = KObject)"

fun get_member :: "json_value \<Rightarrow> string \<Rightarrow> json_value option" where
  "get_member (JObject fs) k = btree_get fs k"
| "get_member _ k = None"

definition object :: "(string \<times> json_value) list \<Rightarrow> json_value" where
  "object kvs = JObject (btree_of kvs)"

text \<open>
  \<open>to_miniserde\<close> refuses a value that holds a non-finite float anywhere; the encoder of the
  package itself cannot fail.
\<close>

fun encodable :: "json_value \<Rightarrow> bool" where
  "encodable (JNumber (Float v)) = is_finite v"
| "encodable (JArray vs) = (\<forall>v \<in> set vs. encodable v)"
| "encodable (JObject fs) = (\<forall>f \<in> set fs. encodable (snd f))"
| "encodable _ = True"

definition to_json_string ::
    "(json_value \<Rightarrow> string) \<Rightarrow> json_value \<Rightarrow> (json_error, string) result" where
  "to_json_string miniserde v = (if encodable v then Ok (miniserde v) else Err InvalidNumber)"

text \<open>
  \<open>parse\<close> reads the text with the package's parser, a parameter, and refuses a number that is not
  finite (\<open>from_miniserde\<close>).
\<close>

definition parse_json :: "(string \<Rightarrow> json_value option) \<Rightarrow> string \<Rightarrow> (json_error, json_value) result" where
  "parse_json from_str input =
     (case from_str input of
        None \<Rightarrow> Err (JsonMessage ''invalid JSON'')
      | Some v \<Rightarrow> if encodable v then Ok v else Err InvalidNumber)"

lemma number_encodable: "number n = Ok v \<Longrightarrow> encodable v"
  by (cases n) (auto split: if_splits)

lemma object_encodable: "(\<And>kv. kv \<in> set kvs \<Longrightarrow> encodable (snd kv)) \<Longrightarrow> encodable (object kvs)"
proof -
  assume all: "\<And>kv. kv \<in> set kvs \<Longrightarrow> encodable (snd kv)"
  have "set (fold (\<lambda>(k, v). btree_insert k v) kvs m) \<subseteq> set m \<union> set kvs"
    for m :: "(string, json_value) btree"
  proof (induction kvs arbitrary: m)
    case (Cons kv kvs)
    have "set (btree_insert (fst kv) (snd kv) m) \<subseteq> insert kv (set m)"
      using set_btree_insert_subset [of "fst kv" "snd kv" m] by simp
    with Cons.IH [of "btree_insert (fst kv) (snd kv) m"] show ?case
      by (cases kv) (simp, blast)
  qed simp
  from this [of "[]"] all show ?thesis
    by (auto simp: object_def btree_of_def)
qed

end
