(* ===== verification/Tea_Ids.thy ===== *)
theory Tea_Ids
  imports Tea_Prelude
begin

text \<open>
  \<open>crates/tea-session/src/ids.rs\<close>: digests and their hexadecimal spelling, the canonical
  hash stream, opaque identifiers, portable paths and the derived agent, lease, delta and
  child-operation identities. BLAKE3 is a parameter \<open>blake3\<close> of the definitions that hash;
  the hash stream is the list of bytes fed to it.
\<close>

section \<open>Digests\<close>

type_synonym digest = "u8 list"
type_synonym artifact_id = digest

datatype digest_error = WrongLength nat | InvalidHex nat

definition zero_digest :: digest where
  "zero_digest = replicate 32 0"

definition hex_value :: "char \<Rightarrow> u8 option" where
  "hex_value c =
     (let b = byte_of c in
      if 48 \<le> b \<and> b \<le> 57 then Some (of_nat (b - 48))
      else if 97 \<le> b \<and> b \<le> 102 then Some (of_nat (b - 97 + 10))
      else if 65 \<le> b \<and> b \<le> 70 then Some (of_nat (b - 65 + 10))
      else None)"

fun from_hex_pairs :: "nat \<Rightarrow> string \<Rightarrow> (digest_error, digest) result" where
  "from_hex_pairs index (h # l # rest) =
     (case hex_value h of
        None \<Rightarrow> Err (InvalidHex (index * 2))
      | Some high \<Rightarrow>
          (case hex_value l of
             None \<Rightarrow> Err (InvalidHex (index * 2 + 1))
           | Some low \<Rightarrow>
               and_then (from_hex_pairs (Suc index) rest)
                 (\<lambda>bytes. Ok (or (push_bit 4 high) low # bytes))))"
| "from_hex_pairs index _ = Ok []"

definition from_hex :: "string \<Rightarrow> (digest_error, digest) result" where
  "from_hex value =
     (if length value \<noteq> 64 then Err (WrongLength (length value))
      else from_hex_pairs 0 value)"

definition hex_digit :: "nat \<Rightarrow> char" where
  "hex_digit n = (if n < 10 then char_of (48 + n) else char_of (87 + n))"

definition hex_byte :: "u8 \<Rightarrow> string" where
  "hex_byte b = [hex_digit (unat b div 16), hex_digit (unat b mod 16)]"

definition to_hex :: "digest \<Rightarrow> string" where
  "to_hex d = concat (map hex_byte d)"

lemma byte_of_char_of: "n < 256 \<Longrightarrow> byte_of (char_of n) = n"
  by (simp add: byte_of_def)

lemma hex_value_digit: "n < 16 \<Longrightarrow> hex_value (hex_digit n) = Some (of_nat n)"
  by (auto simp: hex_value_def hex_digit_def byte_of_char_of Let_def)

lemma join_nibbles: "or (push_bit 4 (of_nat (unat b div 16))) (of_nat (unat b mod 16)) = b"
  for b :: u8
proof -
  have "of_nat (unat b div 16) = drop_bit 4 b"
    by (simp add: drop_bit_eq_div word_eq_iff_unsigned flip: unsigned_drop_bit_eq)
       (simp add: word_arith_nat_div)
  moreover have "of_nat (unat b mod 16) = take_bit 4 b"
    by (simp add: word_arith_nat_mod take_bit_eq_mod)
  moreover have "or (push_bit 4 (drop_bit 4 b)) (take_bit 4 b) = b"
    by (rule bit_eqI) (auto simp: bit_simps)
  ultimately show ?thesis by simp
qed

lemma length_to_hex [simp]: "length (to_hex d) = 2 * length d"
  by (induction d) (simp_all add: to_hex_def hex_byte_def)

lemma from_hex_pairs_to_hex: "from_hex_pairs i (to_hex d) = Ok d"
proof (induction d arbitrary: i)
  case Nil
  then show ?case by (simp add: to_hex_def)
next
  case (Cons b d)
  have "unat b < 2 ^ LENGTH(8)" by (rule unsigned_less)
  then have "unat b div 16 < 16" "unat b mod 16 < 16" by simp_all
  with Cons show ?case
    by (simp add: to_hex_def hex_byte_def hex_value_digit join_nibbles)
qed

lemma from_hex_to_hex: "length d = 32 \<Longrightarrow> from_hex (to_hex d) = Ok d"
  by (simp add: from_hex_def from_hex_pairs_to_hex)

lemma to_hex_inject: "to_hex d = to_hex d' \<longleftrightarrow> d = d'"
  by (metis from_hex_pairs_to_hex sum.inject(2))

definition is_hex_digit :: "char \<Rightarrow> bool" where
  "is_hex_digit c = ((48 \<le> byte_of c \<and> byte_of c \<le> 57) \<or> (97 \<le> byte_of c \<and> byte_of c \<le> 102))"

lemma is_hex_digit_hex_digit: "n < 16 \<Longrightarrow> is_hex_digit (hex_digit n)"
  by (auto simp: is_hex_digit_def hex_digit_def byte_of_char_of)

lemma to_hex_digits: "c \<in> set (to_hex d) \<Longrightarrow> is_hex_digit c"
proof -
  have "is_hex_digit c" if "c \<in> set (hex_byte b)" for b
  proof -
    have "unat b < 2 ^ LENGTH(8)" by (rule unsigned_less)
    then have "unat b div 16 < 16" "unat b mod 16 < 16" by simp_all
    with that show ?thesis
      by (auto simp: hex_byte_def is_hex_digit_hex_digit)
  qed
  then show "c \<in> set (to_hex d) \<Longrightarrow> is_hex_digit c"
    by (auto simp: to_hex_def)
qed

section \<open>The canonical hash stream\<close>

definition u64_be_bytes :: "u64 \<Rightarrow> u8 list" where
  "u64_be_bytes w = map (\<lambda>i. ucast (drop_bit (8 * i) w)) [7, 6, 5, 4, 3, 2, 1, 0]"

definition u16_be_bytes :: "u16 \<Rightarrow> u8 list" where
  "u16_be_bytes w = map (\<lambda>i. ucast (drop_bit (8 * i) w)) [1, 0]"

definition str_bytes :: "string \<Rightarrow> u8 list" where
  "str_bytes s = map of_char s"

definition write_frame :: "u8 list \<Rightarrow> u8 list \<Rightarrow> u8 list" where
  "write_frame stream bytes = stream @ u64_be_bytes (of_nat (length bytes)) @ bytes"

definition new_hash :: "string \<Rightarrow> u16 \<Rightarrow> u16 \<Rightarrow> u8 list" where
  "new_hash domain schema_version abi_version =
     write_frame (write_frame [] (str_bytes ''tea-canonical-hash-v1'')) (str_bytes domain)
     @ u16_be_bytes schema_version @ u16_be_bytes abi_version"

definition hash_bytes :: "string \<Rightarrow> u8 list \<Rightarrow> u8 list \<Rightarrow> u8 list" where
  "hash_bytes name value stream = write_frame (write_frame stream (str_bytes name)) value"

definition hash_string :: "string \<Rightarrow> string \<Rightarrow> u8 list \<Rightarrow> u8 list" where
  "hash_string name value stream = hash_bytes name (str_bytes value) stream"

definition hash_u64 :: "string \<Rightarrow> u64 \<Rightarrow> u8 list \<Rightarrow> u8 list" where
  "hash_u64 name value stream = hash_bytes name (u64_be_bytes value) stream"

definition hash_boolean :: "string \<Rightarrow> bool \<Rightarrow> u8 list \<Rightarrow> u8 list" where
  "hash_boolean name value stream = hash_bytes name [if value then 1 else 0] stream"

definition hash_discriminant :: "string \<Rightarrow> u16 \<Rightarrow> u8 list \<Rightarrow> u8 list" where
  "hash_discriminant name value stream = hash_bytes name (u16_be_bytes value) stream"

definition hash_sorted_byte_map :: "string \<Rightarrow> (string \<times> u8 list) list \<Rightarrow> u8 list \<Rightarrow> u8 list" where
  "hash_sorted_byte_map name entries stream =
     fold (\<lambda>kv st. hash_bytes ''map_value'' (snd kv) (hash_string ''map_key'' (fst kv) st))
       (sort_key fst entries) (hash_u64 name (of_nat (length entries)) stream)"

text \<open>Framing is injective: a stream of length-prefixed fields has one reading.\<close>

lemma length_u64_be_bytes [simp]: "length (u64_be_bytes w) = 8"
  by (simp add: u64_be_bytes_def)

lemma u64_be_bytes_inject: "u64_be_bytes v = u64_be_bytes w \<longleftrightarrow> v = w"
proof
  assume eq: "u64_be_bytes v = u64_be_bytes w"
  have byte: "(ucast (drop_bit (8 * i) v) :: u8) = ucast (drop_bit (8 * i) w)" if "i < 8" for i
  proof -
    from that have "i \<in> {7, 6, 5, 4, 3, 2, 1, 0 :: nat}" by auto
    with eq show ?thesis by (auto simp: u64_be_bytes_def)
  qed
  show "v = w"
  proof (rule bit_eqI)
    fix n
    assume "possible_bit TYPE(u64) n"
    then have "n < 64" by simp
    then have "n div 8 < 8" by simp
    from byte [OF this] have "bit (ucast (drop_bit (8 * (n div 8)) v) :: u8) (n mod 8)
        = bit (ucast (drop_bit (8 * (n div 8)) w) :: u8) (n mod 8)" by simp
    then show "bit v n = bit w n"
      by (simp add: bit_simps \<open>n < 64\<close>)
  qed
qed simp

lemma str_bytes_inject: "str_bytes s = str_bytes t \<longleftrightarrow> s = t"
proof -
  have "inj (of_char :: char \<Rightarrow> u8)"
  proof (rule injI)
    fix c d :: char
    assume "(of_char c :: u8) = of_char d"
    then have "unat (of_nat (of_char c) :: u8) = unat (of_nat (of_char d) :: u8)"
      by (simp only: of_nat_of_char)
    then have "(of_char c :: nat) mod 256 = of_char d mod 256"
      by (simp only: unat_of_nat) simp
    then have "(of_char c :: nat) = of_char d"
      by simp
    then show "c = d" by simp
  qed
  then show ?thesis by (simp add: str_bytes_def inj_map_eq_map)
qed

definition frame_ok :: "u8 list \<Rightarrow> bool" where
  "frame_ok bytes = (length bytes < 2 ^ 64)"

fun frames :: "u8 list list \<Rightarrow> u8 list" where
  "frames [] = []"
| "frames (b # bs) = u64_be_bytes (of_nat (length b)) @ b @ frames bs"

lemma write_frame_frames: "write_frame stream b = stream @ frames [b]"
  by (simp add: write_frame_def)

lemma frames_append: "frames (xs @ ys) = frames xs @ frames ys"
  by (induction xs) auto

lemma frame_head_inject:
  assumes "frame_ok b" and "frame_ok c"
    and eq: "u64_be_bytes (of_nat (length b)) @ b @ xs = u64_be_bytes (of_nat (length c)) @ c @ ys"
  shows "b = c \<and> xs = ys"
proof -
  have "(of_nat (length b) :: u64) = of_nat (length c)" and rest: "b @ xs = c @ ys"
    using eq by (auto simp: u64_be_bytes_inject)
  then have "unat (of_nat (length b) :: u64) = unat (of_nat (length c) :: u64)" by simp
  then have "length b = length c"
    using assms(1,2) by (simp add: frame_ok_def unat_of_nat)
  with rest show ?thesis by simp
qed

lemma frames_inject:
  assumes "list_all frame_ok xs" and "list_all frame_ok ys" and "frames xs = frames ys"
  shows "xs = ys"
  using assms
proof (induction xs arbitrary: ys)
  case Nil
  then show ?case
    by (cases ys) (auto dest: arg_cong [where f = length])
next
  case (Cons b bs)
  then obtain c cs where ys: "ys = c # cs"
    by (cases ys) (auto dest: arg_cong [where f = length])
  with Cons.prems have "b = c \<and> frames bs = frames cs"
    by (intro frame_head_inject) auto
  with Cons ys show ?case by auto
qed

section \<open>Opaque identifiers\<close>

type_synonym session_id = string
type_synonym lane_id = string
type_synonym entry_id = string
type_synonym record_id = string
type_synonym operation_id = string
type_synonym turn_checkpoint_id = string
type_synonym epoch_id = string
type_synonym step_id = string
type_synonym provider_request_id = string
type_synonym harness_snapshot_id = string
type_synonym harness_revision_id = string
type_synonym harness_candidate_id = string
type_synonym model_harness_profile_id = string
type_synonym stable_hook_id = string
type_synonym artifact_policy_id = string
type_synonym core_run_id = string
type_synonym agent_id = string
type_synonym workspace_lease_id = string
type_synonym workspace_delta_id = string

datatype id_error = EmptyId | TooLongId nat | UnsafeCharacter string

definition unsafe_id_byte :: "char \<Rightarrow> bool" where
  "unsafe_id_byte c = (c \<in> {CHR ''/'', CHR 0x5C, CHR '':'', CHR 0x00})"

text \<open>The first control character or separator, as its UTF-8 bytes.\<close>

fun find_unsafe :: "string \<Rightarrow> string option" where
  "find_unsafe [] = None"
| "find_unsafe (c # cs) =
     (if byte_of c < 32 \<or> byte_of c = 127 \<or> unsafe_id_byte c then Some [c]
      else if byte_of c = 194 then
        (case cs of
           [] \<Rightarrow> find_unsafe cs
         | d # _ \<Rightarrow> if 128 \<le> byte_of d \<and> byte_of d < 160 then Some [c, d] else find_unsafe cs)
      else find_unsafe cs)"

lemma find_unsafe_None:
  "find_unsafe s = None \<longleftrightarrow> \<not> has_control s \<and> \<not> list_ex unsafe_id_byte s"
proof (induction s)
  case (Cons c cs)
  then show ?case
    by (cases cs) simp_all
qed simp

definition validate_id :: "string \<Rightarrow> (id_error, unit) result" where
  "validate_id value =
     (if value = [] then Err EmptyId
      else if length value > 200 then Err (TooLongId (length value))
      else (case find_unsafe value of
              Some character \<Rightarrow> Err (UnsafeCharacter character)
            | None \<Rightarrow> Ok ()))"

definition new_id :: "string \<Rightarrow> (id_error, string) result" where
  "new_id value = and_then (validate_id value) (\<lambda>_. Ok value)"

definition main_lane :: lane_id where
  "main_lane = ''main''"

definition is_ascii_lowercase :: "char \<Rightarrow> bool" where
  "is_ascii_lowercase c = (97 \<le> byte_of c \<and> byte_of c \<le> 122)"

definition is_ascii_digit :: "char \<Rightarrow> bool" where
  "is_ascii_digit c = (48 \<le> byte_of c \<and> byte_of c \<le> 57)"

definition is_ascii_alphanumeric :: "char \<Rightarrow> bool" where
  "is_ascii_alphanumeric c =
     (is_ascii_lowercase c \<or> is_ascii_digit c \<or> (65 \<le> byte_of c \<and> byte_of c \<le> 90))"

subsection \<open>Portable relative paths\<close>

datatype normalized_path_error = EmptyPath | AbsolutePath | TraversalOrEmpty | UnsafePathCharacter

definition path_byte_ok :: "char \<Rightarrow> bool" where
  "path_byte_ok c = (is_ascii_alphanumeric c \<or> c \<in> {CHR ''.'', CHR ''_'', CHR ''-''})"

definition check_segment :: "string \<Rightarrow> (normalized_path_error, unit) result" where
  "check_segment segment =
     (if segment = [] \<or> segment = ''.'' \<or> segment = ''..'' then Err TraversalOrEmpty
      else if \<not> list_all path_byte_ok segment then Err UnsafePathCharacter
      else Ok ())"

definition is_absolute_path :: "string \<Rightarrow> bool" where
  "is_absolute_path value =
     (value \<noteq> [] \<and> (hd value = CHR ''/'' \<or> hd value = CHR 0x5C) \<or>
      length value > 1 \<and> value ! 1 = CHR '':'')"

definition normalized_path :: "string \<Rightarrow> (normalized_path_error, string) result" where
  "normalized_path value =
     (if value = [] then Err EmptyPath
      else if is_absolute_path value then Err AbsolutePath
      else if CHR 0x5C \<in> set value \<or> CHR 0x00 \<in> set value then Err UnsafePathCharacter
      else and_then (check_all check_segment (split_on CHR ''/'' value)) (\<lambda>_. Ok value))"

lemma normalized_path_ok:
  "normalized_path value = Ok p \<longleftrightarrow>
     p = value \<and> value \<noteq> [] \<and> \<not> is_absolute_path value \<and>
     CHR 0x5C \<notin> set value \<and> CHR 0x00 \<notin> set value \<and>
     (\<forall>segment \<in> set (split_on CHR ''/'' value).
        segment \<noteq> [] \<and> segment \<noteq> ''.'' \<and> segment \<noteq> ''..'' \<and> list_all path_byte_ok segment)"
  by (auto simp: normalized_path_def check_all_ok check_segment_def result_simps split: if_splits)

subsection \<open>Derived identities\<close>

text \<open>
  Each identity is a prefix and the hexadecimal digest of a domain-separated stream. The
  \<open>expect\<close> of the source, that the result is a valid opaque identifier, is the lemma
  \<open>prefixed_digest_valid\<close>: it holds for every hash function with 32-byte digests.
\<close>

definition agent_stream ::
    "session_id \<Rightarrow> lane_id \<Rightarrow> operation_id \<Rightarrow> string \<Rightarrow> u8 list" where
  "agent_stream session_id parent_lane_id parent_operation_id spawn_idempotency_key =
     hash_string ''spawn_idempotency_key'' spawn_idempotency_key
       (hash_string ''parent_operation_id'' parent_operation_id
         (hash_string ''parent_lane_id'' parent_lane_id
           (hash_string ''session_id'' session_id (new_hash ''tea-agent-id-v1'' 1 1))))"

definition derive_agent_id ::
    "(u8 list \<Rightarrow> digest) \<Rightarrow> session_id \<Rightarrow> lane_id \<Rightarrow> operation_id \<Rightarrow> string \<Rightarrow> agent_id" where
  "derive_agent_id blake3 session_id parent_lane_id parent_operation_id spawn_idempotency_key =
     ''agent-'' @ to_hex (blake3
       (agent_stream session_id parent_lane_id parent_operation_id spawn_idempotency_key))"

definition agent_lane_id :: "agent_id \<Rightarrow> lane_id" where
  "agent_lane_id agent_id = agent_id"

definition derive_workspace_lease_id :: "(u8 list \<Rightarrow> digest) \<Rightarrow> agent_id \<Rightarrow> workspace_lease_id" where
  "derive_workspace_lease_id blake3 agent_id =
     ''lease-'' @ to_hex (blake3
       (hash_string ''agent_id'' agent_id (new_hash ''tea-workspace-lease-v1'' 1 1)))"

definition derive_workspace_delta_id ::
    "(u8 list \<Rightarrow> digest) \<Rightarrow> workspace_lease_id \<Rightarrow> string \<Rightarrow> string \<Rightarrow> workspace_delta_id" where
  "derive_workspace_delta_id blake3 workspace_lease_id base_commit result_commit =
     ''delta-'' @ to_hex (blake3
       (hash_string ''result_commit'' result_commit
         (hash_string ''base_commit'' base_commit
           (hash_string ''workspace_lease_id'' workspace_lease_id
             (new_hash ''tea-workspace-delta-v1'' 1 1)))))"

definition derive_subagent_operation_id ::
    "(u8 list \<Rightarrow> digest) \<Rightarrow> agent_id \<Rightarrow> string \<Rightarrow> operation_id" where
  "derive_subagent_operation_id blake3 agent_id task =
     ''operation-'' @ to_hex (blake3
       (hash_bytes ''task_digest'' (blake3 (str_bytes task))
         (hash_string ''agent_id'' agent_id (new_hash ''tea-subagent-operation-v1'' 1 1))))"

lemma has_control_append_hex:
  "\<not> has_control p \<Longrightarrow> list_all (\<lambda>c. byte_of c \<noteq> 194) p \<Longrightarrow> list_all is_hex_digit h \<Longrightarrow>
     \<not> has_control (p @ h)"
proof (induction p)
  case Nil
  then show ?case by (induction h) (auto simp: is_hex_digit_def)
qed auto

definition plain_prefix :: "string \<Rightarrow> bool" where
  "plain_prefix p =
     (p \<noteq> [] \<and> length p \<le> 136 \<and> list_all (\<lambda>c. is_ascii_lowercase c \<or> c = CHR ''-'') p)"

lemma prefixed_digest_valid:
  assumes "plain_prefix p" and "length d = 32"
  shows "new_id (p @ to_hex d) = Ok (p @ to_hex d)"
proof -
  have dash: "byte_of CHR ''-'' = 45" by (simp add: byte_of_def)
  have hex: "list_all is_hex_digit (to_hex d)"
    by (simp add: list_all_iff to_hex_digits)
  have "list_all (\<lambda>c. is_ascii_lowercase c \<or> c = CHR ''-'') p"
    using assms(1) by (simp add: plain_prefix_def)
  then have "\<not> has_control p" and "list_all (\<lambda>c. byte_of c \<noteq> 194) p"
    by (induction p) (auto simp: is_ascii_lowercase_def dash)
  then have "\<not> has_control (p @ to_hex d)"
    using hex by (intro has_control_append_hex)
  moreover have "\<not> list_ex unsafe_id_byte (p @ to_hex d)"
  proof -
    have "\<not> unsafe_id_byte c" if "is_ascii_lowercase c \<or> c = CHR ''-'' \<or> is_hex_digit c" for c
      using that by (auto simp: unsafe_id_byte_def is_ascii_lowercase_def is_hex_digit_def byte_of_def)
    with assms(1) hex show ?thesis
      unfolding plain_prefix_def list_all_iff list_ex_iff set_append by blast
  qed
  ultimately have "find_unsafe (p @ to_hex d) = None"
    by (simp add: find_unsafe_None)
  moreover have "p @ to_hex d \<noteq> []" and "length (p @ to_hex d) \<le> 200"
    using assms by (simp_all add: plain_prefix_def)
  ultimately show ?thesis
    by (simp only: new_id_def validate_id_def) simp
qed

lemma plain_prefixes:
  "plain_prefix ''agent-''" "plain_prefix ''lease-''" "plain_prefix ''delta-''"
  "plain_prefix ''operation-''"
  by (simp_all add: plain_prefix_def is_ascii_lowercase_def byte_of_def)

lemma hash_string_stream:
  "hash_string name value stream = stream @ frames [str_bytes name, str_bytes value]"
  by (simp add: hash_string_def hash_bytes_def write_frame_def)

text \<open>Distinct spawn intents give distinct streams, whatever the hash does with them.\<close>

lemma agent_stream_inject:
  assumes "length s < 2 ^ 64" "length l < 2 ^ 64" "length p < 2 ^ 64" "length k < 2 ^ 64"
    and "length s' < 2 ^ 64" "length l' < 2 ^ 64" "length p' < 2 ^ 64" "length k' < 2 ^ 64"
    and eq: "agent_stream s l p k = agent_stream s' l' p' k'"
  shows "s = s' \<and> l = l' \<and> p = p' \<and> k = k'"
proof -
  let ?fs = "\<lambda>s l p k. [str_bytes ''session_id'', str_bytes s, str_bytes ''parent_lane_id'',
    str_bytes l, str_bytes ''parent_operation_id'', str_bytes p,
    str_bytes ''spawn_idempotency_key'', str_bytes k]"
  have stream: "agent_stream s l p k = new_hash ''tea-agent-id-v1'' 1 1 @ frames (?fs s l p k)"
    for s l p k
    by (simp add: agent_stream_def hash_string_stream)
  from eq have "frames (?fs s l p k) = frames (?fs s' l' p' k')"
    by (simp only: stream same_append_eq)
  then have "?fs s l p k = ?fs s' l' p' k'"
    by (rule frames_inject [rotated 2]) (use assms in \<open>simp_all add: frame_ok_def str_bytes_def\<close>)
  then show ?thesis by (simp add: str_bytes_inject)
qed

end
