(* ===== verification/Session_Model.thy ===== *)
theory Session_Model
  imports Tea_Json Tea_Ids
begin

text \<open>
  The durable data of \<open>crates/tea-session/src/model.rs\<close> and the subagent facts of
  \<open>crates/tea-session/src/agents.rs\<close>: semantic entries, write-ahead records, lane topology,
  session facts, commits, the replayed snapshot and the reduced lane view. A struct is a
  \<open>record\<close> whose fields carry a short prefix of the struct's name; an enum is a
  \<open>datatype\<close> with the source's constructors.
\<close>

type_synonym metadata = "(string, json_value) btree"
type_synonym sequence = u64

section \<open>Header\<close>

record session_header =
  sh_kind :: string
  sh_format :: string
  sh_version :: u16
  sh_session_id :: session_id
  sh_created_at_ms :: u64
  sh_workspace :: string
  sh_metadata :: metadata
  sh_initial_lane :: lane_id
  sh_digest :: digest

definition SESSION_HEADER_KIND :: string where
  "SESSION_HEADER_KIND = ''tea-session''"

definition SESSION_FORMAT_IDENTITY :: string where
  "SESSION_FORMAT_IDENTITY = ''tea-session-jsonl''"

definition SESSION_FORMAT_VERSION :: u16 where
  "SESSION_FORMAT_VERSION = 1"

definition new_header_at :: "session_id \<Rightarrow> string \<Rightarrow> metadata \<Rightarrow> u64 \<Rightarrow> session_header" where
  "new_header_at session_id workspace metadata created_at_ms =
     \<lparr>sh_kind = SESSION_HEADER_KIND, sh_format = SESSION_FORMAT_IDENTITY,
      sh_version = SESSION_FORMAT_VERSION, sh_session_id = session_id,
      sh_created_at_ms = created_at_ms, sh_workspace = workspace, sh_metadata = metadata,
      sh_initial_lane = main_lane, sh_digest = zero_digest\<rparr>"

section \<open>Semantic entries\<close>

datatype payload_ref =
    Inline json_value
  | Artifact artifact_id u64 string

fun payload_artifact_id :: "payload_ref \<Rightarrow> artifact_id option" where
  "payload_artifact_id (Inline _) = None"
| "payload_artifact_id (Artifact i _ _) = Some i"

record usage =
  us_total_tokens :: "u64 option"
  us_input_tokens :: "u64 option"
  us_output_tokens :: "u64 option"
  us_reasoning_tokens :: "u64 option"
  us_cache_read_tokens :: "u64 option"
  us_cache_write_tokens :: "u64 option"
  us_cost :: "string option"

record user_message_entry =
  um_content :: string
  um_metadata :: metadata

record opaque_provider_context_entry =
  op_provider :: string
  op_kind :: string
  op_item_id :: "string option"
  op_payload :: string

datatype assistant_content_entry =
    Text string
  | Thinking string "opaque_provider_context_entry option"
  | RedactedThinking opaque_provider_context_entry

definition text_content :: "string \<Rightarrow> assistant_content_entry list" where
  "text_content text = (if text = [] then [] else [Text text])"

record assistant_tool_call =
  tc_id :: string
  tc_name :: string
  tc_arguments :: json_value

record model_changed_entry =
  mc_provider :: string
  mc_model :: string
  mc_revision :: "string option"

record assistant_message_entry =
  am_content :: "assistant_content_entry list"
  am_tool_calls :: "assistant_tool_call list"
  am_stop_reason :: "string option"
  am_error_message :: "string option"
  am_opaque_context :: "opaque_provider_context_entry list"
  am_origin :: "model_changed_entry option"
  am_metadata :: metadata

fun content_text :: "assistant_content_entry list \<Rightarrow> string" where
  "content_text [] = []"
| "content_text (Text t # cs) = t @ content_text cs"
| "content_text (Thinking _ _ # cs) = content_text cs"
| "content_text (RedactedThinking _ # cs) = content_text cs"

definition assistant_text :: "assistant_message_entry \<Rightarrow> string" where
  "assistant_text m = content_text (am_content m)"

record tool_result_entry =
  tr_tool_call_id :: string
  tr_tool_name :: string
  tr_full_result :: payload_ref
  tr_model_projection :: json_value
  tr_is_error :: bool
  tr_terminate :: bool
  tr_usage :: usage
  tr_projection_strategy_id :: string
  tr_artifact_policy_id :: artifact_policy_id

record compaction_entry =
  ce_covered_from :: "entry_id option"
  ce_covered_to :: "entry_id option"
  ce_retained_tail_boundary :: "entry_id option"
  ce_summary :: string
  ce_strategy_id :: string
  ce_recovery_index_artifact :: "artifact_id option"
  ce_harness_revision_id :: "harness_revision_id option"
  ce_replacement :: payload_ref
  ce_replacement_digest :: digest
  ce_provider_request_id :: "provider_request_id option"

record branch_summary_entry =
  bs_summary :: string
  bs_covered_to :: "entry_id option"

record prompt_section_change =
  ps_id :: string
  ps_content :: "string option"

record tool_declaration_record =
  td_name :: string
  td_description :: string
  td_schema :: json_value

record configuration_changed_entry =
  cc_sections :: "prompt_section_change list"
  cc_tools_added :: "tool_declaration_record list"
  cc_tools_removed :: "string list"

record harness_revision_changed_entry =
  hr_revision_id :: harness_revision_id
  hr_snapshot_id :: harness_snapshot_id
  hr_rollback_from :: "harness_revision_id option"

datatype memory_visibility = ModelVisible | ExternalOnly
datatype memory_retention = SessionRetention | CheckpointRetention

record plugin_memory_entry =
  pm_plugin_id :: string
  pm_kind :: string
  pm_content :: payload_ref
  pm_provenance :: "string list"
  pm_visibility :: memory_visibility
  pm_retention :: memory_retention

record custom_entry =
  cu_type_name :: string
  cu_payload :: payload_ref
  cu_model_visible :: bool

datatype session_entry =
    UserMessage user_message_entry
  | AssistantMessage assistant_message_entry
  | ToolResult tool_result_entry
  | Compaction compaction_entry
  | BranchSummary branch_summary_entry
  | ModelChanged model_changed_entry
  | ThinkingChanged string
  | ConfigurationChanged configuration_changed_entry
  | HarnessRevisionChanged harness_revision_changed_entry
  | PluginMemory plugin_memory_entry
  | CustomEntry custom_entry

fun is_model_visible :: "session_entry \<Rightarrow> bool" where
  "is_model_visible (UserMessage _) = True"
| "is_model_visible (AssistantMessage _) = True"
| "is_model_visible (ToolResult _) = True"
| "is_model_visible (Compaction _) = True"
| "is_model_visible (BranchSummary _) = True"
| "is_model_visible (ConfigurationChanged _) = True"
| "is_model_visible (ModelChanged _) = False"
| "is_model_visible (ThinkingChanged _) = False"
| "is_model_visible (HarnessRevisionChanged _) = False"
| "is_model_visible (PluginMemory e) = (pm_visibility e = ModelVisible)"
| "is_model_visible (CustomEntry e) = cu_model_visible e"

fun entry_artifact_references :: "session_entry \<Rightarrow> artifact_id list" where
  "entry_artifact_references (ToolResult e) =
     (case payload_artifact_id (tr_full_result e) of None \<Rightarrow> [] | Some i \<Rightarrow> [i])"
| "entry_artifact_references (Compaction e) =
     (case ce_recovery_index_artifact e of None \<Rightarrow> [] | Some i \<Rightarrow> [i]) @
     (case payload_artifact_id (ce_replacement e) of None \<Rightarrow> [] | Some i \<Rightarrow> [i])"
| "entry_artifact_references (PluginMemory e) =
     (case payload_artifact_id (pm_content e) of None \<Rightarrow> [] | Some i \<Rightarrow> [i])"
| "entry_artifact_references (CustomEntry e) =
     (case payload_artifact_id (cu_payload e) of None \<Rightarrow> [] | Some i \<Rightarrow> [i])"
| "entry_artifact_references _ = []"

record entry_header =
  eh_id :: entry_id
  eh_parent_id :: "entry_id option"
  eh_seq :: sequence
  eh_timestamp_ms :: u64

record stored_entry =
  se_lane_id :: lane_id
  se_header :: entry_header
  se_body :: session_entry

record provisioned_entry =
  pe_id :: entry_id
  pe_body :: session_entry

definition provisioned_user :: "entry_id \<Rightarrow> string \<Rightarrow> provisioned_entry" where
  "provisioned_user i content =
     \<lparr>pe_id = i, pe_body = UserMessage \<lparr>um_content = content, um_metadata = []\<rparr>\<rparr>"

definition provisioned_assistant ::
    "entry_id \<Rightarrow> string \<Rightarrow> assistant_tool_call list \<Rightarrow> provisioned_entry" where
  "provisioned_assistant i content tool_calls =
     \<lparr>pe_id = i, pe_body = AssistantMessage
       \<lparr>am_content = text_content content, am_tool_calls = tool_calls, am_stop_reason = None,
        am_error_message = None, am_opaque_context = [], am_origin = None, am_metadata = []\<rparr>\<rparr>"

section \<open>Operation records\<close>

datatype operation_kind = RunOp | Subagent agent_id operation_id | OtherOp string

record operation_started_record =
  os_id :: operation_id
  os_lane_id :: lane_id
  os_source_leaf_id :: "entry_id option"
  os_kind :: operation_kind
  os_original_input :: "provisioned_entry list"
  os_input_ids :: "entry_id list"
  os_initial_harness_revision :: harness_revision_id
  os_model_harness_profile :: model_harness_profile_id
  os_operation_resume_data :: "(stable_hook_id, json_value) btree"

definition new_operation_started ::
    "operation_id \<Rightarrow> lane_id \<Rightarrow> entry_id option \<Rightarrow> operation_kind \<Rightarrow> provisioned_entry list \<Rightarrow>
     harness_revision_id \<Rightarrow> model_harness_profile_id \<Rightarrow> operation_started_record" where
  "new_operation_started i lane leaf k input revision profile =
     \<lparr>os_id = i, os_lane_id = lane, os_source_leaf_id = leaf, os_kind = k,
      os_original_input = input, os_input_ids = [], os_initial_harness_revision = revision,
      os_model_harness_profile = profile, os_operation_resume_data = []\<rparr>"

definition with_input_ids ::
    "operation_started_record \<Rightarrow> entry_id list \<Rightarrow> operation_started_record" where
  "with_input_ids r ids = r\<lparr>os_input_ids := ids\<rparr>"

datatype operation_outcome = Completed | Aborted | Failed string

record operation_finished_record =
  of_operation_id :: operation_id
  of_outcome :: operation_outcome

record abort_requested_record =
  ar_operation_id :: operation_id
  ar_reason :: "string option"

record epoch_started_record =
  es_id :: epoch_id
  es_operation_id :: operation_id
  es_epoch_index :: u32
  es_source_leaf_id :: "entry_id option"
  es_harness_revision_id :: harness_revision_id
  es_harness_snapshot_id :: harness_snapshot_id
  es_model_harness_profile :: model_harness_profile_id
  es_core_run_id :: core_run_id
  es_epoch_resume_data :: "(stable_hook_id, json_value) btree"

datatype epoch_finish_reason = Settled_epoch | ActivationPending | Interrupted_epoch

record epoch_finished_record =
  ef_epoch_id :: epoch_id
  ef_operation_id :: operation_id
  ef_reason :: epoch_finish_reason

datatype step_kind = AssistantStep | CompactionStep

text \<open>\<open>StepKind\<close> derives \<open>Ord\<close>: it is part of an ordered map's key.\<close>

instantiation step_kind :: linorder
begin

definition less_eq_step_kind :: "step_kind \<Rightarrow> step_kind \<Rightarrow> bool" where
  "less_eq_step_kind a b = (a = AssistantStep \<or> b = CompactionStep)"

definition less_step_kind :: "step_kind \<Rightarrow> step_kind \<Rightarrow> bool" where
  "less_step_kind a b = (a = AssistantStep \<and> b = CompactionStep)"

instance
proof
  fix x y z :: step_kind
  show "x < y \<longleftrightarrow> x \<le> y \<and> \<not> y \<le> x" "x \<le> x" "x \<le> y \<or> y \<le> x"
    by (cases x; cases y; simp add: less_eq_step_kind_def less_step_kind_def)+
  show "x \<le> y \<Longrightarrow> y \<le> z \<Longrightarrow> x \<le> z" "x \<le> y \<Longrightarrow> y \<le> x \<Longrightarrow> x = y"
    by (cases x; cases y; cases z; simp add: less_eq_step_kind_def)+
qed

end

record step_attempted_record =
  sa_id :: step_id
  sa_operation_id :: operation_id
  sa_epoch_id :: epoch_id
  sa_kind :: step_kind
  sa_attempt :: u32
  sa_result_entry_id :: entry_id
  sa_reason :: "string option"

record provider_request_started_record =
  pr_request_id :: provider_request_id
  pr_operation_id :: operation_id
  pr_epoch_id :: epoch_id
  pr_step_id :: step_id
  pr_physical_attempt :: u32
  pr_model_harness_profile :: model_harness_profile_id
  pr_request_surface_digest :: digest
  pr_idempotency_key :: "string option"

datatype provider_settlement_classification =
  Completed_request | Retryable | Discarded | Interrupted_request

record provider_error_record =
  pe_source :: string
  pe_message :: "string option"
  pe_status_code :: "u16 option"
  pe_attempt :: "u32 option"
  pe_logical_request_id :: "string option"
  pe_visible_stream_event :: "bool option"
  pe_auth_refresh_attempted :: "bool option"
  pe_quota_reset_at_unix_seconds :: "u64 option"
  pe_error_type :: "string option"
  pe_error_code :: "string option"
  pe_retryable :: "bool option"
  pe_response_bytes :: "u64 option"
  pe_request_bytes :: "u64 option"
  pe_response_body :: "string option"

record provider_request_settled_record =
  st_request_id :: provider_request_id
  st_operation_id :: operation_id
  st_outcome :: json_value
  st_provider_error :: "provider_error_record option"
  st_usage :: "usage option"
  st_response_artifact :: "artifact_id option"
  st_classification :: provider_settlement_classification

datatype tool_replay_policy = Never | Safe

record tool_started_record =
  ts_record_id :: record_id
  ts_operation_id :: operation_id
  ts_epoch_id :: epoch_id
  ts_assistant_entry_id :: entry_id
  ts_tool_index :: u32
  ts_tool_call_id :: string
  ts_tool_name :: string
  ts_effective_args :: json_value
  ts_result_entry_id :: entry_id
  ts_replay_policy_at_start :: tool_replay_policy
  ts_tool_definition_digest :: digest
  ts_harness_revision_id :: harness_revision_id
  ts_idempotency_key :: string

record input_accepted_record =
  ia_lane_id :: lane_id
  ia_entry :: provisioned_entry

record input_withdrawn_record =
  iw_lane_id :: lane_id
  iw_input_id :: entry_id

record input_settled_record =
  is_operation_id :: operation_id
  is_input_id :: entry_id
  is_outcome :: operation_outcome

record extension_control_enqueued_record =
  xc_operation_id :: operation_id
  xc_control_id :: string
  xc_extension_id :: string
  xc_harness_revision_id :: harness_revision_id
  xc_command_name :: string
  xc_arguments :: json_value

record write_deferred_record =
  wd_operation_id :: operation_id
  wd_entry :: provisioned_entry

record harness_activation_requested_record =
  ha_operation_id :: operation_id
  ha_candidate_id :: harness_candidate_id
  ha_parent_revision_id :: harness_revision_id
  ha_proposed_snapshot_id :: harness_snapshot_id
  ha_revision_entry_id :: entry_id

record usage_record =
  ur_operation_id :: operation_id
  ur_request_id :: "provider_request_id option"
  ur_usage :: usage

datatype cache_maintenance_outcome =
  CompletedMaintenance | FailedMaintenance string | CancelledMaintenance

record cache_maintenance_record =
  cm_operation_id :: operation_id
  cm_model :: "model_changed_entry option"
  cm_selected_model :: "model_changed_entry option"
  cm_outcome :: cache_maintenance_outcome
  cm_usage :: usage
  cm_estimated_cost :: "string option"

datatype lane_record =
    OperationStarted operation_started_record
  | OperationFinished operation_finished_record
  | AbortRequested abort_requested_record
  | EpochStarted epoch_started_record
  | EpochFinished epoch_finished_record
  | StepAttempted step_attempted_record
  | ProviderRequestStarted provider_request_started_record
  | ProviderRequestSettled provider_request_settled_record
  | ToolStarted tool_started_record
  | InputAccepted input_accepted_record
  | InputWithdrawn input_withdrawn_record
  | InputSettled input_settled_record
  | ExtensionControlEnqueued extension_control_enqueued_record
  | ExtensionControlApplied string
  | WriteDeferred write_deferred_record
  | HarnessActivationRequested harness_activation_requested_record
  | UsageRecord usage_record
  | CacheMaintenance cache_maintenance_record

fun record_operation_id :: "lane_record \<Rightarrow> operation_id option" where
  "record_operation_id (OperationStarted r) = Some (os_id r)"
| "record_operation_id (OperationFinished r) = Some (of_operation_id r)"
| "record_operation_id (AbortRequested r) = Some (ar_operation_id r)"
| "record_operation_id (EpochStarted r) = Some (es_operation_id r)"
| "record_operation_id (EpochFinished r) = Some (ef_operation_id r)"
| "record_operation_id (StepAttempted r) = Some (sa_operation_id r)"
| "record_operation_id (ProviderRequestStarted r) = Some (pr_operation_id r)"
| "record_operation_id (ProviderRequestSettled r) = Some (st_operation_id r)"
| "record_operation_id (ToolStarted r) = Some (ts_operation_id r)"
| "record_operation_id (InputAccepted _) = None"
| "record_operation_id (InputWithdrawn _) = None"
| "record_operation_id (InputSettled r) = Some (is_operation_id r)"
| "record_operation_id (ExtensionControlEnqueued r) = Some (xc_operation_id r)"
| "record_operation_id (ExtensionControlApplied _) = None"
| "record_operation_id (WriteDeferred r) = Some (wd_operation_id r)"
| "record_operation_id (HarnessActivationRequested r) = Some (ha_operation_id r)"
| "record_operation_id (UsageRecord r) = Some (ur_operation_id r)"
| "record_operation_id (CacheMaintenance r) = Some (cm_operation_id r)"

record stored_record =
  sr_seq :: sequence
  sr_timestamp_ms :: u64
  sr_record :: lane_record

section \<open>Lane topology\<close>

datatype lane_mutation = Created lane_id "entry_id option"

record stored_lane_mutation =
  sl_seq :: sequence
  sl_timestamp_ms :: u64
  sl_mutation :: lane_mutation

section \<open>Session facts\<close>

datatype agent_context_mode = TaskContext | ParentContext

record subagent_model_record =
  sm_provider :: string
  sm_model :: string
  sm_revision :: "string option"
  sm_display_name :: string
  sm_context_window :: "u64 option"

record subagent_policy_fact =
  sp_schema_version :: u16
  sp_models :: "subagent_model_record list"
  sp_max_concurrent :: u32
  sp_max_total_per_operation :: u32
  sp_timeout_ms :: u64
  sp_tool_surface_digest :: digest

record agent_spawned_fact =
  as_agent_id :: agent_id
  as_parent_lane_id :: lane_id
  as_parent_operation_id :: operation_id
  as_lane_id :: lane_id
  as_task_name :: string
  as_model :: subagent_model_record
  as_thinking :: string
  as_context_mode :: agent_context_mode
  as_base_leaf_id :: "entry_id option"
  as_workspace_lease_id :: workspace_lease_id
  as_harness_revision_id :: harness_revision_id
  as_harness_snapshot_id :: harness_snapshot_id
  as_model_harness_profile_id :: model_harness_profile_id
  as_spawn_tool_call_id :: string

record workspace_delta_fact =
  wf_delta_id :: workspace_delta_id
  wf_agent_id :: agent_id
  wf_workspace_lease_id :: workspace_lease_id
  wf_base_commit :: string
  wf_result_commit :: string
  wf_changed_paths :: "string list"
  wf_patch :: payload_ref

record agent_task_finished_fact =
  at_agent_id :: agent_id
  at_operation_id :: operation_id
  at_outcome :: operation_outcome
  at_final_entry_id :: "entry_id option"
  at_report :: payload_ref
  at_workspace_delta_id :: "workspace_delta_id option"

record workspace_delta_applied_fact =
  wa_delta_id :: workspace_delta_id
  wa_target_lane_id :: lane_id
  wa_tool_call_id :: string
  wa_changed_paths :: "string list"

record provider_request_material_fact =
  mf_operation_id :: operation_id
  mf_epoch_id :: epoch_id
  mf_request_id :: provider_request_id
  mf_request :: payload_ref

record extension_state_value_set_fact =
  xs_lane_id :: lane_id
  xs_extension_id :: string
  xs_state_version :: string
  xs_value :: json_value

record extension_state_value =
  xv_state_version :: string
  xv_value :: json_value

type_synonym extension_state = "(string, extension_state_value) btree"

record turn_checkpoint_fact =
  cp_checkpoint_id :: turn_checkpoint_id
  cp_lane_id :: lane_id
  cp_operation_id :: operation_id
  cp_leaf_id :: "entry_id option"
  cp_extension_state :: extension_state

record forked_lane_fact =
  fl_checkpoint_id :: turn_checkpoint_id
  fl_lane_id :: lane_id
  fl_base_leaf_id :: "entry_id option"

record harness_catalog_fact =
  hc_schema_version :: u16
  hc_artifact_id :: artifact_id
  hc_byte_len :: u64

record schema_field_mismatch =
  fm_field :: string
  fm_expected :: string
  fm_actual :: string

record tool_schema_deviation_fact =
  sd_operation_id :: operation_id
  sd_epoch_id :: epoch_id
  sd_assistant_entry_id :: entry_id
  sd_tool_call_id :: string
  sd_tool_name :: string
  sd_model_harness_profile :: model_harness_profile_id
  sd_arguments_valid_json :: bool
  sd_unknown_fields :: "string list"
  sd_missing_fields :: "string list"
  sd_type_mismatches :: "schema_field_mismatch list"
  sd_raw_arguments :: payload_ref

record trace_artifact_fact =
  ta_schema_version :: u16
  ta_operation_id :: operation_id
  ta_epoch_id :: epoch_id
  ta_core_run_id :: core_run_id
  ta_harness_revision_id :: harness_revision_id
  ta_harness_snapshot_id :: harness_snapshot_id
  ta_model_harness_profile :: model_harness_profile_id
  ta_artifact_id :: artifact_id
  ta_byte_len :: u64
  ta_media_type :: string

datatype session_fact =
    SubagentPolicy subagent_policy_fact
  | AgentSpawned agent_spawned_fact
  | WorkspaceDelta workspace_delta_fact
  | AgentTaskFinished agent_task_finished_fact
  | WorkspaceDeltaApplied workspace_delta_applied_fact
  | HarnessCatalog harness_catalog_fact
  | ToolSchemaDeviation tool_schema_deviation_fact
  | TraceArtifact trace_artifact_fact
  | ProviderRequestMaterial provider_request_material_fact
  | ExtensionStateValueSet extension_state_value_set_fact
  | TurnCheckpoint turn_checkpoint_fact
  | ForkedLane forked_lane_fact
  | CustomFact string json_value

fun payload_references :: "payload_ref \<Rightarrow> artifact_id list" where
  "payload_references (Inline _) = []"
| "payload_references (Artifact i _ _) = [i]"

fun fact_artifact_references :: "session_fact \<Rightarrow> artifact_id list" where
  "fact_artifact_references (WorkspaceDelta f) = payload_references (wf_patch f)"
| "fact_artifact_references (AgentTaskFinished f) = payload_references (at_report f)"
| "fact_artifact_references (HarnessCatalog f) = [hc_artifact_id f]"
| "fact_artifact_references (ToolSchemaDeviation f) = payload_references (sd_raw_arguments f)"
| "fact_artifact_references (TraceArtifact f) = [ta_artifact_id f]"
| "fact_artifact_references (ProviderRequestMaterial f) = payload_references (mf_request f)"
| "fact_artifact_references _ = []"

record stored_fact =
  sf_seq :: sequence
  sf_timestamp_ms :: u64
  sf_fact :: session_fact

section \<open>Commits\<close>

datatype session_mutation =
    EntryM stored_entry
  | RecordM stored_record
  | LaneM stored_lane_mutation
  | FactM stored_fact

datatype session_commit_item =
    EntryItem lane_id provisioned_entry
  | RecordItem lane_record
  | LaneItem lane_mutation
  | FactItem session_fact

text \<open>
  A \<open>SessionCommit\<close> is its list of items. The private field is only reached through \<open>new\<close>
  (nonempty), \<open>one\<close> and \<open>push\<close>, so it is nonempty.
\<close>

type_synonym session_commit = "session_commit_item list"

definition new_commit :: "session_commit_item list \<Rightarrow> session_commit option" where
  "new_commit items = (if items = [] then None else Some items)"

definition one_commit :: "session_commit_item \<Rightarrow> session_commit" where
  "one_commit item = [item]"

definition push_item :: "session_commit \<Rightarrow> session_commit_item \<Rightarrow> session_commit" where
  "push_item c item = c @ [item]"

record stored_mutation =
  sv_seq :: sequence
  sv_timestamp_ms :: u64
  sv_prev_digest :: digest
  sv_digest :: digest
  sv_mutation :: session_mutation

record stored_commit =
  sc_seq :: sequence
  sc_timestamp_ms :: u64
  sc_prev_digest :: digest
  sc_digest :: digest
  sc_items :: "stored_mutation list"

section \<open>The replayed snapshot\<close>

datatype mutation_location =
  EntryLoc nat | RecordLoc nat | LaneLoc nat | FactLoc nat

record stored_mutation_envelope =
  ev_seq :: sequence
  ev_timestamp_ms :: u64
  ev_prev_digest :: digest
  ev_digest :: digest
  ev_location :: mutation_location

record session_snapshot =
  ss_header :: session_header
  ss_entries :: "stored_entry list"
  ss_records :: "stored_record list"
  ss_lane_mutations :: "stored_lane_mutation list"
  ss_facts :: "stored_fact list"
  ss_timeline :: "stored_mutation_envelope list"
  ss_last_sequence :: sequence
  ss_last_digest :: digest
  ss_main_harness_revision :: "harness_revision_id option"

definition empty_snapshot :: "session_header \<Rightarrow> session_snapshot" where
  "empty_snapshot header =
     \<lparr>ss_header = header, ss_entries = [], ss_records = [], ss_lane_mutations = [],
      ss_facts = [], ss_timeline = [], ss_last_sequence = 0, ss_last_digest = sh_digest header,
      ss_main_harness_revision = None\<rparr>"

definition next_sequence :: "session_snapshot \<Rightarrow> sequence" where
  "next_sequence s = saturating_add (ss_last_sequence s) 1"

fun selects_main_revision :: "stored_entry \<Rightarrow> harness_revision_id option" where
  "selects_main_revision e =
     (if se_lane_id e = main_lane then
        (case se_body e of HarnessRevisionChanged r \<Rightarrow> Some (hr_revision_id r) | _ \<Rightarrow> None)
      else None)"

fun push_semantic_mutation ::
    "session_snapshot \<Rightarrow> session_mutation \<Rightarrow> session_snapshot \<times> mutation_location" where
  "push_semantic_mutation s (EntryM e) =
     (let s1 = (case selects_main_revision e of
                  Some r \<Rightarrow> s\<lparr>ss_main_harness_revision := Some r\<rparr>
                | None \<Rightarrow> s);
          s2 = s1\<lparr>ss_entries := ss_entries s1 @ [e]\<rparr>
      in (s2, EntryLoc (length (ss_entries s2) - 1)))"
| "push_semantic_mutation s (RecordM r) =
     (let s2 = s\<lparr>ss_records := ss_records s @ [r]\<rparr>
      in (s2, RecordLoc (length (ss_records s2) - 1)))"
| "push_semantic_mutation s (LaneM m) =
     (let s2 = s\<lparr>ss_lane_mutations := ss_lane_mutations s @ [m]\<rparr>
      in (s2, LaneLoc (length (ss_lane_mutations s2) - 1)))"
| "push_semantic_mutation s (FactM f) =
     (let s2 = s\<lparr>ss_facts := ss_facts s @ [f]\<rparr>
      in (s2, FactLoc (length (ss_facts s2) - 1)))"

definition push_item_mutation :: "stored_commit \<Rightarrow> stored_mutation \<Rightarrow> session_snapshot \<Rightarrow> session_snapshot"
  where
  "push_item_mutation stored item s =
     (case push_semantic_mutation s (sv_mutation item) of (s', location) \<Rightarrow>
        s'\<lparr>ss_timeline := ss_timeline s' @
             [\<lparr>ev_seq = sc_seq stored, ev_timestamp_ms = sc_timestamp_ms stored,
               ev_prev_digest = sc_prev_digest stored, ev_digest = sc_digest stored,
               ev_location = location\<rparr>]\<rparr>)"

definition push_commit :: "session_snapshot \<Rightarrow> stored_commit \<Rightarrow> session_snapshot" where
  "push_commit s stored =
     fold (push_item_mutation stored) (sc_items stored)
       (s\<lparr>ss_last_sequence := sc_seq stored, ss_last_digest := sc_digest stored\<rparr>)"

text \<open>
  \<open>borrow_mutation\<close> indexes a typed view; \<open>None\<close> is the out-of-bounds panic.
\<close>

definition at_index :: "'a list \<Rightarrow> nat \<Rightarrow> 'a option" where
  "at_index xs i = (if i < length xs then Some (xs ! i) else None)"

fun locate :: "session_snapshot \<Rightarrow> mutation_location \<Rightarrow> session_mutation option" where
  "locate s (EntryLoc i) = map_option EntryM (at_index (ss_entries s) i)"
| "locate s (RecordLoc i) = map_option RecordM (at_index (ss_records s) i)"
| "locate s (LaneLoc i) = map_option LaneM (at_index (ss_lane_mutations s) i)"
| "locate s (FactLoc i) = map_option FactM (at_index (ss_facts s) i)"

definition borrow_mutation ::
    "session_snapshot \<Rightarrow> stored_mutation_envelope \<Rightarrow> stored_mutation option" where
  "borrow_mutation s ev =
     map_option (\<lambda>m. \<lparr>sv_seq = ev_seq ev, sv_timestamp_ms = ev_timestamp_ms ev,
       sv_prev_digest = ev_prev_digest ev, sv_digest = ev_digest ev, sv_mutation = m\<rparr>)
       (locate s (ev_location ev))"

definition mutations :: "session_snapshot \<Rightarrow> stored_mutation list" where
  "mutations s = List.map_filter (borrow_mutation s) (ss_timeline s)"

section \<open>The reduced lane view\<close>

datatype lane_status = Idle | Running | Faulted string

record lane_state =
  ls_lane_id :: lane_id
  ls_leaf_id :: "entry_id option"
  ls_status :: lane_status
  ls_active_operation :: "operation_id option"
  ls_active_harness_revision :: "harness_revision_id option"

record effective_lane_configuration =
  ec_model :: "model_changed_entry option"
  ec_thinking_level :: "string option"
  ec_declared_tool_names :: "string list"
  ec_harness_revision :: "harness_revision_id option"

record accepted_input =
  ai_lane_id :: lane_id
  ai_entry :: provisioned_entry
  ai_accepted_sequence :: sequence

datatype input_status =
    Pending
  | Withdrawn
  | Dispatched operation_id
  | Settled operation_id operation_outcome

record input_state =
  in_accepted :: accepted_input
  in_status :: input_status

record input_reduction =
  ir_pending_inputs :: "accepted_input list"
  ir_input_states :: "(entry_id, input_state) btree"

record pending_extension_control =
  px_accepted_sequence :: sequence
  px_accepted_item_index :: u64
  px_control :: extension_control_enqueued_record

record pending_write =
  pw_operation_id :: operation_id
  pw_entry :: provisioned_entry

type_synonym pending_harness_activation = harness_activation_requested_record

end
