(* ===== verification/Session_Usage.thy ===== *)
theory Session_Usage
  imports Session_Model
begin

text \<open>
  Usage accounting of \<open>crates/tea-session/src/model.rs\<close>: token categories are added with
  saturation and unknown stays unknown; exact costs are added as decimal text. Byte
  arithmetic in \<open>decimal_add\<close> is on \<open>u8\<close> words (it wraps, as the release profile does).
\<close>

section \<open>Token categories\<close>

fun add_optional :: "u64 option \<Rightarrow> u64 option \<Rightarrow> u64 option" where
  "add_optional (Some l) (Some r) = Some (saturating_add l r)"
| "add_optional (Some l) None = Some l"
| "add_optional None (Some r) = Some r"
| "add_optional None None = None"

section \<open>Decimal text\<close>

text \<open>\<open>split_once\<close>: the text before and after the first byte that matches.\<close>

fun split_once :: "(char \<Rightarrow> bool) \<Rightarrow> string \<Rightarrow> (string \<times> string) option" where
  "split_once p [] = None"
| "split_once p (c # cs) =
     (if p c then Some ([], cs)
      else map_option (\<lambda>(a, b). (c # a, b)) (split_once p cs))"

definition digit_value :: "char \<Rightarrow> nat" where
  "digit_value c = byte_of c - 48"

fun dval_acc :: "nat \<Rightarrow> string \<Rightarrow> nat" where
  "dval_acc a [] = a"
| "dval_acc a (c # cs) = dval_acc (a * 10 + digit_value c) cs"

abbreviation dval :: "string \<Rightarrow> nat" where
  "dval \<equiv> dval_acc 0"

text \<open>\<open>str::parse::<i64>\<close>: an optional sign and at least one digit, within range.\<close>

fun strip_sign :: "string \<Rightarrow> bool \<times> string" where
  "strip_sign [] = (False, [])"
| "strip_sign (c # cs) =
     (if c = CHR ''-'' then (True, cs) else if c = CHR ''+'' then (False, cs) else (False, c # cs))"

definition parse_i64 :: "string \<Rightarrow> int option" where
  "parse_i64 s =
     (case strip_sign s of (negative, ds) \<Rightarrow>
        if ds = [] \<or> \<not> list_all is_ascii_digit ds then None
        else let n = (if negative then - int (dval ds) else int (dval ds)) in
          if - (2 ^ 63) \<le> n \<and> n < 2 ^ 63 then Some n else None)"

definition wrap_i64 :: "int \<Rightarrow> int" where
  "wrap_i64 n = (n + 2 ^ 63) mod 2 ^ 64 - 2 ^ 63"

definition decimal_parts :: "string \<Rightarrow> string \<times> nat" where
  "decimal_parts value =
     (let (coefficient, exponent) =
            (case split_once (\<lambda>c. c = CHR ''e'' \<or> c = CHR ''E'') value of
               Some (coefficient, e) \<Rightarrow>
                 (coefficient, case parse_i64 e of Some n \<Rightarrow> n | None \<Rightarrow> 0)
             | None \<Rightarrow> (value, 0));
          (whole, fraction) =
            (case split_once (\<lambda>c. c = CHR ''.'') coefficient of
               Some parts \<Rightarrow> parts
             | None \<Rightarrow> (coefficient, []));
          digits = dropWhile (\<lambda>c. c = CHR ''+'') whole @ fraction;
          scale = nat (max (wrap_i64 (int (length fraction) - exponent)) 0);
          digits = dropWhile (\<lambda>c. c = CHR ''0'') digits
      in (if digits = [] then ''0'' else digits, scale))"

text \<open>The addition loop, least significant digit first.\<close>

definition sum_digit :: "char \<Rightarrow> char \<Rightarrow> u8 \<Rightarrow> u8" where
  "sum_digit l r carry = of_char l - 48 + of_char r - 48 + carry"

fun add_digits :: "u8 \<Rightarrow> string \<Rightarrow> string \<Rightarrow> string" where
  "add_digits carry [] [] = (if carry \<noteq> 0 then [char_of (unat (48 + carry))] else [])"
| "add_digits carry (l # ls) [] =
     (let s = sum_digit l CHR ''0'' carry in
      char_of (unat (48 + s mod 10)) # add_digits (s div 10) ls [])"
| "add_digits carry [] (r # rs) =
     (let s = sum_digit CHR ''0'' r carry in
      char_of (unat (48 + s mod 10)) # add_digits (s div 10) [] rs)"
| "add_digits carry (l # ls) (r # rs) =
     (let s = sum_digit l r carry in
      char_of (unat (48 + s mod 10)) # add_digits (s div 10) ls rs)"

text \<open>\<open>while output.ends_with('0') { output.pop(); }\<close>\<close>

definition trim_zeros_end :: "string \<Rightarrow> string" where
  "trim_zeros_end s = rev (dropWhile (\<lambda>c. c = CHR ''0'') (rev s))"

definition trim_point :: "string \<Rightarrow> string" where
  "trim_point s = (if s \<noteq> [] \<and> last s = CHR ''.'' then butlast s else s)"

definition decimal_normalize :: "string \<Rightarrow> string" where
  "decimal_normalize value =
     (case decimal_parts value of (digits, scale) \<Rightarrow>
        if scale = 0 then digits
        else
          let output =
            (if length digits \<le> scale
             then ''0.'' @ replicate (scale - length digits) CHR ''0'' @ digits
             else take (length digits - scale) digits @ ''.'' @ drop (length digits - scale) digits)
          in trim_point (trim_zeros_end output))"

definition decimal_add :: "string \<Rightarrow> string \<Rightarrow> string" where
  "decimal_add lhs rhs =
     (case decimal_parts lhs of (left_digits, left_scale) \<Rightarrow>
      case decimal_parts rhs of (right_digits, right_scale) \<Rightarrow>
        let scale = max left_scale right_scale;
            left = left_digits @ replicate (scale - left_scale) CHR ''0'';
            right = right_digits @ replicate (scale - right_scale) CHR ''0'';
            output = rev (add_digits 0 (rev left) (rev right));
            output =
              (if scale \<noteq> 0 then
                 (let padded = (if length output \<le> scale
                                then replicate (scale + 1 - length output) CHR ''0'' @ output
                                else output)
                  in take (length padded - scale) padded @ ''.'' @
                     drop (length padded - scale) padded)
               else output)
        in decimal_normalize output)"

definition usage_add_assign :: "usage \<Rightarrow> usage \<Rightarrow> usage" where
  "usage_add_assign self other =
     \<lparr>us_total_tokens = add_optional (us_total_tokens self) (us_total_tokens other),
      us_input_tokens = add_optional (us_input_tokens self) (us_input_tokens other),
      us_output_tokens = add_optional (us_output_tokens self) (us_output_tokens other),
      us_reasoning_tokens = add_optional (us_reasoning_tokens self) (us_reasoning_tokens other),
      us_cache_read_tokens = add_optional (us_cache_read_tokens self) (us_cache_read_tokens other),
      us_cache_write_tokens = add_optional (us_cache_write_tokens self) (us_cache_write_tokens other),
      us_cost = (case us_cost other of
                   None \<Rightarrow> us_cost self
                 | Some cost \<Rightarrow> Some (case us_cost self of
                                        Some previous \<Rightarrow> decimal_add previous cost
                                      | None \<Rightarrow> cost))\<rparr>"

definition default_usage :: usage where
  "default_usage =
     \<lparr>us_total_tokens = None, us_input_tokens = None, us_output_tokens = None,
      us_reasoning_tokens = None, us_cache_read_tokens = None, us_cache_write_tokens = None,
      us_cost = None\<rparr>"

section \<open>Exactness of decimal addition\<close>

text \<open>
  A plain decimal has digits, at most one point and no sign or exponent. Its value is the
  rational it spells; addition of plain decimals is exact.
\<close>

abbreviation digits_only :: "string \<Rightarrow> bool" where
  "digits_only \<equiv> list_all is_ascii_digit"

definition split_point :: "string \<Rightarrow> string \<times> string" where
  "split_point s = (case split_once (\<lambda>c. c = CHR ''.'') s of Some parts \<Rightarrow> parts | None \<Rightarrow> (s, []))"

definition plain_decimal :: "string \<Rightarrow> bool" where
  "plain_decimal s =
     (digits_only (fst (split_point s)) \<and> digits_only (snd (split_point s)) \<and>
      length s < 2 ^ 62)"

definition decimal_value :: "string \<Rightarrow> rat" where
  "decimal_value s =
     of_nat (dval (fst (split_point s) @ snd (split_point s))) / 10 ^ length (snd (split_point s))"

lemma digit_bounds: "is_ascii_digit c \<Longrightarrow> digit_value c < 10 \<and> byte_of c = 48 + digit_value c"
  by (auto simp: is_ascii_digit_def digit_value_def)

lemma digit_value_zero [simp]: "digit_value CHR ''0'' = 0" "is_ascii_digit CHR ''0''"
  by (simp_all add: digit_value_def is_ascii_digit_def byte_of_def)

lemma dval_acc_eq: "dval_acc a s = a * 10 ^ length s + dval s"
proof (induction s arbitrary: a)
  case (Cons c s)
  show ?case
    using Cons [of "a * 10 + digit_value c"] Cons [of "digit_value c"]
    by (simp add: algebra_simps)
qed simp

lemma dval_append: "dval (s @ t) = dval s * 10 ^ length t + dval t"
proof (induction s)
  case (Cons c s)
  then show ?case
    using dval_acc_eq [of "digit_value c" "s @ t"] dval_acc_eq [of "digit_value c" s]
    by (simp add: algebra_simps power_add)
qed simp

lemma dval_zeros [simp]: "dval (replicate n CHR ''0'') = 0"
  by (induction n) simp_all

lemma dval_drop_zeros: "dval (dropWhile (\<lambda>c. c = CHR ''0'') s) = dval s"
  by (induction s) simp_all

lemma digits_only_append [simp]: "digits_only (s @ t) \<longleftrightarrow> digits_only s \<and> digits_only t"
  by (induction s) auto

lemma digits_only_replicate [simp]: "digits_only (replicate n CHR ''0'')"
  by (induction n) simp_all

lemma digits_only_dropWhile: "digits_only s \<Longrightarrow> digits_only (dropWhile P s)"
  by (induction s) auto

lemma digits_only_rev [simp]: "digits_only (rev s) = digits_only s"
  by (simp add: list_all_iff)

text \<open>Value of a digit string read from its least significant digit.\<close>

fun lval :: "string \<Rightarrow> nat" where
  "lval [] = 0"
| "lval (c # cs) = digit_value c + 10 * lval cs"

lemma lval_snoc: "lval (s @ [c]) = lval s + digit_value c * 10 ^ length s"
  by (induction s) simp_all

lemma dval_rev: "dval (rev s) = lval s"
  by (induction s) (simp_all add: dval_append)

lemma dval_lval: "dval s = lval (rev s)"
  using dval_rev [of "rev s"] by simp

lemma sum_digit_nat:
  assumes "is_ascii_digit l" "is_ascii_digit r" "unat carry \<le> 1"
  shows "unat (sum_digit l r carry) = digit_value l + digit_value r + unat carry"
proof -
  have c: "(of_char c :: u8) = 48 + of_nat (digit_value c)" if "is_ascii_digit c" for c
  proof -
    have "(of_char c :: u8) = of_nat (byte_of c)"
      by (simp add: byte_of_def of_nat_of_char)
    with digit_bounds [OF that] show ?thesis by simp
  qed
  have "sum_digit l r carry = of_nat (digit_value l + digit_value r + unat carry)"
    by (simp add: sum_digit_def c [OF assms(1)] c [OF assms(2)])
  moreover have "digit_value l + digit_value r + unat carry < 2 ^ LENGTH(8)"
    using digit_bounds [OF assms(1)] digit_bounds [OF assms(2)] assms(3) by simp
  ultimately show ?thesis
    by (simp only: unat_of_nat mod_less)
qed

lemma digit_char:
  assumes "n < 10"
  shows "digit_value (char_of (48 + n)) = n" "is_ascii_digit (char_of (48 + n))"
  using assms by (auto simp: digit_value_def is_ascii_digit_def byte_of_char_of)

lemma unat_48_add: "unat (48 + w) = 48 + unat w" if "unat w < 10" for w :: u8
  using that by (simp add: unat_word_ariths)

lemma add_step:
  fixes s :: u8
  assumes "unat s < 20"
  shows "digit_value (char_of (unat (48 + s mod 10))) = unat s mod 10"
    and "is_ascii_digit (char_of (unat (48 + s mod 10)))"
    and "unat (s div 10) = unat s div 10" and "unat (s div 10) \<le> 1"
proof -
  have m: "unat (s mod 10) = unat s mod 10" by (simp add: unat_mod)
  then have "unat (48 + s mod 10) = 48 + unat s mod 10"
    by (simp add: unat_48_add)
  then show "digit_value (char_of (unat (48 + s mod 10))) = unat s mod 10"
    and "is_ascii_digit (char_of (unat (48 + s mod 10)))"
    using digit_char [of "unat s mod 10"] by simp_all
  show d: "unat (s div 10) = unat s div 10" by (simp add: unat_div)
  show "unat (s div 10) \<le> 1" using assms d by simp
qed

lemma add_digits_value:
  assumes "digits_only ls" "digits_only rs" "unat carry \<le> 1"
  shows "lval (add_digits carry ls rs) = lval ls + lval rs + unat carry \<and>
         digits_only (add_digits carry ls rs)"
  using assms
proof (induction carry ls rs rule: add_digits.induct)
  case (1 carry)
  show ?case
  proof (cases "carry = 0")
    case False
    then have "unat carry = 1"
      using 1 by (metis One_nat_def Suc_leI le_antisym unat_0_iff neq0_conv)
    then show ?thesis
      using False digit_char [of 1] unat_48_add [of carry] by simp
  qed simp
next
  case (2 carry l ls)
  have s: "unat (sum_digit l CHR ''0'' carry) = digit_value l + unat carry"
    using 2 sum_digit_nat [of l "CHR ''0''" carry] by simp
  then have "unat (sum_digit l CHR ''0'' carry) < 20"
    using 2 digit_bounds [of l] by simp
  note step = add_step [OF this]
  show ?case
    using 2 step s by (simp add: Let_def)
next
  case (3 carry r rs)
  have s: "unat (sum_digit CHR ''0'' r carry) = digit_value r + unat carry"
    using 3 sum_digit_nat [of "CHR ''0''" r carry] by simp
  then have "unat (sum_digit CHR ''0'' r carry) < 20"
    using 3 digit_bounds [of r] by simp
  note step = add_step [OF this]
  show ?case
    using 3 step s by (simp add: Let_def)
next
  case (4 carry l ls r rs)
  have s: "unat (sum_digit l r carry) = digit_value l + digit_value r + unat carry"
    using 4 sum_digit_nat [of l r carry] by simp
  then have "unat (sum_digit l r carry) < 20"
    using 4 digit_bounds [of l] digit_bounds [of r] by simp
  note step = add_step [OF this]
  show ?case
    using 4 step s by (simp add: Let_def)
qed

text \<open>Reading a spelled decimal back.\<close>

lemma split_once_None: "split_once p s = None \<longleftrightarrow> (\<forall>c \<in> set s. \<not> p c)"
  by (induction s) auto

lemma split_once_Some: "split_once p s = Some (a, b) \<Longrightarrow> \<exists>c. p c \<and> s = a @ c # b"
  by (induction s arbitrary: a) (auto split: if_splits)

lemma split_once_at:
  "(\<forall>c \<in> set w. \<not> p c) \<Longrightarrow> p d \<Longrightarrow> split_once p (w @ d # f) = Some (w, f)"
  by (induction w) auto

lemma digit_chars: "is_ascii_digit c \<Longrightarrow> c \<noteq> CHR ''.'' \<and> c \<noteq> CHR ''e'' \<and> c \<noteq> CHR ''E'' \<and> c \<noteq> CHR ''+''"
  by (auto simp: is_ascii_digit_def byte_of_def)

lemma split_point_at: "digits_only w \<Longrightarrow> split_point (w @ CHR ''.'' # f) = (w, f)"
  using digit_chars by (auto simp: split_point_def list_all_iff split_once_at)

lemma split_point_none: "digits_only w \<Longrightarrow> split_point w = (w, [])"
proof -
  assume "digits_only w"
  then have "split_once (\<lambda>c. c = CHR ''.'') w = None"
    using digit_chars by (auto simp: split_once_None list_all_iff)
  then show ?thesis by (simp add: split_point_def)
qed

lemma split_point_set: "split_point s = (w, f) \<Longrightarrow> set s \<subseteq> insert CHR ''.'' (set w \<union> set f)"
  by (auto simp: split_point_def split: option.splits dest!: split_once_Some)

lemma wrap_i64_small: "n < 2 ^ 63 \<Longrightarrow> wrap_i64 (int n) = int n"
proof -
  assume "n < 2 ^ 63"
  then have "int n < 2 ^ 63" by simp
  then have "int n + 2 ^ 63 < (2 ^ 64 :: int)" by simp
  then have "(int n + 2 ^ 63) mod 2 ^ 64 = int n + 2 ^ 63"
    by (intro mod_pos_pos_trivial) simp_all
  then show ?thesis by (simp add: wrap_i64_def)
qed

definition strip_zeros :: "string \<Rightarrow> string" where
  "strip_zeros ds =
     (let r = dropWhile (\<lambda>c. c = CHR ''0'') ds in if r = [] then ''0'' else r)"

lemma strip_zeros_value: "dval (strip_zeros ds) = dval ds"
proof (cases "dropWhile (\<lambda>c. c = CHR ''0'') ds = []")
  case True
  with dval_drop_zeros [of ds] have "dval ds = 0" by (simp only: dval_acc.simps)
  then show ?thesis by (simp only: strip_zeros_def Let_def True if_True) simp
next
  case False
  then show ?thesis
    by (simp only: strip_zeros_def Let_def if_False dval_drop_zeros)
qed

lemma digits_only_strip_zeros: "digits_only ds \<Longrightarrow> digits_only (strip_zeros ds)"
  by (simp add: strip_zeros_def Let_def digits_only_dropWhile)

lemma decimal_parts_plain:
  assumes sp: "split_point s = (w, f)" and w: "digits_only w" and f: "digits_only f"
    and len: "length f < 2 ^ 63"
  shows "decimal_parts s = (strip_zeros (w @ f), length f)"
proof -
  have "\<forall>c \<in> set s. \<not> (c = CHR ''e'' \<or> c = CHR ''E'')"
    using split_point_set [OF sp] w f digit_chars by (auto simp: list_all_iff)
  then have e: "split_once (\<lambda>c. c = CHR ''e'' \<or> c = CHR ''E'') s = None"
    by (simp add: split_once_None)
  have plus: "dropWhile (\<lambda>c. c = CHR ''+'') w = w"
    using w digit_chars by (cases w) auto
  have sc: "(case split_once (\<lambda>c. c = CHR ''.'') s of Some parts \<Rightarrow> parts | None \<Rightarrow> (s, [])) = (w, f)"
    using sp by (simp add: split_point_def)
  show ?thesis
    unfolding decimal_parts_def
    by (simp add: e sc plus wrap_i64_small [OF len] strip_zeros_def Let_def)
qed

lemma decimal_value_at:
  "digits_only w \<Longrightarrow> decimal_value (w @ CHR ''.'' # f) = of_nat (dval (w @ f)) / 10 ^ length f"
  by (simp add: decimal_value_def split_point_at)

lemma decimal_value_none: "digits_only w \<Longrightarrow> decimal_value w = of_nat (dval w)"
  by (simp add: decimal_value_def split_point_none)

lemma takeWhile_replicate: "takeWhile (\<lambda>c. c = z) xs = replicate (length (takeWhile (\<lambda>c. c = z) xs)) z"
  by (induction xs) auto

lemma trim_end_value:
  assumes w: "digits_only w" and f: "digits_only f"
  shows "decimal_value (trim_point (trim_zeros_end (w @ CHR ''.'' # f))) =
         of_nat (dval (w @ f)) / 10 ^ length f"
proof -
  let ?z = "\<lambda>c. c = CHR ''0''"
  define f0 where "f0 = rev (dropWhile ?z (rev f))"
  define k where "k = length (takeWhile ?z (rev f))"
  have "takeWhile ?z (rev f) = replicate k CHR ''0''"
    unfolding k_def by (rule takeWhile_replicate)
  then have ff: "f = f0 @ replicate k CHR ''0''"
    unfolding f0_def by (metis rev_append rev_replicate rev_rev_ident takeWhile_dropWhile_id)
  have trim: "trim_zeros_end (w @ CHR ''.'' # f) = w @ CHR ''.'' # f0"
    by (simp add: trim_zeros_end_def f0_def dropWhile_append3)
  have f0: "digits_only f0" using f ff by simp
  have "decimal_value (trim_point (w @ CHR ''.'' # f0)) = of_nat (dval (w @ f0)) / 10 ^ length f0"
  proof (cases "f0 = []")
    case True
    then show ?thesis using w by (simp add: trim_point_def decimal_value_none)
  next
    case False
    then have "last f0 \<noteq> CHR ''.''"
      using f0 digit_chars by (metis last_in_set list_all_iff)
    with False show ?thesis using w by (simp add: trim_point_def decimal_value_at)
  qed
  also have "\<dots> = of_nat (dval (w @ f)) / 10 ^ length f"
    by (simp add: ff dval_append [of "w @ f0" "replicate k CHR ''0''", simplified] power_add)
  finally show ?thesis using trim by simp
qed

lemma decimal_normalize_value:
  assumes sp: "split_point s = (w, f)" and w: "digits_only w" and f: "digits_only f"
    and len: "length f < 2 ^ 63"
  shows "decimal_value (decimal_normalize s) = of_nat (dval (w @ f)) / 10 ^ length f"
proof -
  let ?ds = "strip_zeros (w @ f)"
  note parts = decimal_parts_plain [OF assms]
  have ds: "digits_only ?ds" and dv: "dval ?ds = dval (w @ f)"
    using w f by (simp_all add: digits_only_strip_zeros strip_zeros_value)
  consider (zero) "length f = 0" | (pad) "length f \<noteq> 0" "length ?ds \<le> length f"
    | (cut) "length f \<noteq> 0" "length ?ds > length f" by linarith
  then show ?thesis
  proof cases
    case zero
    with ds dv show ?thesis
      by (simp add: decimal_normalize_def parts decimal_value_none)
  next
    case pad
    let ?f = "replicate (length f - length ?ds) CHR ''0'' @ ?ds"
    have "decimal_normalize s = trim_point (trim_zeros_end (''0'' @ CHR ''.'' # ?f))"
      using pad by (simp add: decimal_normalize_def parts Let_def)
    moreover have "dval (''0'' @ ?f) = dval (w @ f)"
      using dval_append [of "replicate (length f - length ?ds) CHR ''0''" ?ds] dv by simp
    ultimately show ?thesis
      using trim_end_value [of "''0''" ?f] ds pad by simp
  next
    case cut
    let ?n = "length ?ds - length f"
    have "decimal_normalize s = trim_point (trim_zeros_end (take ?n ?ds @ CHR ''.'' # drop ?n ?ds))"
      using cut by (simp add: decimal_normalize_def parts Let_def)
    moreover have "digits_only (take ?n ?ds)" "digits_only (drop ?n ?ds)"
      using ds by (metis append_take_drop_id digits_only_append)+
    ultimately show ?thesis
      using trim_end_value [of "take ?n ?ds" "drop ?n ?ds"] dv cut by simp
  qed
qed

text \<open>The digits and scale that \<open>decimal_add\<close> reads from a plain decimal spell its value.\<close>

lemma decimal_parts_spell:
  assumes "plain_decimal s"
  obtains ds n where "decimal_parts s = (ds, n)" "digits_only ds" "n < 2 ^ 62"
    "decimal_value s = of_nat (dval ds) / 10 ^ n"
proof -
  obtain w f where sp: "split_point s = (w, f)" by (cases "split_point s")
  with assms have w: "digits_only w" and f: "digits_only f" and l: "length s < 2 ^ 62"
    by (simp_all add: plain_decimal_def)
  have "length f \<le> length s"
    using sp by (auto simp: split_point_def split: option.splits dest!: split_once_Some)
  with l have n: "length f < 2 ^ 62" by simp
  then have "length f < 2 ^ 63" by simp
  note parts = decimal_parts_plain [OF sp w f this]
  have "decimal_value s = of_nat (dval (strip_zeros (w @ f))) / 10 ^ length f"
    by (simp add: decimal_value_def sp strip_zeros_value)
  with parts n w f that show ?thesis
    by (simp add: digits_only_strip_zeros)
qed

lemma insert_point_value:
  assumes ds: "digits_only ds" and n: "n < 2 ^ 62"
  defines "out \<equiv> (if n \<noteq> 0 then
      (let padded = (if length ds \<le> n then replicate (n + 1 - length ds) CHR ''0'' @ ds else ds)
       in take (length padded - n) padded @ ''.'' @ drop (length padded - n) padded)
      else ds)"
  shows "decimal_value (decimal_normalize out) = of_nat (dval ds) / 10 ^ n"
proof (cases "n = 0")
  case True
  then have "split_point out = (ds, [])"
    using ds by (simp add: out_def split_point_none)
  from decimal_normalize_value [OF this ds] True show ?thesis by simp
next
  case False
  define p where "p = (if length ds \<le> n then replicate (n + 1 - length ds) CHR ''0'' @ ds else ds)"
  have p: "digits_only p" "dval p = dval ds" "n < length p"
    using ds dval_append [of "replicate (n + 1 - length ds) CHR ''0''" ds]
    by (auto simp: p_def)
  let ?w = "take (length p - n) p" and ?f = "drop (length p - n) p"
  have wf: "digits_only ?w" "digits_only ?f"
    using p(1) by (metis append_take_drop_id digits_only_append)+
  have "out = ?w @ CHR ''.'' # ?f"
    using False by (simp add: out_def p_def Let_def)
  then have "split_point out = (?w, ?f)"
    using wf by (simp add: split_point_at)
  moreover have "length ?f = n" using p(3) by simp
  ultimately show ?thesis
    using decimal_normalize_value [of out ?w ?f] wf n p(2) by simp
qed

lemma scale_up: "dval (ds @ replicate (m - n) CHR ''0'') = dval ds * 10 ^ (m - n)"
  using dval_append [of ds "replicate (m - n) CHR ''0''"] by simp

lemma scaled_fraction:
  "n \<le> m \<Longrightarrow> (of_nat (a * 10 ^ (m - n)) :: rat) / 10 ^ m = of_nat a / 10 ^ n"
  by (simp add: field_simps flip: power_add)

lemma decimal_add_exact:
  assumes "plain_decimal a" and "plain_decimal b"
  shows "decimal_value (decimal_add a b) = decimal_value a + decimal_value b"
proof -
  obtain da na where a: "decimal_parts a = (da, na)" "digits_only da" "na < 2 ^ 62"
    "decimal_value a = of_nat (dval da) / 10 ^ na"
    using assms(1) by (rule decimal_parts_spell)
  obtain db nb where b: "decimal_parts b = (db, nb)" "digits_only db" "nb < 2 ^ 62"
    "decimal_value b = of_nat (dval db) / 10 ^ nb"
    using assms(2) by (rule decimal_parts_spell)
  define m where "m = max na nb"
  let ?l = "da @ replicate (m - na) CHR ''0''" and ?r = "db @ replicate (m - nb) CHR ''0''"
  define out where "out = rev (add_digits 0 (rev ?l) (rev ?r))"
  have sum: "lval (add_digits 0 (rev ?l) (rev ?r)) = lval (rev ?l) + lval (rev ?r)"
    and out: "digits_only out"
    using add_digits_value [of "rev ?l" "rev ?r" 0] a(2) b(2) by (simp_all add: out_def)
  have "dval out = dval ?l + dval ?r"
    using sum by (simp only: out_def dval_lval rev_rev_ident)
  then have "dval out = dval da * 10 ^ (m - na) + dval db * 10 ^ (m - nb)"
    by (simp only: scale_up)
  moreover have "decimal_value (decimal_add a b) = of_nat (dval out) / 10 ^ m"
  proof -
    have "m < 2 ^ 62" using a(3) b(3) by (simp add: m_def)
    note insert_point_value [OF out this]
    moreover have "decimal_add a b = decimal_normalize (if m \<noteq> 0 then
        (let padded = (if length out \<le> m then replicate (m + 1 - length out) CHR ''0'' @ out else out)
         in take (length padded - m) padded @ ''.'' @ drop (length padded - m) padded)
        else out)"
      by (simp only: decimal_add_def a(1) b(1) prod.case m_def out_def Let_def)
    ultimately show ?thesis by (simp only:)
  qed
  ultimately have "decimal_value (decimal_add a b) =
      of_nat (dval da * 10 ^ (m - na)) / 10 ^ m + of_nat (dval db * 10 ^ (m - nb)) / 10 ^ m"
    by (simp add: add_divide_distrib)
  then show ?thesis
    using scaled_fraction [of na m "dval da"] scaled_fraction [of nb m "dval db"] a(4) b(4)
    by (simp add: m_def)
qed

end
