(* ===== verification/Lane_Reduction.thy ===== *)
theory Lane_Reduction
  imports Session_Usage
begin

text \<open>
  The pure lane reducer of \<open>crates/tea-session/src/reduction.rs\<close>. The local variables of
  \<open>reduce_lane_prefix\<close> are the record \<open>reducer\<close>; each arm of its loop is one definition that
  returns the updated record or the corruption the source reports; the part after the loop
  is \<open>finish_reduction\<close>. A corruption keeps the identities of the source's message; \<open>Panic\<close>
  is an \<open>expect\<close> that would abort.

  The JSON text encoder and BLAKE3 are packages: they are the two fields of the argument
  \<open>cx\<close>.
\<close>

record codec =
  cx_miniserde :: "json_value \<Rightarrow> string"
  cx_blake3 :: "u8 list \<Rightarrow> digest"

section \<open>Corruptions\<close>

datatype timeline_corruption =
    SequenceNotConsecutive sequence sequence
  | LastSequenceDisagrees
  | UnknownLane lane_id

datatype entry_corruption =
    DuplicateLane lane_id
  | MissingBaseEntry lane_id entry_id
  | CompactionNull
  | CompactionEncoding
  | CompactionDigest
  | CompactionRequest provider_request_id
  | EntryUnknownLane entry_id lane_id
  | EntryStaleParent entry_id lane_id
  | DuplicateEntry entry_id
  | ProvisionedContent entry_id
  | MissingParent entry_id entry_id
  | LeafMissingEntry entry_id
  | ChainDiverges

datatype operation_corruption =
    UnknownOperation operation_id
  | TerminalOperation operation_id
  | DuplicateOperation operation_id
  | OperationUnknownLane operation_id lane_id
  | OperationStaleLeaf operation_id
  | LaneBusy lane_id
  | ProvisionsMaterialized operation_id entry_id
  | ProvisionedConflict entry_id
  | ProvisionedTwice entry_id
  | InputLengths operation_id
  | InputMembership operation_id
  | InputUnaccepted operation_id entry_id
  | InputUnavailable operation_id entry_id
  | FinishedWithOpenEpoch operation_id
  | NotActiveAtFinish operation_id

datatype epoch_corruption =
    EpochAlreadyOpen operation_id
  | EpochIndex epoch_id u32
  | DuplicateEpoch epoch_id
  | EpochNotOpen epoch_id operation_id
  | StepInvalidEpoch step_id epoch_id
  | StepAfterEpoch step_id
  | StepRepeated step_id
  | StepAttempt step_id u32

datatype effect_corruption =
    RequestEpoch provider_request_id
  | RequestStep provider_request_id step_id
  | DuplicateRequest provider_request_id
  | SettlementWithoutIntent provider_request_id
  | SettlementInvalid provider_request_id
  | MaterialWithoutIntent provider_request_id
  | MaterialInvalid provider_request_id
  | ToolEpoch record_id
  | ToolEmptyIdentity record_id
  | ToolMissingAssistant record_id entry_id
  | ToolSourceNotAssistant record_id
  | ToolOrdinalAbsent record_id u32
  | ToolCallMismatch record_id
  | ToolStartedTwice entry_id u32
  | ToolResultReused entry_id
  | ToolResultBody entry_id
  | ToolResultDisagrees entry_id
  | ToolResultUnmatched entry_id

datatype input_corruption =
    InputUnknownLane entry_id lane_id
  | InputNotUser entry_id
  | InputAcceptedTwice entry_id
  | WithdrawnBeforeAcceptance entry_id
  | WithdrawnNotPending entry_id lane_id
  | SettlesUnknownOperation entry_id operation_id
  | SettlesContrary entry_id operation_id
  | SettledWithoutAcceptance entry_id
  | SettledNotDispatched entry_id operation_id

datatype extension_corruption =
    ExtensionIdentifier string
  | ExtensionEncoding
  | ExtensionTooLarge nat
  | ControlAcceptedTwice string
  | ControlNotAccepted string
  | ControlUnknownOperation string
  | ControlBeforeSettlement string
  | StateUnknownLane lane_id

datatype checkpoint_corruption =
    CheckpointTwice turn_checkpoint_id
  | CheckpointNotFollowing turn_checkpoint_id operation_id
  | CheckpointUnknownOperation turn_checkpoint_id operation_id
  | CheckpointNotSettled turn_checkpoint_id
  | CheckpointLeaf turn_checkpoint_id
  | CheckpointUnresolved turn_checkpoint_id operation_id
  | CheckpointState turn_checkpoint_id
  | ForkUnknownCheckpoint lane_id turn_checkpoint_id
  | ForkNotFresh lane_id
  | AgentSpawnedTwice agent_id
  | ActivationTwice
  | ActivationRevision
  | ActivationType

datatype corruption =
    TimelineC timeline_corruption
  | EntryC entry_corruption
  | OperationC operation_corruption
  | EpochC epoch_corruption
  | EffectC effect_corruption
  | InputC input_corruption
  | ExtensionC extension_corruption
  | CheckpointC checkpoint_corruption
  | Panic

section \<open>The reducer's state\<close>

record operation_state =
  st_lane_id :: lane_id
  st_original_input :: "provisioned_entry list"
  st_finished :: bool
  st_op_outcome :: "operation_outcome option"
  st_epoch_ids :: "epoch_id list"
  st_open_epochs :: "epoch_id set"
  st_entry_ids :: "entry_id list"

record reducer =
  rd_lane_leaves :: "(lane_id, entry_id option) btree"
  rd_entries :: "(entry_id, stored_entry) btree"
  rd_operations :: "(operation_id, operation_state) btree"
  rd_active_operations :: "(lane_id, operation_id) btree"
  rd_epochs :: "(epoch_id, operation_id) btree"
  rd_step_attempts :: "(operation_id \<times> epoch_id \<times> step_kind, step_id \<times> u32) btree"
  rd_steps :: "(step_id, operation_id \<times> epoch_id \<times> step_kind) btree"
  rd_provisioned_entries :: "(entry_id, provisioned_entry) btree"
  rd_tool_starts :: "(sequence \<times> tool_started_record) list"
  rd_provider_starts :: "(provider_request_id, provider_request_started_record) btree"
  rd_provider_settled :: "(provider_request_id, provider_settlement_classification) btree"
  rd_provider_material :: "provider_request_id set"
  rd_compaction_requests :: "provider_request_id set"
  rd_input_states :: "(entry_id, input_state) btree"
  rd_input_order :: "entry_id list"
  rd_extension_controls :: "(string, pending_extension_control) btree"
  rd_applied_controls :: "string set"
  rd_extension_state :: "(lane_id, extension_state) btree"
  rd_checkpoints :: "(turn_checkpoint_id, turn_checkpoint_fact) btree"
  rd_forked_lanes :: "lane_id set"
  rd_fresh_lanes :: "lane_id set"
  rd_child_spawns :: "(agent_id, operation_id \<times> sequence) btree"
  rd_child_terminal :: "agent_id set"
  rd_checkpoint_ready_for :: "operation_id option"
  rd_deferred_writes :: "pending_write list"
  rd_activation_requests :: "harness_activation_requested_record list"
  rd_usage_by_lane :: "(lane_id, usage) btree"
  rd_observed_sequence :: sequence
  rd_observed_item_index :: u64

definition initial_reducer :: "session_header \<Rightarrow> reducer" where
  "initial_reducer header =
     \<lparr>rd_lane_leaves = [(sh_initial_lane header, None)], rd_entries = [], rd_operations = [],
      rd_active_operations = [], rd_epochs = [], rd_step_attempts = [], rd_steps = [],
      rd_provisioned_entries = [], rd_tool_starts = [], rd_provider_starts = [],
      rd_provider_settled = [], rd_provider_material = {}, rd_compaction_requests = {},
      rd_input_states = [], rd_input_order = [], rd_extension_controls = [],
      rd_applied_controls = {}, rd_extension_state = [(sh_initial_lane header, [])],
      rd_checkpoints = [], rd_forked_lanes = {}, rd_fresh_lanes = {}, rd_child_spawns = [],
      rd_child_terminal = {}, rd_checkpoint_ready_for = None, rd_deferred_writes = [],
      rd_activation_requests = [], rd_usage_by_lane = [], rd_observed_sequence = 0,
      rd_observed_item_index = 0\<rparr>"

section \<open>Shared checks\<close>

definition open_operation ::
    "(operation_id, operation_state) btree \<Rightarrow> operation_id \<Rightarrow> (corruption, operation_state) result" where
  "open_operation operations i =
     (case btree_get operations i of
        None \<Rightarrow> Err (OperationC (UnknownOperation i))
      | Some operation \<Rightarrow>
          if st_finished operation then Err (OperationC (TerminalOperation i)) else Ok operation)"

definition validate_bounded_extension_identifier :: "string \<Rightarrow> string \<Rightarrow> (corruption, unit) result"
  where
  "validate_bounded_extension_identifier label value =
     (if value = [] \<or> length value > 200 \<or> has_control value
      then Err (ExtensionC (ExtensionIdentifier label)) else Ok ())"

definition validate_encoded_size :: "codec \<Rightarrow> json_value \<Rightarrow> (corruption, unit) result" where
  "validate_encoded_size cx v =
     (case to_json_string (cx_miniserde cx) v of
        Inl _ \<Rightarrow> Err (ExtensionC ExtensionEncoding)
      | Inr text \<Rightarrow>
          if length text > 64 * 1024 then Err (ExtensionC (ExtensionTooLarge (length text)))
          else Ok ())"

definition validate_extension_state_value ::
    "codec \<Rightarrow> extension_state_value_set_fact \<Rightarrow> (corruption, unit) result" where
  "validate_extension_state_value cx f =
     and_then (validate_bounded_extension_identifier ''extension state namespace''
                 (xs_extension_id f)) (\<lambda>_.
     and_then (validate_bounded_extension_identifier ''extension state version''
                 (xs_state_version f)) (\<lambda>_.
     validate_encoded_size cx (xs_value f)))"

definition validate_extension_control ::
    "codec \<Rightarrow> extension_control_enqueued_record \<Rightarrow> (corruption, unit) result" where
  "validate_extension_control cx record =
     and_then (validate_bounded_extension_identifier ''extension control ID''
                 (xc_control_id record)) (\<lambda>_.
     and_then (validate_bounded_extension_identifier ''extension control extension ID''
                 (xc_extension_id record)) (\<lambda>_.
     and_then (validate_bounded_extension_identifier ''extension control command name''
                 (xc_command_name record)) (\<lambda>_.
     validate_encoded_size cx (xc_arguments record))))"

fun replacement_digest :: "codec \<Rightarrow> payload_ref \<Rightarrow> (corruption, digest) result" where
  "replacement_digest cx (Inline v) =
     (if v = JNull then Err (EntryC CompactionNull)
      else (case to_json_string (cx_miniserde cx) v of
              Inl _ \<Rightarrow> Err (EntryC CompactionEncoding)
            | Inr canonical \<Rightarrow> Ok (cx_blake3 cx (str_bytes canonical))))"
| "replacement_digest cx (Artifact i _ _) = Ok i"

definition validate_compaction_replacement ::
    "codec \<Rightarrow> compaction_entry \<Rightarrow> (corruption, unit) result" where
  "validate_compaction_replacement cx entry =
     and_then (replacement_digest cx (ce_replacement entry)) (\<lambda>digest.
       if digest \<noteq> ce_replacement_digest entry then Err (EntryC CompactionDigest) else Ok ())"

section \<open>Lane creation and entries\<close>

definition check_base_leaf ::
    "reducer \<Rightarrow> lane_id \<Rightarrow> entry_id option \<Rightarrow> (corruption, unit) result" where
  "check_base_leaf st lane_id base_leaf_id =
     (case base_leaf_id of
        None \<Rightarrow> Ok ()
      | Some base \<Rightarrow>
          if \<not> btree_contains (rd_entries st) base
          then Err (EntryC (MissingBaseEntry lane_id base)) else Ok ())"

fun step_lane :: "reducer \<Rightarrow> lane_mutation \<Rightarrow> (corruption, reducer) result" where
  "step_lane st (Created lane_id base_leaf_id) =
     (if btree_contains (rd_lane_leaves st) lane_id then Err (EntryC (DuplicateLane lane_id))
      else and_then (check_base_leaf st lane_id base_leaf_id) (\<lambda>_.
        Ok (st\<lparr>rd_lane_leaves := btree_insert lane_id base_leaf_id (rd_lane_leaves st),
               rd_extension_state := btree_insert lane_id [] (rd_extension_state st),
               rd_fresh_lanes := insert lane_id (rd_fresh_lanes st)\<rparr>)))"

text \<open>The request of a compaction entry: started by a compaction step, materialized, completed.\<close>

definition is_completed_compaction_request :: "reducer \<Rightarrow> provider_request_id \<Rightarrow> bool" where
  "is_completed_compaction_request st request_id =
     (case btree_get (rd_provider_starts st) request_id of
        None \<Rightarrow> False
      | Some request \<Rightarrow>
          (case btree_get (rd_steps st) (pr_step_id request) of
             None \<Rightarrow> False
           | Some (operation_id, epoch_id, k) \<Rightarrow>
               operation_id = pr_operation_id request \<and> epoch_id = pr_epoch_id request \<and>
               k = CompactionStep))"

definition step_compaction :: "codec \<Rightarrow> reducer \<Rightarrow> session_entry \<Rightarrow> (corruption, reducer) result" where
  "step_compaction cx st body =
     (case body of
        Compaction compaction \<Rightarrow>
          and_then (validate_compaction_replacement cx compaction) (\<lambda>_.
            (case ce_provider_request_id compaction of
               None \<Rightarrow> Ok st
             | Some request_id \<Rightarrow>
                 if \<not> is_completed_compaction_request st request_id \<or>
                    request_id \<notin> rd_provider_material st \<or>
                    btree_get (rd_provider_settled st) request_id \<noteq> Some Completed_request \<or>
                    request_id \<in> rd_compaction_requests st
                 then Err (EntryC (CompactionRequest request_id))
                 else Ok (st\<lparr>rd_compaction_requests :=
                               insert request_id (rd_compaction_requests st)\<rparr>)))
      | _ \<Rightarrow> Ok st)"

definition provisioned_differs :: "reducer \<Rightarrow> entry_id \<Rightarrow> session_entry \<Rightarrow> bool" where
  "provisioned_differs st i body =
     (case btree_get (rd_provisioned_entries st) i of
        None \<Rightarrow> False
      | Some provisioned \<Rightarrow> pe_body provisioned \<noteq> body)"

definition parent_missing :: "reducer \<Rightarrow> entry_id option \<Rightarrow> bool" where
  "parent_missing st parent =
     (case parent of None \<Rightarrow> False | Some p \<Rightarrow> \<not> btree_contains (rd_entries st) p)"

definition note_operation_entry :: "reducer \<Rightarrow> lane_id \<Rightarrow> entry_id \<Rightarrow> (corruption, reducer) result"
  where
  "note_operation_entry st lane_id i =
     (case btree_get (rd_active_operations st) lane_id of
        None \<Rightarrow> Ok st
      | Some operation_id \<Rightarrow>
          (case btree_get (rd_operations st) operation_id of
             None \<Rightarrow> Err Panic
           | Some operation \<Rightarrow>
               Ok (st\<lparr>rd_operations := btree_insert operation_id
                     (operation\<lparr>st_entry_ids := st_entry_ids operation @ [i]\<rparr>)
                     (rd_operations st)\<rparr>)))"

definition step_entry :: "codec \<Rightarrow> reducer \<Rightarrow> stored_entry \<Rightarrow> (corruption, reducer) result" where
  "step_entry cx st0 stored =
     (let lane = se_lane_id stored; i = eh_id (se_header stored);
          parent = eh_parent_id (se_header stored) in
      and_then (step_compaction cx
                  (st0\<lparr>rd_fresh_lanes := rd_fresh_lanes st0 - {lane}\<rparr>) (se_body stored)) (\<lambda>st.
      (case btree_get (rd_lane_leaves st) lane of
         None \<Rightarrow> Err (EntryC (EntryUnknownLane i lane))
       | Some current_leaf \<Rightarrow>
           if parent \<noteq> current_leaf then Err (EntryC (EntryStaleParent i lane))
           else if btree_contains (rd_entries st) i then Err (EntryC (DuplicateEntry i))
           else if provisioned_differs st i (se_body stored) then Err (EntryC (ProvisionedContent i))
           else if parent_missing st parent then Err (EntryC (MissingParent i (the parent)))
           else and_then (note_operation_entry st lane i) (\<lambda>st.
             Ok (st\<lparr>rd_lane_leaves := btree_insert lane (Some i) (rd_lane_leaves st),
                    rd_entries := btree_insert i stored (rd_entries st)\<rparr>)))))"

section \<open>Operation records\<close>

definition provision_input ::
    "operation_id \<Rightarrow> (entry_id, stored_entry) btree \<Rightarrow> (entry_id, provisioned_entry) btree \<Rightarrow>
     provisioned_entry \<Rightarrow> (corruption, (entry_id, provisioned_entry) btree) result" where
  "provision_input operation_id entries provisioned_entries provisioned =
     (if btree_contains entries (pe_id provisioned)
      then Err (OperationC (ProvisionsMaterialized operation_id (pe_id provisioned)))
      else (case btree_get provisioned_entries (pe_id provisioned) of
              Some existing \<Rightarrow>
                if existing \<noteq> provisioned
                then Err (OperationC (ProvisionedConflict (pe_id provisioned)))
                else Err (OperationC (ProvisionedTwice (pe_id provisioned)))
            | None \<Rightarrow> Ok (btree_insert (pe_id provisioned) provisioned provisioned_entries)))"

text \<open>One member of the dispatched input group; the set holds the identities seen so far.\<close>

definition dispatch_input ::
    "operation_started_record \<Rightarrow> (entry_id, input_state) btree \<times> entry_id set \<Rightarrow>
     entry_id \<times> provisioned_entry \<Rightarrow>
     (corruption, (entry_id, input_state) btree \<times> entry_id set) result" where
  "dispatch_input record acc member =
     (case acc of (input_states, seen) \<Rightarrow> case member of (input_id, provisioned) \<Rightarrow>
        if input_id \<noteq> pe_id provisioned \<or> input_id \<in> seen
        then Err (OperationC (InputMembership (os_id record)))
        else (case btree_get input_states input_id of
                None \<Rightarrow> Err (OperationC (InputUnaccepted (os_id record) input_id))
              | Some input \<Rightarrow>
                  if ai_lane_id (in_accepted input) \<noteq> os_lane_id record \<or>
                     ai_entry (in_accepted input) \<noteq> provisioned \<or>
                     in_status input \<noteq> Pending
                  then Err (OperationC (InputUnavailable (os_id record) input_id))
                  else Ok (btree_insert input_id
                             (input\<lparr>in_status := Dispatched (os_id record)\<rparr>) input_states,
                           insert input_id seen)))"

definition dispatch_inputs ::
    "operation_started_record \<Rightarrow> (entry_id, input_state) btree \<Rightarrow>
     (corruption, (entry_id, input_state) btree) result" where
  "dispatch_inputs record input_states =
     (if os_input_ids record = [] then Ok input_states
      else if length (os_input_ids record) \<noteq> length (os_original_input record)
      then Err (OperationC (InputLengths (os_id record)))
      else and_then (try_fold (dispatch_input record) (input_states, {})
                       (zip (os_input_ids record) (os_original_input record)))
             (\<lambda>acc. Ok (fst acc)))"

definition fresh_operation_state :: "operation_started_record \<Rightarrow> operation_state" where
  "fresh_operation_state record =
     \<lparr>st_lane_id = os_lane_id record, st_original_input = os_original_input record,
      st_finished = False, st_op_outcome = None, st_epoch_ids = [], st_open_epochs = {},
      st_entry_ids = []\<rparr>"

definition step_operation_started ::
    "reducer \<Rightarrow> operation_started_record \<Rightarrow> (corruption, reducer) result" where
  "step_operation_started st0 record =
     (let st = st0\<lparr>rd_fresh_lanes := rd_fresh_lanes st0 - {os_lane_id record}\<rparr> in
      if btree_contains (rd_operations st) (os_id record)
      then Err (OperationC (DuplicateOperation (os_id record)))
      else (case btree_get (rd_lane_leaves st) (os_lane_id record) of
         None \<Rightarrow> Err (OperationC (OperationUnknownLane (os_id record) (os_lane_id record)))
       | Some current_leaf \<Rightarrow>
           if os_source_leaf_id record \<noteq> current_leaf
           then Err (OperationC (OperationStaleLeaf (os_id record)))
           else if btree_contains (rd_active_operations st) (os_lane_id record)
           then Err (OperationC (LaneBusy (os_lane_id record)))
           else
             and_then (try_fold (provision_input (os_id record) (rd_entries st))
                         (rd_provisioned_entries st) (os_original_input record)) (\<lambda>provisioned.
             and_then (dispatch_inputs record (rd_input_states st)) (\<lambda>inputs.
               Ok (st\<lparr>rd_active_operations :=
                         btree_insert (os_lane_id record) (os_id record) (rd_active_operations st),
                      rd_provisioned_entries := provisioned,
                      rd_input_states := inputs,
                      rd_operations := btree_insert (os_id record)
                         (fresh_operation_state record) (rd_operations st)\<rparr>)))))"

definition step_operation_finished ::
    "reducer \<Rightarrow> operation_finished_record \<Rightarrow> (corruption, reducer) result" where
  "step_operation_finished st record =
     and_then (open_operation (rd_operations st) (of_operation_id record)) (\<lambda>operation.
       if st_open_epochs operation \<noteq> {}
       then Err (OperationC (FinishedWithOpenEpoch (of_operation_id record)))
       else if btree_get (rd_active_operations st) (st_lane_id operation)
               \<noteq> Some (of_operation_id record)
       then Err (OperationC (NotActiveAtFinish (of_operation_id record)))
       else Ok (st\<lparr>rd_operations := btree_insert (of_operation_id record)
                     (operation\<lparr>st_finished := True, st_op_outcome := Some (of_outcome record)\<rparr>)
                     (rd_operations st),
                   rd_active_operations :=
                     btree_remove (st_lane_id operation) (rd_active_operations st),
                   rd_checkpoint_ready_for := Some (of_operation_id record)\<rparr>))"

definition step_epoch_started ::
    "reducer \<Rightarrow> epoch_started_record \<Rightarrow> (corruption, reducer) result" where
  "step_epoch_started st record =
     and_then (open_operation (rd_operations st) (es_operation_id record)) (\<lambda>operation.
       if st_open_epochs operation \<noteq> {}
       then Err (EpochC (EpochAlreadyOpen (es_operation_id record)))
       else if es_epoch_index record \<noteq> of_nat (length (st_epoch_ids operation))
       then Err (EpochC (EpochIndex (es_id record) (es_epoch_index record)))
       else if btree_contains (rd_epochs st) (es_id record)
       then Err (EpochC (DuplicateEpoch (es_id record)))
       else Ok (st\<lparr>rd_epochs := btree_insert (es_id record) (es_operation_id record) (rd_epochs st),
                   rd_operations := btree_insert (es_operation_id record)
                     (operation\<lparr>st_epoch_ids := st_epoch_ids operation @ [es_id record],
                        st_open_epochs := insert (es_id record) (st_open_epochs operation)\<rparr>)
                     (rd_operations st)\<rparr>))"

definition step_epoch_finished ::
    "reducer \<Rightarrow> epoch_finished_record \<Rightarrow> (corruption, reducer) result" where
  "step_epoch_finished st record =
     and_then (open_operation (rd_operations st) (ef_operation_id record)) (\<lambda>operation.
       if btree_get (rd_epochs st) (ef_epoch_id record) \<noteq> Some (ef_operation_id record) \<or>
          ef_epoch_id record \<notin> st_open_epochs operation
       then Err (EpochC (EpochNotOpen (ef_epoch_id record) (ef_operation_id record)))
       else Ok (st\<lparr>rd_operations := btree_insert (ef_operation_id record)
                     (operation\<lparr>st_open_epochs := st_open_epochs operation - {ef_epoch_id record}\<rparr>)
                     (rd_operations st)\<rparr>))"

definition step_key :: "step_attempted_record \<Rightarrow> operation_id \<times> epoch_id \<times> step_kind" where
  "step_key record = (sa_operation_id record, sa_epoch_id record, sa_kind record)"

text \<open>Attempts of one step class count up by one under fresh step identities.\<close>

definition attempt_follows ::
    "(step_id \<times> u32) option \<Rightarrow> step_attempted_record \<Rightarrow> (corruption, unit) result" where
  "attempt_follows previous record =
     (case previous of
        None \<Rightarrow> if sa_attempt record = 1 then Ok ()
                else Err (EpochC (StepAttempt (sa_id record) (sa_attempt record)))
      | Some (previous_id, previous_attempt) \<Rightarrow>
          if sa_attempt record = saturating_add previous_attempt 1 \<and> sa_id record \<noteq> previous_id
          then Ok ()
          else if sa_id record = previous_id then Err (EpochC (StepRepeated (sa_id record)))
          else Err (EpochC (StepAttempt (sa_id record) (sa_attempt record))))"

definition step_step_attempted ::
    "reducer \<Rightarrow> step_attempted_record \<Rightarrow> (corruption, reducer) result" where
  "step_step_attempted st record =
     and_then (open_operation (rd_operations st) (sa_operation_id record)) (\<lambda>operation.
       if btree_get (rd_epochs st) (sa_epoch_id record) \<noteq> Some (sa_operation_id record)
       then Err (EpochC (StepInvalidEpoch (sa_id record) (sa_epoch_id record)))
       else if sa_epoch_id record \<notin> st_open_epochs operation
       then Err (EpochC (StepAfterEpoch (sa_id record)))
       else if btree_contains (rd_steps st) (sa_id record)
       then Err (EpochC (StepRepeated (sa_id record)))
       else and_then (attempt_follows (btree_get (rd_step_attempts st) (step_key record)) record)
         (\<lambda>_. Ok (st\<lparr>rd_steps := btree_insert (sa_id record) (step_key record) (rd_steps st),
                       rd_step_attempts := btree_insert (step_key record)
                         (sa_id record, sa_attempt record) (rd_step_attempts st)\<rparr>)))"

section \<open>Effect records\<close>

definition owns_step :: "(operation_id \<times> epoch_id \<times> step_kind) option \<Rightarrow> operation_id \<Rightarrow> epoch_id \<Rightarrow> bool"
  where
  "owns_step step operation_id epoch_id =
     (case step of None \<Rightarrow> False | Some (op, ep, _) \<Rightarrow> op = operation_id \<and> ep = epoch_id)"

definition step_provider_request_started ::
    "reducer \<Rightarrow> provider_request_started_record \<Rightarrow> (corruption, reducer) result" where
  "step_provider_request_started st record =
     and_then (open_operation (rd_operations st) (pr_operation_id record)) (\<lambda>operation.
       if btree_get (rd_epochs st) (pr_epoch_id record) \<noteq> Some (pr_operation_id record) \<or>
          pr_epoch_id record \<notin> st_open_epochs operation
       then Err (EffectC (RequestEpoch (pr_request_id record)))
       else if \<not> owns_step (btree_get (rd_steps st) (pr_step_id record))
                  (pr_operation_id record) (pr_epoch_id record)
       then Err (EffectC (RequestStep (pr_request_id record) (pr_step_id record)))
       else if btree_contains (rd_provider_starts st) (pr_request_id record)
       then Err (EffectC (DuplicateRequest (pr_request_id record)))
       else Ok (st\<lparr>rd_provider_starts :=
                     btree_insert (pr_request_id record) record (rd_provider_starts st)\<rparr>))"

definition step_provider_request_settled ::
    "reducer \<Rightarrow> provider_request_settled_record \<Rightarrow> (corruption, reducer) result" where
  "step_provider_request_settled st record =
     and_then (open_operation (rd_operations st) (st_operation_id record)) (\<lambda>_.
       (case btree_get (rd_provider_starts st) (st_request_id record) of
          None \<Rightarrow> Err (EffectC (SettlementWithoutIntent (st_request_id record)))
        | Some start \<Rightarrow>
            if pr_operation_id start \<noteq> st_operation_id record \<or>
               btree_contains (rd_provider_settled st) (st_request_id record)
            then Err (EffectC (SettlementInvalid (st_request_id record)))
            else Ok (st\<lparr>rd_provider_settled := btree_insert (st_request_id record)
                          (st_classification record) (rd_provider_settled st)\<rparr>)))"

definition validate_tool_started ::
    "tool_started_record \<Rightarrow> (entry_id, stored_entry) btree \<Rightarrow>
     (sequence \<times> tool_started_record) list \<Rightarrow> (corruption, unit) result" where
  "validate_tool_started record entries prior =
     (if ts_tool_call_id record = [] \<or> ts_tool_name record = [] \<or> ts_idempotency_key record = []
      then Err (EffectC (ToolEmptyIdentity (ts_record_id record)))
      else (case btree_get entries (ts_assistant_entry_id record) of
         None \<Rightarrow> Err (EffectC (ToolMissingAssistant (ts_record_id record)
                                (ts_assistant_entry_id record)))
       | Some entry \<Rightarrow>
          (case se_body entry of
             AssistantMessage assistant \<Rightarrow>
              (case at_index (am_tool_calls assistant) (unat (ts_tool_index record)) of
                 None \<Rightarrow> Err (EffectC (ToolOrdinalAbsent (ts_record_id record)
                                        (ts_tool_index record)))
               | Some call \<Rightarrow>
                   if tc_id call \<noteq> ts_tool_call_id record \<or> tc_name call \<noteq> ts_tool_name record
                   then Err (EffectC (ToolCallMismatch (ts_record_id record)))
                   else if list_ex (\<lambda>(_, p).
                             ts_assistant_entry_id p = ts_assistant_entry_id record \<and>
                             ts_tool_index p = ts_tool_index record) prior
                   then Err (EffectC (ToolStartedTwice (ts_assistant_entry_id record)
                                        (ts_tool_index record)))
                   else if list_ex (\<lambda>(_, p).
                             ts_result_entry_id p = ts_result_entry_id record) prior
                   then Err (EffectC (ToolResultReused (ts_result_entry_id record)))
                   else Ok ())
           | _ \<Rightarrow> Err (EffectC (ToolSourceNotAssistant (ts_record_id record))))))"

definition step_tool_started ::
    "reducer \<Rightarrow> sequence \<Rightarrow> tool_started_record \<Rightarrow> (corruption, reducer) result" where
  "step_tool_started st seq record =
     and_then (open_operation (rd_operations st) (ts_operation_id record)) (\<lambda>operation.
       if btree_get (rd_epochs st) (ts_epoch_id record) \<noteq> Some (ts_operation_id record) \<or>
          ts_epoch_id record \<notin> st_open_epochs operation
       then Err (EffectC (ToolEpoch (ts_record_id record)))
       else and_then (validate_tool_started record (rd_entries st) (rd_tool_starts st)) (\<lambda>_.
         Ok (st\<lparr>rd_tool_starts := rd_tool_starts st @ [(seq, record)]\<rparr>)))"

section \<open>Input records\<close>

definition is_user_message :: "session_entry \<Rightarrow> bool" where
  "is_user_message body = (case body of UserMessage _ \<Rightarrow> True | _ \<Rightarrow> False)"

definition step_input_accepted ::
    "reducer \<Rightarrow> sequence \<Rightarrow> input_accepted_record \<Rightarrow> (corruption, reducer) result" where
  "step_input_accepted st0 seq record =
     (let st = st0\<lparr>rd_fresh_lanes := rd_fresh_lanes st0 - {ia_lane_id record}\<rparr>;
          i = pe_id (ia_entry record) in
      if \<not> btree_contains (rd_lane_leaves st) (ia_lane_id record)
      then Err (InputC (InputUnknownLane i (ia_lane_id record)))
      else if \<not> is_user_message (pe_body (ia_entry record)) then Err (InputC (InputNotUser i))
      else if btree_contains (rd_entries st) i \<or> btree_contains (rd_input_states st) i
      then Err (InputC (InputAcceptedTwice i))
      else Ok (st\<lparr>rd_input_order := rd_input_order st @ [i],
                  rd_input_states := btree_insert i
                    \<lparr>in_accepted = \<lparr>ai_lane_id = ia_lane_id record, ai_entry = ia_entry record,
                       ai_accepted_sequence = seq\<rparr>, in_status = Pending\<rparr>
                    (rd_input_states st)\<rparr>))"

definition step_input_withdrawn ::
    "reducer \<Rightarrow> input_withdrawn_record \<Rightarrow> (corruption, reducer) result" where
  "step_input_withdrawn st record =
     (case btree_get (rd_input_states st) (iw_input_id record) of
        None \<Rightarrow> Err (InputC (WithdrawnBeforeAcceptance (iw_input_id record)))
      | Some input \<Rightarrow>
          if ai_lane_id (in_accepted input) \<noteq> iw_lane_id record \<or> in_status input \<noteq> Pending
          then Err (InputC (WithdrawnNotPending (iw_input_id record) (iw_lane_id record)))
          else Ok (st\<lparr>rd_input_states := btree_insert (iw_input_id record)
                        (input\<lparr>in_status := Withdrawn\<rparr>) (rd_input_states st)\<rparr>))"

definition step_input_settled ::
    "reducer \<Rightarrow> input_settled_record \<Rightarrow> (corruption, reducer) result" where
  "step_input_settled st record =
     (case btree_get (rd_operations st) (is_operation_id record) of
        None \<Rightarrow> Err (InputC (SettlesUnknownOperation (is_input_id record) (is_operation_id record)))
      | Some operation \<Rightarrow>
          if \<not> st_finished operation \<or> st_op_outcome operation \<noteq> Some (is_outcome record)
          then Err (InputC (SettlesContrary (is_input_id record) (is_operation_id record)))
          else (case btree_get (rd_input_states st) (is_input_id record) of
             None \<Rightarrow> Err (InputC (SettledWithoutAcceptance (is_input_id record)))
           | Some input \<Rightarrow>
               if in_status input \<noteq> Dispatched (is_operation_id record)
               then Err (InputC (SettledNotDispatched (is_input_id record) (is_operation_id record)))
               else Ok (st\<lparr>rd_input_states := btree_insert (is_input_id record)
                    (input\<lparr>in_status := Settled (is_operation_id record) (is_outcome record)\<rparr>)
                    (rd_input_states st)\<rparr>)))"

section \<open>Extension records and remaining records\<close>

definition step_extension_control_enqueued ::
    "codec \<Rightarrow> reducer \<Rightarrow> sequence \<Rightarrow> u64 \<Rightarrow> extension_control_enqueued_record \<Rightarrow>
     (corruption, reducer) result" where
  "step_extension_control_enqueued cx st seq item_index record =
     and_then (open_operation (rd_operations st) (xc_operation_id record)) (\<lambda>_.
     and_then (validate_extension_control cx record) (\<lambda>_.
       if btree_contains (rd_extension_controls st) (xc_control_id record)
       then Err (ExtensionC (ControlAcceptedTwice (xc_control_id record)))
       else Ok (st\<lparr>rd_extension_controls := btree_insert (xc_control_id record)
                     \<lparr>px_accepted_sequence = seq, px_accepted_item_index = item_index,
                      px_control = record\<rparr> (rd_extension_controls st)\<rparr>)))"

definition step_extension_control_applied ::
    "reducer \<Rightarrow> string \<Rightarrow> (corruption, reducer) result" where
  "step_extension_control_applied st control_id =
     (case btree_get (rd_extension_controls st) control_id of
        None \<Rightarrow> Err (ExtensionC (ControlNotAccepted control_id))
      | Some control \<Rightarrow>
          (case btree_get (rd_operations st) (xc_operation_id (px_control control)) of
             None \<Rightarrow> Err (ExtensionC (ControlUnknownOperation control_id))
           | Some operation \<Rightarrow>
               if \<not> st_finished operation \<or> control_id \<in> rd_applied_controls st
               then Err (ExtensionC (ControlBeforeSettlement control_id))
               else Ok (st\<lparr>rd_extension_controls :=
                             btree_remove control_id (rd_extension_controls st),
                           rd_applied_controls := insert control_id (rd_applied_controls st)\<rparr>)))"

definition step_write_deferred ::
    "reducer \<Rightarrow> write_deferred_record \<Rightarrow> (corruption, reducer) result" where
  "step_write_deferred st record =
     and_then (open_operation (rd_operations st) (wd_operation_id record)) (\<lambda>_.
       Ok (st\<lparr>rd_deferred_writes := rd_deferred_writes st @
             [\<lparr>pw_operation_id = wd_operation_id record, pw_entry = wd_entry record\<rparr>]\<rparr>))"

definition step_activation_requested ::
    "reducer \<Rightarrow> harness_activation_requested_record \<Rightarrow> (corruption, reducer) result" where
  "step_activation_requested st record =
     and_then (open_operation (rd_operations st) (ha_operation_id record)) (\<lambda>_.
       Ok (st\<lparr>rd_activation_requests := rd_activation_requests st @ [record]\<rparr>))"

definition lane_usage :: "reducer \<Rightarrow> lane_id \<Rightarrow> usage" where
  "lane_usage st lane =
     (case btree_get (rd_usage_by_lane st) lane of None \<Rightarrow> default_usage | Some u \<Rightarrow> u)"

definition step_usage :: "reducer \<Rightarrow> usage_record \<Rightarrow> (corruption, reducer) result" where
  "step_usage st record =
     and_then (open_operation (rd_operations st) (ur_operation_id record)) (\<lambda>operation.
       Ok (st\<lparr>rd_usage_by_lane := btree_insert (st_lane_id operation)
             (usage_add_assign (lane_usage st (st_lane_id operation)) (ur_usage record))
             (rd_usage_by_lane st)\<rparr>))"

definition require_open :: "reducer \<Rightarrow> operation_id \<Rightarrow> (corruption, reducer) result" where
  "require_open st i = and_then (open_operation (rd_operations st) i) (\<lambda>_. Ok st)"

fun step_record ::
    "codec \<Rightarrow> reducer \<Rightarrow> sequence \<Rightarrow> u64 \<Rightarrow> lane_record \<Rightarrow> (corruption, reducer) result" where
  "step_record cx st seq idx (OperationStarted r) = step_operation_started st r"
| "step_record cx st seq idx (OperationFinished r) = step_operation_finished st r"
| "step_record cx st seq idx (AbortRequested r) = require_open st (ar_operation_id r)"
| "step_record cx st seq idx (EpochStarted r) = step_epoch_started st r"
| "step_record cx st seq idx (EpochFinished r) = step_epoch_finished st r"
| "step_record cx st seq idx (StepAttempted r) = step_step_attempted st r"
| "step_record cx st seq idx (ProviderRequestStarted r) = step_provider_request_started st r"
| "step_record cx st seq idx (ProviderRequestSettled r) = step_provider_request_settled st r"
| "step_record cx st seq idx (ToolStarted r) = step_tool_started st seq r"
| "step_record cx st seq idx (InputAccepted r) = step_input_accepted st seq r"
| "step_record cx st seq idx (InputWithdrawn r) = step_input_withdrawn st r"
| "step_record cx st seq idx (InputSettled r) = step_input_settled st r"
| "step_record cx st seq idx (ExtensionControlEnqueued r) =
     step_extension_control_enqueued cx st seq idx r"
| "step_record cx st seq idx (ExtensionControlApplied c) = step_extension_control_applied st c"
| "step_record cx st seq idx (WriteDeferred r) = step_write_deferred st r"
| "step_record cx st seq idx (HarnessActivationRequested r) = step_activation_requested st r"
| "step_record cx st seq idx (UsageRecord r) = step_usage st r"
| "step_record cx st seq idx (CacheMaintenance r) = require_open st (cm_operation_id r)"

section \<open>Facts\<close>

definition step_material ::
    "reducer \<Rightarrow> provider_request_material_fact \<Rightarrow> (corruption, reducer) result" where
  "step_material st f =
     (case btree_get (rd_provider_starts st) (mf_request_id f) of
        None \<Rightarrow> Err (EffectC (MaterialWithoutIntent (mf_request_id f)))
      | Some start \<Rightarrow>
          if pr_operation_id start \<noteq> mf_operation_id f \<or> pr_epoch_id start \<noteq> mf_epoch_id f \<or>
             btree_contains (rd_provider_settled st) (mf_request_id f) \<or>
             mf_request_id f \<in> rd_provider_material st
          then Err (EffectC (MaterialInvalid (mf_request_id f)))
          else Ok (st\<lparr>rd_provider_material :=
                        insert (mf_request_id f) (rd_provider_material st)\<rparr>))"

definition step_extension_state ::
    "codec \<Rightarrow> reducer \<Rightarrow> extension_state_value_set_fact \<Rightarrow> (corruption, reducer) result" where
  "step_extension_state cx st0 f =
     (let st = st0\<lparr>rd_fresh_lanes := rd_fresh_lanes st0 - {xs_lane_id f}\<rparr> in
      and_then (validate_extension_state_value cx f) (\<lambda>_.
        (case btree_get (rd_extension_state st) (xs_lane_id f) of
           None \<Rightarrow> Err (ExtensionC (StateUnknownLane (xs_lane_id f)))
         | Some state \<Rightarrow>
             Ok (st\<lparr>rd_extension_state := btree_insert (xs_lane_id f)
                   (btree_insert (xs_extension_id f)
                      \<lparr>xv_state_version = xs_state_version f, xv_value = xs_value f\<rparr> state)
                   (rd_extension_state st)\<rparr>))))"

definition lane_leaf_flat :: "reducer \<Rightarrow> lane_id \<Rightarrow> entry_id option" where
  "lane_leaf_flat st lane =
     (case btree_get (rd_lane_leaves st) lane of None \<Rightarrow> None | Some leaf \<Rightarrow> leaf)"

definition unresolved_tool :: "reducer \<Rightarrow> operation_id \<Rightarrow> bool" where
  "unresolved_tool st operation_id =
     list_ex (\<lambda>(_, tool). ts_operation_id tool = operation_id \<and>
        \<not> btree_contains (rd_entries st) (ts_result_entry_id tool)) (rd_tool_starts st)"

definition unresolved_request :: "reducer \<Rightarrow> operation_id \<Rightarrow> bool" where
  "unresolved_request st operation_id =
     list_ex (\<lambda>request. pr_operation_id request = operation_id \<and>
        \<not> btree_contains (rd_provider_settled st) (pr_request_id request))
       (btree_values (rd_provider_starts st))"

definition unresolved_control :: "reducer \<Rightarrow> operation_id \<Rightarrow> bool" where
  "unresolved_control st operation_id =
     list_ex (\<lambda>control. xc_operation_id (px_control control) = operation_id)
       (btree_values (rd_extension_controls st))"

definition unresolved_child :: "reducer \<Rightarrow> operation_id \<Rightarrow> bool" where
  "unresolved_child st operation_id =
     list_ex (\<lambda>(agent_id, (owner, _)). owner = operation_id \<and> agent_id \<notin> rd_child_terminal st)
       (rd_child_spawns st)"

definition step_turn_checkpoint :: "reducer \<Rightarrow> turn_checkpoint_fact \<Rightarrow> (corruption, reducer) result"
  where
  "step_turn_checkpoint st f =
     (let c = cp_checkpoint_id f; o' = cp_operation_id f in
      if btree_contains (rd_checkpoints st) c then Err (CheckpointC (CheckpointTwice c))
      else if rd_checkpoint_ready_for st \<noteq> Some o' then Err (CheckpointC (CheckpointNotFollowing c o'))
      else (case btree_get (rd_operations st) o' of
         None \<Rightarrow> Err (CheckpointC (CheckpointUnknownOperation c o'))
       | Some operation \<Rightarrow>
           if \<not> st_finished operation \<or> st_lane_id operation \<noteq> cp_lane_id f
           then Err (CheckpointC (CheckpointNotSettled c))
           else if lane_leaf_flat st (cp_lane_id f) \<noteq> cp_leaf_id f
           then Err (CheckpointC (CheckpointLeaf c))
           else if unresolved_tool st o' \<or> unresolved_request st o' \<or> unresolved_control st o' \<or>
                   unresolved_child st o'
           then Err (CheckpointC (CheckpointUnresolved c o'))
           else if btree_get (rd_extension_state st) (cp_lane_id f) \<noteq> Some (cp_extension_state f)
           then Err (CheckpointC (CheckpointState c))
           else Ok (st\<lparr>rd_checkpoints := btree_insert c f (rd_checkpoints st),
                       rd_checkpoint_ready_for := None\<rparr>)))"

definition step_forked_lane :: "reducer \<Rightarrow> forked_lane_fact \<Rightarrow> (corruption, reducer) result" where
  "step_forked_lane st f =
     (case btree_get (rd_checkpoints st) (fl_checkpoint_id f) of
        None \<Rightarrow> Err (CheckpointC (ForkUnknownCheckpoint (fl_lane_id f) (fl_checkpoint_id f)))
      | Some checkpoint \<Rightarrow>
          if fl_lane_id f \<notin> rd_fresh_lanes st \<or> fl_lane_id f \<in> rd_forked_lanes st \<or>
             lane_leaf_flat st (fl_lane_id f) \<noteq> fl_base_leaf_id f \<or>
             fl_base_leaf_id f \<noteq> cp_leaf_id checkpoint \<or>
             list_ex (\<lambda>operation. st_lane_id operation = fl_lane_id f)
               (btree_values (rd_operations st))
          then Err (CheckpointC (ForkNotFresh (fl_lane_id f)))
          else Ok (st\<lparr>rd_fresh_lanes := rd_fresh_lanes st - {fl_lane_id f},
                      rd_forked_lanes := insert (fl_lane_id f) (rd_forked_lanes st),
                      rd_extension_state := btree_insert (fl_lane_id f)
                        (cp_extension_state checkpoint) (rd_extension_state st)\<rparr>))"

definition step_agent_spawned ::
    "reducer \<Rightarrow> sequence \<Rightarrow> agent_spawned_fact \<Rightarrow> (corruption, reducer) result" where
  "step_agent_spawned st0 seq f =
     (let st = st0\<lparr>rd_fresh_lanes := rd_fresh_lanes st0 - {as_lane_id f}\<rparr> in
      if btree_contains (rd_child_spawns st) (as_agent_id f)
      then Err (CheckpointC (AgentSpawnedTwice (as_agent_id f)))
      else Ok (st\<lparr>rd_child_spawns := btree_insert (as_agent_id f)
                    (as_parent_operation_id f, seq) (rd_child_spawns st)\<rparr>))"

fun step_fact :: "codec \<Rightarrow> reducer \<Rightarrow> sequence \<Rightarrow> session_fact \<Rightarrow> (corruption, reducer) result" where
  "step_fact cx st seq (ProviderRequestMaterial f) = step_material st f"
| "step_fact cx st seq (ExtensionStateValueSet f) = step_extension_state cx st f"
| "step_fact cx st seq (TurnCheckpoint f) = step_turn_checkpoint st f"
| "step_fact cx st seq (ForkedLane f) = step_forked_lane st f"
| "step_fact cx st seq (AgentSpawned f) = step_agent_spawned st seq f"
| "step_fact cx st seq (AgentTaskFinished f) =
     Ok (st\<lparr>rd_child_terminal := insert (at_agent_id f) (rd_child_terminal st)\<rparr>)"
| "step_fact cx st seq (SubagentPolicy _) = Ok st"
| "step_fact cx st seq (WorkspaceDelta _) = Ok st"
| "step_fact cx st seq (WorkspaceDeltaApplied _) = Ok st"
| "step_fact cx st seq (HarnessCatalog _) = Ok st"
| "step_fact cx st seq (ToolSchemaDeviation _) = Ok st"
| "step_fact cx st seq (TraceArtifact _) = Ok st"
| "step_fact cx st seq (CustomFact _ _) = Ok st"

section \<open>The replay loop\<close>

definition preserves_checkpoint_readiness :: "reducer \<Rightarrow> session_mutation \<Rightarrow> bool" where
  "preserves_checkpoint_readiness st m =
     (case m of
        RecordM stored \<Rightarrow>
          (case sr_record stored of
             InputSettled record \<Rightarrow> rd_checkpoint_ready_for st = Some (is_operation_id record)
           | ExtensionControlApplied control_id \<Rightarrow>
               (case rd_checkpoint_ready_for st of
                  None \<Rightarrow> False
                | Some operation_id \<Rightarrow>
                    (case btree_get (rd_extension_controls st) control_id of
                       None \<Rightarrow> False
                     | Some control \<Rightarrow> xc_operation_id (px_control control) = operation_id))
           | _ \<Rightarrow> False)
      | FactM stored \<Rightarrow>
          (case sf_fact stored of
             TurnCheckpoint _ \<Rightarrow> True
           | ExtensionStateValueSet f \<Rightarrow>
               (case rd_checkpoint_ready_for st of
                  None \<Rightarrow> False
                | Some operation_id \<Rightarrow>
                    (case btree_get (rd_operations st) operation_id of
                       None \<Rightarrow> False
                     | Some operation \<Rightarrow> st_lane_id operation = xs_lane_id f))
           | _ \<Rightarrow> False)
      | EntryM _ \<Rightarrow> False
      | LaneM _ \<Rightarrow> False)"

definition clear_readiness :: "reducer \<Rightarrow> session_mutation \<Rightarrow> reducer" where
  "clear_readiness st m =
     (if preserves_checkpoint_readiness st m then st else st\<lparr>rd_checkpoint_ready_for := None\<rparr>)"

definition step_mutation ::
    "codec \<Rightarrow> reducer \<Rightarrow> u64 \<Rightarrow> session_mutation \<Rightarrow> (corruption, reducer) result" where
  "step_mutation cx st item_index m =
     (case m of
        LaneM stored \<Rightarrow> step_lane st (sl_mutation stored)
      | EntryM stored \<Rightarrow> step_entry cx st stored
      | RecordM stored \<Rightarrow> step_record cx st (sr_seq stored) item_index (sr_record stored)
      | FactM stored \<Rightarrow> step_fact cx st (sf_seq stored) (sf_fact stored))"

definition advance_timeline :: "reducer \<Rightarrow> sequence \<Rightarrow> reducer" where
  "advance_timeline st seq =
     st\<lparr>rd_observed_item_index := saturating_add (rd_observed_item_index st) 1,
        rd_observed_sequence := seq\<rparr>"

definition reduce_step :: "codec \<Rightarrow> reducer \<Rightarrow> stored_mutation \<Rightarrow> (corruption, reducer) result" where
  "reduce_step cx st m =
     (let seq = sv_seq m; observed = rd_observed_sequence st in
      if seq \<noteq> observed \<and> seq \<noteq> saturating_add observed 1
      then Err (TimelineC (SequenceNotConsecutive observed seq))
      else step_mutation cx
             (clear_readiness (advance_timeline st seq) (sv_mutation m))
             (rd_observed_item_index st) (sv_mutation m))"

definition replay :: "codec \<Rightarrow> session_header \<Rightarrow> stored_mutation list \<Rightarrow> (corruption, reducer) result"
  where
  "replay cx header ms = try_fold (reduce_step cx) (initial_reducer header) ms"

section \<open>Evaluation\<close>

text \<open>Length bounds are compared as integers when the model is evaluated.\<close>

lemma validate_encoded_size_code [code]:
  "validate_encoded_size cx v =
     (case to_json_string (cx_miniserde cx) v of
        Inl _ \<Rightarrow> Err (ExtensionC ExtensionEncoding)
      | Inr text \<Rightarrow>
          if int (length text) > 65536 then Err (ExtensionC (ExtensionTooLarge (length text)))
          else Ok ())"
  by (simp add: validate_encoded_size_def cong: sum.case_cong)

lemma validate_bounded_extension_identifier_code [code]:
  "validate_bounded_extension_identifier label value =
     (if value = [] \<or> int (length value) > 200 \<or> has_control value
      then Err (ExtensionC (ExtensionIdentifier label)) else Ok ())"
  by (simp add: validate_bounded_extension_identifier_def)

end
