(* ===== verification/Lane_Recovery.thy ===== *)
theory Lane_Recovery
  imports Lane_Reduction
begin

text \<open>
  The part of \<open>crates/tea-session/src/reduction.rs\<close> after the replay loop: tool-result
  validation, the configuration derived from the branch's parent chain, the pending
  activation, the recovery plan and the assembled lane reduction.

  The parent-chain loop of \<open>derive_configuration\<close> follows \<open>parent_id\<close> until it is \<open>None\<close>.
  Its fuel is one more than the number of entries: a chain that exhausts it has visited
  some entry twice, so the Rust loop would not end, and the model says \<open>ChainDiverges\<close>.
\<close>

section \<open>Tool results\<close>

definition check_started_result ::
    "(entry_id, stored_entry) btree \<Rightarrow> sequence \<times> tool_started_record \<Rightarrow> (corruption, unit) result"
  where
  "check_started_result entries s =
     (let start = snd s in
      case btree_get entries (ts_result_entry_id start) of
        None \<Rightarrow> Ok ()
      | Some entry \<Rightarrow>
          (case se_body entry of
             ToolResult result \<Rightarrow>
               if tr_tool_call_id result \<noteq> ts_tool_call_id start \<or>
                  tr_tool_name result \<noteq> ts_tool_name start
               then Err (EffectC (ToolResultDisagrees (ts_result_entry_id start)))
               else Ok ()
           | _ \<Rightarrow> Err (EffectC (ToolResultBody (ts_result_entry_id start)))))"

fun has_call :: "string \<Rightarrow> string \<Rightarrow> session_entry \<Rightarrow> bool" where
  "has_call call_id tool_name (AssistantMessage assistant) =
     list_ex (\<lambda>call. tc_id call = call_id \<and> tc_name call = tool_name) (am_tool_calls assistant)"
| "has_call call_id tool_name _ = False"

definition any_assistant_call_matches ::
    "(entry_id, stored_entry) btree \<Rightarrow> string \<Rightarrow> string \<Rightarrow> bool" where
  "any_assistant_call_matches entries call_id tool_name =
     list_ex (\<lambda>entry. has_call call_id tool_name (se_body entry)) (btree_values entries)"

definition check_result_entry ::
    "(entry_id, stored_entry) btree \<Rightarrow> (sequence \<times> tool_started_record) list \<Rightarrow>
     entry_id \<times> stored_entry \<Rightarrow> (corruption, unit) result" where
  "check_result_entry entries starts e =
     (case se_body (snd e) of
        ToolResult result \<Rightarrow>
          (case find (\<lambda>(_, started). ts_result_entry_id started = fst e) starts of
             Some (_, start) \<Rightarrow>
               if tr_tool_call_id result \<noteq> ts_tool_call_id start \<or>
                  tr_tool_name result \<noteq> ts_tool_name start
               then Err (EffectC (ToolResultDisagrees (fst e))) else Ok ()
           | None \<Rightarrow>
               if any_assistant_call_matches entries (tr_tool_call_id result) (tr_tool_name result)
               then Ok () else Err (EffectC (ToolResultUnmatched (fst e))))
      | _ \<Rightarrow> Ok ())"

definition validate_tool_results ::
    "(entry_id, stored_entry) btree \<Rightarrow> (sequence \<times> tool_started_record) list \<Rightarrow>
     (corruption, unit) result" where
  "validate_tool_results entries starts =
     and_then (check_all (check_started_result entries) starts) (\<lambda>_.
       check_all (check_result_entry entries starts) entries)"

section \<open>Configuration of a branch\<close>

fun parent_chain ::
    "(entry_id, stored_entry) btree \<Rightarrow> nat \<Rightarrow> entry_id option \<Rightarrow> stored_entry list \<Rightarrow>
     (corruption, stored_entry list) result" where
  "parent_chain entries fuel None acc = Ok acc"
| "parent_chain entries 0 (Some i) acc = Err (EntryC ChainDiverges)"
| "parent_chain entries (Suc fuel) (Some i) acc =
     (case btree_get entries i of
        None \<Rightarrow> Err (EntryC (LeafMissingEntry i))
      | Some entry \<Rightarrow> parent_chain entries fuel (eh_parent_id (se_header entry)) (entry # acc))"

definition default_configuration :: effective_lane_configuration where
  "default_configuration =
     \<lparr>ec_model = None, ec_thinking_level = None, ec_declared_tool_names = [],
      ec_harness_revision = None\<rparr>"

definition add_tool_name :: "string list \<Rightarrow> string \<Rightarrow> string list" where
  "add_tool_name names name = filter (\<lambda>n. n \<noteq> name) names @ [name]"

definition apply_configuration_change :: "configuration_changed_entry \<Rightarrow> string list \<Rightarrow> string list"
  where
  "apply_configuration_change change names =
     foldl add_tool_name (filter (\<lambda>n. n \<notin> set (cc_tools_removed change)) names)
       (map td_name (cc_tools_added change))"

fun apply_entry ::
    "effective_lane_configuration \<Rightarrow> session_entry \<Rightarrow> effective_lane_configuration" where
  "apply_entry c (ModelChanged m) = c\<lparr>ec_model := Some m\<rparr>"
| "apply_entry c (ThinkingChanged level) = c\<lparr>ec_thinking_level := Some level\<rparr>"
| "apply_entry c (ConfigurationChanged change) =
     c\<lparr>ec_declared_tool_names := apply_configuration_change change (ec_declared_tool_names c)\<rparr>"
| "apply_entry c (HarnessRevisionChanged r) = c\<lparr>ec_harness_revision := Some (hr_revision_id r)\<rparr>"
| "apply_entry c _ = c"

definition derive_configuration ::
    "(entry_id, stored_entry) btree \<Rightarrow> entry_id option \<Rightarrow>
     (corruption, effective_lane_configuration) result" where
  "derive_configuration entries leaf =
     and_then (parent_chain entries (Suc (length entries)) leaf []) (\<lambda>chain.
       Ok (foldl apply_entry default_configuration (map se_body chain)))"

section \<open>Pending activation\<close>

definition check_activation ::
    "(entry_id, stored_entry) btree \<Rightarrow> pending_harness_activation option \<Rightarrow>
     harness_activation_requested_record \<Rightarrow> (corruption, pending_harness_activation option) result"
  where
  "check_activation entries pending request =
     (case btree_get entries (ha_revision_entry_id request) of
        None \<Rightarrow> if pending \<noteq> None then Err (CheckpointC ActivationTwice) else Ok (Some request)
      | Some entry \<Rightarrow>
          (case se_body entry of
             HarnessRevisionChanged r \<Rightarrow>
               if hr_revision_id r = ha_parent_revision_id request \<or>
                  hr_snapshot_id r \<noteq> ha_proposed_snapshot_id request
               then Err (CheckpointC ActivationRevision) else Ok pending
           | _ \<Rightarrow> Err (CheckpointC ActivationType)))"

definition unresolved_activation ::
    "harness_activation_requested_record list \<Rightarrow> (entry_id, stored_entry) btree \<Rightarrow>
     operation_id option \<Rightarrow> (corruption, pending_harness_activation option) result" where
  "unresolved_activation requests entries active_operation =
     (case active_operation of
        None \<Rightarrow> Ok None
      | Some operation_id \<Rightarrow>
          try_fold (check_activation entries) None
            (filter (\<lambda>request. ha_operation_id request = operation_id) requests))"

section \<open>Recovery plan\<close>

datatype recovery_plan =
    AppendAcceptedInput operation_id "provisioned_entry list"
  | ReconcileToolEffect entry_id
  | ReplayToolIfStillSafe tool_started_record
  | ResumeAssistantToolPath entry_id
  | ReconcileProviderRequest provider_request_id
  | ProviderRequestNotAdmitted provider_request_id
  | ActivateHarness harness_activation_requested_record
  | StartEpoch operation_id
  | ResumeOperation operation_id

definition has_result_for :: "(entry_id, stored_entry) btree \<Rightarrow> assistant_tool_call \<Rightarrow> bool" where
  "has_result_for entries call =
     list_ex (\<lambda>entry. case se_body entry of
                ToolResult result \<Rightarrow> tr_tool_call_id result = tc_id call \<and>
                                     tr_tool_name result = tc_name call
              | _ \<Rightarrow> False) (btree_values entries)"

definition has_unanswered_call :: "(entry_id, stored_entry) btree \<Rightarrow> entry_id \<Rightarrow> bool" where
  "has_unanswered_call entries i =
     (case btree_get entries i of
        None \<Rightarrow> False
      | Some entry \<Rightarrow>
          (case se_body entry of
             AssistantMessage assistant \<Rightarrow>
               list_ex (\<lambda>call. \<not> has_result_for entries call) (am_tool_calls assistant)
           | _ \<Rightarrow> False))"

definition missing_input ::
    "(entry_id, stored_entry) btree \<Rightarrow> operation_state \<Rightarrow> provisioned_entry list" where
  "missing_input entries operation =
     filter (\<lambda>entry. \<not> btree_contains entries (pe_id entry)) (st_original_input operation)"

definition first_open_tool :: "reducer \<Rightarrow> operation_id \<Rightarrow> (sequence \<times> tool_started_record) option"
  where
  "first_open_tool st operation_id =
     find (\<lambda>(_, tool). ts_operation_id tool = operation_id \<and>
             \<not> btree_contains (rd_entries st) (ts_result_entry_id tool)) (rd_tool_starts st)"

definition first_open_request :: "reducer \<Rightarrow> operation_id \<Rightarrow> provider_request_started_record option"
  where
  "first_open_request st operation_id =
     find (\<lambda>request. pr_operation_id request = operation_id \<and>
             \<not> btree_contains (rd_provider_settled st) (pr_request_id request))
       (btree_values (rd_provider_starts st))"

definition first_ready_activation ::
    "reducer \<Rightarrow> operation_id \<Rightarrow> operation_state \<Rightarrow> harness_activation_requested_record option" where
  "first_ready_activation st operation_id operation =
     find (\<lambda>request. ha_operation_id request = operation_id \<and>
             \<not> btree_contains (rd_entries st) (ha_revision_entry_id request) \<and>
             st_open_epochs operation = {}) (rd_activation_requests st)"

definition latest_unanswered :: "reducer \<Rightarrow> operation_state \<Rightarrow> entry_id option" where
  "latest_unanswered st operation =
     find (has_unanswered_call (rd_entries st)) (rev (st_entry_ids operation))"

definition plan_operation :: "reducer \<Rightarrow> operation_id \<Rightarrow> operation_state \<Rightarrow> recovery_plan" where
  "plan_operation st operation_id operation =
     (if missing_input (rd_entries st) operation \<noteq> []
      then AppendAcceptedInput operation_id (missing_input (rd_entries st) operation)
      else case first_open_tool st operation_id of
        Some (_, tool) \<Rightarrow>
          (case ts_replay_policy_at_start tool of
             Never \<Rightarrow> ReconcileToolEffect (ts_result_entry_id tool)
           | Safe \<Rightarrow> ReplayToolIfStillSafe tool)
      | None \<Rightarrow>
      case first_open_request st operation_id of
        Some request \<Rightarrow>
          if pr_request_id request \<notin> rd_provider_material st
          then ProviderRequestNotAdmitted (pr_request_id request)
          else ReconcileProviderRequest (pr_request_id request)
      | None \<Rightarrow>
      case first_ready_activation st operation_id operation of
        Some request \<Rightarrow> ActivateHarness request
      | None \<Rightarrow>
      case latest_unanswered st operation of
        Some i \<Rightarrow> ResumeAssistantToolPath i
      | None \<Rightarrow>
        if st_epoch_ids operation = [] \<or> st_open_epochs operation = {}
        then StartEpoch operation_id else ResumeOperation operation_id)"

definition derive_recovery_plan ::
    "reducer \<Rightarrow> operation_id option \<Rightarrow> (corruption, recovery_plan option) result" where
  "derive_recovery_plan st active_operation =
     (case active_operation of
        None \<Rightarrow> Ok None
      | Some operation_id \<Rightarrow>
          (case btree_get (rd_operations st) operation_id of
             None \<Rightarrow> Err Panic
           | Some operation \<Rightarrow> Ok (Some (plan_operation st operation_id operation))))"

section \<open>The lane reduction\<close>

record lane_reduction =
  lr_lane_state :: lane_state
  lr_effective_configuration :: effective_lane_configuration
  lr_recovery_plan :: "recovery_plan option"
  lr_input_reduction :: input_reduction
  lr_pending_extension_controls :: "pending_extension_control list"
  lr_extension_state :: extension_state
  lr_pending_writes :: "pending_write list"
  lr_pending_harness_activation :: "pending_harness_activation option"
  lr_usage_totals :: usage

definition lane_input_states :: "reducer \<Rightarrow> lane_id \<Rightarrow> (entry_id, input_state) btree" where
  "lane_input_states st lane =
     filter (\<lambda>(_, input). ai_lane_id (in_accepted input) = lane) (rd_input_states st)"

definition pending_input_of :: "(entry_id, input_state) btree \<Rightarrow> entry_id \<Rightarrow> accepted_input option"
  where
  "pending_input_of states i =
     (case btree_get states i of
        None \<Rightarrow> None
      | Some input \<Rightarrow> if in_status input = Pending then Some (in_accepted input) else None)"

definition input_reduction_of :: "reducer \<Rightarrow> lane_id \<Rightarrow> input_reduction" where
  "input_reduction_of st lane =
     (let states = lane_input_states st lane in
      \<lparr>ir_pending_inputs = List.map_filter (pending_input_of states) (rd_input_order st),
       ir_input_states = states\<rparr>)"

definition control_on_lane :: "reducer \<Rightarrow> lane_id \<Rightarrow> pending_extension_control \<Rightarrow> bool" where
  "control_on_lane st lane control =
     (case btree_get (rd_operations st) (xc_operation_id (px_control control)) of
        None \<Rightarrow> False
      | Some operation \<Rightarrow> st_lane_id operation = lane)"

definition pending_controls_of :: "reducer \<Rightarrow> lane_id \<Rightarrow> pending_extension_control list" where
  "pending_controls_of st lane =
     sort_key (\<lambda>c. (px_accepted_sequence c, px_accepted_item_index c))
       (filter (control_on_lane st lane) (btree_values (rd_extension_controls st)))"

definition assemble_reduction ::
    "reducer \<Rightarrow> lane_id \<Rightarrow> effective_lane_configuration \<Rightarrow> pending_harness_activation option \<Rightarrow>
     recovery_plan option \<Rightarrow> lane_reduction" where
  "assemble_reduction st lane configuration activation plan =
     (let active = btree_get (rd_active_operations st) lane in
      \<lparr>lr_lane_state =
         \<lparr>ls_lane_id = lane, ls_leaf_id = lane_leaf_flat st lane,
          ls_status = (if active \<noteq> None then Running else Idle),
          ls_active_operation = active,
          ls_active_harness_revision = ec_harness_revision configuration\<rparr>,
       lr_effective_configuration = configuration,
       lr_recovery_plan = plan,
       lr_input_reduction = input_reduction_of st lane,
       lr_pending_extension_controls = pending_controls_of st lane,
       lr_extension_state =
         (case btree_get (rd_extension_state st) lane of None \<Rightarrow> [] | Some x \<Rightarrow> x),
       lr_pending_writes =
         filter (\<lambda>pending. \<not> btree_contains (rd_entries st) (pe_id (pw_entry pending)))
           (rd_deferred_writes st),
       lr_pending_harness_activation = activation,
       lr_usage_totals = lane_usage st lane\<rparr>)"

definition finish_reduction ::
    "reducer \<Rightarrow> sequence \<Rightarrow> lane_id \<Rightarrow> (corruption, lane_reduction) result" where
  "finish_reduction st last_sequence lane =
     (if last_sequence \<noteq> rd_observed_sequence st then Err (TimelineC LastSequenceDisagrees)
      else if \<not> btree_contains (rd_lane_leaves st) lane then Err (TimelineC (UnknownLane lane))
      else
        let active = btree_get (rd_active_operations st) lane in
        and_then (validate_tool_results (rd_entries st) (rd_tool_starts st)) (\<lambda>_.
        and_then (derive_configuration (rd_entries st) (lane_leaf_flat st lane)) (\<lambda>configuration.
        and_then (unresolved_activation (rd_activation_requests st) (rd_entries st) active)
          (\<lambda>activation.
        and_then (derive_recovery_plan st active) (\<lambda>plan.
          Ok (assemble_reduction st lane configuration activation plan))))))"

definition reduce_lane_prefix ::
    "codec \<Rightarrow> session_header \<Rightarrow> sequence \<Rightarrow> stored_mutation list \<Rightarrow> lane_id \<Rightarrow>
     (corruption, lane_reduction) result" where
  "reduce_lane_prefix cx header last_sequence ms lane =
     and_then (replay cx header ms) (\<lambda>st. finish_reduction st last_sequence lane)"

definition reduce_lane_ref ::
    "codec \<Rightarrow> session_snapshot \<Rightarrow> lane_id \<Rightarrow> (corruption, lane_reduction) result" where
  "reduce_lane_ref cx input lane =
     reduce_lane_prefix cx (ss_header input) (ss_last_sequence input) (mutations input) lane"

definition reduce_lane_ref_with_commit ::
    "codec \<Rightarrow> session_snapshot \<Rightarrow> stored_commit \<Rightarrow> lane_id \<Rightarrow> (corruption, lane_reduction) result" where
  "reduce_lane_ref_with_commit cx input appended lane =
     reduce_lane_prefix cx (ss_header input) (sc_seq appended)
       (mutations input @ sc_items appended) lane"

definition extension_state_for_lane ::
    "codec \<Rightarrow> session_snapshot \<Rightarrow> lane_id \<Rightarrow> (corruption, extension_state) result" where
  "extension_state_for_lane cx input lane =
     and_then (reduce_lane_ref cx input lane) (\<lambda>r. Ok (lr_extension_state r))"

end
