(* ===== verification/Lane_Invariants.thy ===== *)
theory Lane_Invariants
  imports Lane_Recovery
begin

text \<open>
  What every successful replay of \<open>Lane_Reduction\<close> keeps true of the reducer's state, and the
  consequences for the code after the loop: the parent chain is finite, the \<open>expect\<close>s never
  fail, a lane has at most one open operation.

  \<open>step_effects\<close> collects, for each arm of the loop, the guards under which it succeeds and
  the state it leaves; the invariants are conjunctions whose preservation each arm's effect
  gives by simplification.
\<close>

section \<open>Effects of the arms\<close>

named_theorems step_effects "guards and result state of each arm of the replay loop"

lemma open_operation_ok [step_effects]:
  "open_operation ops i = Inr op \<longleftrightarrow> map_of ops i = Some op \<and> \<not> st_finished op"
  by (auto simp: open_operation_def split: option.splits if_splits)

lemma step_lane_ok [step_effects]:
  "step_lane st (Created l base) = Inr st' \<longleftrightarrow>
     l \<notin> dom (map_of (rd_lane_leaves st)) \<and>
     (\<forall>b. base = Some b \<longrightarrow> b \<in> dom (map_of (rd_entries st))) \<and>
     st' = st\<lparr>rd_lane_leaves := btree_insert l base (rd_lane_leaves st),
              rd_extension_state := btree_insert l [] (rd_extension_state st),
              rd_fresh_lanes := insert l (rd_fresh_lanes st)\<rparr>"
  by (auto simp: check_base_leaf_def btree_simps result_simps split: option.splits if_splits)

lemma note_operation_entry_ok [step_effects]:
  "note_operation_entry st l i = Inr st' \<longleftrightarrow>
     (map_of (rd_active_operations st) l = None \<and> st' = st) \<or>
     (\<exists>o' op. map_of (rd_active_operations st) l = Some o' \<and> map_of (rd_operations st) o' = Some op \<and>
        st' = st\<lparr>rd_operations :=
          btree_insert o' (op\<lparr>st_entry_ids := st_entry_ids op @ [i]\<rparr>) (rd_operations st)\<rparr>)"
  by (auto simp: note_operation_entry_def split: option.splits)

text \<open>A compaction only adds a request to the consumed set.\<close>

lemma step_compaction_ok:
  "step_compaction cx st body = Inr st' \<Longrightarrow>
     \<exists>R. st' = st\<lparr>rd_compaction_requests := R\<rparr> \<and>
       (R = rd_compaction_requests st \<or>
        (\<exists>r. R = insert r (rd_compaction_requests st) \<and> r \<notin> rd_compaction_requests st \<and>
           r \<in> rd_provider_material st \<and>
           map_of (rd_provider_settled st) r = Some Completed_request \<and>
           is_completed_compaction_request st r))"
proof (cases body)
  case (Compaction c)
  assume "step_compaction cx st body = Inr st'"
  with Compaction show ?thesis
    by (auto simp: step_compaction_def result_simps split: option.splits if_splits
        intro: exI [of _ "rd_compaction_requests st"])
qed (auto simp: step_compaction_def intro: exI [of _ "rd_compaction_requests st"])

lemma step_entry_ok:
  assumes "step_entry cx st e = Inr st'"
  obtains R leaf ops where
    "R = rd_compaction_requests st \<or>
     (\<exists>r. R = insert r (rd_compaction_requests st) \<and> r \<in> rd_provider_material st \<and>
        map_of (rd_provider_settled st) r = Some Completed_request)"
    "map_of (rd_lane_leaves st) (se_lane_id e) = Some leaf"
    "eh_parent_id (se_header e) = leaf"
    "eh_id (se_header e) \<notin> dom (map_of (rd_entries st))"
    "\<not> provisioned_differs st (eh_id (se_header e)) (se_body e)"
    "\<forall>p. leaf = Some p \<longrightarrow> p \<in> dom (map_of (rd_entries st))"
    "(map_of (rd_active_operations st) (se_lane_id e) = None \<and> ops = rd_operations st) \<or>
     (\<exists>o' op. map_of (rd_active_operations st) (se_lane_id e) = Some o' \<and>
        map_of (rd_operations st) o' = Some op \<and>
        ops = btree_insert o' (op\<lparr>st_entry_ids := st_entry_ids op @ [eh_id (se_header e)]\<rparr>)
                (rd_operations st))"
    "st' = st\<lparr>rd_fresh_lanes := rd_fresh_lanes st - {se_lane_id e}, rd_compaction_requests := R,
              rd_operations := ops,
              rd_lane_leaves := btree_insert (se_lane_id e) (Some (eh_id (se_header e))) (rd_lane_leaves st),
              rd_entries := btree_insert (eh_id (se_header e)) e (rd_entries st)\<rparr>"
proof -
  let ?s = "st\<lparr>rd_fresh_lanes := rd_fresh_lanes st - {se_lane_id e}\<rparr>"
  from assms obtain s1 where s1: "step_compaction cx ?s (se_body e) = Inr s1"
    by (auto simp: step_entry_def Let_def result_simps)
  from step_compaction_ok [OF s1] obtain R where R: "s1 = ?s\<lparr>rd_compaction_requests := R\<rparr>"
    "R = rd_compaction_requests st \<or>
     (\<exists>r. R = insert r (rd_compaction_requests st) \<and> r \<in> rd_provider_material st \<and>
        map_of (rd_provider_settled st) r = Some Completed_request)" by auto
  from assms s1 obtain leaf s2 where
    leaf: "map_of (rd_lane_leaves s1) (se_lane_id e) = Some leaf"
    and guards: "eh_parent_id (se_header e) = leaf"
      "\<not> btree_contains (rd_entries s1) (eh_id (se_header e))"
      "\<not> provisioned_differs s1 (eh_id (se_header e)) (se_body e)"
      "\<not> parent_missing s1 (eh_parent_id (se_header e))"
    and s2: "note_operation_entry s1 (se_lane_id e) (eh_id (se_header e)) = Inr s2"
    and st': "st' = s2\<lparr>rd_lane_leaves := btree_insert (se_lane_id e) (Some (eh_id (se_header e))) (rd_lane_leaves s2),
                    rd_entries := btree_insert (eh_id (se_header e)) e (rd_entries s2)\<rparr>"
    by (auto simp: step_entry_def Let_def result_simps split: option.splits if_splits)
  from s2 have "(map_of (rd_active_operations st) (se_lane_id e) = None \<and> s2 = s1) \<or>
     (\<exists>o' op. map_of (rd_active_operations st) (se_lane_id e) = Some o' \<and>
        map_of (rd_operations st) o' = Some op \<and>
        s2 = s1\<lparr>rd_operations := btree_insert o'
          (op\<lparr>st_entry_ids := st_entry_ids op @ [eh_id (se_header e)]\<rparr>) (rd_operations st)\<rparr>)"
    by (auto simp: note_operation_entry_ok R(1))
  then obtain ops where ops: "s2 = s1\<lparr>rd_operations := ops\<rparr>"
    "(map_of (rd_active_operations st) (se_lane_id e) = None \<and> ops = rd_operations st) \<or>
     (\<exists>o' op. map_of (rd_active_operations st) (se_lane_id e) = Some o' \<and>
        map_of (rd_operations st) o' = Some op \<and>
        ops = btree_insert o' (op\<lparr>st_entry_ids := st_entry_ids op @ [eh_id (se_header e)]\<rparr>)
                (rd_operations st))"
    by (auto simp: R(1))
  show thesis
  proof (rule that [of R leaf ops])
    show "st' = st\<lparr>rd_fresh_lanes := rd_fresh_lanes st - {se_lane_id e}, rd_compaction_requests := R,
              rd_operations := ops,
              rd_lane_leaves := btree_insert (se_lane_id e) (Some (eh_id (se_header e))) (rd_lane_leaves st),
              rd_entries := btree_insert (eh_id (se_header e)) e (rd_entries st)\<rparr>"
      by (simp add: st' ops(1) R(1))
    show "\<forall>p. leaf = Some p \<longrightarrow> p \<in> dom (map_of (rd_entries st))"
      using guards by (auto simp: parent_missing_def btree_simps R(1) split: option.splits)
    show "\<not> provisioned_differs st (eh_id (se_header e)) (se_body e)"
      using guards by (auto simp: provisioned_differs_def R(1))
  qed (use R(2) leaf guards ops(2) in \<open>auto simp: R(1) btree_simps\<close>)
qed

lemma step_operation_started_ok:
  assumes "step_operation_started st r = Inr st'"
  obtains prov inputs where
    "os_id r \<notin> dom (map_of (rd_operations st))"
    "map_of (rd_lane_leaves st) (os_lane_id r) = Some (os_source_leaf_id r)"
    "map_of (rd_active_operations st) (os_lane_id r) = None"
    "try_fold (provision_input (os_id r) (rd_entries st)) (rd_provisioned_entries st)
       (os_original_input r) = Inr prov"
    "dispatch_inputs r (rd_input_states st) = Inr inputs"
    "st' = st\<lparr>rd_fresh_lanes := rd_fresh_lanes st - {os_lane_id r},
              rd_active_operations := btree_insert (os_lane_id r) (os_id r) (rd_active_operations st),
              rd_provisioned_entries := prov, rd_input_states := inputs,
              rd_operations := btree_insert (os_id r) (fresh_operation_state r) (rd_operations st)\<rparr>"
  using assms
  by (auto simp: step_operation_started_def Let_def result_simps btree_contains_def
      split: option.splits if_splits)

lemma step_operation_finished_ok [step_effects]:
  "step_operation_finished st r = Inr st' \<longleftrightarrow>
     (\<exists>op. map_of (rd_operations st) (of_operation_id r) = Some op \<and> \<not> st_finished op \<and>
        st_open_epochs op = {} \<and>
        map_of (rd_active_operations st) (st_lane_id op) = Some (of_operation_id r) \<and>
        st' = st\<lparr>rd_operations := btree_insert (of_operation_id r)
                     (op\<lparr>st_finished := True, st_op_outcome := Some (of_outcome r)\<rparr>) (rd_operations st),
                 rd_active_operations := btree_remove (st_lane_id op) (rd_active_operations st),
                 rd_checkpoint_ready_for := Some (of_operation_id r)\<rparr>)"
  by (auto simp: step_operation_finished_def result_simps open_operation_ok)

lemma step_epoch_started_ok [step_effects]:
  "step_epoch_started st r = Inr st' \<longleftrightarrow>
     (\<exists>op. map_of (rd_operations st) (es_operation_id r) = Some op \<and> \<not> st_finished op \<and>
        st_open_epochs op = {} \<and> es_epoch_index r = of_nat (length (st_epoch_ids op)) \<and>
        es_id r \<notin> dom (map_of (rd_epochs st)) \<and>
        st' = st\<lparr>rd_epochs := btree_insert (es_id r) (es_operation_id r) (rd_epochs st),
                 rd_operations := btree_insert (es_operation_id r)
                   (op\<lparr>st_epoch_ids := st_epoch_ids op @ [es_id r],
                       st_open_epochs := insert (es_id r) (st_open_epochs op)\<rparr>) (rd_operations st)\<rparr>)"
  by (auto simp: step_epoch_started_def result_simps open_operation_ok btree_simps)

lemma step_epoch_finished_ok [step_effects]:
  "step_epoch_finished st r = Inr st' \<longleftrightarrow>
     (\<exists>op. map_of (rd_operations st) (ef_operation_id r) = Some op \<and> \<not> st_finished op \<and>
        map_of (rd_epochs st) (ef_epoch_id r) = Some (ef_operation_id r) \<and>
        ef_epoch_id r \<in> st_open_epochs op \<and>
        st' = st\<lparr>rd_operations := btree_insert (ef_operation_id r)
                   (op\<lparr>st_open_epochs := st_open_epochs op - {ef_epoch_id r}\<rparr>) (rd_operations st)\<rparr>)"
  by (auto simp: step_epoch_finished_def result_simps open_operation_ok)

lemma attempt_follows_ok [step_effects]:
  "attempt_follows previous r = Inr () \<longleftrightarrow>
     (case previous of None \<Rightarrow> sa_attempt r = 1
      | Some (i, n) \<Rightarrow> sa_attempt r = saturating_add n 1 \<and> sa_id r \<noteq> i)"
  by (auto simp: attempt_follows_def split: option.splits)

lemma step_step_attempted_ok [step_effects]:
  "step_step_attempted st r = Inr st' \<longleftrightarrow>
     (\<exists>op. map_of (rd_operations st) (sa_operation_id r) = Some op \<and> \<not> st_finished op \<and>
        map_of (rd_epochs st) (sa_epoch_id r) = Some (sa_operation_id r) \<and>
        sa_epoch_id r \<in> st_open_epochs op \<and> sa_id r \<notin> dom (map_of (rd_steps st)) \<and>
        attempt_follows (map_of (rd_step_attempts st) (step_key r)) r = Inr () \<and>
        st' = st\<lparr>rd_steps := btree_insert (sa_id r) (step_key r) (rd_steps st),
                 rd_step_attempts := btree_insert (step_key r) (sa_id r, sa_attempt r)
                   (rd_step_attempts st)\<rparr>)"
  by (auto simp: step_step_attempted_def result_simps open_operation_ok btree_simps)

lemma step_provider_request_started_ok [step_effects]:
  "step_provider_request_started st r = Inr st' \<longleftrightarrow>
     (\<exists>op. map_of (rd_operations st) (pr_operation_id r) = Some op \<and> \<not> st_finished op \<and>
        map_of (rd_epochs st) (pr_epoch_id r) = Some (pr_operation_id r) \<and>
        pr_epoch_id r \<in> st_open_epochs op \<and>
        owns_step (map_of (rd_steps st) (pr_step_id r)) (pr_operation_id r) (pr_epoch_id r) \<and>
        pr_request_id r \<notin> dom (map_of (rd_provider_starts st)) \<and>
        st' = st\<lparr>rd_provider_starts := btree_insert (pr_request_id r) r (rd_provider_starts st)\<rparr>)"
  by (auto simp: step_provider_request_started_def result_simps open_operation_ok btree_simps)

lemma step_provider_request_settled_ok [step_effects]:
  "step_provider_request_settled st r = Inr st' \<longleftrightarrow>
     (\<exists>op start. map_of (rd_operations st) (st_operation_id r) = Some op \<and> \<not> st_finished op \<and>
        map_of (rd_provider_starts st) (st_request_id r) = Some start \<and>
        pr_operation_id start = st_operation_id r \<and>
        st_request_id r \<notin> dom (map_of (rd_provider_settled st)) \<and>
        st' = st\<lparr>rd_provider_settled := btree_insert (st_request_id r) (st_classification r)
                   (rd_provider_settled st)\<rparr>)"
  by (auto simp: step_provider_request_settled_def result_simps open_operation_ok btree_simps
      split: option.splits)

lemma step_tool_started_ok [step_effects]:
  "step_tool_started st seq r = Inr st' \<longleftrightarrow>
     (\<exists>op. map_of (rd_operations st) (ts_operation_id r) = Some op \<and> \<not> st_finished op \<and>
        map_of (rd_epochs st) (ts_epoch_id r) = Some (ts_operation_id r) \<and>
        ts_epoch_id r \<in> st_open_epochs op \<and>
        validate_tool_started r (rd_entries st) (rd_tool_starts st) = Inr () \<and>
        st' = st\<lparr>rd_tool_starts := rd_tool_starts st @ [(seq, r)]\<rparr>)"
  by (auto simp: step_tool_started_def result_simps open_operation_ok)

lemma step_input_accepted_ok [step_effects]:
  "step_input_accepted st seq r = Inr st' \<longleftrightarrow>
     ia_lane_id r \<in> dom (map_of (rd_lane_leaves st)) \<and> is_user_message (pe_body (ia_entry r)) \<and>
     pe_id (ia_entry r) \<notin> dom (map_of (rd_entries st)) \<and>
     pe_id (ia_entry r) \<notin> dom (map_of (rd_input_states st)) \<and>
     st' = st\<lparr>rd_fresh_lanes := rd_fresh_lanes st - {ia_lane_id r},
              rd_input_order := rd_input_order st @ [pe_id (ia_entry r)],
              rd_input_states := btree_insert (pe_id (ia_entry r))
                \<lparr>in_accepted = \<lparr>ai_lane_id = ia_lane_id r, ai_entry = ia_entry r,
                   ai_accepted_sequence = seq\<rparr>, in_status = Pending\<rparr> (rd_input_states st)\<rparr>"
  by (auto simp: step_input_accepted_def Let_def btree_simps)

lemma step_input_withdrawn_ok [step_effects]:
  "step_input_withdrawn st r = Inr st' \<longleftrightarrow>
     (\<exists>input. map_of (rd_input_states st) (iw_input_id r) = Some input \<and>
        ai_lane_id (in_accepted input) = iw_lane_id r \<and> in_status input = Pending \<and>
        st' = st\<lparr>rd_input_states := btree_insert (iw_input_id r)
                   (input\<lparr>in_status := Withdrawn\<rparr>) (rd_input_states st)\<rparr>)"
  by (auto simp: step_input_withdrawn_def split: option.splits)

lemma step_input_settled_ok [step_effects]:
  "step_input_settled st r = Inr st' \<longleftrightarrow>
     (\<exists>op input. map_of (rd_operations st) (is_operation_id r) = Some op \<and> st_finished op \<and>
        st_op_outcome op = Some (is_outcome r) \<and>
        map_of (rd_input_states st) (is_input_id r) = Some input \<and>
        in_status input = Dispatched (is_operation_id r) \<and>
        st' = st\<lparr>rd_input_states := btree_insert (is_input_id r)
                   (input\<lparr>in_status := Settled (is_operation_id r) (is_outcome r)\<rparr>)
                   (rd_input_states st)\<rparr>)"
  by (auto simp: step_input_settled_def split: option.splits)

lemma step_extension_control_enqueued_ok [step_effects]:
  "step_extension_control_enqueued cx st seq idx r = Inr st' \<longleftrightarrow>
     (\<exists>op. map_of (rd_operations st) (xc_operation_id r) = Some op \<and> \<not> st_finished op) \<and>
     validate_extension_control cx r = Inr () \<and>
     xc_control_id r \<notin> dom (map_of (rd_extension_controls st)) \<and>
     st' = st\<lparr>rd_extension_controls := btree_insert (xc_control_id r)
                \<lparr>px_accepted_sequence = seq, px_accepted_item_index = idx, px_control = r\<rparr>
                (rd_extension_controls st)\<rparr>"
  by (auto simp: step_extension_control_enqueued_def result_simps open_operation_ok btree_simps)

lemma step_extension_control_applied_ok [step_effects]:
  "step_extension_control_applied st c = Inr st' \<longleftrightarrow>
     (\<exists>control op. map_of (rd_extension_controls st) c = Some control \<and>
        map_of (rd_operations st) (xc_operation_id (px_control control)) = Some op \<and>
        st_finished op \<and> c \<notin> rd_applied_controls st \<and>
        st' = st\<lparr>rd_extension_controls := btree_remove c (rd_extension_controls st),
                 rd_applied_controls := insert c (rd_applied_controls st)\<rparr>)"
  by (auto simp: step_extension_control_applied_def split: option.splits)

lemma step_write_deferred_ok [step_effects]:
  "step_write_deferred st r = Inr st' \<longleftrightarrow>
     (\<exists>op. map_of (rd_operations st) (wd_operation_id r) = Some op \<and> \<not> st_finished op) \<and>
     st' = st\<lparr>rd_deferred_writes := rd_deferred_writes st @
       [\<lparr>pw_operation_id = wd_operation_id r, pw_entry = wd_entry r\<rparr>]\<rparr>"
  by (auto simp: step_write_deferred_def result_simps open_operation_ok)

lemma step_activation_requested_ok [step_effects]:
  "step_activation_requested st r = Inr st' \<longleftrightarrow>
     (\<exists>op. map_of (rd_operations st) (ha_operation_id r) = Some op \<and> \<not> st_finished op) \<and>
     st' = st\<lparr>rd_activation_requests := rd_activation_requests st @ [r]\<rparr>"
  by (auto simp: step_activation_requested_def result_simps open_operation_ok)

lemma step_usage_ok [step_effects]:
  "step_usage st r = Inr st' \<longleftrightarrow>
     (\<exists>op. map_of (rd_operations st) (ur_operation_id r) = Some op \<and> \<not> st_finished op \<and>
        st' = st\<lparr>rd_usage_by_lane := btree_insert (st_lane_id op)
           (usage_add_assign (lane_usage st (st_lane_id op)) (ur_usage r)) (rd_usage_by_lane st)\<rparr>)"
  by (auto simp: step_usage_def result_simps open_operation_ok)

lemma require_open_ok [step_effects]:
  "require_open st i = Inr st' \<longleftrightarrow>
     (\<exists>op. map_of (rd_operations st) i = Some op \<and> \<not> st_finished op) \<and> st' = st"
  by (auto simp: require_open_def result_simps open_operation_ok)

lemma step_material_ok [step_effects]:
  "step_material st f = Inr st' \<longleftrightarrow>
     (\<exists>start. map_of (rd_provider_starts st) (mf_request_id f) = Some start \<and>
        pr_operation_id start = mf_operation_id f \<and> pr_epoch_id start = mf_epoch_id f \<and>
        mf_request_id f \<notin> dom (map_of (rd_provider_settled st)) \<and>
        mf_request_id f \<notin> rd_provider_material st \<and>
        st' = st\<lparr>rd_provider_material := insert (mf_request_id f) (rd_provider_material st)\<rparr>)"
  by (auto simp: step_material_def btree_simps split: option.splits)

lemma step_extension_state_ok [step_effects]:
  "step_extension_state cx st f = Inr st' \<longleftrightarrow>
     validate_extension_state_value cx f = Inr () \<and>
     (\<exists>state. map_of (rd_extension_state st) (xs_lane_id f) = Some state \<and>
        st' = st\<lparr>rd_fresh_lanes := rd_fresh_lanes st - {xs_lane_id f},
                 rd_extension_state := btree_insert (xs_lane_id f)
                   (btree_insert (xs_extension_id f)
                      \<lparr>xv_state_version = xs_state_version f, xv_value = xs_value f\<rparr> state)
                   (rd_extension_state st)\<rparr>)"
  by (auto simp: step_extension_state_def Let_def result_simps split: option.splits)

lemma step_turn_checkpoint_ok [step_effects]:
  "step_turn_checkpoint st f = Inr st' \<longleftrightarrow>
     cp_checkpoint_id f \<notin> dom (map_of (rd_checkpoints st)) \<and>
     rd_checkpoint_ready_for st = Some (cp_operation_id f) \<and>
     (\<exists>op. map_of (rd_operations st) (cp_operation_id f) = Some op \<and> st_finished op \<and>
        st_lane_id op = cp_lane_id f) \<and>
     lane_leaf_flat st (cp_lane_id f) = cp_leaf_id f \<and>
     \<not> unresolved_tool st (cp_operation_id f) \<and> \<not> unresolved_request st (cp_operation_id f) \<and>
     \<not> unresolved_control st (cp_operation_id f) \<and> \<not> unresolved_child st (cp_operation_id f) \<and>
     map_of (rd_extension_state st) (cp_lane_id f) = Some (cp_extension_state f) \<and>
     st' = st\<lparr>rd_checkpoints := btree_insert (cp_checkpoint_id f) f (rd_checkpoints st),
              rd_checkpoint_ready_for := None\<rparr>"
  by (auto simp: step_turn_checkpoint_def Let_def btree_simps split: option.splits)

lemma step_forked_lane_ok [step_effects]:
  "step_forked_lane st f = Inr st' \<longleftrightarrow>
     (\<exists>checkpoint. map_of (rd_checkpoints st) (fl_checkpoint_id f) = Some checkpoint \<and>
        fl_lane_id f \<in> rd_fresh_lanes st \<and> fl_lane_id f \<notin> rd_forked_lanes st \<and>
        lane_leaf_flat st (fl_lane_id f) = fl_base_leaf_id f \<and>
        fl_base_leaf_id f = cp_leaf_id checkpoint \<and>
        \<not> list_ex (\<lambda>operation. st_lane_id operation = fl_lane_id f) (btree_values (rd_operations st)) \<and>
        st' = st\<lparr>rd_fresh_lanes := rd_fresh_lanes st - {fl_lane_id f},
                 rd_forked_lanes := insert (fl_lane_id f) (rd_forked_lanes st),
                 rd_extension_state := btree_insert (fl_lane_id f)
                   (cp_extension_state checkpoint) (rd_extension_state st)\<rparr>)"
  by (auto simp: step_forked_lane_def split: option.splits)

lemma step_agent_spawned_ok [step_effects]:
  "step_agent_spawned st seq f = Inr st' \<longleftrightarrow>
     as_agent_id f \<notin> dom (map_of (rd_child_spawns st)) \<and>
     st' = st\<lparr>rd_fresh_lanes := rd_fresh_lanes st - {as_lane_id f},
              rd_child_spawns := btree_insert (as_agent_id f)
                (as_parent_operation_id f, seq) (rd_child_spawns st)\<rparr>"
  by (auto simp: step_agent_spawned_def Let_def btree_simps)

section \<open>The arms as a step relation\<close>

text \<open>
  \<open>lane_step\<close> relates the state before an arm of the loop to the state after it. Invariants
  are proved by cases of this relation and lifted to the loop.
\<close>

inductive lane_step :: "codec \<Rightarrow> reducer \<Rightarrow> reducer \<Rightarrow> bool" for cx st st' where
  lane: "step_lane st (Created l b) = Inr st' \<Longrightarrow> lane_step cx st st'"
| entry: "step_entry cx st e = Inr st' \<Longrightarrow> lane_step cx st st'"
| operation_started: "step_operation_started st r = Inr st' \<Longrightarrow> lane_step cx st st'"
| operation_finished: "step_operation_finished st r = Inr st' \<Longrightarrow> lane_step cx st st'"
| epoch_started: "step_epoch_started st r = Inr st' \<Longrightarrow> lane_step cx st st'"
| epoch_finished: "step_epoch_finished st r = Inr st' \<Longrightarrow> lane_step cx st st'"
| step_attempted: "step_step_attempted st r = Inr st' \<Longrightarrow> lane_step cx st st'"
| request_started: "step_provider_request_started st r = Inr st' \<Longrightarrow> lane_step cx st st'"
| request_settled: "step_provider_request_settled st r = Inr st' \<Longrightarrow> lane_step cx st st'"
| tool_started: "step_tool_started st s r = Inr st' \<Longrightarrow> lane_step cx st st'"
| input_accepted: "step_input_accepted st s r = Inr st' \<Longrightarrow> lane_step cx st st'"
| input_withdrawn: "step_input_withdrawn st r = Inr st' \<Longrightarrow> lane_step cx st st'"
| input_settled: "step_input_settled st r = Inr st' \<Longrightarrow> lane_step cx st st'"
| control_enqueued: "step_extension_control_enqueued cx st s n r = Inr st' \<Longrightarrow> lane_step cx st st'"
| control_applied: "step_extension_control_applied st c = Inr st' \<Longrightarrow> lane_step cx st st'"
| write_deferred: "step_write_deferred st r = Inr st' \<Longrightarrow> lane_step cx st st'"
| activation: "step_activation_requested st r = Inr st' \<Longrightarrow> lane_step cx st st'"
| usage: "step_usage st r = Inr st' \<Longrightarrow> lane_step cx st st'"
| unchanged: "st' = st \<Longrightarrow> lane_step cx st st'"
| material: "step_material st f = Inr st' \<Longrightarrow> lane_step cx st st'"
| extension_state: "step_extension_state cx st f = Inr st' \<Longrightarrow> lane_step cx st st'"
| checkpoint: "step_turn_checkpoint st f = Inr st' \<Longrightarrow> lane_step cx st st'"
| fork: "step_forked_lane st f = Inr st' \<Longrightarrow> lane_step cx st st'"
| spawned: "step_agent_spawned st s f = Inr st' \<Longrightarrow> lane_step cx st st'"
| child_finished:
    "st' = st\<lparr>rd_child_terminal := insert a (rd_child_terminal st)\<rparr> \<Longrightarrow> lane_step cx st st'"

lemma step_record_lane_step: "step_record cx st s n r = Inr st' \<Longrightarrow> lane_step cx st st'"
  by (cases r; simp add: require_open_ok) (blast intro: lane_step.intros)+

lemma step_fact_lane_step: "step_fact cx st s f = Inr st' \<Longrightarrow> lane_step cx st st'"
  by (cases f; simp) (blast intro: lane_step.intros)+

lemma step_mutation_lane_step:
  assumes "step_mutation cx st n m = Inr st'"
  shows "lane_step cx st st'"
proof (cases m)
  case (LaneM l)
  with assms show ?thesis
    by (cases "sl_mutation l") (simp add: step_mutation_def lane_step.lane del: step_lane.simps)
qed (use assms in \<open>simp_all add: step_mutation_def lane_step.entry step_record_lane_step
       step_fact_lane_step\<close>)

text \<open>The bookkeeping before the match only moves the timeline and may drop readiness.\<close>

lemma prepare_step_fields:
  obtains ready where "clear_readiness (advance_timeline st s) m =
      st\<lparr>rd_observed_item_index := saturating_add (rd_observed_item_index st) 1,
         rd_observed_sequence := s, rd_checkpoint_ready_for := ready\<rparr>"
    and "ready = rd_checkpoint_ready_for st \<or> ready = None"
  by (rule that [of "if preserves_checkpoint_readiness (advance_timeline st s) m
                     then rd_checkpoint_ready_for st else None"])
    (simp_all add: clear_readiness_def advance_timeline_def)

lemma reduce_step_cases:
  assumes "reduce_step cx st m = Inr st'"
  obtains ready where
    "sv_seq m = rd_observed_sequence st \<or> sv_seq m = saturating_add (rd_observed_sequence st) 1"
    "ready = rd_checkpoint_ready_for st \<or> ready = None"
    "lane_step cx (st\<lparr>rd_observed_item_index := saturating_add (rd_observed_item_index st) 1,
        rd_observed_sequence := sv_seq m, rd_checkpoint_ready_for := ready\<rparr>) st'"
proof -
  from assms have seq: "sv_seq m = rd_observed_sequence st \<or>
      sv_seq m = saturating_add (rd_observed_sequence st) 1"
    and step: "lane_step cx (clear_readiness (advance_timeline st (sv_seq m)) (sv_mutation m)) st'"
    by (auto simp: reduce_step_def Let_def split: if_splits dest: step_mutation_lane_step)
  obtain ready where "clear_readiness (advance_timeline st (sv_seq m)) (sv_mutation m) =
      st\<lparr>rd_observed_item_index := saturating_add (rd_observed_item_index st) 1,
         rd_observed_sequence := sv_seq m, rd_checkpoint_ready_for := ready\<rparr>"
    and "ready = rd_checkpoint_ready_for st \<or> ready = None"
    by (rule prepare_step_fields)
  with seq step show thesis by (intro that) simp_all
qed

text \<open>
  An invariant that ignores the timeline fields and survives dropping readiness is kept by
  the loop as soon as every arm keeps it.
\<close>

locale lane_invariant =
  fixes cx :: codec
    and inv :: "reducer \<Rightarrow> bool"
  assumes inv_timeline: "inv st \<Longrightarrow> ready = rd_checkpoint_ready_for st \<or> ready = None \<Longrightarrow>
      inv (st\<lparr>rd_observed_item_index := n, rd_observed_sequence := s,
              rd_checkpoint_ready_for := ready\<rparr>)"
    and inv_lane_step: "lane_step cx st st' \<Longrightarrow> inv st \<Longrightarrow> inv st'"

sublocale lane_invariant \<subseteq> checked_replay "reduce_step cx" inv
proof
  fix s m s'
  assume "inv s" and "reduce_step cx s m = Inr s'"
  then show "inv s'"
    by (elim reduce_step_cases) (blast intro: inv_timeline inv_lane_step)
qed

section \<open>Entries form rooted branches\<close>

text \<open>\<open>rooted_at es n leaf\<close>: following parents from \<open>leaf\<close> reaches the root within \<open>n\<close> entries.\<close>

inductive rooted_at :: "(entry_id, stored_entry) btree \<Rightarrow> nat \<Rightarrow> entry_id option \<Rightarrow> bool" for es where
  root: "rooted_at es n None"
| child: "map_of es i = Some e \<Longrightarrow> rooted_at es n (eh_parent_id (se_header e)) \<Longrightarrow>
    rooted_at es (Suc n) (Some i)"

definition entry_inv :: "reducer \<Rightarrow> bool" where
  "entry_inv st \<longleftrightarrow>
     btree_ok (rd_entries st) \<and>
     (\<forall>i e. map_of (rd_entries st) i = Some e \<longrightarrow>
        eh_id (se_header e) = i \<and> rooted_at (rd_entries st) (length (rd_entries st)) (Some i)) \<and>
     (\<forall>l i. map_of (rd_lane_leaves st) l = Some (Some i) \<longrightarrow> i \<in> dom (map_of (rd_entries st)))"

lemma rooted_at_mono: "rooted_at es n leaf \<Longrightarrow> n \<le> k \<Longrightarrow> rooted_at es k leaf"
proof (induction arbitrary: k rule: rooted_at.induct)
  case (child i e n)
  then obtain k' where "k = Suc k'" and "n \<le> k'" by (cases k) auto
  with child show ?case by (auto intro: rooted_at.child)
qed (rule rooted_at.root)

lemma rooted_at_insert:
  assumes "rooted_at es n leaf" and "i \<notin> dom (map_of es)"
  shows "rooted_at (btree_insert i e es) n leaf"
  using assms(1)
proof (induction rule: rooted_at.induct)
  case (child j e' n)
  with assms(2) have "j \<noteq> i" by auto
  with child show ?case by (auto intro: rooted_at.child)
qed (rule rooted_at.root)

lemma length_btree_insert_fresh:
  "k \<notin> dom (map_of m) \<Longrightarrow> length (btree_insert k v m) = Suc (length m)"
proof (induction m)
  case (Cons p m)
  then have "k \<notin> dom (map_of m)" and "k \<noteq> fst p"
    by (auto simp: domIff split: if_splits)
  with Cons.IH show ?case by simp
qed simp

lemma parent_chain_rooted:
  "rooted_at es n leaf \<Longrightarrow> \<exists>chain. parent_chain es n leaf acc = Inr chain"
  by (induction arbitrary: acc rule: rooted_at.induct) auto

lemma entry_inv_leaf_rooted:
  assumes "entry_inv st"
  shows "rooted_at (rd_entries st) (Suc (length (rd_entries st))) (lane_leaf_flat st l)"
proof (cases "lane_leaf_flat st l")
  case None
  then show ?thesis by (simp add: rooted_at.root)
next
  case (Some i)
  then have "map_of (rd_lane_leaves st) l = Some (Some i)"
    by (auto simp: lane_leaf_flat_def split: option.splits)
  with assms have "rooted_at (rd_entries st) (length (rd_entries st)) (Some i)"
    unfolding entry_inv_def by blast
  with Some show ?thesis by (auto intro: rooted_at_mono)
qed

lemma derive_configuration_total:
  assumes "entry_inv st"
  shows "\<exists>c. derive_configuration (rd_entries st) (lane_leaf_flat st l) = Inr c"
  using parent_chain_rooted [OF entry_inv_leaf_rooted [OF assms, of l], of "[]"]
  by (auto simp: derive_configuration_def simp del: parent_chain.simps)

lemma entry_inv_insert:
  assumes inv: "entry_inv st" and fresh: "i \<notin> dom (map_of (rd_entries st))"
    and leaf: "map_of (rd_lane_leaves st) l = Some leaf"
    and e: "eh_id (se_header e) = i" "eh_parent_id (se_header e) = leaf"
    and st': "rd_entries st' = btree_insert i e (rd_entries st)"
      "rd_lane_leaves st' = btree_insert l (Some i) (rd_lane_leaves st)"
  shows "entry_inv st'"
  unfolding entry_inv_def
proof (intro conjI allI impI)
  let ?es = "rd_entries st" and ?n = "length (rd_entries st)"
  have len: "length (rd_entries st') = Suc ?n"
    using fresh by (simp add: st' length_btree_insert_fresh)
  have lift: "rooted_at (rd_entries st') k x" if "rooted_at ?es k x" for k x
    using rooted_at_insert [OF that fresh] by (simp add: st')
  show "btree_ok (rd_entries st')" using inv by (simp add: entry_inv_def st')
  fix j e'
  assume j: "map_of (rd_entries st') j = Some e'"
  show "eh_id (se_header e') = j"
    using j inv e by (auto simp: st' entry_inv_def split: if_splits)
  show "rooted_at (rd_entries st') (length (rd_entries st')) (Some j)"
  proof (cases "j = i")
    case True
    have "rooted_at ?es ?n leaf"
    proof (cases leaf)
      case (Some p)
      with inv leaf show ?thesis by (fastforce simp: entry_inv_def)
    qed (simp add: rooted_at.root)
    then have "rooted_at (rd_entries st') ?n (eh_parent_id (se_header e))"
      using lift e(2) by simp
    with True show ?thesis
      unfolding len by (auto simp: st' intro: rooted_at.child)
  next
    case False
    with j inv have "rooted_at ?es ?n (Some j)" by (auto simp: st' entry_inv_def)
    then show ?thesis using lift rooted_at_mono len by (metis le_SucI order_refl)
  qed
next
  fix l' j
  assume "map_of (rd_lane_leaves st') l' = Some (Some j)"
  then show "j \<in> dom (map_of (rd_entries st'))"
    using inv by (auto simp: st' entry_inv_def split: if_splits)
qed

lemma entry_inv_cong:
  "rd_entries st' = rd_entries st \<Longrightarrow> rd_lane_leaves st' = rd_lane_leaves st \<Longrightarrow>
   entry_inv st' = entry_inv st"
  by (simp add: entry_inv_def)

lemma entry_inv_step: "lane_step cx st st' \<Longrightarrow> entry_inv st \<Longrightarrow> entry_inv st'"
proof (induction rule: lane_step.induct)
  case (lane l b)
  then show ?case by (auto simp: step_effects entry_inv_def simp del: step_lane.simps)
next
  case (entry e)
  from entry(1) show ?case
    by (rule step_entry_ok) (rule entry_inv_insert [OF entry(2)], auto)
next
  case (operation_started r)
  from operation_started(1) show ?case
    by (rule step_operation_started_ok) (use operation_started(2) in \<open>simp add: entry_inv_def\<close>)
qed (auto simp: step_effects intro: entry_inv_cong [THEN iffD2])

interpretation entries: lane_invariant cx entry_inv for cx
  by unfold_locales (simp add: entry_inv_def, rule entry_inv_step)

section \<open>Operations: one open operation per lane\<close>

definition operation_inv :: "reducer \<Rightarrow> bool" where
  "operation_inv st \<longleftrightarrow>
     (\<forall>l o'. map_of (rd_active_operations st) l = Some o' \<longrightarrow>
        (\<exists>op. map_of (rd_operations st) o' = Some op \<and> \<not> st_finished op \<and> st_lane_id op = l)) \<and>
     (\<forall>o' op. map_of (rd_operations st) o' = Some op \<longrightarrow>
        (\<not> st_finished op \<longrightarrow> map_of (rd_active_operations st) (st_lane_id op) = Some o') \<and>
        st_lane_id op \<in> dom (map_of (rd_lane_leaves st)) \<and>
        (st_finished op \<longleftrightarrow> st_op_outcome op \<noteq> None) \<and>
        (st_finished op \<longrightarrow> st_open_epochs op = {}))"

lemma operation_inv_active:
  "operation_inv st \<Longrightarrow> map_of (rd_active_operations st) l = Some o' \<Longrightarrow>
     \<exists>op. map_of (rd_operations st) o' = Some op \<and> \<not> st_finished op \<and> st_lane_id op = l"
  by (auto simp: operation_inv_def)

lemma operation_inv_open:
  "operation_inv st \<Longrightarrow> map_of (rd_operations st) o' = Some op \<Longrightarrow> \<not> st_finished op \<Longrightarrow>
     map_of (rd_active_operations st) (st_lane_id op) = Some o'"
  by (auto simp: operation_inv_def)

lemma operation_inv_state:
  assumes "operation_inv st" and "map_of (rd_operations st) o' = Some op"
  shows "st_lane_id op \<in> dom (map_of (rd_lane_leaves st))"
    and "st_finished op \<longleftrightarrow> st_op_outcome op \<noteq> None"
    and "st_finished op \<Longrightarrow> st_open_epochs op = {}"
  using assms by (auto simp: operation_inv_def)

lemma operation_inv_cong:
  "rd_operations st' = rd_operations st \<Longrightarrow> rd_active_operations st' = rd_active_operations st \<Longrightarrow>
   dom (map_of (rd_lane_leaves st)) \<subseteq> dom (map_of (rd_lane_leaves st')) \<Longrightarrow>
   operation_inv st \<Longrightarrow> operation_inv st'"
  by (simp add: operation_inv_def) blast

lemma operation_inv_frame:
  "rd_operations st' = rd_operations st \<Longrightarrow> rd_active_operations st' = rd_active_operations st \<Longrightarrow>
   rd_lane_leaves st' = rd_lane_leaves st \<Longrightarrow> operation_inv st' = operation_inv st"
  by (simp add: operation_inv_def)

text \<open>An open operation is updated in place.\<close>

lemma operation_inv_update:
  assumes inv: "operation_inv st"
    and upd: "rd_operations st' = btree_insert o' op' (rd_operations st)"
    and op: "map_of (rd_operations st) o' = Some op"
    and same: "st_lane_id op' = st_lane_id op" "st_finished op' = st_finished op"
      "st_op_outcome op' = st_op_outcome op"
      "st_finished op \<Longrightarrow> st_open_epochs op' = st_open_epochs op"
    and rest: "rd_active_operations st' = rd_active_operations st"
      "dom (map_of (rd_lane_leaves st)) \<subseteq> dom (map_of (rd_lane_leaves st'))"
  shows "operation_inv st'"
  unfolding operation_inv_def
proof (intro conjI allI impI)
  fix l p
  assume "map_of (rd_active_operations st') l = Some p"
  then show "\<exists>op. map_of (rd_operations st') p = Some op \<and> \<not> st_finished op \<and> st_lane_id op = l"
    using operation_inv_active [OF inv, of l p] op same by (auto simp: upd rest)
next
  fix p q
  assume "map_of (rd_operations st') p = Some q"
  then obtain q' where q': "map_of (rd_operations st) p = Some q'"
      "st_lane_id q = st_lane_id q'" "st_finished q = st_finished q'"
      "st_op_outcome q = st_op_outcome q'" "st_finished q' \<Longrightarrow> st_open_epochs q = st_open_epochs q'"
    using op same by (auto simp: upd rest split: if_splits)
  note state = operation_inv_state [OF inv q'(1)]
  show "st_lane_id q \<in> dom (map_of (rd_lane_leaves st'))"
    using state(1) rest(2) q'(2) by auto
  show "st_finished q = (st_op_outcome q \<noteq> None)"
    using state(2) q' by simp
  show "map_of (rd_active_operations st') (st_lane_id q) = Some p" if "\<not> st_finished q"
    using operation_inv_open [OF inv q'(1)] that q' by (simp add: upd rest)
  show "st_open_epochs q = {}" if "st_finished q"
    using state(3) that q' by simp
qed

lemma operation_inv_started:
  assumes inv: "operation_inv st" and fresh: "os_id r \<notin> dom (map_of (rd_operations st))"
    and free: "map_of (rd_active_operations st) (os_lane_id r) = None"
    and lane: "os_lane_id r \<in> dom (map_of (rd_lane_leaves st))"
    and st': "rd_operations st' = btree_insert (os_id r) (fresh_operation_state r) (rd_operations st)"
      "rd_active_operations st' = btree_insert (os_lane_id r) (os_id r) (rd_active_operations st)"
      "rd_lane_leaves st' = rd_lane_leaves st"
  shows "operation_inv st'"
  unfolding operation_inv_def
proof (intro conjI allI impI)
  fix l p
  assume p: "map_of (rd_active_operations st') l = Some p"
  show "\<exists>op. map_of (rd_operations st') p = Some op \<and> \<not> st_finished op \<and> st_lane_id op = l"
  proof (cases "l = os_lane_id r")
    case True
    with p show ?thesis by (simp add: st' fresh_operation_state_def)
  next
    case False
    with p operation_inv_active [OF inv, of l p] fresh show ?thesis by (auto simp: st')
  qed
next
  fix p q
  assume q: "map_of (rd_operations st') p = Some q"
  have old: "map_of (rd_operations st) p = Some q" if "p \<noteq> os_id r"
    using q that by (simp add: st')
  have new: "q = fresh_operation_state r" if "p = os_id r"
    using q that by (simp add: st')
  show "st_lane_id q \<in> dom (map_of (rd_lane_leaves st'))"
    using old new operation_inv_state(1) [OF inv] lane
    by (cases "p = os_id r") (auto simp: st' fresh_operation_state_def)
  show "st_finished q = (st_op_outcome q \<noteq> None)"
    using old new operation_inv_state(2) [OF inv]
    by (cases "p = os_id r") (auto simp: fresh_operation_state_def)
  show "st_open_epochs q = {}" if "st_finished q"
    using that old new operation_inv_state(3) [OF inv]
    by (cases "p = os_id r") (auto simp: fresh_operation_state_def)
  show "map_of (rd_active_operations st') (st_lane_id q) = Some p" if "\<not> st_finished q"
    using that old new operation_inv_open [OF inv, of p q] free
    by (cases "p = os_id r") (auto simp: st' fresh_operation_state_def)
qed

lemma operation_inv_finished:
  assumes inv: "operation_inv st" and op: "map_of (rd_operations st) o' = Some op"
    and active: "map_of (rd_active_operations st) (st_lane_id op) = Some o'"
    and epochs: "st_open_epochs op = {}"
    and st': "rd_operations st' = btree_insert o'
        (op\<lparr>st_finished := True, st_op_outcome := Some out\<rparr>) (rd_operations st)"
      "rd_active_operations st' = btree_remove (st_lane_id op) (rd_active_operations st)"
      "rd_lane_leaves st' = rd_lane_leaves st"
  shows "operation_inv st'"
  unfolding operation_inv_def
proof (intro conjI allI impI)
  fix l p
  assume "map_of (rd_active_operations st') l = Some p"
  then have l: "l \<noteq> st_lane_id op" "map_of (rd_active_operations st) l = Some p"
    by (auto simp: st' split: if_splits)
  with operation_inv_active [OF inv l(2)] op
  show "\<exists>op. map_of (rd_operations st') p = Some op \<and> \<not> st_finished op \<and> st_lane_id op = l"
    by (auto simp: st')
next
  fix p q
  assume q: "map_of (rd_operations st') p = Some q"
  show "st_lane_id q \<in> dom (map_of (rd_lane_leaves st'))"
    using q operation_inv_state(1) [OF inv op] operation_inv_state(1) [OF inv, of p q]
    by (auto simp: st' split: if_splits)
  show "st_finished q = (st_op_outcome q \<noteq> None)"
    using q operation_inv_state(2) [OF inv, of p q] by (auto simp: st' split: if_splits)
  show "st_open_epochs q = {}" if "st_finished q"
    using that q epochs operation_inv_state(3) [OF inv, of p q] by (auto simp: st' split: if_splits)
  show "map_of (rd_active_operations st') (st_lane_id q) = Some p" if "\<not> st_finished q"
    using that q op active operation_inv_open [OF inv, of p q] by (auto simp: st' split: if_splits)
qed

lemma operation_inv_step: "lane_step cx st st' \<Longrightarrow> operation_inv st \<Longrightarrow> operation_inv st'"
proof (induction rule: lane_step.induct)
  case (lane l b)
  then show ?case
    by (auto simp: step_effects simp del: step_lane.simps
        intro!: operation_inv_cong [OF _ _ _ lane(2)])
next
  case (entry e)
  from entry(1) show ?case
  proof (rule step_entry_ok)
    fix R leaf ops
    assume ops: "(map_of (rd_active_operations st) (se_lane_id e) = None \<and> ops = rd_operations st) \<or>
       (\<exists>o' op. map_of (rd_active_operations st) (se_lane_id e) = Some o' \<and>
        map_of (rd_operations st) o' = Some op \<and>
        ops = btree_insert o' (op\<lparr>st_entry_ids := st_entry_ids op @ [eh_id (se_header e)]\<rparr>)
                (rd_operations st))"
      and st': "st' = st\<lparr>rd_fresh_lanes := rd_fresh_lanes st - {se_lane_id e},
              rd_compaction_requests := R, rd_operations := ops,
              rd_lane_leaves := btree_insert (se_lane_id e) (Some (eh_id (se_header e))) (rd_lane_leaves st),
              rd_entries := btree_insert (eh_id (se_header e)) e (rd_entries st)\<rparr>"
    from ops show ?thesis
    proof (elim disjE exE conjE)
      assume "ops = rd_operations st"
      then show ?thesis by (intro operation_inv_cong [OF _ _ _ entry(2)]) (auto simp: st')
    next
      fix o' op
      assume "map_of (rd_operations st) o' = Some op"
        and "ops = btree_insert o' (op\<lparr>st_entry_ids := st_entry_ids op @ [eh_id (se_header e)]\<rparr>)
               (rd_operations st)"
      then show ?thesis
        by (intro operation_inv_update [OF entry(2), of st' o'
              "op\<lparr>st_entry_ids := st_entry_ids op @ [eh_id (se_header e)]\<rparr>" op]) (auto simp: st')
    qed
  qed
next
  case (operation_started r)
  from operation_started(1) show ?case
    by (rule step_operation_started_ok) (rule operation_inv_started [OF operation_started(2)], auto)
next
  case (operation_finished r)
  then show ?case
    by (auto simp: step_effects intro: operation_inv_finished [OF operation_finished(2)])
next
  case (epoch_started r)
  then show ?case
    by (auto simp: step_effects intro!: operation_inv_update [OF epoch_started(2)])
next
  case (epoch_finished r)
  then show ?case
    by (auto simp: step_effects intro!: operation_inv_update [OF epoch_finished(2)])
qed (auto simp: step_effects intro: operation_inv_frame [THEN iffD2])

interpretation operations: lane_invariant cx operation_inv for cx
  by unfold_locales (simp add: operation_inv_def, rule operation_inv_step)

section \<open>Epochs, steps and provider requests\<close>

definition epochs_of :: "reducer \<Rightarrow> operation_id \<Rightarrow> (epoch_id list \<times> epoch_id set) option" where
  "epochs_of st o' =
     map_option (\<lambda>op. (st_epoch_ids op, st_open_epochs op)) (map_of (rd_operations st) o')"

text \<open>An operation's epochs are its own, and at most the latest one is open.\<close>

definition epoch_inv :: "reducer \<Rightarrow> bool" where
  "epoch_inv st \<longleftrightarrow>
     (\<forall>e o'. map_of (rd_epochs st) e = Some o' \<longrightarrow>
        (\<exists>ids op. epochs_of st o' = Some (ids, op) \<and> e \<in> set ids)) \<and>
     (\<forall>o' ids op. epochs_of st o' = Some (ids, op) \<longrightarrow>
        distinct ids \<and> (\<forall>e \<in> set ids. map_of (rd_epochs st) e = Some o') \<and>
        (op = {} \<or> (ids \<noteq> [] \<and> op = {last ids})))"

lemma epoch_inv_frame:
  "epochs_of st' = epochs_of st \<Longrightarrow> rd_epochs st' = rd_epochs st \<Longrightarrow> epoch_inv st' = epoch_inv st"
  by (simp add: epoch_inv_def)

lemma epochs_of_ops: "rd_operations st' = rd_operations st \<Longrightarrow> epochs_of st' = epochs_of st"
  by (simp add: epochs_of_def fun_eq_iff)

lemma epochs_of_update:
  "rd_operations st' = btree_insert o' op (rd_operations st) \<Longrightarrow>
   epochs_of st' = (epochs_of st)(o' \<mapsto> (st_epoch_ids op, st_open_epochs op))"
  by (simp add: epochs_of_def fun_eq_iff)

lemma epochs_of_get:
  "map_of (rd_operations st) o' = Some op \<Longrightarrow>
   epochs_of st o' = Some (st_epoch_ids op, st_open_epochs op)"
  by (simp add: epochs_of_def)

lemma epoch_inv_same:
  "rd_operations st' = rd_operations st \<Longrightarrow> rd_epochs st' = rd_epochs st \<Longrightarrow>
   epoch_inv st' = epoch_inv st"
  by (intro epoch_inv_frame epochs_of_ops)

lemma epoch_inv_owner:
  "epoch_inv st \<Longrightarrow> map_of (rd_epochs st) e = Some o' \<Longrightarrow>
   \<exists>ids op. epochs_of st o' = Some (ids, op) \<and> e \<in> set ids"
  unfolding epoch_inv_def by blast

lemma epoch_inv_ids:
  assumes "epoch_inv st" and "epochs_of st o' = Some (ids, op)"
  shows "distinct ids" and "e \<in> set ids \<Longrightarrow> map_of (rd_epochs st) e = Some o'"
    and "op = {} \<or> (ids \<noteq> [] \<and> op = {last ids})"
proof -
  from assms have "distinct ids \<and> (\<forall>e \<in> set ids. map_of (rd_epochs st) e = Some o') \<and>
      (op = {} \<or> (ids \<noteq> [] \<and> op = {last ids}))"
    unfolding epoch_inv_def by blast
  then show "distinct ids" and "e \<in> set ids \<Longrightarrow> map_of (rd_epochs st) e = Some o'"
    and "op = {} \<or> (ids \<noteq> [] \<and> op = {last ids})" by blast+
qed

text \<open>Replacing one operation's epochs keeps the invariant when the new ones are in order.\<close>

lemma epoch_inv_replace:
  assumes inv: "epoch_inv st"
    and st': "epochs_of st' = (epochs_of st)(o' \<mapsto> (ids, op))"
    and ids: "distinct ids" "op = {} \<or> (ids \<noteq> [] \<and> op = {last ids})"
    and new: "\<And>e. map_of (rd_epochs st') e = Some o' \<longleftrightarrow> e \<in> set ids"
    and other: "\<And>e p. p \<noteq> o' \<Longrightarrow> map_of (rd_epochs st') e = Some p \<longleftrightarrow> map_of (rd_epochs st) e = Some p"
  shows "epoch_inv st'"
  unfolding epoch_inv_def
proof (intro conjI allI impI ballI)
  fix e p
  assume e: "map_of (rd_epochs st') e = Some p"
  show "\<exists>ids op. epochs_of st' p = Some (ids, op) \<and> e \<in> set ids"
  proof (cases "p = o'")
    case True
    with e new [of e] show ?thesis by (simp add: st')
  next
    case False
    with e other epoch_inv_owner [OF inv, of e p] show ?thesis by (simp add: st')
  qed
next
  fix p js q
  assume p: "epochs_of st' p = Some (js, q)"
  then have p': "p \<noteq> o' \<Longrightarrow> epochs_of st p = Some (js, q)" "p = o' \<Longrightarrow> js = ids \<and> q = op"
    by (auto simp: st' split: if_splits)
  show "distinct js" "q = {} \<or> (js \<noteq> [] \<and> q = {last js})"
    using p' ids epoch_inv_ids [OF inv, of p js q] by (cases "p = o'"; simp)+
  show "map_of (rd_epochs st') e = Some p" if "e \<in> set js" for e
    using p' that new other epoch_inv_ids(2) [OF inv, of p js q e] by (cases "p = o'") simp_all
qed

lemma epoch_inv_owns:
  assumes "epoch_inv st" and "epochs_of st o' = Some (ids, op)"
  shows "map_of (rd_epochs st) e = Some o' \<longleftrightarrow> e \<in> set ids"
  using epoch_inv_owner [OF assms(1), of e o'] epoch_inv_ids(2) [OF assms, of e] assms(2) by auto

lemma epoch_inv_unowned:
  "epoch_inv st \<Longrightarrow> epochs_of st o' = None \<Longrightarrow> map_of (rd_epochs st) e \<noteq> Some o'"
  using epoch_inv_owner [of st e o'] by auto

lemma epoch_inv_step: "lane_step cx st st' \<Longrightarrow> epoch_inv st \<Longrightarrow> epoch_inv st'"
proof (induction rule: lane_step.induct)
  case (lane l b)
  then show ?case
    by (auto simp: step_effects simp del: step_lane.simps intro: epoch_inv_same [THEN iffD2])
next
  case (entry e)
  from entry(1) show ?case
    by (rule step_entry_ok)
      (rule epoch_inv_frame [THEN iffD2, OF _ _ entry(2)], auto simp: epochs_of_def fun_eq_iff)
next
  case (operation_started r)
  from operation_started(1) show ?case
  proof (rule step_operation_started_ok)
    assume fresh: "os_id r \<notin> dom (map_of (rd_operations st))"
    fix prov inputs
    assume st': "st' = st\<lparr>rd_fresh_lanes := rd_fresh_lanes st - {os_lane_id r},
              rd_active_operations := btree_insert (os_lane_id r) (os_id r) (rd_active_operations st),
              rd_provisioned_entries := prov, rd_input_states := inputs,
              rd_operations := btree_insert (os_id r) (fresh_operation_state r) (rd_operations st)\<rparr>"
    have "epochs_of st (os_id r) = None" using fresh by (auto simp: epochs_of_def)
    then show ?thesis
      using epoch_inv_unowned [OF operation_started(2)]
      by (intro epoch_inv_replace [OF operation_started(2), of st' "os_id r" "[]" "{}"])
        (auto simp: st' epochs_of_def fresh_operation_state_def fun_eq_iff)
  qed
next
  case (operation_finished r)
  then obtain op where "map_of (rd_operations st) (of_operation_id r) = Some op"
    and st': "st' = st\<lparr>rd_operations := btree_insert (of_operation_id r)
                     (op\<lparr>st_finished := True, st_op_outcome := Some (of_outcome r)\<rparr>) (rd_operations st),
                 rd_active_operations := btree_remove (st_lane_id op) (rd_active_operations st),
                 rd_checkpoint_ready_for := Some (of_operation_id r)\<rparr>"
    by (auto simp: step_effects)
  then have "epochs_of st' = epochs_of st" by (auto simp: epochs_of_def fun_eq_iff)
  with operation_finished(2) show ?case by (subst epoch_inv_frame) (simp_all add: st')
next
  case (epoch_started r)
  from epoch_started(1) obtain op
    where op: "map_of (rd_operations st) (es_operation_id r) = Some op"
      "st_open_epochs op = {}" and fresh: "es_id r \<notin> dom (map_of (rd_epochs st))"
    and st': "st' = st\<lparr>rd_epochs := btree_insert (es_id r) (es_operation_id r) (rd_epochs st),
                 rd_operations := btree_insert (es_operation_id r)
                   (op\<lparr>st_epoch_ids := st_epoch_ids op @ [es_id r],
                       st_open_epochs := insert (es_id r) (st_open_epochs op)\<rparr>) (rd_operations st)\<rparr>"
    unfolding step_epoch_started_ok by blast
  have old: "epochs_of st (es_operation_id r) = Some (st_epoch_ids op, {})"
    using op by (simp add: epochs_of_get)
  note owns = epoch_inv_owns [OF epoch_started(2) old]
  have new: "es_id r \<notin> set (st_epoch_ids op)" using fresh owns [of "es_id r"] by auto
  show ?case
  proof (rule epoch_inv_replace [OF epoch_started(2)])
    show "epochs_of st' = (epochs_of st)(es_operation_id r \<mapsto> (st_epoch_ids op @ [es_id r], {es_id r}))"
      by (simp add: st' op epochs_of_def fun_eq_iff)
    show "distinct (st_epoch_ids op @ [es_id r])"
      using new epoch_inv_ids(1) [OF epoch_started(2) old] by simp
    show "(map_of (rd_epochs st') e = Some (es_operation_id r)) =
        (e \<in> set (st_epoch_ids op @ [es_id r]))" for e
      using owns [of e] by (auto simp: st')
    show "(map_of (rd_epochs st') e = Some p) = (map_of (rd_epochs st) e = Some p)"
      if "p \<noteq> es_operation_id r" for e p
      using that fresh by (auto simp: st')
  qed simp
next
  case (epoch_finished r)
  then obtain op where op: "map_of (rd_operations st) (ef_operation_id r) = Some op"
      "ef_epoch_id r \<in> st_open_epochs op"
    and st': "st' = st\<lparr>rd_operations := btree_insert (ef_operation_id r)
                   (op\<lparr>st_open_epochs := st_open_epochs op - {ef_epoch_id r}\<rparr>) (rd_operations st)\<rparr>"
    by (auto simp: step_effects)
  note old = epochs_of_get [OF op(1)]
  have "st_open_epochs op = {last (st_epoch_ids op)}"
    using epoch_inv_ids(3) [OF epoch_finished(2) old] op(2) by (elim disjE) simp_all
  with op(2) have "st_open_epochs op - {ef_epoch_id r} = {}" by simp
  then have closed: "epochs_of st' = (epochs_of st)(ef_operation_id r \<mapsto> (st_epoch_ids op, {}))"
    by (simp add: st' epochs_of_def fun_eq_iff)
  show ?case
  proof (rule epoch_inv_replace [OF epoch_finished(2) closed])
    show "distinct (st_epoch_ids op)" by (rule epoch_inv_ids(1) [OF epoch_finished(2) old])
    show "(map_of (rd_epochs st') e = Some (ef_operation_id r)) = (e \<in> set (st_epoch_ids op))" for e
      using epoch_inv_owns [OF epoch_finished(2) old, of e] by (simp add: st')
  qed (simp_all add: st')
qed (auto simp: step_effects intro: epoch_inv_same [THEN iffD2])

interpretation epochs: lane_invariant cx epoch_inv for cx
  by unfold_locales (auto intro: epoch_inv_same [THEN iffD2] epoch_inv_step)

text \<open>Requests are keyed by their identity, owned by a recorded step, settled only once started.\<close>

definition steps_owned ::
    "(step_id, operation_id \<times> epoch_id \<times> step_kind) btree \<Rightarrow> (epoch_id, operation_id) btree \<Rightarrow> bool" where
  "steps_owned steps epochs \<longleftrightarrow>
     (\<forall>s o' e k. map_of steps s = Some (o', e, k) \<longrightarrow> map_of epochs e = Some o')"

lemma steps_owned_epoch:
  "steps_owned steps epochs \<Longrightarrow> e \<notin> dom (map_of epochs) \<Longrightarrow> steps_owned steps (btree_insert e o' epochs)"
  unfolding steps_owned_def by (fastforce simp: domIff)

lemma steps_owned_step:
  "steps_owned steps epochs \<Longrightarrow> map_of epochs e = Some o' \<Longrightarrow>
   steps_owned (btree_insert s (o', e, k) steps) epochs"
  unfolding steps_owned_def by simp

definition request_inv :: "reducer \<Rightarrow> bool" where
  "request_inv st \<longleftrightarrow>
     btree_ok (rd_provider_starts st) \<and>
     steps_owned (rd_steps st) (rd_epochs st) \<and>
     (\<forall>q r. map_of (rd_provider_starts st) q = Some r \<longrightarrow> pr_request_id r = q \<and>
        owns_step (map_of (rd_steps st) (pr_step_id r)) (pr_operation_id r) (pr_epoch_id r)) \<and>
     (\<forall>q c. map_of (rd_provider_settled st) q = Some c \<longrightarrow>
        map_of (rd_provider_starts st) q \<noteq> None) \<and>
     (\<forall>q \<in> rd_provider_material st. map_of (rd_provider_starts st) q \<noteq> None) \<and>
     (\<forall>q \<in> rd_compaction_requests st. q \<in> rd_provider_material st \<and>
        map_of (rd_provider_settled st) q = Some Completed_request)"

lemma request_inv_frame:
  "rd_provider_starts st' = rd_provider_starts st \<Longrightarrow> rd_steps st' = rd_steps st \<Longrightarrow>
   rd_epochs st' = rd_epochs st \<Longrightarrow> rd_provider_settled st' = rd_provider_settled st \<Longrightarrow>
   rd_provider_material st' = rd_provider_material st \<Longrightarrow>
   rd_compaction_requests st' = rd_compaction_requests st \<Longrightarrow> request_inv st' = request_inv st"
  by (simp add: request_inv_def)

lemma owns_step_insert:
  "owns_step (map_of steps s) o' e \<Longrightarrow> i \<notin> dom (map_of steps) \<Longrightarrow>
   owns_step (map_of (btree_insert i v steps) s) o' e"
  by (auto simp: owns_step_def split: option.splits)

lemma request_inv_step: "lane_step cx st st' \<Longrightarrow> request_inv st \<Longrightarrow> request_inv st'"
proof (induction rule: lane_step.induct)
  case (lane l b)
  then show ?case
    by (auto simp: step_effects simp del: step_lane.simps intro: request_inv_frame [THEN iffD2])
next
  case (entry e)
  from entry(1) show ?case
    by (rule step_entry_ok) (use entry(2) in \<open>auto simp: request_inv_def\<close>)
next
  case (operation_started r)
  from operation_started(1) show ?case
    by (rule step_operation_started_ok)
      (use operation_started(2) in \<open>simp add: request_inv_def\<close>)
next
  case (epoch_started r)
  then show ?case
    unfolding step_epoch_started_ok request_inv_def by (auto intro: steps_owned_epoch)
next
  case (step_attempted r)
  from step_attempted(1) have fresh: "sa_id r \<notin> dom (map_of (rd_steps st))"
    and epoch: "map_of (rd_epochs st) (sa_epoch_id r) = Some (sa_operation_id r)"
    and st': "st' = st\<lparr>rd_steps := btree_insert (sa_id r) (step_key r) (rd_steps st),
        rd_step_attempts := btree_insert (step_key r) (sa_id r, sa_attempt r) (rd_step_attempts st)\<rparr>"
    unfolding step_step_attempted_ok by blast+
  have "steps_owned (rd_steps st') (rd_epochs st')"
    using step_attempted(2) epoch
    by (simp add: st' step_key_def steps_owned_step request_inv_def)
  moreover have "pr_request_id q' = q \<and>
      owns_step (map_of (rd_steps st') (pr_step_id q')) (pr_operation_id q') (pr_epoch_id q')"
    if "map_of (rd_provider_starts st') q = Some q'" for q q'
    using that step_attempted(2) owns_step_insert [OF _ fresh] unfolding request_inv_def st' by simp
  ultimately show ?case
    using step_attempted(2) unfolding request_inv_def by (simp add: st')
next
  case (request_started r)
  then show ?case
    by (auto simp: step_effects request_inv_def split: if_splits)
next
  case (request_settled r)
  then show ?case
    by (auto simp: step_effects request_inv_def split: if_splits)
next
  case (material f)
  then show ?case
    by (auto simp: step_effects request_inv_def split: if_splits)
qed (auto simp: step_effects intro: request_inv_frame [THEN iffD2])

interpretation requests: lane_invariant cx request_inv for cx
  by unfold_locales (simp add: request_inv_def, rule request_inv_step)

end
