(* ===== verification/Lane_Lifecycle.thy ===== *)
theory Lane_Lifecycle
  imports Lane_Invariants
begin

text \<open>
  The durable life cycles the reducer enforces: a tool call starts at most once and under the
  identity its assistant message gave it; an accepted input goes from pending to withdrawn or
  to dispatched and then settled, with the outcome of the operation that took it; a
  checkpoint names finished work; history is never rewritten.
\<close>

section \<open>Tool starts\<close>

definition call_recorded :: "(entry_id, stored_entry) btree \<Rightarrow> tool_started_record \<Rightarrow> bool" where
  "call_recorded entries t \<longleftrightarrow>
     (\<exists>e assistant call. map_of entries (ts_assistant_entry_id t) = Some e \<and>
        se_body e = AssistantMessage assistant \<and>
        at_index (am_tool_calls assistant) (unat (ts_tool_index t)) = Some call \<and>
        tc_id call = ts_tool_call_id t \<and> tc_name call = ts_tool_name t)"

definition tool_slot :: "sequence \<times> tool_started_record \<Rightarrow> entry_id \<times> u32" where
  "tool_slot s = (ts_assistant_entry_id (snd s), ts_tool_index (snd s))"

definition tool_inv :: "reducer \<Rightarrow> bool" where
  "tool_inv st \<longleftrightarrow>
     distinct (map tool_slot (rd_tool_starts st)) \<and>
     distinct (map (ts_result_entry_id \<circ> snd) (rd_tool_starts st)) \<and>
     (\<forall>s \<in> set (rd_tool_starts st). call_recorded (rd_entries st) (snd s) \<and>
        map_of (rd_epochs st) (ts_epoch_id (snd s)) = Some (ts_operation_id (snd s)))"

lemma validate_tool_started_ok:
  assumes "validate_tool_started r entries prior = Inr ()"
  shows "call_recorded entries r"
    and "(ts_assistant_entry_id r, ts_tool_index r) \<notin> tool_slot ` set prior"
    and "ts_result_entry_id r \<notin> (ts_result_entry_id \<circ> snd) ` set prior"
    and "ts_tool_call_id r \<noteq> [] \<and> ts_tool_name r \<noteq> [] \<and> ts_idempotency_key r \<noteq> []"
  using assms
  by (auto simp: validate_tool_started_def call_recorded_def tool_slot_def list_ex_iff
      split: option.splits if_splits session_entry.splits)

lemma call_recorded_insert:
  "call_recorded es t \<Longrightarrow> i \<notin> dom (map_of es) \<Longrightarrow> call_recorded (btree_insert i e es) t"
  unfolding call_recorded_def by (auto simp: domIff)

lemma tool_inv_frame:
  "rd_tool_starts st' = rd_tool_starts st \<Longrightarrow> rd_entries st' = rd_entries st \<Longrightarrow>
   rd_epochs st' = rd_epochs st \<Longrightarrow> tool_inv st' = tool_inv st"
  by (simp add: tool_inv_def)

lemma tool_inv_step: "lane_step cx st st' \<Longrightarrow> tool_inv st \<Longrightarrow> tool_inv st'"
proof (induction rule: lane_step.induct)
  case (lane l b)
  then show ?case
    by (auto simp: step_effects simp del: step_lane.simps intro: tool_inv_frame [THEN iffD2])
next
  case (entry e)
  from entry(1) show ?case
    by (rule step_entry_ok) (use entry(2) in \<open>auto simp: tool_inv_def intro: call_recorded_insert\<close>)
next
  case (operation_started r)
  from operation_started(1) show ?case
    by (rule step_operation_started_ok) (use operation_started(2) in \<open>simp add: tool_inv_def\<close>)
next
  case (epoch_started r)
  then show ?case
    unfolding step_epoch_started_ok tool_inv_def by (fastforce simp: domIff)
next
  case (tool_started s r)
  then obtain "validate_tool_started r (rd_entries st) (rd_tool_starts st) = Inr ()"
    and epoch: "map_of (rd_epochs st) (ts_epoch_id r) = Some (ts_operation_id r)"
    and st': "st' = st\<lparr>rd_tool_starts := rd_tool_starts st @ [(s, r)]\<rparr>"
    unfolding step_tool_started_ok by blast
  from validate_tool_started_ok [OF this(1)] epoch tool_started(2) show ?case
    by (auto simp: tool_inv_def st' tool_slot_def)
qed (auto simp: step_effects intro: tool_inv_frame [THEN iffD2])

interpretation tools: lane_invariant cx tool_inv for cx
  by unfold_locales (simp add: tool_inv_def, rule tool_inv_step)

section \<open>Input dispatch\<close>

text \<open>
  A dispatched group is exactly the operation's original input: every member was pending on
  the operation's lane with the same content, and no other input changes.
\<close>

definition marked :: "operation_started_record \<Rightarrow> entry_id set \<Rightarrow> (entry_id, input_state) btree \<Rightarrow>
    entry_id \<Rightarrow> input_state option" where
  "marked r S states i =
     (if i \<in> S then map_option (\<lambda>s. s\<lparr>in_status := Dispatched (os_id r)\<rparr>) (map_of states i)
      else map_of states i)"

definition dispatchable :: "operation_started_record \<Rightarrow> (entry_id, input_state) btree \<Rightarrow> entry_id \<Rightarrow> bool"
  where
  "dispatchable r states i \<longleftrightarrow>
     (\<exists>s. map_of states i = Some s \<and> in_status s = Pending \<and>
        ai_lane_id (in_accepted s) = os_lane_id r \<and>
        ai_entry (in_accepted s) \<in> set (os_original_input r) \<and> pe_id (ai_entry (in_accepted s)) = i)"

lemma dispatch_input_ok:
  assumes "dispatch_input r (states', seen) (i, p) = Inr acc"
    and "map_of states' = marked r seen states" and "p \<in> set (os_original_input r)"
  shows "snd acc = insert i seen" and "map_of (fst acc) = marked r (insert i seen) states"
    and "dispatchable r states i" and "i \<notin> seen" and "i = pe_id p"
    and "btree_ok states' \<Longrightarrow> btree_ok (fst acc)"
  using assms
  by (auto simp: dispatch_input_def marked_def dispatchable_def fun_eq_iff
      split: if_splits option.splits)

lemma dispatch_fold_ids:
  "try_fold (dispatch_input r) acc0 ps = Inr acc \<Longrightarrow> map fst ps = map (pe_id \<circ> snd) ps"
proof (induction ps arbitrary: acc0)
  case (Cons q ps)
  then obtain acc' where q: "dispatch_input r acc0 q = Inr acc'"
    and "try_fold (dispatch_input r) acc' ps = Inr acc" by (auto simp: result_simps)
  then have "map fst ps = map (pe_id \<circ> snd) ps" by (intro Cons.IH)
  moreover have "fst q = pe_id (snd q)"
    using q by (cases acc0; cases q) (simp add: dispatch_input_def split: if_splits)
  ultimately show ?case by simp
qed simp

lemma dispatch_fold_ok:
  assumes "try_fold (dispatch_input r) (states', seen) ps = Inr acc"
    and "map_of states' = marked r seen states" and "snd ` set ps \<subseteq> set (os_original_input r)"
    and "btree_ok states'"
  shows "map_of (fst acc) = marked r (seen \<union> set (map fst ps)) states \<and>
    (\<forall>i \<in> set (map fst ps). dispatchable r states i) \<and> btree_ok (fst acc) \<and>
    distinct (map fst ps) \<and> set (map fst ps) \<inter> seen = {}"
  using assms
proof (induction ps arbitrary: states' seen)
  case (Cons q ps)
  obtain i p where q: "q = (i, p)" by fastforce
  from Cons.prems(1) obtain acc' where step: "dispatch_input r (states', seen) (i, p) = Inr acc'"
    and rest: "try_fold (dispatch_input r) acc' ps = Inr acc"
    by (auto simp: q result_simps)
  have p: "p \<in> set (os_original_input r)" using Cons.prems(3) by (auto simp: q)
  note ok = dispatch_input_ok [OF step Cons.prems(2) p]
  have "try_fold (dispatch_input r) (fst acc', insert i seen) ps = Inr acc"
    using rest ok(1) by (cases acc') simp
  note IH = Cons.IH [OF this ok(2)]
  have sub: "snd ` set ps \<subseteq> set (os_original_input r)" using Cons.prems(3) by simp
  from IH [OF sub ok(6) [OF Cons.prems(4)]] ok(3,4) show ?case
    by (simp add: q)
qed (auto simp: marked_def)

lemma dispatch_inputs_ok:
  assumes d: "dispatch_inputs r states = Inr states'" and ok: "btree_ok states"
  shows "map_of states' = marked r (set (os_input_ids r)) states"
    and "i \<in> set (os_input_ids r) \<Longrightarrow> dispatchable r states i"
    and "btree_ok states'"
    and "os_input_ids r \<noteq> [] \<Longrightarrow> os_input_ids r = map pe_id (os_original_input r)"
    and "distinct (os_input_ids r)"
proof -
  let ?ids = "os_input_ids r" and ?ps = "zip (os_input_ids r) (os_original_input r)"
  have none: "map_of states = marked r {} states" by (simp add: marked_def fun_eq_iff)
  have fold: "map fst ?ps = ?ids \<and> map snd ?ps = os_original_input r \<and>
      (\<exists>acc. try_fold (dispatch_input r) (states, {}) ?ps = Inr acc \<and> states' = fst acc)"
    if "?ids \<noteq> []"
    using d that by (auto simp: dispatch_inputs_def result_simps split: if_splits)
  have "map_of states' = marked r (set ?ids) states \<and> (\<forall>i \<in> set ?ids. dispatchable r states i) \<and>
      btree_ok states' \<and> distinct ?ids"
  proof (cases "?ids = []")
    case True
    with d ok none show ?thesis by (simp add: dispatch_inputs_def)
  next
    case False
    from fold [OF this] obtain acc where maps: "map fst ?ps = ?ids"
      and "snd ` set ?ps = set (os_original_input r)"
      and f: "try_fold (dispatch_input r) (states, {}) ?ps = Inr acc" and s: "states' = fst acc"
      by (metis list.set_map)
    with dispatch_fold_ok [OF f none _ ok] show ?thesis
      unfolding maps s by simp
  qed
  then show "map_of states' = marked r (set ?ids) states"
    and "i \<in> set ?ids \<Longrightarrow> dispatchable r states i" and "btree_ok states'" and "distinct ?ids"
    by blast+
  show "?ids = map pe_id (os_original_input r)" if "?ids \<noteq> []"
    using fold [OF that] dispatch_fold_ids by (metis map_map)
qed

section \<open>What no step undoes\<close>

text \<open>
  Operations keep their lane and original input, and a terminal outcome; lanes and entries
  are never removed or replaced.
\<close>

definition operation_kept :: "operation_state \<Rightarrow> operation_state \<Rightarrow> bool" where
  "operation_kept op op' \<longleftrightarrow>
     st_lane_id op' = st_lane_id op \<and> st_original_input op' = st_original_input op \<and>
     (st_finished op \<longrightarrow> st_finished op' \<and> st_op_outcome op' = st_op_outcome op)"

definition operations_kept :: "reducer \<Rightarrow> reducer \<Rightarrow> bool" where
  "operations_kept st st' \<longleftrightarrow>
     (\<forall>o' op. map_of (rd_operations st) o' = Some op \<longrightarrow>
        (\<exists>op'. map_of (rd_operations st') o' = Some op' \<and> operation_kept op op'))"

lemma operation_kept_refl [simp]: "operation_kept op op"
  by (simp add: operation_kept_def)

lemma operations_kept_same: "rd_operations st' = rd_operations st \<Longrightarrow> operations_kept st st'"
  by (simp add: operations_kept_def)

lemma operations_kept_update:
  assumes "rd_operations st' = btree_insert o' op' (rd_operations st)"
    and "\<And>op. map_of (rd_operations st) o' = Some op \<Longrightarrow> operation_kept op op'"
  shows "operations_kept st st'"
  using assms by (auto simp: operations_kept_def)

lemma lane_step_operations_kept: "lane_step cx st st' \<Longrightarrow> operations_kept st st'"
proof (induction rule: lane_step.induct)
  case (lane l b)
  then show ?case
    by (auto simp: step_effects simp del: step_lane.simps intro!: operations_kept_same)
next
  case (entry e)
  then show ?case
    by (rule step_entry_ok) (auto simp: operations_kept_def operation_kept_def)
next
  case (operation_started r)
  then show ?case
    by (rule step_operation_started_ok) (auto simp: operations_kept_def operation_kept_def domIff)
next
  case (operation_finished r)
  then show ?case by (auto simp: step_effects operations_kept_def operation_kept_def)
next
  case (epoch_started r)
  then show ?case by (auto simp: step_effects operations_kept_def operation_kept_def)
next
  case (epoch_finished r)
  then show ?case by (auto simp: step_effects operations_kept_def operation_kept_def)
qed (auto simp: step_effects intro: operations_kept_same)

lemma lane_step_lanes_kept:
  "lane_step cx st st' \<Longrightarrow> dom (map_of (rd_lane_leaves st)) \<subseteq> dom (map_of (rd_lane_leaves st'))"
proof (induction rule: lane_step.induct)
  case (lane l b)
  then show ?case by (auto simp: step_effects simp del: step_lane.simps)
next
  case (entry e)
  then show ?case by (rule step_entry_ok) auto
next
  case (operation_started r)
  then show ?case by (rule step_operation_started_ok) auto
qed (auto simp: step_effects)

lemma lane_step_entries_kept:
  "lane_step cx st st' \<Longrightarrow> map_of (rd_entries st) \<subseteq>\<^sub>m map_of (rd_entries st')"
proof (induction rule: lane_step.induct)
  case (lane l b)
  then show ?case by (auto simp: step_effects simp del: step_lane.simps)
next
  case (entry e)
  then show ?case by (rule step_entry_ok) (auto simp: map_le_def)
next
  case (operation_started r)
  then show ?case by (rule step_operation_started_ok) auto
qed (auto simp: step_effects)

section \<open>The life of an accepted input\<close>

definition taken_by :: "reducer \<Rightarrow> accepted_input \<Rightarrow> operation_id \<Rightarrow> operation_state \<Rightarrow> bool" where
  "taken_by st a o' op \<longleftrightarrow>
     map_of (rd_operations st) o' = Some op \<and> st_lane_id op = ai_lane_id a \<and>
     ai_entry a \<in> set (st_original_input op)"

fun status_ok :: "reducer \<Rightarrow> accepted_input \<Rightarrow> input_status \<Rightarrow> bool" where
  "status_ok st a (Dispatched o') = (\<exists>op. taken_by st a o' op)"
| "status_ok st a (Settled o' out) =
     (\<exists>op. taken_by st a o' op \<and> st_finished op \<and> st_op_outcome op = Some out)"
| "status_ok st a _ = True"

definition input_ok :: "reducer \<Rightarrow> entry_id \<Rightarrow> input_state \<Rightarrow> bool" where
  "input_ok st i s \<longleftrightarrow>
     pe_id (ai_entry (in_accepted s)) = i \<and> is_user_message (pe_body (ai_entry (in_accepted s))) \<and>
     ai_lane_id (in_accepted s) \<in> dom (map_of (rd_lane_leaves st)) \<and>
     status_ok st (in_accepted s) (in_status s)"

definition input_inv :: "reducer \<Rightarrow> bool" where
  "input_inv st \<longleftrightarrow>
     btree_ok (rd_input_states st) \<and> distinct (rd_input_order st) \<and>
     set (rd_input_order st) = dom (map_of (rd_input_states st)) \<and>
     (\<forall>i s. map_of (rd_input_states st) i = Some s \<longrightarrow> input_ok st i s)"

lemma taken_by_kept:
  assumes "operations_kept st st'" and "taken_by st a o' op"
  obtains op' where "taken_by st' a o' op'" and "operation_kept op op'"
  using assms by (fastforce simp: operations_kept_def taken_by_def operation_kept_def)

lemma status_ok_kept:
  assumes "operations_kept st st'" and "status_ok st a s"
  shows "status_ok st' a s"
  using assms by (cases s) (auto simp: operation_kept_def elim!: taken_by_kept)

lemma input_ok_kept:
  "lane_step cx st st' \<Longrightarrow> input_ok st i s \<Longrightarrow> input_ok st' i s"
  using lane_step_lanes_kept [of cx st st'] lane_step_operations_kept [of cx st st']
  by (auto simp: input_ok_def intro: status_ok_kept)

text \<open>Only the new state of a changed input needs a look.\<close>

lemma input_inv_unchanged:
  assumes "lane_step cx st st'" and "input_inv st"
    and "rd_input_states st' = rd_input_states st" and "rd_input_order st' = rd_input_order st"
  shows "input_inv st'"
  using assms input_ok_kept [OF assms(1)] by (simp add: input_inv_def)

lemma input_inv_update:
  assumes step: "lane_step cx st st'" and inv: "input_inv st"
    and st': "rd_input_states st' = btree_insert i (s\<lparr>in_status := x\<rparr>) (rd_input_states st)"
      "rd_input_order st' = rd_input_order st"
    and s: "map_of (rd_input_states st) i = Some s" and x: "status_ok st' (in_accepted s) x"
  shows "input_inv st'"
proof -
  have "input_ok st' i s" using inv s input_ok_kept [OF step] by (simp add: input_inv_def)
  then have "input_ok st' i (s\<lparr>in_status := x\<rparr>)" using x by (simp add: input_ok_def)
  with inv s input_ok_kept [OF step] show ?thesis
    by (auto simp: input_inv_def st' insert_absorb domI)
qed

lemma input_inv_step: "lane_step cx st st' \<Longrightarrow> input_inv st \<Longrightarrow> input_inv st'"
proof -
  assume step: "lane_step cx st st'" and inv: "input_inv st"
  note keep = input_inv_unchanged [OF step inv] and upd = input_inv_update [OF step inv]
  from step show ?thesis
  proof cases
    case (lane l b)
    then show ?thesis by (intro keep) (auto simp: step_effects simp del: step_lane.simps)
  next
    case (entry e)
    then show ?thesis by (rule step_entry_ok) (rule keep, simp_all)
  next
    case (operation_started r)
    then show ?thesis
    proof (rule step_operation_started_ok)
      fix prov inputs
      assume d: "dispatch_inputs r (rd_input_states st) = Inr inputs"
        and st': "st' = st\<lparr>rd_fresh_lanes := rd_fresh_lanes st - {os_lane_id r},
              rd_active_operations := btree_insert (os_lane_id r) (os_id r) (rd_active_operations st),
              rd_provisioned_entries := prov, rd_input_states := inputs,
              rd_operations := btree_insert (os_id r) (fresh_operation_state r) (rd_operations st)\<rparr>"
      have ok: "btree_ok (rd_input_states st)" using inv by (simp add: input_inv_def)
      note d = dispatch_inputs_ok [OF d ok]
      have new: "input_ok st' i s'" if i: "map_of inputs i = Some s'" for i s'
      proof -
        from i d(1) obtain s where s: "map_of (rd_input_states st) i = Some s"
          and s': "s' = (if i \<in> set (os_input_ids r) then s\<lparr>in_status := Dispatched (os_id r)\<rparr> else s)"
          by (auto simp: marked_def split: if_splits)
        have old: "input_ok st' i s"
          using inv s input_ok_kept [OF step] by (simp add: input_inv_def)
        show ?thesis
        proof (cases "i \<in> set (os_input_ids r)")
          case True
          with d(2) [of i] s have "ai_lane_id (in_accepted s) = os_lane_id r"
            "ai_entry (in_accepted s) \<in> set (os_original_input r)"
            by (auto simp: dispatchable_def)
          then have "taken_by st' (in_accepted s) (os_id r) (fresh_operation_state r)"
            by (simp add: taken_by_def st' fresh_operation_state_def)
          with old True show ?thesis by (auto simp: s' input_ok_def)
        qed (use old s' in simp)
      qed
      have "dom (map_of inputs) = dom (map_of (rd_input_states st))"
        unfolding d(1) by (auto simp: marked_def split: if_splits)
      with new inv d(3) show ?thesis by (simp add: input_inv_def st')
    qed
  next
    case (input_accepted s r)
    let ?i = "pe_id (ia_entry r)"
    from input_accepted have fresh: "?i \<notin> dom (map_of (rd_input_states st))"
      and lane: "ia_lane_id r \<in> dom (map_of (rd_lane_leaves st))"
      and user: "is_user_message (pe_body (ia_entry r))"
      and st': "st' = st\<lparr>rd_fresh_lanes := rd_fresh_lanes st - {ia_lane_id r},
              rd_input_order := rd_input_order st @ [?i],
              rd_input_states := btree_insert ?i
                \<lparr>in_accepted = \<lparr>ai_lane_id = ia_lane_id r, ai_entry = ia_entry r,
                   ai_accepted_sequence = s\<rparr>, in_status = Pending\<rparr> (rd_input_states st)\<rparr>"
      unfolding step_input_accepted_ok by blast+
    have "input_ok st' i s" if "map_of (rd_input_states st) i = Some s" for i s
      using inv that input_ok_kept [OF step] by (simp add: input_inv_def)
    with inv fresh lane user show ?thesis
      by (auto simp: input_inv_def st' input_ok_def)
  next
    case (input_withdrawn r)
    then show ?thesis unfolding step_input_withdrawn_ok 
      by (elim exE conjE, intro upd [where x = Withdrawn]) simp_all
  next
    case (input_settled r)
    then obtain op input where op: "map_of (rd_operations st) (is_operation_id r) = Some op"
        "st_finished op" "st_op_outcome op = Some (is_outcome r)"
      and i: "map_of (rd_input_states st) (is_input_id r) = Some input"
        "in_status input = Dispatched (is_operation_id r)"
      and st': "st' = st\<lparr>rd_input_states := btree_insert (is_input_id r)
                   (input\<lparr>in_status := Settled (is_operation_id r) (is_outcome r)\<rparr>)
                   (rd_input_states st)\<rparr>"
      unfolding step_input_settled_ok by blast
    have "input_ok st (is_input_id r) input" using inv i by (simp add: input_inv_def)
    then have "status_ok st' (in_accepted input) (Settled (is_operation_id r) (is_outcome r))"
      using i op by (auto simp: input_ok_def taken_by_def st')
    then show ?thesis using i(1) by (intro upd) (auto simp: st')
  qed (rule keep; auto simp: step_effects)+
qed

lemma input_inv_timeline:
  "input_inv st \<Longrightarrow> input_inv (st\<lparr>rd_observed_item_index := n, rd_observed_sequence := s,
     rd_checkpoint_ready_for := ready\<rparr>)"
  using status_ok_kept [of st "st\<lparr>rd_observed_item_index := n, rd_observed_sequence := s,
     rd_checkpoint_ready_for := ready\<rparr>"]
  by (simp add: input_inv_def input_ok_def operations_kept_same)

interpretation inputs: lane_invariant cx input_inv for cx
  by unfold_locales (rule input_inv_timeline, assumption, rule input_inv_step)

end
