(* ===== verification/Lane_History.thy ===== *)
theory Lane_History
  imports Lane_Lifecycle
begin

text \<open>
  Two further invariants of the replay loop (checkpoints, lanes) and the order \<open>history_le\<close> in
  which a session's reduced state only grows: entries, terminal operations, settled requests,
  started tools and checkpoints are immutable, and an input only moves forward.
\<close>

section \<open>Checkpoints name finished work\<close>

definition work_resolved :: "reducer \<Rightarrow> operation_id \<Rightarrow> bool" where
  "work_resolved st o' \<longleftrightarrow>
     \<not> unresolved_tool st o' \<and> \<not> unresolved_request st o' \<and> \<not> unresolved_control st o'"

definition finished_on :: "reducer \<Rightarrow> operation_id \<Rightarrow> lane_id \<Rightarrow> bool" where
  "finished_on st o' l \<longleftrightarrow>
     (\<exists>op. map_of (rd_operations st) o' = Some op \<and> st_finished op \<and> st_lane_id op = l)"

definition leaf_known :: "reducer \<Rightarrow> entry_id option \<Rightarrow> bool" where
  "leaf_known st leaf \<longleftrightarrow> (\<forall>i. leaf = Some i \<longrightarrow> i \<in> dom (map_of (rd_entries st)))"

definition checkpoint_inv :: "reducer \<Rightarrow> bool" where
  "checkpoint_inv st \<longleftrightarrow>
     (\<forall>c f. map_of (rd_checkpoints st) c = Some f \<longrightarrow>
        cp_checkpoint_id f = c \<and> finished_on st (cp_operation_id f) (cp_lane_id f) \<and>
        work_resolved st (cp_operation_id f) \<and> leaf_known st (cp_leaf_id f)) \<and>
     (\<forall>o'. rd_checkpoint_ready_for st = Some o' \<longrightarrow> (\<exists>l. finished_on st o' l))"

lemma set_btree_values_insert: "set (btree_values (btree_insert k v m)) \<subseteq> insert v (set (btree_values m))"
  using set_btree_insert_subset [of k v m] by (force simp: btree_values_def)

lemma set_btree_values_remove: "set (btree_values (btree_remove k m)) \<subseteq> set (btree_values m)"
  by (auto simp: btree_values_def btree_remove_def)

lemma finished_on_kept: "operations_kept st st' \<Longrightarrow> finished_on st o' l \<Longrightarrow> finished_on st' o' l"
  unfolding finished_on_def operations_kept_def operation_kept_def by metis

lemma leaf_known_kept:
  "map_of (rd_entries st) \<subseteq>\<^sub>m map_of (rd_entries st') \<Longrightarrow> leaf_known st leaf \<Longrightarrow> leaf_known st' leaf"
  unfolding leaf_known_def using map_le_implies_dom_le by blast

lemma entry_inv_leaf_known: "entry_inv st \<Longrightarrow> leaf_known st (lane_leaf_flat st l)"
  unfolding entry_inv_def leaf_known_def lane_leaf_flat_def
  by (metis option.case_eq_if option.collapse option.distinct(1))

text \<open>A finished operation starts no tool, request or control, so its work stays resolved.\<close>

lemma unresolved_tool_iff:
  "unresolved_tool st o' \<longleftrightarrow> (\<exists>s \<in> set (rd_tool_starts st). ts_operation_id (snd s) = o' \<and>
     ts_result_entry_id (snd s) \<notin> dom (map_of (rd_entries st)))"
  by (simp add: unresolved_tool_def list_ex_iff btree_contains_def domIff case_prod_beta)

lemma work_resolved_mono:
  assumes "work_resolved st o'"
    and "set (rd_tool_starts st') \<subseteq> set (rd_tool_starts st) \<union> {s. ts_operation_id (snd s) \<noteq> o'}"
    and "set (btree_values (rd_provider_starts st')) \<subseteq>
           set (btree_values (rd_provider_starts st)) \<union> {r. pr_operation_id r \<noteq> o'}"
    and "set (btree_values (rd_extension_controls st')) \<subseteq>
           set (btree_values (rd_extension_controls st)) \<union> {c. xc_operation_id (px_control c) \<noteq> o'}"
    and "dom (map_of (rd_entries st)) \<subseteq> dom (map_of (rd_entries st'))"
    and "dom (map_of (rd_provider_settled st)) \<subseteq> dom (map_of (rd_provider_settled st'))"
  shows "work_resolved st' o'"
proof -
  have "\<not> unresolved_tool st' o'"
    using assms(1,2,5) unfolding work_resolved_def unresolved_tool_iff by blast
  moreover have "\<not> unresolved_request st' o'"
    using assms(1,3,6) unfolding work_resolved_def unresolved_request_def list_ex_iff btree_contains_iff
    by blast
  moreover have "\<not> unresolved_control st' o'"
    using assms(1,4) unfolding work_resolved_def unresolved_control_def list_ex_iff by blast
  ultimately show ?thesis by (simp add: work_resolved_def)
qed

lemma lane_step_work_resolved:
  assumes "lane_step cx st st'" and fin: "finished_on st o' l" and res: "work_resolved st o'"
  shows "work_resolved st' o'"
  using assms(1)
proof cases
  case (lane l b)
  then show ?thesis
    by (intro work_resolved_mono [OF res]) (auto simp: step_effects simp del: step_lane.simps)
next
  case (entry e)
  then show ?thesis
    by (rule step_entry_ok) (intro work_resolved_mono [OF res]; simp add: subset_insertI)
next
  case (operation_started r)
  then show ?thesis
    by (rule step_operation_started_ok) (intro work_resolved_mono [OF res]; simp)
next
  case (request_started r)
  then have "pr_operation_id r \<noteq> o'"
    and "st' = st\<lparr>rd_provider_starts := btree_insert (pr_request_id r) r (rd_provider_starts st)\<rparr>"
    using fin unfolding step_provider_request_started_ok finished_on_def by auto
  then show ?thesis
    using set_btree_values_insert [of "pr_request_id r" r "rd_provider_starts st"]
    by (intro work_resolved_mono [OF res]) auto
next
  case (request_settled r)
  then have "rd_provider_settled st' =
      btree_insert (st_request_id r) (st_classification r) (rd_provider_settled st)"
    "rd_tool_starts st' = rd_tool_starts st" "rd_provider_starts st' = rd_provider_starts st"
    "rd_extension_controls st' = rd_extension_controls st" "rd_entries st' = rd_entries st"
    unfolding step_provider_request_settled_ok by auto
  then show ?thesis by (intro work_resolved_mono [OF res]) (simp_all add: subset_insertI)
next
  case (tool_started s r)
  then have "ts_operation_id r \<noteq> o'" and "st' = st\<lparr>rd_tool_starts := rd_tool_starts st @ [(s, r)]\<rparr>"
    using fin unfolding step_tool_started_ok finished_on_def by auto
  then show ?thesis by (intro work_resolved_mono [OF res]) auto
next
  case (control_enqueued s n r)
  let ?c = "\<lparr>px_accepted_sequence = s, px_accepted_item_index = n, px_control = r\<rparr>"
  from control_enqueued have "xc_operation_id r \<noteq> o'"
    and "st' = st\<lparr>rd_extension_controls := btree_insert (xc_control_id r) ?c (rd_extension_controls st)\<rparr>"
    using fin unfolding step_extension_control_enqueued_ok finished_on_def by auto
  then show ?thesis
    using set_btree_values_insert [of "xc_control_id r" ?c "rd_extension_controls st"]
    by (intro work_resolved_mono [OF res]) auto
next
  case (control_applied c)
  then show ?thesis
    using set_btree_values_remove [of c "rd_extension_controls st"]
    by (intro work_resolved_mono [OF res]) (auto simp: step_effects)
qed (intro work_resolved_mono [OF res]; auto simp: step_effects)+

lemma checkpoint_inv_step:
  assumes step: "lane_step cx st st'" and inv: "checkpoint_inv st" and chains: "entry_inv st"
  shows "checkpoint_inv st'"
proof -
  have ops: "operations_kept st st'" and entries: "map_of (rd_entries st) \<subseteq>\<^sub>m map_of (rd_entries st')"
    using step by (rule lane_step_operations_kept lane_step_entries_kept)+
  have old: "cp_checkpoint_id f = c \<and> finished_on st' (cp_operation_id f) (cp_lane_id f) \<and>
        work_resolved st' (cp_operation_id f) \<and> leaf_known st' (cp_leaf_id f)"
    if "map_of (rd_checkpoints st) c = Some f" for c f
    using that inv lane_step_work_resolved [OF step] finished_on_kept [OF ops]
      leaf_known_kept [OF entries]
    unfolding checkpoint_inv_def by blast
  have ready: "\<exists>l. finished_on st' o' l" if "rd_checkpoint_ready_for st = Some o'" for o'
    using that inv finished_on_kept [OF ops] unfolding checkpoint_inv_def by blast
  have keep: "checkpoint_inv st'" if "rd_checkpoints st' = rd_checkpoints st"
    "rd_checkpoint_ready_for st' = rd_checkpoint_ready_for st"
    using old ready that by (simp add: checkpoint_inv_def)
  from step show ?thesis
  proof cases
    case (lane l b)
    then show ?thesis by (intro keep) (auto simp: step_effects simp del: step_lane.simps)
  next
    case (entry e)
    then show ?thesis by (rule step_entry_ok) (rule keep; simp)
  next
    case (operation_started r)
    then show ?thesis by (rule step_operation_started_ok) (rule keep; simp)
  next
    case (operation_finished r)
    then have "rd_checkpoint_ready_for st' = Some (of_operation_id r)"
      "rd_checkpoints st' = rd_checkpoints st" "\<exists>l. finished_on st' (of_operation_id r) l"
      unfolding step_operation_finished_ok by (auto simp: finished_on_def)
    with old show ?thesis by (auto simp: checkpoint_inv_def)
  next
    case (checkpoint f)
    then have ck: "finished_on st (cp_operation_id f) (cp_lane_id f)"
      "work_resolved st (cp_operation_id f)" "lane_leaf_flat st (cp_lane_id f) = cp_leaf_id f"
      and st': "st' = st\<lparr>rd_checkpoints := btree_insert (cp_checkpoint_id f) f (rd_checkpoints st),
              rd_checkpoint_ready_for := None\<rparr>"
      unfolding step_turn_checkpoint_ok finished_on_def work_resolved_def by blast+
    then have "leaf_known st (cp_leaf_id f)" using entry_inv_leaf_known [OF chains] by metis
    with ck st' old lane_step_work_resolved [OF step] finished_on_kept [OF ops] leaf_known_kept [OF entries]
    show ?thesis by (auto simp: checkpoint_inv_def st' split: if_splits)
  qed (rule keep; auto simp: step_effects)+
qed


section \<open>Lanes and their extension state\<close>

text \<open>
  Every lane has an extension state, and a lane that is still fresh has had no operation, no
  input and no state of its own.
\<close>

definition lane_inv :: "reducer \<Rightarrow> bool" where
  "lane_inv st \<longleftrightarrow>
     dom (map_of (rd_extension_state st)) = dom (map_of (rd_lane_leaves st)) \<and>
     rd_forked_lanes st \<subseteq> dom (map_of (rd_lane_leaves st)) \<and>
     (\<forall>l \<in> rd_fresh_lanes st. l \<in> dom (map_of (rd_lane_leaves st)) \<and>
        map_of (rd_extension_state st) l = Some [] \<and> l \<notin> rd_forked_lanes st \<and>
        (\<forall>o' op. map_of (rd_operations st) o' = Some op \<longrightarrow> st_lane_id op \<noteq> l) \<and>
        (\<forall>i s. map_of (rd_input_states st) i = Some s \<longrightarrow> ai_lane_id (in_accepted s) \<noteq> l))"

definition lanes_of_operations :: "(operation_id, operation_state) btree \<Rightarrow> lane_id set" where
  "lanes_of_operations ops = {st_lane_id op | o' op. map_of ops o' = Some op}"

definition lanes_of_inputs :: "(entry_id, input_state) btree \<Rightarrow> lane_id set" where
  "lanes_of_inputs states = {ai_lane_id (in_accepted s) | i s. map_of states i = Some s}"

lemma lane_inv_alt:
  "lane_inv st \<longleftrightarrow>
     dom (map_of (rd_extension_state st)) = dom (map_of (rd_lane_leaves st)) \<and>
     rd_forked_lanes st \<subseteq> dom (map_of (rd_lane_leaves st)) \<and>
     (\<forall>l \<in> rd_fresh_lanes st. l \<in> dom (map_of (rd_lane_leaves st)) \<and>
        map_of (rd_extension_state st) l = Some [] \<and> l \<notin> rd_forked_lanes st \<and>
        l \<notin> lanes_of_operations (rd_operations st) \<and> l \<notin> lanes_of_inputs (rd_input_states st))"
  unfolding lane_inv_def lanes_of_operations_def lanes_of_inputs_def by blast

lemma lanes_of_operations_insert:
  "rd_operations st' = btree_insert o' op (rd_operations st) \<Longrightarrow>
   lanes_of_operations (rd_operations st') \<subseteq> insert (st_lane_id op) (lanes_of_operations (rd_operations st))"
  unfolding lanes_of_operations_def by (auto split: if_splits)

lemma lanes_of_operations_in:
  "map_of (rd_operations st) o' = Some op \<Longrightarrow> st_lane_id op \<in> lanes_of_operations (rd_operations st)"
  unfolding lanes_of_operations_def by blast

lemma lanes_of_operations_update:
  "map_of (rd_operations st) o' = Some op \<Longrightarrow>
   rd_operations st' = btree_insert o' op' (rd_operations st) \<Longrightarrow>
   st_lane_id op' = st_lane_id op \<Longrightarrow> lanes_of_operations (rd_operations st') \<subseteq> lanes_of_operations (rd_operations st)"
  using lanes_of_operations_insert [of st' o' op' st] lanes_of_operations_in [of st o' op]
  by (simp add: insert_absorb)

lemma lanes_of_inputs_insert:
  "rd_input_states st' = btree_insert i s (rd_input_states st) \<Longrightarrow>
   lanes_of_inputs (rd_input_states st') \<subseteq> insert (ai_lane_id (in_accepted s)) (lanes_of_inputs (rd_input_states st))"
  unfolding lanes_of_inputs_def by (auto split: if_splits)

lemma lanes_of_inputs_in:
  "map_of (rd_input_states st) i = Some s \<Longrightarrow> ai_lane_id (in_accepted s) \<in> lanes_of_inputs (rd_input_states st)"
  unfolding lanes_of_inputs_def by blast

lemma lanes_of_inputs_update:
  "map_of (rd_input_states st) i = Some s \<Longrightarrow>
   rd_input_states st' = btree_insert i s' (rd_input_states st) \<Longrightarrow>
   in_accepted s' = in_accepted s \<Longrightarrow> lanes_of_inputs (rd_input_states st') \<subseteq> lanes_of_inputs (rd_input_states st)"
  using lanes_of_inputs_insert [of st' i s' st] lanes_of_inputs_in [of st i s]
  by (simp add: insert_absorb)

text \<open>Shrinking the fresh set, or leaving its lanes alone, keeps the invariant.\<close>

lemma lane_inv_keep:
  assumes "lane_inv st" and "rd_fresh_lanes st' \<subseteq> rd_fresh_lanes st"
    and "dom (map_of (rd_extension_state st')) = dom (map_of (rd_extension_state st))"
    and "dom (map_of (rd_lane_leaves st')) = dom (map_of (rd_lane_leaves st))"
    and "\<And>l. l \<in> rd_fresh_lanes st' \<Longrightarrow> map_of (rd_extension_state st') l = map_of (rd_extension_state st) l"
    and "rd_forked_lanes st' \<subseteq> rd_forked_lanes st \<union> (dom (map_of (rd_lane_leaves st)) - rd_fresh_lanes st')"
    and "lanes_of_operations (rd_operations st') \<subseteq> lanes_of_operations (rd_operations st) \<union> - rd_fresh_lanes st'"
    and "lanes_of_inputs (rd_input_states st') \<subseteq> lanes_of_inputs (rd_input_states st) \<union> - rd_fresh_lanes st'"
  shows "lane_inv st'"
  using assms unfolding lane_inv_alt by (simp add: subset_iff) blast

lemma lane_inv_fields:
  "lane_inv st \<Longrightarrow> rd_fresh_lanes st' = rd_fresh_lanes st \<Longrightarrow>
   rd_extension_state st' = rd_extension_state st \<Longrightarrow> rd_lane_leaves st' = rd_lane_leaves st \<Longrightarrow>
   rd_forked_lanes st' = rd_forked_lanes st \<Longrightarrow> rd_operations st' = rd_operations st \<Longrightarrow>
   rd_input_states st' = rd_input_states st \<Longrightarrow> lane_inv st'"
  by (simp add: lane_inv_def)


lemma lanes_of_inputs_marked:
  "map_of (rd_input_states st') = marked r S (rd_input_states st) \<Longrightarrow>
   lanes_of_inputs (rd_input_states st') \<subseteq> lanes_of_inputs (rd_input_states st)"
  unfolding lanes_of_inputs_def marked_def by (fastforce split: if_splits)

lemma lane_inv_created:
  assumes inv: "lane_inv st" and ops: "operation_inv st" and inputs: "input_inv st"
    and l: "l \<notin> dom (map_of (rd_lane_leaves st))"
    and st': "st' = st\<lparr>rd_lane_leaves := btree_insert l b (rd_lane_leaves st),
              rd_extension_state := btree_insert l [] (rd_extension_state st),
              rd_fresh_lanes := insert l (rd_fresh_lanes st)\<rparr>"
  shows "lane_inv st'"
proof -
  have "st_lane_id op \<noteq> l" if "map_of (rd_operations st) o' = Some op" for o' op
    using operation_inv_state(1) [OF ops that] l by blast
  moreover have "ai_lane_id (in_accepted s) \<noteq> l" if "map_of (rd_input_states st) i = Some s" for i s
    using inputs that l unfolding input_inv_def input_ok_def by blast
  moreover have "l \<notin> rd_forked_lanes st" using inv l unfolding lane_inv_def by blast
  ultimately show ?thesis
    using inv by (auto simp: lane_inv_def st')
qed

lemma lane_inv_step:
  assumes step: "lane_step cx st st'" and inv: "lane_inv st" and ops: "operation_inv st"
    and inputs: "input_inv st"
  shows "lane_inv st'"
  using step
proof cases
  case (lane l b)
  then show ?thesis
    unfolding step_lane_ok by (intro lane_inv_created [OF inv ops inputs]) blast+
next
  case (entry e)
  then show ?thesis
  proof (rule step_entry_ok)
    fix R leaf ops'
    assume known: "map_of (rd_lane_leaves st) (se_lane_id e) = Some leaf"
      and upd: "(map_of (rd_active_operations st) (se_lane_id e) = None \<and> ops' = rd_operations st) \<or>
     (\<exists>o' op. map_of (rd_active_operations st) (se_lane_id e) = Some o' \<and>
        map_of (rd_operations st) o' = Some op \<and>
        ops' = btree_insert o' (op\<lparr>st_entry_ids := st_entry_ids op @ [eh_id (se_header e)]\<rparr>)
                (rd_operations st))"
      and st': "st' = st\<lparr>rd_fresh_lanes := rd_fresh_lanes st - {se_lane_id e}, rd_compaction_requests := R,
              rd_operations := ops',
              rd_lane_leaves := btree_insert (se_lane_id e) (Some (eh_id (se_header e))) (rd_lane_leaves st),
              rd_entries := btree_insert (eh_id (se_header e)) e (rd_entries st)\<rparr>"
    have "lanes_of_operations (rd_operations st') \<subseteq> lanes_of_operations (rd_operations st)"
      using upd by (elim disjE exE conjE)
        (simp add: st', rule lanes_of_operations_update, assumption,
          simp add: st', simp)
    with known show ?thesis
      by (intro lane_inv_keep [OF inv]) (auto simp: st')
  qed
next
  case (operation_started r)
  then show ?thesis
  proof (rule step_operation_started_ok)
    fix prov ins
    assume d: "dispatch_inputs r (rd_input_states st) = Inr ins"
      and st': "st' = st\<lparr>rd_fresh_lanes := rd_fresh_lanes st - {os_lane_id r},
              rd_active_operations := btree_insert (os_lane_id r) (os_id r) (rd_active_operations st),
              rd_provisioned_entries := prov, rd_input_states := ins,
              rd_operations := btree_insert (os_id r) (fresh_operation_state r) (rd_operations st)\<rparr>"
    have "btree_ok (rd_input_states st)" using inputs by (simp add: input_inv_def)
    from dispatch_inputs_ok(1) [OF d this]
    have "lanes_of_inputs (rd_input_states st') \<subseteq> lanes_of_inputs (rd_input_states st)"
      by (intro lanes_of_inputs_marked [of st' r]) (simp add: st')
    moreover have "lanes_of_operations (rd_operations st') \<subseteq> insert (os_lane_id r) (lanes_of_operations (rd_operations st))"
      using lanes_of_operations_insert [of st' "os_id r" "fresh_operation_state r" st]
      by (simp add: st' fresh_operation_state_def)
    ultimately show ?thesis by (intro lane_inv_keep [OF inv]) (auto simp: st')
  qed
next
  case (operation_finished r)
  then have "lanes_of_operations (rd_operations st') \<subseteq> lanes_of_operations (rd_operations st)"
    unfolding step_operation_finished_ok 
    by (elim exE conjE) (rule lanes_of_operations_update, assumption, simp, simp)
  with operation_finished show ?thesis
    by (intro lane_inv_keep [OF inv]) (auto simp: step_effects)
next
  case (epoch_started r)
  then have "lanes_of_operations (rd_operations st') \<subseteq> lanes_of_operations (rd_operations st)"
    unfolding step_epoch_started_ok 
    by (elim exE conjE) (rule lanes_of_operations_update, assumption, simp, simp)
  with epoch_started show ?thesis
    by (intro lane_inv_keep [OF inv]) (auto simp: step_effects)
next
  case (epoch_finished r)
  then have "lanes_of_operations (rd_operations st') \<subseteq> lanes_of_operations (rd_operations st)"
    unfolding step_epoch_finished_ok 
    by (elim exE conjE) (rule lanes_of_operations_update, assumption, simp, simp)
  with epoch_finished show ?thesis
    by (intro lane_inv_keep [OF inv]) (auto simp: step_effects)
next
  case (input_accepted s r)
  then have "lanes_of_inputs (rd_input_states st') \<subseteq> insert (ia_lane_id r) (lanes_of_inputs (rd_input_states st))"
    unfolding step_input_accepted_ok lanes_of_inputs_def by (auto split: if_splits)
  with input_accepted show ?thesis
    by (intro lane_inv_keep [OF inv]) (auto simp: step_effects)
next
  case (input_withdrawn r)
  then have "lanes_of_inputs (rd_input_states st') \<subseteq> lanes_of_inputs (rd_input_states st)"
    unfolding step_input_withdrawn_ok 
    by (elim exE conjE) (rule lanes_of_inputs_update, assumption, simp, simp)
  with input_withdrawn show ?thesis
    by (intro lane_inv_keep [OF inv]) (auto simp: step_effects)
next
  case (input_settled r)
  then have "lanes_of_inputs (rd_input_states st') \<subseteq> lanes_of_inputs (rd_input_states st)"
    unfolding step_input_settled_ok 
    by (elim exE conjE) (rule lanes_of_inputs_update, assumption, simp, simp)
  with input_settled show ?thesis
    by (intro lane_inv_keep [OF inv]) (auto simp: step_effects)
next
  case (extension_state f)
  then show ?thesis
    by (intro lane_inv_keep [OF inv]) (auto simp: step_effects split: if_splits)
next
  case (fork f)
  then obtain ck :: turn_checkpoint_fact where l: "fl_lane_id f \<in> rd_fresh_lanes st"
    and st': "st' = st\<lparr>rd_fresh_lanes := rd_fresh_lanes st - {fl_lane_id f},
                 rd_forked_lanes := insert (fl_lane_id f) (rd_forked_lanes st),
                 rd_extension_state := btree_insert (fl_lane_id f)
                   (cp_extension_state ck) (rd_extension_state st)\<rparr>"
    unfolding step_forked_lane_ok by blast
  have "fl_lane_id f \<in> dom (map_of (rd_lane_leaves st))"
    and "fl_lane_id f \<in> dom (map_of (rd_extension_state st))"
    using inv l unfolding lane_inv_def by auto
  then show ?thesis by (intro lane_inv_keep [OF inv]) (auto simp: st' insert_absorb)
next
  case (spawned s f)
  then show ?thesis
    by (intro lane_inv_keep [OF inv])
      (auto simp: step_effects)
qed (rule lane_inv_fields [OF inv]; auto simp: step_effects)+

section \<open>The combined invariant\<close>

definition reducer_inv :: "reducer \<Rightarrow> bool" where
  "reducer_inv st \<longleftrightarrow> entry_inv st \<and> operation_inv st \<and> epoch_inv st \<and> request_inv st \<and> tool_inv st \<and>
     input_inv st \<and> checkpoint_inv st \<and> lane_inv st"

lemma checkpoint_inv_timeline:
  "checkpoint_inv st \<Longrightarrow> ready = rd_checkpoint_ready_for st \<or> ready = None \<Longrightarrow>
   checkpoint_inv (st\<lparr>rd_observed_item_index := n, rd_observed_sequence := s,
     rd_checkpoint_ready_for := ready\<rparr>)"
  by (auto simp: checkpoint_inv_def finished_on_def work_resolved_def leaf_known_def
      unresolved_tool_def unresolved_request_def unresolved_control_def)

lemma lane_inv_timeline:
  "lane_inv (st\<lparr>rd_observed_item_index := n, rd_observed_sequence := s,
     rd_checkpoint_ready_for := ready\<rparr>) = lane_inv st"
  by (simp add: lane_inv_def)

interpretation lanes: lane_invariant cx reducer_inv for cx
proof
  fix st n s ready
  assume "reducer_inv st" and "ready = rd_checkpoint_ready_for st \<or> ready = None"
  then show "reducer_inv (st\<lparr>rd_observed_item_index := n, rd_observed_sequence := s,
      rd_checkpoint_ready_for := ready\<rparr>)"
    unfolding reducer_inv_def
    by (simp add: entries.inv_timeline operations.inv_timeline epochs.inv_timeline
        requests.inv_timeline tools.inv_timeline inputs.inv_timeline checkpoint_inv_timeline
        lane_inv_timeline)
next
  fix st st'
  assume "lane_step cx st st'" and "reducer_inv st"
  then show "reducer_inv st'"
    unfolding reducer_inv_def
    by (blast intro: entry_inv_step operation_inv_step epoch_inv_step request_inv_step
        tool_inv_step input_inv_step checkpoint_inv_step lane_inv_step)
qed

lemma reducer_inv_initial: "reducer_inv (initial_reducer header)"
  by (simp add: reducer_inv_def initial_reducer_def entry_inv_def operation_inv_def epoch_inv_def
      epochs_of_def request_inv_def steps_owned_def tool_inv_def input_inv_def checkpoint_inv_def
      lane_inv_def)

lemma replay_reducer_inv: "replay cx header ms = Inr st \<Longrightarrow> reducer_inv st"
  unfolding replay_def using reducer_inv_initial by (rule lanes.replay_inv)

end
