(* ===== verification/Lane_Order.thy ===== *)
theory Lane_Order
  imports Lane_History
begin

text \<open>
  The order in which the reduced state of a session grows. \<open>history_le\<close> is a preorder, every
  step of the replay loop moves up in it, and so does every appended suffix of the timeline.
\<close>

fun status_le :: "input_status \<Rightarrow> input_status \<Rightarrow> bool" where
  "status_le Pending y = True"
| "status_le Withdrawn y = (y = Withdrawn)"
| "status_le (Dispatched o') y = (case y of Dispatched p \<Rightarrow> p = o' | Settled p _ \<Rightarrow> p = o' | _ \<Rightarrow> False)"
| "status_le (Settled o' out) y = (y = Settled o' out)"

definition inputs_le :: "(entry_id, input_state) btree \<Rightarrow> (entry_id, input_state) btree \<Rightarrow> bool" where
  "inputs_le states states' \<longleftrightarrow>
     (\<forall>i s. map_of states i = Some s \<longrightarrow>
        (\<exists>s'. map_of states' i = Some s' \<and> in_accepted s' = in_accepted s \<and>
              status_le (in_status s) (in_status s')))"

definition finished_le :: "(operation_id, operation_state) btree \<Rightarrow> (operation_id, operation_state) btree \<Rightarrow> bool"
  where
  "finished_le ops ops' \<longleftrightarrow>
     (\<forall>o' op. map_of ops o' = Some op \<and> st_finished op \<longrightarrow> map_of ops' o' = Some op)"

definition list_le :: "'a list \<Rightarrow> 'a list \<Rightarrow> bool" where
  "list_le xs ys \<longleftrightarrow> (\<exists>zs. ys = xs @ zs)"

definition history_le :: "reducer \<Rightarrow> reducer \<Rightarrow> bool" where
  "history_le st st' \<longleftrightarrow>
     map_of (rd_entries st) \<subseteq>\<^sub>m map_of (rd_entries st') \<and>
     finished_le (rd_operations st) (rd_operations st') \<and>
     map_of (rd_provider_starts st) \<subseteq>\<^sub>m map_of (rd_provider_starts st') \<and>
     map_of (rd_provider_settled st) \<subseteq>\<^sub>m map_of (rd_provider_settled st') \<and>
     map_of (rd_checkpoints st) \<subseteq>\<^sub>m map_of (rd_checkpoints st') \<and>
     list_le (rd_tool_starts st) (rd_tool_starts st') \<and>
     inputs_le (rd_input_states st) (rd_input_states st')"

section \<open>A preorder\<close>

lemma status_le_refl [simp]: "status_le s s"
  by (cases s) auto

lemma status_le_trans: "status_le a b \<Longrightarrow> status_le b c \<Longrightarrow> status_le a c"
  by (cases a; cases b; cases c) auto

lemma inputs_le_refl [simp]: "inputs_le s s"
  by (simp add: inputs_le_def)

lemma inputs_le_trans: "inputs_le a b \<Longrightarrow> inputs_le b c \<Longrightarrow> inputs_le a c"
  unfolding inputs_le_def
proof (intro allI impI)
  fix i s
  assume ab: "\<forall>i s. map_of a i = Some s \<longrightarrow> (\<exists>s'. map_of b i = Some s' \<and>
      in_accepted s' = in_accepted s \<and> status_le (in_status s) (in_status s'))"
    and bc: "\<forall>i s. map_of b i = Some s \<longrightarrow> (\<exists>s'. map_of c i = Some s' \<and>
      in_accepted s' = in_accepted s \<and> status_le (in_status s) (in_status s'))"
    and "map_of a i = Some s"
  then obtain s' s'' where "map_of b i = Some s'" "map_of c i = Some s''"
    "in_accepted s'' = in_accepted s" "status_le (in_status s) (in_status s')"
    "status_le (in_status s') (in_status s'')" by metis
  then show "\<exists>s'. map_of c i = Some s' \<and> in_accepted s' = in_accepted s \<and>
      status_le (in_status s) (in_status s')"
    using status_le_trans by blast
qed

lemma finished_le_refl [simp]: "finished_le s s"
  by (simp add: finished_le_def)

lemma finished_le_trans: "finished_le a b \<Longrightarrow> finished_le b c \<Longrightarrow> finished_le a c"
  by (simp add: finished_le_def)

lemma list_le_refl [simp]: "list_le xs xs"
  by (simp add: list_le_def)

lemma list_le_snoc [simp]: "list_le xs (xs @ ys)"
  by (simp add: list_le_def)

lemma list_le_trans: "list_le xs ys \<Longrightarrow> list_le ys zs \<Longrightarrow> list_le xs zs"
  by (auto simp: list_le_def)

lemma history_le_refl: "history_le st st"
  by (simp add: history_le_def)

lemma history_le_trans: "history_le a b \<Longrightarrow> history_le b c \<Longrightarrow> history_le a c"
  unfolding history_le_def by (blast intro: map_le_trans finished_le_trans list_le_trans inputs_le_trans)

lemma map_le_fresh: "k \<notin> dom m \<Longrightarrow> m \<subseteq>\<^sub>m m(k \<mapsto> v)"
  by (auto simp: map_le_def)

section \<open>Every step moves up\<close>

lemma finished_le_update:
  "map_of ops o' = Some op \<Longrightarrow> \<not> st_finished op \<Longrightarrow> finished_le ops (btree_insert o' op' ops)"
  by (auto simp: finished_le_def)

lemma finished_le_fresh: "o' \<notin> dom (map_of ops) \<Longrightarrow> finished_le ops (btree_insert o' op' ops)"
  by (auto simp: finished_le_def)

lemma inputs_le_fresh: "i \<notin> dom (map_of states) \<Longrightarrow> inputs_le states (btree_insert i s states)"
  by (auto simp: inputs_le_def)

lemma inputs_le_update:
  "map_of states i = Some s \<Longrightarrow> status_le (in_status s) x \<Longrightarrow>
   inputs_le states (btree_insert i (s\<lparr>in_status := x\<rparr>) states)"
  by (auto simp: inputs_le_def)

lemma inputs_le_dispatched:
  assumes "dispatch_inputs r states = Inr states'" and "btree_ok states"
  shows "inputs_le states states'"
  unfolding inputs_le_def
proof (intro allI impI)
  fix i s
  assume "map_of states i = Some s"
  with dispatch_inputs_ok(1) [OF assms] dispatch_inputs_ok(2) [OF assms, of i]
  show "\<exists>s'. map_of states' i = Some s' \<and> in_accepted s' = in_accepted s \<and>
      status_le (in_status s) (in_status s')"
    by (cases "i \<in> set (os_input_ids r)") (auto simp: marked_def dispatchable_def)
qed

lemma lane_step_le:
  assumes "lane_step cx st st'" and inv: "operation_inv st" "input_inv st"
  shows "history_le st st'"
  using assms(1)
proof cases
  case (lane l b)
  then show ?thesis unfolding step_lane_ok by (simp add: history_le_def)
next
  case (entry e)
  then show ?thesis
  proof (rule step_entry_ok)
    fix R leaf ops
    assume fresh: "eh_id (se_header e) \<notin> dom (map_of (rd_entries st))"
      and upd: "(map_of (rd_active_operations st) (se_lane_id e) = None \<and> ops = rd_operations st) \<or>
     (\<exists>o' op. map_of (rd_active_operations st) (se_lane_id e) = Some o' \<and>
        map_of (rd_operations st) o' = Some op \<and>
        ops = btree_insert o' (op\<lparr>st_entry_ids := st_entry_ids op @ [eh_id (se_header e)]\<rparr>)
                (rd_operations st))"
      and st': "st' = st\<lparr>rd_fresh_lanes := rd_fresh_lanes st - {se_lane_id e}, rd_compaction_requests := R,
              rd_operations := ops,
              rd_lane_leaves := btree_insert (se_lane_id e) (Some (eh_id (se_header e))) (rd_lane_leaves st),
              rd_entries := btree_insert (eh_id (se_header e)) e (rd_entries st)\<rparr>"
    have "finished_le (rd_operations st) ops"
      using upd operation_inv_active [OF inv(1), of "se_lane_id e"]
      by (elim disjE exE conjE) (auto intro: finished_le_update)
    with map_le_fresh [OF fresh] show ?thesis by (simp add: history_le_def st')
  qed
next
  case (operation_started r)
  have "btree_ok (rd_input_states st)" using inv(2) by (simp add: input_inv_def)
  with operation_started show ?thesis
    by (elim step_operation_started_ok) (simp add: history_le_def finished_le_fresh inputs_le_dispatched)
next
  case (operation_finished r)
  then show ?thesis
    unfolding step_operation_finished_ok by (auto simp: history_le_def intro: finished_le_update)
next
  case (epoch_started r)
  then show ?thesis
    unfolding step_epoch_started_ok by (auto simp: history_le_def intro: finished_le_update)
next
  case (epoch_finished r)
  then show ?thesis
    unfolding step_epoch_finished_ok by (auto simp: history_le_def intro: finished_le_update)
next
  case (request_started r)
  then show ?thesis
    unfolding step_provider_request_started_ok by (elim exE conjE) (simp add: history_le_def map_le_fresh)
next
  case (request_settled r)
  then show ?thesis
    unfolding step_provider_request_settled_ok by (elim exE conjE) (simp add: history_le_def map_le_fresh)
next
  case (input_accepted s r)
  then show ?thesis
    unfolding step_input_accepted_ok by (simp add: history_le_def inputs_le_fresh)
next
  case (input_withdrawn r)
  then show ?thesis
    unfolding step_input_withdrawn_ok by (auto simp: history_le_def intro!: inputs_le_update)
next
  case (input_settled r)
  then show ?thesis
    unfolding step_input_settled_ok by (auto simp: history_le_def intro!: inputs_le_update)
next
  case (checkpoint f)
  then show ?thesis
    unfolding step_turn_checkpoint_ok by (simp add: history_le_def map_le_fresh)
qed (auto simp: step_effects history_le_def)

lemma history_le_timeline:
  "history_le (st\<lparr>rd_observed_item_index := n, rd_observed_sequence := s,
     rd_checkpoint_ready_for := ready\<rparr>) st' = history_le st st'"
  by (simp add: history_le_def)

interpretation growth: monotone_replay "reduce_step cx" reducer_inv history_le for cx
proof
  fix s m s'
  assume inv: "reducer_inv s" and "reduce_step cx s m = Inr s'"
  then obtain ready where
    "lane_step cx (s\<lparr>rd_observed_item_index := saturating_add (rd_observed_item_index s) 1,
        rd_observed_sequence := sv_seq m, rd_checkpoint_ready_for := ready\<rparr>) s'"
    "ready = rd_checkpoint_ready_for s \<or> ready = None"
    by (elim reduce_step_cases)
  with lanes.inv_timeline [OF inv] show "history_le s s'"
    by (metis history_le_timeline lane_step_le reducer_inv_def)
qed (rule history_le_refl, rule history_le_trans)

lemma replay_history_le:
  assumes "replay cx header ms = Inr st" and "replay cx header (ms @ ms2) = Inr st'"
  shows "history_le st st'"
proof -
  from assms have "try_fold (reduce_step cx) st ms2 = Inr st'"
    by (simp add: replay_def try_fold_append)
  with replay_reducer_inv [OF assms(1)] show ?thesis by (rule growth.replay_le)
qed

end
