(* ===== verification/Session_Example.thy ===== *)
theory Session_Example
  imports Lane_Order Lane_Recovery
begin

text \<open>
  One concrete session on which the theorems are applied: a user input is accepted, dispatched
  and answered with one tool call, the operation settles and is checkpointed, a second lane is
  forked at the checkpoint and receives a further input. The packages behind \<open>codec\<close> are
  instantiated by small concrete functions.
\<close>

definition ex_codec :: codec where
  "ex_codec = \<lparr>cx_miniserde = (\<lambda>_. ''null''), cx_blake3 = (\<lambda>bs. replicate 32 (of_nat (length bs)))\<rparr>"

definition ex_header :: session_header where
  "ex_header = new_header_at ''session'' ''/work'' [] 7"

definition ex_fork :: lane_id where
  "ex_fork = ''retry''"

definition ex_user :: provisioned_entry where
  "ex_user = provisioned_user ''u1'' ''list files''"

definition ex_call :: assistant_tool_call where
  "ex_call = \<lparr>tc_id = ''c1'', tc_name = ''bash'', tc_arguments = JNull\<rparr>"

definition ex_usage :: usage where
  "ex_usage = \<lparr>us_total_tokens = Some 12, us_input_tokens = Some 8, us_output_tokens = Some 4,
     us_reasoning_tokens = None, us_cache_read_tokens = None, us_cache_write_tokens = None,
     us_cost = Some ''0.5''\<rparr>"

definition ex_result :: tool_result_entry where
  "ex_result = \<lparr>tr_tool_call_id = ''c1'', tr_tool_name = ''bash'', tr_full_result = Inline JNull,
     tr_model_projection = JNull, tr_is_error = False, tr_terminate = False,
     tr_usage = ex_usage, tr_projection_strategy_id = ''full'', tr_artifact_policy_id = ''keep''\<rparr>"

definition ex_operation :: operation_started_record where
  "ex_operation = with_input_ids
     (new_operation_started ''op1'' main_lane None RunOp [ex_user] ''rev'' ''profile'') [''u1'']"

definition ex_epoch :: epoch_started_record where
  "ex_epoch = \<lparr>es_id = ''e1'', es_operation_id = ''op1'', es_epoch_index = 0,
     es_source_leaf_id = Some ''u1'', es_harness_revision_id = ''rev'',
     es_harness_snapshot_id = ''snap'', es_model_harness_profile = ''profile'',
     es_core_run_id = ''run'', es_epoch_resume_data = []\<rparr>"

definition ex_step :: step_attempted_record where
  "ex_step = \<lparr>sa_id = ''s1'', sa_operation_id = ''op1'', sa_epoch_id = ''e1'',
     sa_kind = AssistantStep, sa_attempt = 1, sa_result_entry_id = ''a1'', sa_reason = None\<rparr>"

definition ex_request :: provider_request_started_record where
  "ex_request = \<lparr>pr_request_id = ''q1'', pr_operation_id = ''op1'', pr_epoch_id = ''e1'',
     pr_step_id = ''s1'', pr_physical_attempt = 1, pr_model_harness_profile = ''profile'',
     pr_request_surface_digest = zero_digest, pr_idempotency_key = None\<rparr>"

definition ex_settlement :: provider_request_settled_record where
  "ex_settlement = \<lparr>st_request_id = ''q1'', st_operation_id = ''op1'', st_outcome = JNull,
     st_provider_error = None, st_usage = None, st_response_artifact = None,
     st_classification = Completed_request\<rparr>"

definition ex_tool :: tool_started_record where
  "ex_tool = \<lparr>ts_record_id = ''t1'', ts_operation_id = ''op1'', ts_epoch_id = ''e1'',
     ts_assistant_entry_id = ''a1'', ts_tool_index = 0, ts_tool_call_id = ''c1'',
     ts_tool_name = ''bash'', ts_effective_args = JNull, ts_result_entry_id = ''r1'',
     ts_replay_policy_at_start = Never, ts_tool_definition_digest = zero_digest,
     ts_harness_revision_id = ''rev'', ts_idempotency_key = ''k''\<rparr>"

definition ex_checkpoint :: turn_checkpoint_fact where
  "ex_checkpoint = \<lparr>cp_checkpoint_id = ''cp1'', cp_lane_id = main_lane, cp_operation_id = ''op1'',
     cp_leaf_id = Some ''r1'',
     cp_extension_state = [(''notes'', \<lparr>xv_state_version = ''1'', xv_value = JBool True\<rparr>)]\<rparr>"

definition ex_entry :: "sequence \<Rightarrow> entry_id option \<Rightarrow> provisioned_entry \<Rightarrow> session_mutation" where
  "ex_entry seq parent p =
     EntryM \<lparr>se_lane_id = main_lane,
       se_header = \<lparr>eh_id = pe_id p, eh_parent_id = parent, eh_seq = seq, eh_timestamp_ms = 9\<rparr>,
       se_body = pe_body p\<rparr>"

definition ex_record :: "sequence \<Rightarrow> lane_record \<Rightarrow> session_mutation" where
  "ex_record seq r = RecordM \<lparr>sr_seq = seq, sr_timestamp_ms = 9, sr_record = r\<rparr>"

definition ex_fact :: "sequence \<Rightarrow> session_fact \<Rightarrow> session_mutation" where
  "ex_fact seq f = FactM \<lparr>sf_seq = seq, sf_timestamp_ms = 9, sf_fact = f\<rparr>"

definition ex_mutations :: "session_mutation list" where
  "ex_mutations =
    [ex_record 1 (InputAccepted \<lparr>ia_lane_id = main_lane, ia_entry = ex_user\<rparr>),
     ex_record 2 (OperationStarted ex_operation),
     ex_entry 3 None ex_user,
     ex_record 4 (EpochStarted ex_epoch),
     ex_record 5 (StepAttempted ex_step),
     ex_record 6 (ProviderRequestStarted ex_request),
     ex_fact 7 (ProviderRequestMaterial \<lparr>mf_operation_id = ''op1'', mf_epoch_id = ''e1'',
       mf_request_id = ''q1'', mf_request = Inline JNull\<rparr>),
     ex_record 8 (ProviderRequestSettled ex_settlement),
     ex_record 9 (UsageRecord \<lparr>ur_operation_id = ''op1'', ur_request_id = Some ''q1'',
       ur_usage = ex_usage\<rparr>),
     ex_entry 10 (Some ''u1'') (provisioned_assistant ''a1'' ''running'' [ex_call]),
     ex_record 11 (ToolStarted ex_tool),
     ex_entry 12 (Some ''a1'') \<lparr>pe_id = ''r1'', pe_body = ToolResult ex_result\<rparr>,
     ex_fact 13 (ExtensionStateValueSet \<lparr>xs_lane_id = main_lane, xs_extension_id = ''notes'',
       xs_state_version = ''1'', xs_value = JBool True\<rparr>),
     ex_record 14 (EpochFinished \<lparr>ef_epoch_id = ''e1'', ef_operation_id = ''op1'',
       ef_reason = Settled_epoch\<rparr>),
     ex_record 15 (OperationFinished \<lparr>of_operation_id = ''op1'', of_outcome = Completed\<rparr>),
     ex_record 16 (InputSettled \<lparr>is_operation_id = ''op1'', is_input_id = ''u1'',
       is_outcome = Completed\<rparr>),
     ex_fact 17 (TurnCheckpoint ex_checkpoint),
     LaneM \<lparr>sl_seq = 18, sl_timestamp_ms = 9, sl_mutation = Created ex_fork (Some ''r1'')\<rparr>,
     ex_fact 19 (ForkedLane \<lparr>fl_checkpoint_id = ''cp1'', fl_lane_id = ex_fork,
       fl_base_leaf_id = Some ''r1''\<rparr>),
     ex_record 20 (InputAccepted \<lparr>ia_lane_id = ex_fork,
       ia_entry = provisioned_user ''u2'' ''again''\<rparr>)]"

fun ex_stamp :: "sequence \<Rightarrow> session_mutation list \<Rightarrow> stored_mutation list" where
  "ex_stamp seq [] = []"
| "ex_stamp seq (m # ms) =
     \<lparr>sv_seq = seq, sv_timestamp_ms = 9, sv_prev_digest = zero_digest, sv_digest = zero_digest,
      sv_mutation = m\<rparr> # ex_stamp (seq + 1) ms"

definition ex_timeline :: "stored_mutation list" where
  "ex_timeline = ex_stamp 1 ex_mutations"

definition ex_state :: "nat \<Rightarrow> reducer" where
  "ex_state n =
     (case replay ex_codec ex_header (take n ex_timeline) of
        Inr st \<Rightarrow> st | Inl _ \<Rightarrow> initial_reducer ex_header)"

definition ex_reduce :: "nat \<Rightarrow> lane_id \<Rightarrow> (corruption, lane_reduction) result" where
  "ex_reduce n lane =
     reduce_lane_prefix ex_codec ex_header (of_nat n) (take n ex_timeline) lane"

lemma ex_replays_ok: "list_all (\<lambda>n. is_ok (replay ex_codec ex_header (take n ex_timeline))) [11, 12, 15, 17, 19, 20]"
  by code_simp

lemma ex_replay:
  assumes "n \<in> {11, 12, 15, 17, 19, 20}"
  shows "replay ex_codec ex_header (take n ex_timeline) = Inr (ex_state n)"
  using assms ex_replays_ok by (auto simp: ex_state_def split: sum.splits)

lemma ex_facts:
  "btree_get (rd_active_operations (ex_state 12)) main_lane = Some ''op1''"
  "map_option st_epoch_ids (btree_get (rd_operations (ex_state 12)) ''op1'') = Some [''e1'']"
  "map_option in_status (btree_get (rd_input_states (ex_state 12)) ''u1'') = Some (Dispatched ''op1'')"
  "map_option in_status (btree_get (rd_input_states (ex_state 20)) ''u1'') = Some (Settled ''op1'' Completed)"
  "rd_tool_starts (ex_state 12) = [(11, ex_tool)]"
  "btree_get (rd_checkpoints (ex_state 17)) ''cp1'' = Some ex_checkpoint"
  "map_option st_op_outcome (btree_get (rd_operations (ex_state 15)) ''op1'') = Some (Some Completed)"
  "btree_get (rd_active_operations (ex_state 11)) main_lane = Some ''op1''"
  "btree_get (rd_entries (ex_state 12)) ''r1'' \<noteq> None"
  by code_simp+

lemma ex_reductions:
  "is_ok (ex_reduce 12 main_lane)"
  "(case ex_reduce 11 main_lane of Inr r \<Rightarrow> lr_recovery_plan r | Inl _ \<Rightarrow> None) =
     Some (ReconcileToolEffect ''r1'')"
  "(case ex_reduce 20 ex_fork of Inr r \<Rightarrow> map ai_entry (ir_pending_inputs (lr_input_reduction r)) | Inl _ \<Rightarrow> []) =
     [provisioned_user ''u2'' ''again'']"
  by code_simp+

end
