(* ===== verification/Lane_Guarantees.thy ===== *)
theory Lane_Guarantees
  imports Lane_Order Lane_Recovery Session_Example
begin

text \<open>
  The guarantees of the lane reducer (\<open>crates/tea-session/src/reduction.rs\<close>), stated over
  \<open>replay\<close>, \<open>finish_reduction\<close> and \<open>reduce_lane_prefix\<close>: it never fails internally, the recovery
  plan it derives is safe, operations, tools, inputs and checkpoints keep their lifecycles, and
  an appended suffix never rewrites the history of its prefix. Each theorem is applied to the
  session of \<open>Session_Example\<close>.
\<close>

section \<open>No internal errors\<close>

text \<open>
  \<open>internal_error\<close> names the failing \<open>expect\<close>s of the reducer, a parent walk that would not
  end, and a leaf whose entry is missing. No computation of the reducer ends in one of them.
\<close>

fun internal_error :: "corruption \<Rightarrow> bool" where
  "internal_error Panic = True"
| "internal_error (EntryC ChainDiverges) = True"
| "internal_error (EntryC (LeafMissingEntry i)) = True"
| "internal_error _ = False"

definition sound_result :: "(corruption, 'a) result \<Rightarrow> bool" where
  "sound_result r \<longleftrightarrow> (case r of Inl e \<Rightarrow> \<not> internal_error e | Inr _ \<Rightarrow> True)"

named_theorems sound_results "computations that end in no internal error"

lemma sound_result_Ok [simp]: "sound_result (Inr a)"
  by (simp add: sound_result_def)

lemma sound_result_Err [simp]: "sound_result (Inl e) = (\<not> internal_error e)"
  by (simp add: sound_result_def)

lemma sound_and_then [intro]:
  "sound_result r \<Longrightarrow> (\<And>a. r = Inr a \<Longrightarrow> sound_result (f a)) \<Longrightarrow> sound_result (and_then r f)"
  by (cases r) auto

lemma sound_try_fold: "(\<And>s m. sound_result (f s m)) \<Longrightarrow> sound_result (try_fold f s ms)"
  by (induction ms arbitrary: s) auto

lemma sound_check_all: "(\<And>m. sound_result (f m)) \<Longrightarrow> sound_result (check_all f ms)"
  by (induction ms) auto

lemma sound_open [sound_results]: "sound_result (open_operation ops i)"
  by (auto simp: open_operation_def split: option.splits)

lemma sound_identifier [sound_results]: "sound_result (validate_bounded_extension_identifier l v)"
  by (simp add: validate_bounded_extension_identifier_def)

lemma sound_size [sound_results]: "sound_result (validate_encoded_size cx v)"
  by (auto simp: validate_encoded_size_def split: sum.splits)

lemma sound_compaction [sound_results]: "sound_result (step_compaction cx st body)"
  by (cases "case body of Compaction c \<Rightarrow> ce_replacement c | _ \<Rightarrow> Inline JNull")
    (auto simp: step_compaction_def validate_compaction_replacement_def
      split: session_entry.splits option.splits sum.splits)

lemma sound_note [sound_results]:
  "operation_inv st \<Longrightarrow> rd_active_operations st' = rd_active_operations st \<Longrightarrow>
   rd_operations st' = rd_operations st \<Longrightarrow> sound_result (note_operation_entry st' l i)"
  using operation_inv_active [of st l] by (auto simp: note_operation_entry_def split: option.splits)

lemma step_compaction_frame:
  "step_compaction cx st body = Inr st' \<Longrightarrow>
   rd_active_operations st' = rd_active_operations st \<and> rd_operations st' = rd_operations st"
  by (auto simp: step_compaction_def result_simps split: session_entry.splits option.splits if_splits)

lemma sound_entry [sound_results]:
  assumes "operation_inv st"
  shows "sound_result (step_entry cx st e)"
  unfolding step_entry_def Let_def
  by (rule sound_and_then, rule sound_compaction)
    (auto dest!: step_compaction_frame intro!: sound_and_then sound_note [OF assms]
      split: option.splits)

lemma sound_started [sound_results]: "sound_result (step_operation_started st r)"
  by (auto simp: step_operation_started_def dispatch_inputs_def provision_input_def dispatch_input_def
      Let_def intro!: sound_and_then sound_try_fold split: option.splits)

lemma sound_tool [sound_results]: "sound_result (validate_tool_started r es p)"
  by (auto simp: validate_tool_started_def split: option.splits session_entry.splits)

lemma sound_control [sound_results]: "sound_result (validate_extension_control cx r)"
  "sound_result (validate_extension_state_value cx f)"
  by (auto simp: validate_extension_control_def validate_extension_state_value_def
      intro!: sound_and_then sound_results)

lemma sound_attempt [sound_results]: "sound_result (attempt_follows p r)"
  by (auto simp: attempt_follows_def split: option.splits)

lemmas step_definitions =
  step_operation_finished_def step_epoch_started_def step_epoch_finished_def step_step_attempted_def
  step_provider_request_started_def step_provider_request_settled_def step_tool_started_def
  step_input_accepted_def step_input_withdrawn_def step_input_settled_def
  step_extension_control_enqueued_def step_extension_control_applied_def step_write_deferred_def
  step_activation_requested_def step_usage_def require_open_def step_material_def
  step_extension_state_def
  step_turn_checkpoint_def step_forked_lane_def step_agent_spawned_def

lemma sound_record [sound_results]: "sound_result (step_record cx st s i r)"
  by (cases r) (auto simp: step_definitions Let_def intro!: sound_and_then sound_results
      split: option.splits)

lemma sound_fact [sound_results]: "sound_result (step_fact cx st s f)"
  by (cases f) (auto simp: step_definitions Let_def intro!: sound_and_then sound_results
      split: option.splits)

lemma sound_lane [sound_results]: "sound_result (step_lane st m)"
  by (cases m) (auto simp: check_base_leaf_def split: option.splits)

lemma sound_step: "reducer_inv st \<Longrightarrow> sound_result (reduce_step cx st m)"
proof -
  assume "reducer_inv st"
  then have "operation_inv (clear_readiness (advance_timeline st (sv_seq m)) (sv_mutation m))"
    by (auto simp: reducer_inv_def clear_readiness_def advance_timeline_def operation_inv_def)
  then show ?thesis
    by (auto simp: reduce_step_def Let_def step_mutation_def split: session_mutation.splits
        intro: sound_results)
qed

lemma sound_replay: "sound_result (replay cx header ms)"
proof -
  have "reducer_inv st \<Longrightarrow> sound_result (try_fold (reduce_step cx) st ms)" for st
  proof (induction ms arbitrary: st)
    case (Cons m ms)
    then show ?case
      by (auto intro!: sound_and_then sound_step intro: lanes.step_inv)
  qed simp
  then show ?thesis by (simp add: replay_def reducer_inv_initial)
qed

lemma sound_finish: "reducer_inv st \<Longrightarrow> sound_result (finish_reduction st n lane)"
proof -
  assume inv: "reducer_inv st"
  obtain c where c: "derive_configuration (rd_entries st) (lane_leaf_flat st lane) = Inr c"
    using derive_configuration_total inv unfolding reducer_inv_def by blast
  have tools: "sound_result (validate_tool_results (rd_entries st) (rd_tool_starts st))"
    by (auto simp: validate_tool_results_def check_started_result_def check_result_entry_def Let_def
        intro!: sound_and_then sound_check_all split: option.splits session_entry.splits)
  have activation: "sound_result (unresolved_activation (rd_activation_requests st) (rd_entries st) a)"
    for a
    by (auto simp: unresolved_activation_def check_activation_def
        intro!: sound_try_fold split: option.splits session_entry.splits)
  have plan: "sound_result (derive_recovery_plan st (btree_get (rd_active_operations st) lane))"
    using operation_inv_active [of st lane] inv
    by (auto simp: derive_recovery_plan_def reducer_inv_def split: option.splits)
  show ?thesis
    unfolding finish_reduction_def Let_def c
    by (auto intro!: sound_and_then tools activation plan)
qed

section \<open>The recovery plan\<close>

text \<open>
  What each recovery plan promises, independently of how it is searched for: an input is
  appended before anything else, a tool is replayed only under its recorded policy, and an
  operation resumes only when no effect is unresolved.
\<close>

definition inputs_written :: "reducer \<Rightarrow> operation_state \<Rightarrow> bool" where
  "inputs_written st op \<longleftrightarrow> (\<forall>p \<in> set (st_original_input op). pe_id p \<in> dom (map_of (rd_entries st)))"

definition tool_open :: "reducer \<Rightarrow> operation_id \<Rightarrow> tool_started_record \<Rightarrow> bool" where
  "tool_open st o' t \<longleftrightarrow> t \<in> snd ` set (rd_tool_starts st) \<and> ts_operation_id t = o' \<and>
     ts_result_entry_id t \<notin> dom (map_of (rd_entries st))"

definition request_open :: "reducer \<Rightarrow> operation_id \<Rightarrow> provider_request_started_record \<Rightarrow> bool" where
  "request_open st o' q \<longleftrightarrow> q \<in> set (btree_values (rd_provider_starts st)) \<and> pr_operation_id q = o' \<and>
     pr_request_id q \<notin> dom (map_of (rd_provider_settled st))"

definition activation_ready ::
    "reducer \<Rightarrow> operation_id \<Rightarrow> operation_state \<Rightarrow> harness_activation_requested_record \<Rightarrow> bool" where
  "activation_ready st o' op a \<longleftrightarrow> a \<in> set (rd_activation_requests st) \<and> ha_operation_id a = o' \<and>
     ha_revision_entry_id a \<notin> dom (map_of (rd_entries st)) \<and> st_open_epochs op = {}"

definition effects_settled :: "reducer \<Rightarrow> operation_id \<Rightarrow> operation_state \<Rightarrow> bool" where
  "effects_settled st o' op \<longleftrightarrow> inputs_written st op \<and> (\<nexists>t. tool_open st o' t) \<and> (\<nexists>q. request_open st o' q)"

definition calls_answered :: "reducer \<Rightarrow> operation_state \<Rightarrow> bool" where
  "calls_answered st op \<longleftrightarrow> (\<forall>i \<in> set (st_entry_ids op). \<not> has_unanswered_call (rd_entries st) i)"

fun plan_sound :: "reducer \<Rightarrow> operation_id \<Rightarrow> operation_state \<Rightarrow> recovery_plan \<Rightarrow> bool" where
  "plan_sound st o' op (AppendAcceptedInput p ps) \<longleftrightarrow> p = o' \<and> ps \<noteq> [] \<and>
     set ps = {e \<in> set (st_original_input op). pe_id e \<notin> dom (map_of (rd_entries st))}"
| "plan_sound st o' op (ReconcileToolEffect i) \<longleftrightarrow> inputs_written st op \<and>
     (\<exists>t. tool_open st o' t \<and> ts_replay_policy_at_start t = Never \<and> ts_result_entry_id t = i)"
| "plan_sound st o' op (ReplayToolIfStillSafe t) \<longleftrightarrow> inputs_written st op \<and>
     tool_open st o' t \<and> ts_replay_policy_at_start t = Safe"
| "plan_sound st o' op (ReconcileProviderRequest i) \<longleftrightarrow> inputs_written st op \<and> (\<nexists>t. tool_open st o' t) \<and>
     i \<in> rd_provider_material st \<and> (\<exists>q. request_open st o' q \<and> pr_request_id q = i)"
| "plan_sound st o' op (ProviderRequestNotAdmitted i) \<longleftrightarrow> inputs_written st op \<and> (\<nexists>t. tool_open st o' t) \<and>
     i \<notin> rd_provider_material st \<and> (\<exists>q. request_open st o' q \<and> pr_request_id q = i)"
| "plan_sound st o' op (ActivateHarness a) \<longleftrightarrow> effects_settled st o' op \<and> activation_ready st o' op a"
| "plan_sound st o' op (ResumeAssistantToolPath i) \<longleftrightarrow> effects_settled st o' op \<and>
     (\<nexists>a. activation_ready st o' op a) \<and> i \<in> set (st_entry_ids op) \<and> has_unanswered_call (rd_entries st) i"
| "plan_sound st o' op (StartEpoch p) \<longleftrightarrow> p = o' \<and> effects_settled st o' op \<and>
     (\<nexists>a. activation_ready st o' op a) \<and> calls_answered st op \<and> st_open_epochs op = {}"
| "plan_sound st o' op (ResumeOperation p) \<longleftrightarrow> p = o' \<and> effects_settled st o' op \<and>
     (\<nexists>a. activation_ready st o' op a) \<and> calls_answered st op \<and> st_open_epochs op \<noteq> {}"

lemma missing_input_set:
  "set (missing_input (rd_entries st) op) =
     {e \<in> set (st_original_input op). pe_id e \<notin> dom (map_of (rd_entries st))}"
  by (auto simp: missing_input_def btree_contains_iff)

lemma missing_input_none: "missing_input (rd_entries st) op = [] \<longleftrightarrow> inputs_written st op"
  using missing_input_set [of st op] by (auto simp: inputs_written_def filter_empty_conv missing_input_def btree_contains_iff)

lemma find_Some: "find P xs = Some x \<Longrightarrow> x \<in> set xs \<and> P x"
  by (induction xs) (auto split: if_splits)

lemma first_open_tool_Some: "first_open_tool st o' = Some (s, t) \<Longrightarrow> tool_open st o' t"
  by (force simp: first_open_tool_def tool_open_def btree_contains_iff dest!: find_Some)

lemma first_open_tool_None: "first_open_tool st o' = None \<Longrightarrow> \<not> tool_open st o' t"
  by (force simp: first_open_tool_def tool_open_def btree_contains_iff find_None_iff)

lemma first_open_request_Some: "first_open_request st o' = Some q \<Longrightarrow> request_open st o' q"
  by (auto simp: first_open_request_def request_open_def btree_contains_iff dest!: find_Some)

lemma first_open_request_None: "first_open_request st o' = None \<Longrightarrow> \<not> request_open st o' q"
  by (auto simp: first_open_request_def request_open_def btree_contains_iff find_None_iff)

lemma first_ready_activation_Some: "first_ready_activation st o' op = Some a \<Longrightarrow> activation_ready st o' op a"
  by (auto simp: first_ready_activation_def activation_ready_def btree_contains_iff dest!: find_Some)

lemma first_ready_activation_None: "first_ready_activation st o' op = None \<Longrightarrow> \<not> activation_ready st o' op a"
  by (auto simp: first_ready_activation_def activation_ready_def btree_contains_iff find_None_iff)

lemma latest_unanswered_Some:
  "latest_unanswered st op = Some i \<Longrightarrow> i \<in> set (st_entry_ids op) \<and> has_unanswered_call (rd_entries st) i"
  by (auto simp: latest_unanswered_def dest!: find_Some)

lemma latest_unanswered_None: "latest_unanswered st op = None \<Longrightarrow> calls_answered st op"
  by (auto simp: latest_unanswered_def calls_answered_def find_None_iff)

lemmas plan_search =
  first_open_tool_Some first_open_request_Some first_ready_activation_Some latest_unanswered_Some

lemma plan_operation_sound:
  assumes "epoch_inv st" and "map_of (rd_operations st) o' = Some op"
  shows "plan_sound st o' op (plan_operation st o' op)"
proof -
  have epochs: "st_epoch_ids op = [] \<Longrightarrow> st_open_epochs op = {}"
    using epoch_inv_ids(3) [OF assms(1) epochs_of_get [OF assms(2)]] by auto
  show ?thesis
  proof (cases "missing_input (rd_entries st) op = []")
    case False
    then show ?thesis by (simp add: plan_operation_def missing_input_set)
  next
    case inputs: True
    then have written: "inputs_written st op" by (simp add: missing_input_none)
    show ?thesis
    proof (cases "first_open_tool st o'")
      case (Some s)
      with inputs written show ?thesis
        by (cases s; cases "ts_replay_policy_at_start (snd s)")
          (auto simp: plan_operation_def dest: first_open_tool_Some)
    next
      case tools: None
      show ?thesis
      proof (cases "first_open_request st o'")
        case (Some q)
        with inputs tools written show ?thesis
          by (auto simp: plan_operation_def first_open_tool_None dest: first_open_request_Some)
      next
        case None
        then have "effects_settled st o' op"
          using tools written by (auto simp: effects_settled_def first_open_tool_None first_open_request_None)
        with inputs tools None epochs show ?thesis
          by (auto simp: plan_operation_def first_ready_activation_None latest_unanswered_None
              dest: first_ready_activation_Some latest_unanswered_Some split: option.splits)
      qed
    qed
  qed
qed

lemma finish_reduction_ok:
  "finish_reduction st n lane = Inr r \<longleftrightarrow>
     n = rd_observed_sequence st \<and> lane \<in> dom (map_of (rd_lane_leaves st)) \<and>
     validate_tool_results (rd_entries st) (rd_tool_starts st) = Inr () \<and>
     (\<exists>c a p. derive_configuration (rd_entries st) (lane_leaf_flat st lane) = Inr c \<and>
        unresolved_activation (rd_activation_requests st) (rd_entries st)
          (map_of (rd_active_operations st) lane) = Inr a \<and>
        derive_recovery_plan st (map_of (rd_active_operations st) lane) = Inr p \<and>
        r = assemble_reduction st lane c a p)"
  by (auto simp: finish_reduction_def Let_def result_simps btree_contains_iff split: if_splits)

lemma derive_recovery_plan_ok:
  assumes "operation_inv st" and "epoch_inv st"
    and "derive_recovery_plan st (map_of (rd_active_operations st) lane) = Inr p"
  shows "p = None \<and> map_of (rd_active_operations st) lane = None \<or>
    (\<exists>o' op. p = Some (plan_operation st o' op) \<and> map_of (rd_active_operations st) lane = Some o' \<and>
       map_of (rd_operations st) o' = Some op \<and> \<not> st_finished op \<and> st_lane_id op = lane \<and>
       plan_sound st o' op (plan_operation st o' op))"
  using assms(3) operation_inv_active [OF assms(1), of lane] plan_operation_sound [OF assms(2)]
  by (auto simp: derive_recovery_plan_def split: option.splits)

section \<open>The configuration of a branch\<close>

lemma parent_chain_mono:
  "parent_chain es n leaf acc = Inr c \<Longrightarrow> map_of es \<subseteq>\<^sub>m map_of es' \<Longrightarrow> n \<le> k \<Longrightarrow>
   parent_chain es' k leaf acc = Inr c"
proof (induction es n leaf acc arbitrary: k rule: parent_chain.induct)
  case (3 es n i acc)
  then obtain e where e: "map_of es i = Some e"
    "parent_chain es n (eh_parent_id (se_header e)) (e # acc) = Inr c"
    by (auto split: option.splits)
  obtain k' where k': "k = Suc k'" "n \<le> k'" using 3(4) by (cases k) auto
  have "map_of es' i = Some e" using e(1) 3(3) by (auto simp: map_le_def dom_def)
  with 3(1) [OF e(1) e(2) 3(3) k'(2)] k'(1) show ?case by simp
qed auto

lemma btree_length_mono:
  assumes "btree_ok es" and "btree_ok es'" and "map_of es \<subseteq>\<^sub>m map_of es'"
  shows "length es \<le> length es'"
proof -
  have "fst ` set es \<subseteq> fst ` set es'"
    using map_le_implies_dom_le [OF assms(3)] by (simp add: dom_map_of_conv_image_fst)
  then have "card (set (map fst es)) \<le> card (set (map fst es'))" by (intro card_mono) auto
  then show ?thesis
    using assms(1,2) [THEN btree_ok_distinct] by (simp add: distinct_card del: set_map)
qed

lemma derive_configuration_mono:
  assumes "btree_ok es" and "btree_ok es'" and "map_of es \<subseteq>\<^sub>m map_of es'"
    and "derive_configuration es leaf = Inr c"
  shows "derive_configuration es' leaf = Inr c"
  using assms(4) parent_chain_mono [OF _ assms(3), of "Suc (length es)" leaf "[]" _ "Suc (length es')"]
    btree_length_mono [OF assms(1-3)]
  by (auto simp: derive_configuration_def result_simps simp del: parent_chain.simps)

section \<open>Usage\<close>

text \<open>
  \<open>usage_reports st lane ms\<close>: the usage records of a timeline that belong to operations of the
  lane, in order.
\<close>

fun usage_report :: "session_mutation \<Rightarrow> (operation_id \<times> usage) option" where
  "usage_report (RecordM s) =
     (case sr_record s of UsageRecord r \<Rightarrow> Some (ur_operation_id r, ur_usage r) | _ \<Rightarrow> None)"
| "usage_report _ = None"

definition operation_lane :: "reducer \<Rightarrow> operation_id \<Rightarrow> lane_id option" where
  "operation_lane st o' = map_option st_lane_id (map_of (rd_operations st) o')"

definition reported :: "stored_mutation list \<Rightarrow> (operation_id \<times> usage) list" where
  "reported ms = List.map_filter (\<lambda>m. usage_report (sv_mutation m)) ms"

definition usage_reports :: "reducer \<Rightarrow> lane_id \<Rightarrow> stored_mutation list \<Rightarrow> usage list" where
  "usage_reports st lane ms =
     map snd (filter (\<lambda>(o', _). operation_lane st o' = Some lane)
       (reported ms))"

lemma step_mutation_usage:
  assumes "step_mutation cx st i m = Inr st'"
  shows "(case usage_report m of
      None \<Rightarrow> rd_usage_by_lane st' = rd_usage_by_lane st
    | Some (o', u) \<Rightarrow> \<exists>l. operation_lane st o' = Some l \<and>
        rd_usage_by_lane st' = btree_insert l (usage_add_assign (lane_usage st l) u) (rd_usage_by_lane st))"
proof (cases m)
  case (EntryM e)
  with assms show ?thesis
    by (auto simp: step_mutation_def elim!: step_entry_ok)
next
  case (RecordM s)
  show ?thesis
  proof (cases "sr_record s")
    case (OperationStarted r)
    with assms RecordM show ?thesis by (auto simp: step_mutation_def elim!: step_operation_started_ok)
  next
    case (UsageRecord r)
    with assms RecordM show ?thesis
      by (auto simp: step_mutation_def step_effects operation_lane_def)
  qed (use assms RecordM in \<open>auto simp: step_mutation_def step_effects\<close>)
next
  case (LaneM s)
  with assms show ?thesis by (cases "sl_mutation s") (auto simp: step_mutation_def step_effects simp del: step_lane.simps)
next
  case (FactM s)
  with assms show ?thesis by (cases "sf_fact s") (auto simp: step_mutation_def step_effects)
qed

lemma reduce_step_usage:
  assumes "reduce_step cx st m = Inr st'"
  shows "(case usage_report (sv_mutation m) of
      None \<Rightarrow> rd_usage_by_lane st' = rd_usage_by_lane st
    | Some (o', u) \<Rightarrow> \<exists>l. operation_lane st o' = Some l \<and>
        rd_usage_by_lane st' = btree_insert l (usage_add_assign (lane_usage st l) u) (rd_usage_by_lane st))"
proof -
  let ?u = "clear_readiness (advance_timeline st (sv_seq m)) (sv_mutation m)"
  have eqs: "operation_lane ?u = operation_lane st" "lane_usage ?u = lane_usage st"
    "rd_usage_by_lane ?u = rd_usage_by_lane st"
    by (simp_all add: fun_eq_iff operation_lane_def lane_usage_def clear_readiness_def advance_timeline_def)
  from assms have "step_mutation cx ?u (rd_observed_item_index st) (sv_mutation m) = Inr st'"
    by (auto simp: reduce_step_def Let_def split: if_splits)
  from step_mutation_usage [OF this] show ?thesis unfolding eqs .
qed

lemma operations_kept_timeline:
  "operations_kept (st\<lparr>rd_observed_item_index := n, rd_observed_sequence := s,
     rd_checkpoint_ready_for := ready\<rparr>) st' = operations_kept st st'"
  by (simp add: operations_kept_def)

lemma operation_lane_kept:
  assumes "reduce_step cx st m = Inr st'" and "operation_lane st o' = Some l"
  shows "operation_lane st' o' = Some l"
proof -
  from assms(1) have "operations_kept st st'"
    by (elim reduce_step_cases) (metis lane_step_operations_kept operations_kept_timeline)
  with assms(2) show ?thesis
    by (fastforce simp: operation_lane_def operations_kept_def operation_kept_def)
qed

lemma lane_usage_insert:
  "rd_usage_by_lane st' = btree_insert l u (rd_usage_by_lane st) \<Longrightarrow>
   lane_usage st' lane = (if lane = l then u else lane_usage st lane)"
  by (simp add: lane_usage_def)

lemma reported_snoc:
  "reported (ms @ [m]) =
     reported ms @ (case usage_report (sv_mutation m) of None \<Rightarrow> [] | Some r \<Rightarrow> [r])"
  by (simp add: reported_def List.map_filter_def split: option.splits)

lemma usage_reports_snoc:
  "usage_reports st lane (ms @ [m]) = usage_reports st lane ms @
     (case usage_report (sv_mutation m) of None \<Rightarrow> []
      | Some (o', u) \<Rightarrow> if operation_lane st o' = Some lane then [u] else [])"
  by (auto simp: usage_reports_def reported_snoc split: option.splits)

lemma replay_usage:
  "replay cx header ms = Inr st \<Longrightarrow>
   (\<forall>r \<in> set (reported ms). operation_lane st (fst r) \<noteq> None) \<and>
   lane_usage st lane = foldl usage_add_assign default_usage (usage_reports st lane ms)"
proof (induction ms arbitrary: st rule: rev_induct)
  case Nil
  then show ?case
    by (auto simp: replay_def initial_reducer_def lane_usage_def usage_reports_def reported_def
        map_filter_simps)
next
  case (snoc m ms)
  then obtain u where u: "replay cx header ms = Inr u" "reduce_step cx u m = Inr st"
    by (auto simp: replay_def try_fold_append result_simps)
  from snoc.IH [OF u(1)] have known: "\<And>r. r \<in> set (reported ms) \<Longrightarrow> operation_lane u (fst r) \<noteq> None"
    and total: "lane_usage u lane = foldl usage_add_assign default_usage (usage_reports u lane ms)"
    by auto
  have same: "operation_lane st (fst r) = operation_lane u (fst r)" if "r \<in> set (reported ms)" for r
    using known [OF that] operation_lane_kept [OF u(2)] by fastforce
  have old: "usage_reports st lane ms = usage_reports u lane ms"
    unfolding usage_reports_def
    by (rule arg_cong [of _ _ "map snd"], rule filter_cong) (use same in \<open>auto simp: case_prod_beta\<close>)
  have kept: "r \<in> set (reported ms) \<Longrightarrow> operation_lane st (fst r) \<noteq> None" for r
    using known same by simp
  show ?case
  proof (cases "usage_report (sv_mutation m)")
    case None
    with reduce_step_usage [OF u(2)] old total kept show ?thesis
      by (simp add: reported_snoc usage_reports_snoc lane_usage_def)
  next
    case (Some r)
    with reduce_step_usage [OF u(2)] obtain l where l: "operation_lane u (fst r) = Some l"
      and upd: "rd_usage_by_lane st =
        btree_insert l (usage_add_assign (lane_usage u l) (snd r)) (rd_usage_by_lane u)"
      by (auto simp: case_prod_beta)
    from operation_lane_kept [OF u(2) l] have now: "operation_lane st (fst r) = Some l" .
    with Some total lane_usage_insert [OF upd, of lane] old kept show ?thesis
      by (auto simp: reported_snoc usage_reports_snoc case_prod_beta)
  qed
qed

section \<open>Pending inputs\<close>

lemma map_of_filter_values:
  "distinct (map fst m) \<Longrightarrow> map_of (filter (\<lambda>(_, s). P s) m) i =
     (case map_of m i of None \<Rightarrow> None | Some s \<Rightarrow> if P s then Some s else None)"
proof (induction m)
  case (Cons p m)
  then have "map_of m (fst p) = None" by (simp add: map_of_eq_None_iff)
  with Cons show ?case by (cases p) (auto split: option.splits)
qed simp

lemma lane_input_states_get:
  assumes "input_inv st"
  shows "btree_get (lane_input_states st lane) i =
    (case btree_get (rd_input_states st) i of
       None \<Rightarrow> None
     | Some s \<Rightarrow> if ai_lane_id (in_accepted s) = lane then Some s else None)"
  using assms unfolding lane_input_states_def input_inv_def
  by (simp add: map_of_filter_values btree_ok_distinct)

lemma input_inv_identity:
  "input_inv st \<Longrightarrow> map_of (rd_input_states st) i = Some s \<Longrightarrow> pe_id (ai_entry (in_accepted s)) = i"
  by (simp add: input_inv_def input_ok_def)

lemma pending_input_of_lane:
  assumes "input_inv st"
  shows "pending_input_of (lane_input_states st lane) i =
    (case btree_get (rd_input_states st) i of
       None \<Rightarrow> None
     | Some s \<Rightarrow> if ai_lane_id (in_accepted s) = lane \<and> in_status s = Pending
         then Some (in_accepted s) else None)"
  by (simp add: pending_input_of_def lane_input_states_get [OF assms] split: option.splits)

section \<open>Guarantees\<close>

text \<open>
  C4: For every header, timeline and lane, the reducer returns a lane reduction or a corruption
  of the timeline; none of its \<open>expect\<close>s fails, the walk from a lane's leaf to the root ends,
  and every entry on it exists.
\<close>

theorem reduce_lane_total:
  "reduce_lane_prefix cx header n ms lane \<noteq> Inl Panic \<and>
   reduce_lane_prefix cx header n ms lane \<noteq> Inl (EntryC ChainDiverges) \<and>
   reduce_lane_prefix cx header n ms lane \<noteq> Inl (EntryC (LeafMissingEntry i))"
proof -
  have "sound_result (reduce_lane_prefix cx header n ms lane)"
    unfolding reduce_lane_prefix_def
    by (intro sound_and_then sound_replay sound_finish replay_reducer_inv)
  then show ?thesis by (auto simp: sound_result_def)
qed

text \<open>
  C5: In every state a timeline replays to, the lane's active operation is exactly its one
  unfinished operation; so a lane never has two open operations.
\<close>

theorem one_open_operation:
  assumes "replay cx header ms = Inr st"
  shows "btree_get (rd_active_operations st) l = Some o' \<longleftrightarrow>
    (\<exists>op. btree_get (rd_operations st) o' = Some op \<and> st_lane_id op = l \<and> \<not> st_finished op)"
proof -
  have inv: "operation_inv st" using replay_reducer_inv [OF assms] by (simp add: reducer_inv_def)
  show ?thesis using operation_inv_active [OF inv] operation_inv_open [OF inv] by blast
qed

theorem one_open_operation_witness:
  "\<exists>op. btree_get (rd_operations (ex_state 12)) ''op1'' = Some op \<and> st_lane_id op = main_lane \<and>
     \<not> st_finished op"
  using one_open_operation [OF ex_replay, of 12 main_lane "''op1''"] ex_facts(1) by simp

text \<open>
  C2: The recovery plan of a reduced lane. A plan exists exactly when the lane is running, and
  then it is safe for the lane's open operation in the sense of \<open>plan_sound\<close>: accepted inputs
  are appended first, a tool recorded as \<open>Never\<close> is never replayed, a provider request is
  reconciled only if its material was written, and the operation resumes or starts an epoch
  only when every tool, request, activation and assistant call is resolved.
\<close>

theorem recovery_plan_safe:
  assumes "replay cx header ms = Inr st" and "finish_reduction st n lane = Inr r"
  shows "(ls_status (lr_lane_state r) = Idle \<and> ls_active_operation (lr_lane_state r) = None \<and>
      lr_recovery_plan r = None) \<or>
    (\<exists>o' op plan. ls_status (lr_lane_state r) = Running \<and>
       ls_active_operation (lr_lane_state r) = Some o' \<and>
       btree_get (rd_operations st) o' = Some op \<and> \<not> st_finished op \<and> st_lane_id op = lane \<and>
       lr_recovery_plan r = Some plan \<and> plan_sound st o' op plan)"
proof -
  from replay_reducer_inv [OF assms(1)] have inv: "operation_inv st" "epoch_inv st"
    by (simp_all add: reducer_inv_def)
  from assms(2) obtain c a p where
    p: "derive_recovery_plan st (map_of (rd_active_operations st) lane) = Inr p"
    and r: "r = assemble_reduction st lane c a p"
    by (auto simp: finish_reduction_ok)
  from derive_recovery_plan_ok [OF inv p] show ?thesis
    by (auto simp: r assemble_reduction_def Let_def)
qed

theorem recovery_plan_safe_witness:
  "\<exists>r op. finish_reduction (ex_state 11) 11 main_lane = Inr r \<and>
     lr_recovery_plan r = Some (ReconcileToolEffect ''r1'') \<and>
     plan_sound (ex_state 11) ''op1'' op (ReconcileToolEffect ''r1'')"
proof -
  obtain r where r: "finish_reduction (ex_state 11) 11 main_lane = Inr r"
    "lr_recovery_plan r = Some (ReconcileToolEffect ''r1'')"
    using ex_reductions(2) ex_replay [of 11]
    by (auto simp: ex_reduce_def reduce_lane_prefix_def split: sum.splits)
  from recovery_plan_safe [OF ex_replay r(1)] r(2) ex_facts(8) show ?thesis
    using r by (auto simp: finish_reduction_ok assemble_reduction_def Let_def)
qed

text \<open>
  C6: Tool effects. A started tool names a call that its assistant message really made, with
  the call's identity and name, in an epoch of its operation; no two starts share the
  assistant call or the provisioned result entry.
\<close>

theorem tools_start_once:
  assumes "replay cx header ms = Inr st" and "s \<in> set (rd_tool_starts st)"
  shows "call_recorded (rd_entries st) (snd s) \<and>
    btree_get (rd_epochs st) (ts_epoch_id (snd s)) = Some (ts_operation_id (snd s)) \<and>
    (\<forall>s' \<in> set (rd_tool_starts st). tool_slot s' = tool_slot s \<or>
       ts_result_entry_id (snd s') = ts_result_entry_id (snd s) \<longrightarrow> s' = s)"
proof -
  from replay_reducer_inv [OF assms(1)] have inv: "tool_inv st" by (simp add: reducer_inv_def)
  then have "inj_on tool_slot (set (rd_tool_starts st))"
    and "inj_on (ts_result_entry_id \<circ> snd) (set (rd_tool_starts st))"
    by (simp_all add: tool_inv_def distinct_map)
  with assms(2) inv show ?thesis unfolding tool_inv_def inj_on_def by auto
qed

theorem tools_start_once_witness:
  "call_recorded (rd_entries (ex_state 12)) ex_tool"
  using tools_start_once [OF ex_replay, of 12 "(11, ex_tool)"] ex_facts(5) by simp

text \<open>
  In a reduced session, the result entry of a started tool, once written, is a tool result
  for that call: same call identity and tool name.
\<close>

theorem tool_results_agree:
  assumes "replay cx header ms = Inr st" and "finish_reduction st n lane = Inr r"
    and "s \<in> set (rd_tool_starts st)"
    and "btree_get (rd_entries st) (ts_result_entry_id (snd s)) = Some e"
  shows "\<exists>result. se_body e = ToolResult result \<and> tr_tool_call_id result = ts_tool_call_id (snd s) \<and>
    tr_tool_name result = ts_tool_name (snd s)"
proof -
  from assms(2) have "check_all (check_started_result (rd_entries st)) (rd_tool_starts st) = Inr ()"
    by (auto simp: finish_reduction_ok validate_tool_results_def result_simps)
  with assms(3) have "check_started_result (rd_entries st) s = Inr ()" by (auto simp: check_all_ok)
  with assms(4) show ?thesis
    by (auto simp: check_started_result_def Let_def split: session_entry.splits if_splits)
qed

theorem tool_results_agree_witness:
  "\<exists>e result. btree_get (rd_entries (ex_state 12)) ''r1'' = Some e \<and> se_body e = ToolResult result \<and>
     tr_tool_call_id result = ''c1'' \<and> tr_tool_name result = ''bash''"
proof -
  obtain r where "finish_reduction (ex_state 12) 12 main_lane = Inr r"
    using ex_reductions(1) ex_replay [of 12]
    by (auto simp: ex_reduce_def reduce_lane_prefix_def is_ok_iff)
  moreover obtain e where "btree_get (rd_entries (ex_state 12)) ''r1'' = Some e"
    using ex_facts(9) by auto
  ultimately show ?thesis
    using tool_results_agree [OF ex_replay, of 12 12 main_lane _ "(11, ex_tool)" e] ex_facts(5)
    by (auto simp: ex_tool_def)
qed

text \<open>A prefix of the example session is extended to a longer one.\<close>

lemma ex_extends:
  assumes "k \<in> {11, 12, 15, 17, 19, 20}" and "n \<le> k"
  shows "replay ex_codec ex_header (take n ex_timeline @ drop n (take k ex_timeline)) = Inr (ex_state k)"
proof -
  have "take n ex_timeline @ drop n (take k ex_timeline) = take k ex_timeline"
    using append_take_drop_id [of n "take k ex_timeline"] assms(2) by (simp add: min_absorb1)
  with ex_replay [OF assms(1)] show ?thesis by simp
qed

text \<open>
  Accepted inputs only move forward. Once accepted, an input keeps its identity, lane and
  content in every extension of the timeline; a withdrawn input stays withdrawn, a dispatched
  one stays with its operation, a settled one keeps its operation and outcome.
\<close>

theorem inputs_progress:
  assumes "replay cx header ms = Inr st" and "replay cx header (ms @ ms2) = Inr st'"
    and "btree_get (rd_input_states st) i = Some s"
  shows "\<exists>s'. btree_get (rd_input_states st') i = Some s' \<and> in_accepted s' = in_accepted s \<and>
    status_le (in_status s) (in_status s')"
  using replay_history_le [OF assms(1,2)] assms(3) by (simp add: history_le_def inputs_le_def)

theorem inputs_progress_witness:
  "\<exists>s s'. btree_get (rd_input_states (ex_state 12)) ''u1'' = Some s \<and>
     btree_get (rd_input_states (ex_state 20)) ''u1'' = Some s' \<and> in_accepted s' = in_accepted s \<and>
     in_status s = Dispatched ''op1'' \<and> in_status s' = Settled ''op1'' Completed"
proof -
  obtain s where s: "btree_get (rd_input_states (ex_state 12)) ''u1'' = Some s"
    "in_status s = Dispatched ''op1''" using ex_facts(3) by auto
  from inputs_progress [OF ex_replay ex_extends s(1), of 20] s ex_facts(4) show ?thesis by auto
qed

text \<open>
  The outcome of an input. An input is dispatched to, or settled by, an operation of its own
  lane whose original input contains it, and a settled input carries exactly the outcome with
  which that operation finished.
\<close>

theorem input_outcome_agrees:
  assumes "replay cx header ms = Inr st" and "btree_get (rd_input_states st) i = Some s"
    and "in_status s = Dispatched o' \<or> in_status s = Settled o' out"
  shows "\<exists>op. btree_get (rd_operations st) o' = Some op \<and> st_lane_id op = ai_lane_id (in_accepted s) \<and>
    ai_entry (in_accepted s) \<in> set (st_original_input op) \<and>
    (in_status s = Settled o' out \<longrightarrow> st_finished op \<and> st_op_outcome op = Some out)"
proof -
  from replay_reducer_inv [OF assms(1)] have "input_inv st" by (simp add: reducer_inv_def)
  with assms(2) have "status_ok st (in_accepted s) (in_status s)"
    by (simp add: input_inv_def input_ok_def)
  with assms(3) show ?thesis by (auto simp: taken_by_def)
qed

theorem input_outcome_agrees_witness:
  "\<exists>op. btree_get (rd_operations (ex_state 20)) ''op1'' = Some op \<and> st_finished op \<and>
     st_op_outcome op = Some Completed"
proof -
  obtain s where s: "btree_get (rd_input_states (ex_state 20)) ''u1'' = Some s"
    "in_status s = Settled ''op1'' Completed" using ex_facts(4) by auto
  from input_outcome_agrees [OF ex_replay s(1), of "''op1''" Completed] s(2) show ?thesis by auto
qed

text \<open>
  C3: Committed history is immutable. Whatever is appended to a timeline, every entry, finished
  operation (with its outcome), provider request and its settlement, tool start and turn
  checkpoint of the prefix is still there, unchanged.
\<close>

theorem history_immutable:
  assumes "replay cx header ms = Inr st" and "replay cx header (ms @ ms2) = Inr st'"
  shows "btree_get (rd_entries st) \<subseteq>\<^sub>m btree_get (rd_entries st') \<and>
    (\<forall>o' op. btree_get (rd_operations st) o' = Some op \<and> st_finished op \<longrightarrow>
       btree_get (rd_operations st') o' = Some op) \<and>
    btree_get (rd_provider_starts st) \<subseteq>\<^sub>m btree_get (rd_provider_starts st') \<and>
    btree_get (rd_provider_settled st) \<subseteq>\<^sub>m btree_get (rd_provider_settled st') \<and>
    btree_get (rd_checkpoints st) \<subseteq>\<^sub>m btree_get (rd_checkpoints st') \<and>
    take (length (rd_tool_starts st)) (rd_tool_starts st') = rd_tool_starts st"
  using replay_history_le [OF assms] by (auto simp: history_le_def finished_le_def list_le_def)

theorem history_immutable_witness:
  "btree_get (rd_checkpoints (ex_state 20)) ''cp1'' = Some ex_checkpoint"
proof -
  have "btree_get (rd_checkpoints (ex_state 17)) \<subseteq>\<^sub>m btree_get (rd_checkpoints (ex_state 20))"
    using history_immutable [OF ex_replay ex_extends, of 17 20] by simp
  with ex_facts(6) show ?thesis by (auto simp: map_le_def dom_def)
qed

text \<open>
  C7: A turn checkpoint is a settled point and stays one. In every state, the operation of a
  recorded checkpoint is finished on the checkpoint's lane, none of its tools, provider
  requests or extension controls is unresolved, and the checkpoint's leaf is a recorded entry.
\<close>

theorem checkpoint_settled:
  assumes "replay cx header ms = Inr st" and "btree_get (rd_checkpoints st) c = Some f"
  shows "cp_checkpoint_id f = c \<and>
    (\<exists>op. btree_get (rd_operations st) (cp_operation_id f) = Some op \<and> st_finished op \<and>
       st_lane_id op = cp_lane_id f) \<and>
    \<not> unresolved_tool st (cp_operation_id f) \<and> \<not> unresolved_request st (cp_operation_id f) \<and>
    \<not> unresolved_control st (cp_operation_id f) \<and>
    (\<forall>i. cp_leaf_id f = Some i \<longrightarrow> i \<in> dom (btree_get (rd_entries st)))"
proof -
  from replay_reducer_inv [OF assms(1)] have "checkpoint_inv st" by (simp add: reducer_inv_def)
  with assms(2) show ?thesis
    unfolding checkpoint_inv_def finished_on_def work_resolved_def leaf_known_def by blast
qed

theorem checkpoint_settled_witness:
  "\<not> unresolved_tool (ex_state 17) ''op1'' \<and> \<not> unresolved_request (ex_state 17) ''op1''"
  using checkpoint_settled [OF ex_replay ex_facts(6)] by (simp add: ex_checkpoint_def)

text \<open>
  A fork starts from the exact state of its checkpoint: after a \<open>ForkedLane\<close> fact is
  replayed, the new lane's leaf and extension state are those the checkpoint recorded, the
  lane has no operation, and the leaves and extension states of all other lanes are untouched.
\<close>

theorem fork_restores_checkpoint:
  assumes "replay cx header ms = Inr st" and "replay cx header (ms @ [m]) = Inr st'"
    and "sv_mutation m = FactM \<lparr>sf_seq = q, sf_timestamp_ms = t, sf_fact = ForkedLane f\<rparr>"
  shows "\<exists>c. btree_get (rd_checkpoints st) (fl_checkpoint_id f) = Some c \<and>
    btree_get (rd_lane_leaves st') (fl_lane_id f) = Some (cp_leaf_id c) \<and>
    btree_get (rd_extension_state st') (fl_lane_id f) = Some (cp_extension_state c) \<and>
    (\<forall>o' op. btree_get (rd_operations st') o' = Some op \<longrightarrow> st_lane_id op \<noteq> fl_lane_id f) \<and>
    rd_lane_leaves st' = rd_lane_leaves st \<and>
    (\<forall>l. l \<noteq> fl_lane_id f \<longrightarrow>
       btree_get (rd_extension_state st') l = btree_get (rd_extension_state st) l)"
proof -
  from assms(1,2) have "reduce_step cx st m = Inr st'"
    by (simp add: replay_def try_fold_append result_simps)
  then have "step_forked_lane (clear_readiness (advance_timeline st (sv_seq m)) (sv_mutation m)) f = Inr st'"
    using assms(3) by (auto simp: reduce_step_def step_mutation_def Let_def split: if_splits)
  moreover have "lane_inv st" using replay_reducer_inv [OF assms(1)] by (simp add: reducer_inv_def)
  ultimately obtain c where c: "btree_get (rd_checkpoints st) (fl_checkpoint_id f) = Some c"
    and fresh: "fl_lane_id f \<in> rd_fresh_lanes st" and inv: "lane_inv st"
    and leaf: "lane_leaf_flat st (fl_lane_id f) = cp_leaf_id c"
    and fields: "rd_lane_leaves st' = rd_lane_leaves st" "rd_operations st' = rd_operations st"
      "rd_extension_state st' = btree_insert (fl_lane_id f) (cp_extension_state c) (rd_extension_state st)"
    unfolding step_forked_lane_ok
    by (auto simp: clear_readiness_def advance_timeline_def lane_leaf_flat_def split: if_splits)
  from inv fresh have "fl_lane_id f \<in> dom (btree_get (rd_lane_leaves st))"
    and "\<forall>o' op. btree_get (rd_operations st) o' = Some op \<longrightarrow> st_lane_id op \<noteq> fl_lane_id f"
    unfolding lane_inv_def by blast+
  with c leaf fields show ?thesis by (auto simp: lane_leaf_flat_def)
qed

theorem fork_restores_checkpoint_witness:
  "btree_get (rd_extension_state (ex_state 19)) ex_fork = Some (cp_extension_state ex_checkpoint)"
proof -
  let ?m = "last (take 19 ex_timeline)"
  have split: "take 19 ex_timeline = take 18 ex_timeline @ [?m]"
    and m: "sv_mutation ?m = FactM \<lparr>sf_seq = 19, sf_timestamp_ms = 9, sf_fact = ForkedLane
      \<lparr>fl_checkpoint_id = ''cp1'', fl_lane_id = ex_fork, fl_base_leaf_id = Some ''r1''\<rparr>\<rparr>"
    by (simp_all add: ex_timeline_def ex_mutations_def ex_fact_def)
  have r19: "replay ex_codec ex_header (take 18 ex_timeline @ [?m]) = Inr (ex_state 19)"
    using ex_replay [of 19] unfolding split [symmetric] by simp
  then obtain st where st: "replay ex_codec ex_header (take 18 ex_timeline) = Inr st"
    unfolding replay_def by (elim try_fold_prefix)
  from fork_restores_checkpoint [OF st r19 m] obtain c where
    c: "btree_get (rd_checkpoints st) ''cp1'' = Some c"
      "btree_get (rd_extension_state (ex_state 19)) ex_fork = Some (cp_extension_state c)" by auto
  have "take 17 ex_timeline @ drop 17 (take 18 ex_timeline) = take 18 ex_timeline"
    using append_take_drop_id [of 17 "take 18 ex_timeline"] by (simp add: min_absorb1)
  with st have "replay ex_codec ex_header (take 17 ex_timeline @ drop 17 (take 18 ex_timeline)) = Inr st"
    by simp
  from replay_history_le [OF ex_replay this]
  have "btree_get (rd_checkpoints (ex_state 17)) \<subseteq>\<^sub>m btree_get (rd_checkpoints st)"
    by (simp add: history_le_def)
  with ex_facts(6) c show ?thesis by (auto simp: map_le_def dom_def)
qed

text \<open>
  C8: The effective configuration of a branch (model, thinking level, declared tools, harness
  revision) depends on the branch alone: once a leaf is recorded, no extension of the timeline
  on any lane changes the configuration derived at it.
\<close>

theorem branch_configuration_stable:
  assumes "replay cx header ms = Inr st" and "replay cx header (ms @ ms2) = Inr st'"
  shows "\<exists>c. derive_configuration (rd_entries st) (lane_leaf_flat st lane) = Inr c \<and>
    derive_configuration (rd_entries st') (lane_leaf_flat st lane) = Inr c"
proof -
  have inv: "entry_inv st" "entry_inv st'"
    using replay_reducer_inv assms by (auto simp: reducer_inv_def)
  then have ok: "btree_ok (rd_entries st)" "btree_ok (rd_entries st')" by (simp_all add: entry_inv_def)
  have "btree_get (rd_entries st) \<subseteq>\<^sub>m btree_get (rd_entries st')"
    using replay_history_le [OF assms] by (simp add: history_le_def)
  with derive_configuration_total [OF inv(1)] derive_configuration_mono [OF ok] show ?thesis by blast
qed

theorem branch_configuration_stable_witness:
  "\<exists>c. derive_configuration (rd_entries (ex_state 12)) (lane_leaf_flat (ex_state 12) main_lane) = Inr c \<and>
     derive_configuration (rd_entries (ex_state 20)) (lane_leaf_flat (ex_state 12) main_lane) = Inr c"
  using branch_configuration_stable [OF ex_replay ex_extends, of 12 20] by simp

text \<open>
  Usage totals. The usage of a lane is the sum, in timeline order, of exactly the usage
  records whose operation runs on that lane; records of other lanes, tool usage and cache
  maintenance do not contribute.
\<close>

theorem lane_usage_exact:
  assumes "replay cx header ms = Inr st" and "finish_reduction st n lane = Inr r"
  shows "lr_usage_totals r = foldl usage_add_assign default_usage (usage_reports st lane ms)"
proof -
  from assms(2) obtain c a p where "r = assemble_reduction st lane c a p"
    by (auto simp: finish_reduction_ok)
  then have "lr_usage_totals r = lane_usage st lane" by (simp add: assemble_reduction_def Let_def)
  with replay_usage [OF assms(1)] show ?thesis by simp
qed

theorem lane_usage_exact_witness:
  "\<exists>r. finish_reduction (ex_state 12) 12 main_lane = Inr r \<and>
     lr_usage_totals r = foldl usage_add_assign default_usage
       (usage_reports (ex_state 12) main_lane (take 12 ex_timeline))"
proof -
  obtain r where "finish_reduction (ex_state 12) 12 main_lane = Inr r"
    using ex_reductions(1) ex_replay [of 12]
    by (auto simp: ex_reduce_def reduce_lane_prefix_def is_ok_iff)
  with lane_usage_exact [OF ex_replay this] show ?thesis by simp
qed

text \<open>
  The pending inputs of a reduced lane are exactly the lane's accepted inputs that are
  neither withdrawn nor dispatched nor settled, each once, in order of acceptance.
\<close>

theorem pending_inputs_exact:
  assumes "replay cx header ms = Inr st" and "finish_reduction st n lane = Inr r"
  shows "map (\<lambda>a. pe_id (ai_entry a)) (ir_pending_inputs (lr_input_reduction r)) =
      filter (\<lambda>i. \<exists>s. btree_get (rd_input_states st) i = Some s \<and> in_status s = Pending \<and>
        ai_lane_id (in_accepted s) = lane) (rd_input_order st) \<and>
    distinct (rd_input_order st) \<and> set (rd_input_order st) = dom (btree_get (rd_input_states st))"
proof -
  from replay_reducer_inv [OF assms(1)] have inv: "input_inv st" by (simp add: reducer_inv_def)
  from assms(2) obtain c a p where "r = assemble_reduction st lane c a p"
    by (auto simp: finish_reduction_ok)
  then have "ir_pending_inputs (lr_input_reduction r) =
      List.map_filter (pending_input_of (lane_input_states st lane)) (rd_input_order st)"
    by (simp add: assemble_reduction_def input_reduction_of_def Let_def)
  moreover have "map (\<lambda>a. pe_id (ai_entry a))
      (List.map_filter (pending_input_of (lane_input_states st lane)) is) =
    filter (\<lambda>i. \<exists>s. btree_get (rd_input_states st) i = Some s \<and> in_status s = Pending \<and>
        ai_lane_id (in_accepted s) = lane) is" for "is"
    by (induction "is")
      (auto simp: map_filter_simps pending_input_of_lane [OF inv] dest: input_inv_identity [OF inv] split: option.splits)
  ultimately show ?thesis using inv by (simp add: input_inv_def)
qed

theorem pending_inputs_exact_witness:
  "\<exists>r. finish_reduction (ex_state 20) 20 ex_fork = Inr r \<and>
     map (\<lambda>a. pe_id (ai_entry a)) (ir_pending_inputs (lr_input_reduction r)) = [''u2''] \<and>
     [''u2''] = filter (\<lambda>i. \<exists>s. btree_get (rd_input_states (ex_state 20)) i = Some s \<and>
       in_status s = Pending \<and> ai_lane_id (in_accepted s) = ex_fork) (rd_input_order (ex_state 20))"
proof -
  obtain r where r: "finish_reduction (ex_state 20) 20 ex_fork = Inr r"
    "map ai_entry (ir_pending_inputs (lr_input_reduction r)) = [provisioned_user ''u2'' ''again'']"
    using ex_reductions(3) ex_replay [of 20]
    by (auto simp: ex_reduce_def reduce_lane_prefix_def split: sum.splits)
  then have "map (\<lambda>a. pe_id (ai_entry a)) (ir_pending_inputs (lr_input_reduction r)) = [''u2'']"
    by (auto simp: provisioned_user_def)
  with r(1) pending_inputs_exact [OF ex_replay r(1)] show ?thesis by auto
qed

text \<open>
  C9: The epochs of an operation form a sequence: they are distinct, each belongs to that
  operation alone, and at most the latest one is open.
\<close>

theorem epochs_sequential:
  assumes "replay cx header ms = Inr st" and "btree_get (rd_operations st) o' = Some op"
  shows "distinct (st_epoch_ids op) \<and>
    (\<forall>e. btree_get (rd_epochs st) e = Some o' \<longleftrightarrow> e \<in> set (st_epoch_ids op)) \<and>
    (st_open_epochs op = {} \<or> (st_epoch_ids op \<noteq> [] \<and> st_open_epochs op = {last (st_epoch_ids op)}))"
proof -
  from replay_reducer_inv [OF assms(1)] have inv: "epoch_inv st" by (simp add: reducer_inv_def)
  note ids = epoch_inv_ids [OF inv epochs_of_get [OF assms(2)]]
    and owns = epoch_inv_owns [OF inv epochs_of_get [OF assms(2)]]
  from ids(1,3) owns show ?thesis by blast
qed

theorem epochs_sequential_witness:
  "\<exists>op. btree_get (rd_operations (ex_state 12)) ''op1'' = Some op \<and>
     btree_get (rd_epochs (ex_state 12)) ''e1'' = Some ''op1''"
proof -
  obtain op where "btree_get (rd_operations (ex_state 12)) ''op1'' = Some op" "st_epoch_ids op = [''e1'']"
    using ex_facts(2) by auto
  with epochs_sequential [OF ex_replay, of 12 "''op1''" op] show ?thesis by simp
qed

end
