(* ===== verification/Agent_Graph.thy ===== *)
theory Agent_Graph
  imports Session_Usage
begin

text \<open>
  The child-agent graph of \<open>crates/tea-session/src/agents.rs\<close>: the facts' validators and the pure
  reduction of a timeline to a policy and a node per child. \<open>reduce_agent_graph_prefix\<close> is its
  phases in the source's order: the collecting loop (\<open>collected\<close>), the policy check, and one
  fold each over spawns, operations, workspace deltas, terminal results and applications,
  then the derived states. \<open>GraphPanic\<close> is a failing \<open>expect\<close>.

  A timeline position is the pair of commit sequence and item index, ordered
  lexicographically as the derived \<open>Ord\<close> of \<open>TimelinePosition\<close>.
\<close>

section \<open>Errors\<close>

datatype policy_corruption =
    PolicyVersion u16
  | PolicyEmptyCatalog
  | PolicyRepeatsModel string string
  | PolicyRepeatsIdentifier string
  | PolicyProviders
  | PolicyConcurrency
  | PolicyTotal
  | PolicyTimeout
  | ContextWindowZero
  | SecondPolicy
  | PolicyAfterRevision

datatype spawn_corruption =
    SpawnNeedsPolicy
  | SpawnBeforePolicy
  | TaskNameLength
  | TaskNameShape
  | ThinkingLevel
  | ModelOutsidePolicy agent_id
  | ParentUnknown agent_id
  | ParentNotRoot agent_id
  | SpawnIntentCount agent_id
  | SpawnIdentity agent_id
  | SpawnLane agent_id
  | SpawnLease agent_id

datatype branch_corruption =
    ChildLaneMissing agent_id
  | ChildLaneBase agent_id
  | TaskInheritsBase
  | ParentNeedsBase
  | SpawnEpochUnknown agent_id
  | SpawnEpochForeign agent_id
  | ParentForkLeaf
  | ChildConfiguration agent_id
  | AgentRespawned agent_id
  | LaneRebound lane_id
  | TaskNameReused operation_id string

datatype arguments_corruption =
    ArgsNotObject
  | ArgsUnknownField
  | ArgsMissing string
  | ArgsDiffer
  | AssignmentBounds
  | ContextValue
  | ContextDiffers
  | ThinkingDiffers
  | ApplyArgs workspace_delta_id

datatype child_corruption =
    FinishUnknownOperation operation_id
  | UnrelatedOperation operation_id
  | OperationNoSpawn operation_id
  | OperationLinkage operation_id
  | OperationNoPosition agent_id
  | OperationPrecedesSpawn operation_id
  | SecondOperation agent_id
  | AssignmentCount operation_id
  | AssignmentNotUser operation_id
  | AssignmentIdentity operation_id
  | AssignmentDiffers operation_id
  | ChildIdentity

datatype delta_corruption =
    DeltaIdentity workspace_delta_id
  | DeltaNoPaths
  | DeltaPatchEmpty
  | DeltaPatchInline
  | PathShape
  | PathComponent
  | PathOrder
  | DeltaUnknownAgent workspace_delta_id
  | DeltaLease workspace_delta_id
  | DeltaBeforeOperation workspace_delta_id
  | DeltaBeforeFinish workspace_delta_id
  | SecondDelta agent_id

datatype result_corruption =
    ReportNotString
  | ReportTooLong
  | ResultUnknownAgent agent_id
  | ResultOperation agent_id
  | ResultBeforeFinish agent_id
  | ResultOutcome agent_id
  | ResultFinalEntry agent_id
  | ResultMissingEntry agent_id
  | ResultEntryForeign agent_id
  | ResultReport agent_id
  | ResultBeforeDelta agent_id
  | ResultUnknownDelta agent_id
  | ResultOmitsDelta agent_id
  | SecondResult

datatype applied_corruption =
    AppliedUnknown workspace_delta_id
  | AppliedBeforeDelta workspace_delta_id
  | AppliedPaths workspace_delta_id
  | AppliedNoResult workspace_delta_id
  | AppliedBeforeResult workspace_delta_id
  | AppliedTarget workspace_delta_id
  | AppliedIntentCount workspace_delta_id
  | IntentReused
  | SecondApplication
  | AppliedWithoutDelta

datatype graph_corruption =
    PolicyG policy_corruption
  | SpawnG spawn_corruption
  | BranchG branch_corruption
  | ArgsG arguments_corruption
  | ChildG child_corruption
  | DeltaG delta_corruption
  | ResultG result_corruption
  | AppliedG applied_corruption
  | FieldBounds string
  | GraphPanic

section \<open>Validators\<close>

definition SUBAGENT_POLICY_SCHEMA_VERSION :: u16 where "SUBAGENT_POLICY_SCHEMA_VERSION = 1"
definition MAX_MODEL_IDENTIFIER_BYTES :: nat where "MAX_MODEL_IDENTIFIER_BYTES = 512"
definition MAX_DISPLAY_NAME_BYTES :: nat where "MAX_DISPLAY_NAME_BYTES = 256"
definition MAX_TASK_NAME_BYTES :: nat where "MAX_TASK_NAME_BYTES = 64"
definition MAX_THINKING_BYTES :: nat where "MAX_THINKING_BYTES = 32"
definition MAX_COMMIT_BYTES :: nat where "MAX_COMMIT_BYTES = 200"
definition MAX_CHANGED_PATH_BYTES :: nat where "MAX_CHANGED_PATH_BYTES = 4096"
definition MAX_INLINE_REPORT_BYTES :: nat where "MAX_INLINE_REPORT_BYTES = 32 * 1024"

definition validate_bounded_nonempty :: "string \<Rightarrow> string \<Rightarrow> nat \<Rightarrow> (graph_corruption, unit) result" where
  "validate_bounded_nonempty name value maximum =
     (if value = [] \<or> length value > maximum \<or> has_control value then Err (FieldBounds name)
      else Ok ())"

definition validate_model :: "subagent_model_record \<Rightarrow> (graph_corruption, unit) result" where
  "validate_model m =
     and_then (validate_bounded_nonempty ''provider'' (sm_provider m) MAX_MODEL_IDENTIFIER_BYTES) (\<lambda>_.
     and_then (validate_bounded_nonempty ''model'' (sm_model m) MAX_MODEL_IDENTIFIER_BYTES) (\<lambda>_.
     and_then (case sm_revision m of None \<Rightarrow> Ok ()
               | Some r \<Rightarrow> validate_bounded_nonempty ''revision'' r MAX_MODEL_IDENTIFIER_BYTES) (\<lambda>_.
     and_then (validate_bounded_nonempty ''display name'' (sm_display_name m) MAX_DISPLAY_NAME_BYTES)
       (\<lambda>_. if sm_context_window m = Some 0 then Err (PolicyG ContextWindowZero) else Ok ()))))"

type_synonym model_identity = "string \<times> string \<times> string option"

record catalog_scan =
  sn_identities :: "model_identity set"
  sn_model_ids :: "string set"
  sn_provider :: "string option"

definition scan_model ::
    "catalog_scan \<Rightarrow> subagent_model_record \<Rightarrow> (graph_corruption, catalog_scan) result" where
  "scan_model s m =
     and_then (validate_model m) (\<lambda>_.
       let identity = (sm_provider m, sm_model m, sm_revision m) in
       if identity \<in> sn_identities s then Err (PolicyG (PolicyRepeatsModel (sm_provider m) (sm_model m)))
       else if sm_model m \<in> sn_model_ids s then Err (PolicyG (PolicyRepeatsIdentifier (sm_model m)))
       else if sn_provider s \<noteq> None \<and> sn_provider s \<noteq> Some (sm_provider m) then Err (PolicyG PolicyProviders)
       else Ok \<lparr>sn_identities = insert identity (sn_identities s),
                sn_model_ids = insert (sm_model m) (sn_model_ids s),
                sn_provider = Some (sm_provider m)\<rparr>)"

definition validate_policy :: "subagent_policy_fact \<Rightarrow> (graph_corruption, unit) result" where
  "validate_policy p =
     (if sp_schema_version p \<noteq> SUBAGENT_POLICY_SCHEMA_VERSION
      then Err (PolicyG (PolicyVersion (sp_schema_version p)))
      else if sp_models p = [] then Err (PolicyG PolicyEmptyCatalog)
      else and_then (try_fold scan_model
                       \<lparr>sn_identities = {}, sn_model_ids = {}, sn_provider = None\<rparr> (sp_models p)) (\<lambda>_.
        if \<not> (1 \<le> sp_max_concurrent p \<and> sp_max_concurrent p \<le> 16) then Err (PolicyG PolicyConcurrency)
        else if sp_max_total_per_operation p < sp_max_concurrent p \<or>
                sp_max_total_per_operation p > 64 then Err (PolicyG PolicyTotal)
        else if \<not> (30000 \<le> sp_timeout_ms p \<and> sp_timeout_ms p \<le> 7200000) then Err (PolicyG PolicyTimeout)
        else Ok ()))"

definition validate_task_name :: "string \<Rightarrow> (graph_corruption, unit) result" where
  "validate_task_name name =
     (case name of
        [] \<Rightarrow> Err (SpawnG TaskNameLength)
      | c # cs \<Rightarrow>
          if length name > MAX_TASK_NAME_BYTES then Err (SpawnG TaskNameLength)
          else if \<not> is_ascii_lowercase c \<or>
                  \<not> list_all (\<lambda>b. is_ascii_lowercase b \<or> is_ascii_digit b \<or> b = CHR ''_'') cs
          then Err (SpawnG TaskNameShape) else Ok ())"

definition path_shape_ok :: "string \<Rightarrow> bool" where
  "path_shape_ok path \<longleftrightarrow>
     path \<noteq> [] \<and> length path \<le> MAX_CHANGED_PATH_BYTES \<and> CHR 0x00 \<notin> set path \<and>
     hd path \<noteq> CHR ''/'' \<and> hd path \<noteq> CHR 0x5C \<and>
     \<not> (length path > 1 \<and> path ! 1 = CHR '':'') \<and> CHR 0x5C \<notin> set path"

definition path_components_ok :: "string \<Rightarrow> bool" where
  "path_components_ok path \<longleftrightarrow>
     list_all (\<lambda>segment. segment \<noteq> [] \<and> segment \<noteq> ''.'' \<and> segment \<noteq> ''..'')
       (split_on (CHR ''/'') path)"

fun check_paths :: "string option \<Rightarrow> string list \<Rightarrow> (graph_corruption, unit) result" where
  "check_paths previous [] = Ok ()"
| "check_paths previous (path # paths) =
     (if \<not> path_shape_ok path then Err (DeltaG PathShape)
      else if \<not> path_components_ok path then Err (DeltaG PathComponent)
      else if (case previous of None \<Rightarrow> False | Some p \<Rightarrow> p \<ge> path) then Err (DeltaG PathOrder)
      else check_paths (Some path) paths)"

definition validate_changed_paths :: "string list \<Rightarrow> (graph_corruption, unit) result" where
  "validate_changed_paths paths = check_paths None paths"

fun validate_patch :: "payload_ref \<Rightarrow> (graph_corruption, unit) result" where
  "validate_patch (Artifact _ byte_len media_type) =
     (if byte_len > 0
      then validate_bounded_nonempty ''patch media type'' media_type MAX_DISPLAY_NAME_BYTES
      else Err (DeltaG DeltaPatchEmpty))"
| "validate_patch (Inline _) = Err (DeltaG DeltaPatchInline)"

definition validate_delta ::
    "(u8 list \<Rightarrow> digest) \<Rightarrow> workspace_delta_fact \<Rightarrow> (graph_corruption, unit) result" where
  "validate_delta blake3 d =
     and_then (validate_bounded_nonempty ''base commit'' (wf_base_commit d) MAX_COMMIT_BYTES) (\<lambda>_.
     and_then (validate_bounded_nonempty ''result commit'' (wf_result_commit d) MAX_COMMIT_BYTES) (\<lambda>_.
       if derive_workspace_delta_id blake3 (wf_workspace_lease_id d) (wf_base_commit d)
            (wf_result_commit d) \<noteq> wf_delta_id d
       then Err (DeltaG (DeltaIdentity (wf_delta_id d)))
       else if wf_changed_paths d = [] then Err (DeltaG DeltaNoPaths)
       else and_then (validate_changed_paths (wf_changed_paths d)) (\<lambda>_. validate_patch (wf_patch d))))"

fun validate_report :: "payload_ref \<Rightarrow> (graph_corruption, unit) result" where
  "validate_report (Inline v) =
     (case as_str v of
        None \<Rightarrow> Err (ResultG ReportNotString)
      | Some report \<Rightarrow> if length report > MAX_INLINE_REPORT_BYTES then Err (ResultG ReportTooLong) else Ok ())"
| "validate_report (Artifact _ _ media_type) =
     validate_bounded_nonempty ''report media type'' media_type MAX_DISPLAY_NAME_BYTES"

definition validate_terminal :: "agent_task_finished_fact \<Rightarrow> (graph_corruption, unit) result" where
  "validate_terminal t = validate_report (at_report t)"

section \<open>The collecting loop\<close>

type_synonym timeline_position = "sequence \<times> u64"

record operation_info =
  oi_lane_id :: lane_id
  oi_kind :: operation_kind
  oi_original_input :: "provisioned_entry list"
  oi_initial_harness_revision :: harness_revision_id
  oi_model_harness_profile :: model_harness_profile_id
  oi_started_at :: timeline_position
  oi_finished :: "(timeline_position \<times> operation_outcome) option"

record tool_info =
  ti_operation_id :: operation_id
  ti_epoch_id :: epoch_id
  ti_tool_name :: string
  ti_effective_args :: json_value
  ti_idempotency_key :: string
  ti_position :: timeline_position

record collected =
  gc_lanes :: "(lane_id, entry_id option \<times> timeline_position) btree"
  gc_entries :: "(entry_id, lane_id \<times> session_entry \<times> timeline_position) btree"
  gc_operations :: "(operation_id, operation_info) btree"
  gc_epochs :: "(epoch_id, operation_id \<times> entry_id option \<times> timeline_position) btree"
  gc_tools :: "(string, tool_info list) btree"
  gc_policy :: "(subagent_policy_fact \<times> timeline_position) option"
  gc_spawns :: "(timeline_position \<times> agent_spawned_fact) list"
  gc_deltas :: "(timeline_position \<times> workspace_delta_fact) list"
  gc_terminals :: "(timeline_position \<times> agent_task_finished_fact) list"
  gc_applied :: "(timeline_position \<times> workspace_delta_applied_fact) list"
  gc_item_index :: u64

definition initial_collected :: "session_header \<Rightarrow> collected" where
  "initial_collected header =
     \<lparr>gc_lanes = [(sh_initial_lane header, (None, (0, 0)))], gc_entries = [], gc_operations = [],
      gc_epochs = [], gc_tools = [], gc_policy = None, gc_spawns = [], gc_deltas = [],
      gc_terminals = [], gc_applied = [], gc_item_index = 0\<rparr>"

definition tools_for :: "(string, tool_info list) btree \<Rightarrow> string \<Rightarrow> tool_info list" where
  "tools_for tools call_id = (case btree_get tools call_id of None \<Rightarrow> [] | Some ts \<Rightarrow> ts)"

definition operation_info_of :: "timeline_position \<Rightarrow> operation_started_record \<Rightarrow> operation_info" where
  "operation_info_of position r =
     \<lparr>oi_lane_id = os_lane_id r, oi_kind = os_kind r, oi_original_input = os_original_input r,
      oi_initial_harness_revision = os_initial_harness_revision r,
      oi_model_harness_profile = os_model_harness_profile r, oi_started_at = position,
      oi_finished = None\<rparr>"

definition tool_info_of :: "timeline_position \<Rightarrow> tool_started_record \<Rightarrow> tool_info" where
  "tool_info_of position r =
     \<lparr>ti_operation_id = ts_operation_id r, ti_epoch_id = ts_epoch_id r,
      ti_tool_name = ts_tool_name r, ti_effective_args = ts_effective_args r,
      ti_idempotency_key = ts_idempotency_key r, ti_position = position\<rparr>"

definition collect_record ::
    "timeline_position \<Rightarrow> collected \<Rightarrow> lane_record \<Rightarrow> (graph_corruption, collected) result" where
  "collect_record position g record =
     (case record of
        OperationStarted r \<Rightarrow>
          Ok (g\<lparr>gc_operations := btree_insert (os_id r) (operation_info_of position r) (gc_operations g)\<rparr>)
      | OperationFinished r \<Rightarrow>
          (case btree_get (gc_operations g) (of_operation_id r) of
             None \<Rightarrow> Err (ChildG (FinishUnknownOperation (of_operation_id r)))
           | Some operation \<Rightarrow>
               Ok (g\<lparr>gc_operations := btree_insert (of_operation_id r)
                     (operation\<lparr>oi_finished := Some (position, of_outcome r)\<rparr>) (gc_operations g)\<rparr>))
      | EpochStarted r \<Rightarrow>
          Ok (g\<lparr>gc_epochs := btree_insert (es_id r)
                (es_operation_id r, es_source_leaf_id r, position) (gc_epochs g)\<rparr>)
      | ToolStarted r \<Rightarrow>
          Ok (g\<lparr>gc_tools := btree_insert (ts_tool_call_id r)
                (tools_for (gc_tools g) (ts_tool_call_id r) @ [tool_info_of position r]) (gc_tools g)\<rparr>)
      | _ \<Rightarrow> Ok g)"

definition collect_fact ::
    "timeline_position \<Rightarrow> collected \<Rightarrow> session_fact \<Rightarrow> (graph_corruption, collected) result" where
  "collect_fact position g f =
     (case f of
        SubagentPolicy p \<Rightarrow>
          if gc_policy g \<noteq> None then Err (PolicyG SecondPolicy)
          else and_then (validate_policy p) (\<lambda>_. Ok (g\<lparr>gc_policy := Some (p, position)\<rparr>))
      | AgentSpawned s \<Rightarrow> Ok (g\<lparr>gc_spawns := gc_spawns g @ [(position, s)]\<rparr>)
      | WorkspaceDelta d \<Rightarrow> Ok (g\<lparr>gc_deltas := gc_deltas g @ [(position, d)]\<rparr>)
      | AgentTaskFinished t \<Rightarrow> Ok (g\<lparr>gc_terminals := gc_terminals g @ [(position, t)]\<rparr>)
      | WorkspaceDeltaApplied a \<Rightarrow> Ok (g\<lparr>gc_applied := gc_applied g @ [(position, a)]\<rparr>)
      | _ \<Rightarrow> Ok g)"

definition collect_mutation ::
    "timeline_position \<Rightarrow> collected \<Rightarrow> session_mutation \<Rightarrow> (graph_corruption, collected) result" where
  "collect_mutation position g m =
     (case m of
        LaneM stored \<Rightarrow>
          (case sl_mutation stored of Created lane_id base_leaf_id \<Rightarrow>
             Ok (g\<lparr>gc_lanes := btree_insert lane_id (base_leaf_id, position) (gc_lanes g)\<rparr>))
      | EntryM stored \<Rightarrow>
          Ok (g\<lparr>gc_entries := btree_insert (eh_id (se_header stored))
                (se_lane_id stored, se_body stored, position) (gc_entries g)\<rparr>)
      | RecordM stored \<Rightarrow> collect_record position g (sr_record stored)
      | FactM stored \<Rightarrow> collect_fact position g (sf_fact stored))"

definition collect_step :: "collected \<Rightarrow> stored_mutation \<Rightarrow> (graph_corruption, collected) result" where
  "collect_step g m =
     collect_mutation (sv_seq m, gc_item_index g)
       (g\<lparr>gc_item_index := saturating_add (gc_item_index g) 1\<rparr>) (sv_mutation m)"

definition collect ::
    "session_header \<Rightarrow> stored_mutation list \<Rightarrow> (graph_corruption, collected) result" where
  "collect header ms = try_fold collect_step (initial_collected header) ms"


section \<open>Spawn intents\<close>

text \<open>
  A text equals its \<open>str::trim\<close> when no encoding of a \<open>White_Space\<close> character starts or ends it.
\<close>

definition is_trimmed :: "string \<Rightarrow> bool" where
  "is_trimmed s \<longleftrightarrow>
     \<not> list_ex (\<lambda>w. take (length w) (map byte_of s) = w \<or>
                  take (length w) (rev (map byte_of s)) = rev w) whitespace_encodings"

definition string_field :: "(string, json_value) btree \<Rightarrow> string \<Rightarrow> (graph_corruption, string) result" where
  "string_field args name =
     (case btree_get args name of
        None \<Rightarrow> Err (ArgsG (ArgsMissing name))
      | Some v \<Rightarrow> (case as_str v of None \<Rightarrow> Err (ArgsG (ArgsMissing name)) | Some s \<Rightarrow> Ok s))"

definition context_argument ::
    "(string, json_value) btree \<Rightarrow> (graph_corruption, agent_context_mode) result" where
  "context_argument args =
     (case btree_get args ''context'' of
        None \<Rightarrow> Ok TaskContext
      | Some v \<Rightarrow> if v = JString ''task'' then Ok TaskContext
                   else if v = JString ''parent'' then Ok ParentContext
                   else Err (ArgsG ContextValue))"

definition thinking_argument_differs :: "(string, json_value) btree \<Rightarrow> string \<Rightarrow> bool" where
  "thinking_argument_differs args thinking =
     (case btree_get args ''thinking'' of None \<Rightarrow> False | Some v \<Rightarrow> as_str v \<noteq> Some thinking)"

definition spawn_tool_assignment ::
    "tool_info \<Rightarrow> agent_spawned_fact \<Rightarrow> (graph_corruption, string) result" where
  "spawn_tool_assignment tool spawn =
     (case as_object (ti_effective_args tool) of
        None \<Rightarrow> Err (ArgsG ArgsNotObject)
      | Some args \<Rightarrow>
          if \<not> list_all (\<lambda>f. fst f \<in> {''task_name'', ''task'', ''model'', ''thinking'', ''context''}) args
          then Err (ArgsG ArgsUnknownField)
          else
            and_then (string_field args ''task_name'') (\<lambda>task_name.
            and_then (if task_name \<noteq> as_task_name spawn then Err (ArgsG ArgsDiffer)
                      else string_field args ''model'') (\<lambda>model.
            if model \<noteq> sm_model (as_model spawn) then Err (ArgsG ArgsDiffer) else
            and_then (string_field args ''task'') (\<lambda>task.
            if task = [] \<or> \<not> is_trimmed task \<or> length task > 64 * 1024
            then Err (ArgsG AssignmentBounds) else
            and_then (context_argument args) (\<lambda>context_mode.
            if context_mode \<noteq> as_context_mode spawn then Err (ArgsG ContextDiffers)
            else if thinking_argument_differs args (as_thinking spawn) then Err (ArgsG ThinkingDiffers)
            else Ok task)))))"

definition validate_apply_tool_args ::
    "tool_info \<Rightarrow> workspace_delta_id \<Rightarrow> (graph_corruption, unit) result" where
  "validate_apply_tool_args tool delta_id =
     (case as_object (ti_effective_args tool) of
        None \<Rightarrow> Err (ArgsG ArgsNotObject)
      | Some args \<Rightarrow>
          if length args \<noteq> 1 \<or>
             Option.bind (btree_get args ''delta_id'') as_str \<noteq> Some delta_id
          then Err (ArgsG (ApplyArgs delta_id)) else Ok ())"

section \<open>Spawns\<close>

fun is_subagent :: "operation_kind \<Rightarrow> bool" where
  "is_subagent (Subagent _ _) = True"
| "is_subagent _ = False"

definition matching_tools ::
    "collected \<Rightarrow> string \<Rightarrow> timeline_position \<Rightarrow> operation_id \<Rightarrow> string \<Rightarrow> tool_info list" where
  "matching_tools g call_id position operation_id name =
     filter (\<lambda>tool. ti_position tool < position \<and> ti_operation_id tool = operation_id \<and>
                ti_tool_name tool = name) (tools_for (gc_tools g) call_id)"

text \<open>The latest configuration the child's lane holds before the spawn.\<close>

record lane_configuration =
  lc_model :: "(timeline_position \<times> model_changed_entry) option"
  lc_thinking :: "(timeline_position \<times> string) option"
  lc_harness :: "(timeline_position \<times> harness_revision_changed_entry) option"

definition later :: "(timeline_position \<times> 'a) option \<Rightarrow> timeline_position \<Rightarrow> bool" where
  "later prior position = (case prior of None \<Rightarrow> True | Some (p, _) \<Rightarrow> p < position)"

definition note_configuration ::
    "lane_id \<Rightarrow> timeline_position \<Rightarrow> lane_id \<times> session_entry \<times> timeline_position \<Rightarrow>
     lane_configuration \<Rightarrow> lane_configuration" where
  "note_configuration lane position e c =
     (case e of (lane_id, entry, entry_position) \<Rightarrow>
        if lane_id \<noteq> lane \<or> entry_position \<ge> position then c
        else (case entry of
                ModelChanged v \<Rightarrow>
                  if later (lc_model c) entry_position then c\<lparr>lc_model := Some (entry_position, v)\<rparr> else c
              | ThinkingChanged level \<Rightarrow>
                  if later (lc_thinking c) entry_position
                  then c\<lparr>lc_thinking := Some (entry_position, level)\<rparr> else c
              | HarnessRevisionChanged v \<Rightarrow>
                  if later (lc_harness c) entry_position
                  then c\<lparr>lc_harness := Some (entry_position, v)\<rparr> else c
              | _ \<Rightarrow> c))"

definition lane_configuration_before ::
    "collected \<Rightarrow> lane_id \<Rightarrow> timeline_position \<Rightarrow> lane_configuration" where
  "lane_configuration_before g lane position =
     fold (note_configuration lane position) (btree_values (gc_entries g))
       \<lparr>lc_model = None, lc_thinking = None, lc_harness = None\<rparr>"

definition configuration_matches :: "lane_configuration \<Rightarrow> agent_spawned_fact \<Rightarrow> bool" where
  "configuration_matches c spawn \<longleftrightarrow>
     (case lc_model c of
        None \<Rightarrow> False
      | Some (_, m) \<Rightarrow> mc_provider m = sm_provider (as_model spawn) \<and>
          mc_model m = sm_model (as_model spawn) \<and> mc_revision m = sm_revision (as_model spawn)) \<and>
     map_option snd (lc_thinking c) = Some (as_thinking spawn) \<and>
     (case lc_harness c of
        None \<Rightarrow> False
      | Some (_, h) \<Rightarrow> hr_revision_id h = as_harness_revision_id spawn \<and>
          hr_snapshot_id h = as_harness_snapshot_id spawn)"

definition THINKING_LEVELS :: "string list" where
  "THINKING_LEVELS = [''off'', ''minimal'', ''low'', ''medium'', ''high'', ''xhigh'', ''max'']"

definition validate_spawn_fields ::
    "subagent_policy_fact \<Rightarrow> agent_spawned_fact \<Rightarrow> (graph_corruption, unit) result" where
  "validate_spawn_fields policy spawn =
     and_then (validate_task_name (as_task_name spawn)) (\<lambda>_.
     and_then (validate_bounded_nonempty ''agent thinking'' (as_thinking spawn) MAX_THINKING_BYTES) (\<lambda>_.
     if as_thinking spawn \<notin> set THINKING_LEVELS then Err (SpawnG ThinkingLevel) else
     and_then (validate_bounded_nonempty ''spawn tool call ID'' (as_spawn_tool_call_id spawn)
                 MAX_MODEL_IDENTIFIER_BYTES) (\<lambda>_.
     and_then (validate_model (as_model spawn)) (\<lambda>_.
     if as_model spawn \<notin> set (sp_models policy)
     then Err (SpawnG (ModelOutsidePolicy (as_agent_id spawn))) else Ok ()))))"

definition parent_is_root :: "operation_info \<Rightarrow> agent_spawned_fact \<Rightarrow> timeline_position \<Rightarrow> bool" where
  "parent_is_root parent spawn position \<longleftrightarrow>
     oi_lane_id parent = as_parent_lane_id spawn \<and> oi_lane_id parent = main_lane \<and>
     \<not> is_subagent (oi_kind parent) \<and>
     (case oi_finished parent of None \<Rightarrow> True | Some (finished, _) \<Rightarrow> \<not> finished < position)"

definition check_branch_base ::
    "collected \<Rightarrow> agent_spawned_fact \<Rightarrow> timeline_position \<Rightarrow> (graph_corruption, unit) result" where
  "check_branch_base g spawn position =
     (case btree_get (gc_lanes g) (as_lane_id spawn) of
        None \<Rightarrow> Err (BranchG (ChildLaneMissing (as_agent_id spawn)))
      | Some (base_leaf_id, lane_position) \<Rightarrow>
          if lane_position \<ge> position \<or> base_leaf_id \<noteq> as_base_leaf_id spawn
          then Err (BranchG (ChildLaneBase (as_agent_id spawn)))
          else if as_context_mode spawn = TaskContext \<and> as_base_leaf_id spawn \<noteq> None
          then Err (BranchG TaskInheritsBase)
          else if as_context_mode spawn = ParentContext \<and> as_base_leaf_id spawn = None
          then Err (BranchG ParentNeedsBase)
          else Ok ())"

definition check_spawn_epoch ::
    "collected \<Rightarrow> tool_info \<Rightarrow> agent_spawned_fact \<Rightarrow> timeline_position \<Rightarrow> (graph_corruption, unit) result"
  where
  "check_spawn_epoch g tool spawn position =
     (case btree_get (gc_epochs g) (ti_epoch_id tool) of
        None \<Rightarrow> Err (BranchG (SpawnEpochUnknown (as_agent_id spawn)))
      | Some (operation_id, source_leaf_id, epoch_position) \<Rightarrow>
          if operation_id \<noteq> as_parent_operation_id spawn \<or> epoch_position \<ge> position
          then Err (BranchG (SpawnEpochForeign (as_agent_id spawn)))
          else if as_context_mode spawn = ParentContext \<and> as_base_leaf_id spawn \<noteq> source_leaf_id
          then Err (BranchG ParentForkLeaf) else Ok ())"

definition check_spawn_intent ::
    "(u8 list \<Rightarrow> digest) \<Rightarrow> session_id \<Rightarrow> collected \<Rightarrow> tool_info \<Rightarrow> agent_spawned_fact \<Rightarrow>
     timeline_position \<Rightarrow> (graph_corruption, unit) result" where
  "check_spawn_intent blake3 session_id g tool spawn position =
     and_then (spawn_tool_assignment tool spawn) (\<lambda>_.
     if derive_agent_id blake3 session_id (as_parent_lane_id spawn) (as_parent_operation_id spawn)
          (ti_idempotency_key tool) \<noteq> as_agent_id spawn
     then Err (SpawnG (SpawnIdentity (as_agent_id spawn)))
     else if as_lane_id spawn \<noteq> agent_lane_id (as_agent_id spawn)
     then Err (SpawnG (SpawnLane (as_agent_id spawn)))
     else if as_workspace_lease_id spawn \<noteq> derive_workspace_lease_id blake3 (as_agent_id spawn)
     then Err (SpawnG (SpawnLease (as_agent_id spawn)))
     else
       and_then (check_branch_base g spawn position) (\<lambda>_.
       and_then (check_spawn_epoch g tool spawn position) (\<lambda>_.
       if \<not> configuration_matches (lane_configuration_before g (as_lane_id spawn) position) spawn
       then Err (BranchG (ChildConfiguration (as_agent_id spawn))) else Ok ())))"

definition validate_spawn ::
    "(u8 list \<Rightarrow> digest) \<Rightarrow> session_id \<Rightarrow> collected \<Rightarrow> subagent_policy_fact \<Rightarrow> agent_spawned_fact \<Rightarrow>
     timeline_position \<Rightarrow> (graph_corruption, unit) result" where
  "validate_spawn blake3 session_id g policy spawn position =
     and_then (validate_spawn_fields policy spawn) (\<lambda>_.
     (case btree_get (gc_operations g) (as_parent_operation_id spawn) of
        None \<Rightarrow> Err (SpawnG (ParentUnknown (as_agent_id spawn)))
      | Some parent \<Rightarrow>
          if \<not> parent_is_root parent spawn position
          then Err (SpawnG (ParentNotRoot (as_agent_id spawn)))
          else (case matching_tools g (as_spawn_tool_call_id spawn) position
                       (as_parent_operation_id spawn) ''spawn_agent'' of
                  [tool] \<Rightarrow> check_spawn_intent blake3 session_id g tool spawn position
                | _ \<Rightarrow> Err (SpawnG (SpawnIntentCount (as_agent_id spawn))))))"


section \<open>The graph\<close>

datatype agent_state =
    AgentSpawnedState
  | AgentRunning
  | AgentFinalizing operation_outcome
  | AgentCompleted operation_outcome
  | AgentInterrupted
  | AgentFailed string
  | AgentDeltaReady operation_outcome workspace_delta_id
  | AgentApplied operation_outcome workspace_delta_id

record agent_graph_node =
  an_spawned :: agent_spawned_fact
  an_operation_id :: "operation_id option"
  an_terminal :: "agent_task_finished_fact option"
  an_workspace_delta :: "workspace_delta_fact option"
  an_applied :: "workspace_delta_applied_fact option"
  an_state :: agent_state

type_synonym agent_nodes = "(agent_id, agent_graph_node) btree"

record agent_graph_reduction =
  ag_policy :: "subagent_policy_fact option"
  ag_agents :: agent_nodes

definition spawn_positions :: "collected \<Rightarrow> (agent_id, timeline_position) btree" where
  "spawn_positions g = btree_of (map (\<lambda>(position, spawn). (as_agent_id spawn, position)) (gc_spawns g))"

definition root_revision_position ::
    "lane_id \<Rightarrow> lane_id \<times> session_entry \<times> timeline_position \<Rightarrow> timeline_position option" where
  "root_revision_position initial_lane e =
     (case e of (lane_id, entry, position) \<Rightarrow>
        (case entry of
           HarnessRevisionChanged _ \<Rightarrow> if lane_id = initial_lane then Some position else None
         | _ \<Rightarrow> None))"

fun first_position :: "timeline_position list \<Rightarrow> timeline_position option" where
  "first_position [] = None"
| "first_position (p # ps) =
     (case first_position ps of None \<Rightarrow> Some p | Some q \<Rightarrow> Some (min p q))"

definition check_policy_order :: "session_header \<Rightarrow> collected \<Rightarrow> (graph_corruption, unit) result" where
  "check_policy_order header g =
     (case gc_policy g of
        None \<Rightarrow> Ok ()
      | Some (_, policy_sequence) \<Rightarrow>
          (case first_position (List.map_filter (root_revision_position (sh_initial_lane header))
                  (btree_values (gc_entries g))) of
             None \<Rightarrow> Ok ()
           | Some first \<Rightarrow>
               if policy_sequence \<ge> first then Err (PolicyG PolicyAfterRevision) else Ok ()))"

record spawn_phase =
  sq_nodes :: agent_nodes
  sq_agent_by_lane :: "(lane_id, agent_id) btree"
  sq_task_names :: "(operation_id \<times> string) set"

definition fresh_node :: "agent_spawned_fact \<Rightarrow> agent_graph_node" where
  "fresh_node spawn =
     \<lparr>an_spawned = spawn, an_operation_id = None, an_terminal = None, an_workspace_delta = None,
      an_applied = None, an_state = AgentSpawnedState\<rparr>"

definition step_spawn ::
    "(u8 list \<Rightarrow> digest) \<Rightarrow> session_header \<Rightarrow> collected \<Rightarrow> spawn_phase \<Rightarrow>
     timeline_position \<times> agent_spawned_fact \<Rightarrow> (graph_corruption, spawn_phase) result" where
  "step_spawn blake3 header g s p =
     (case p of (position, spawn) \<Rightarrow>
       (case gc_policy g of
          None \<Rightarrow> Err (SpawnG SpawnNeedsPolicy)
        | Some (policy, policy_sequence) \<Rightarrow>
            if policy_sequence \<ge> position then Err (SpawnG SpawnBeforePolicy) else
            and_then (validate_spawn blake3 (sh_session_id header) g policy spawn position) (\<lambda>_.
              if btree_contains (sq_nodes s) (as_agent_id spawn)
              then Err (BranchG (AgentRespawned (as_agent_id spawn)))
              else if btree_contains (sq_agent_by_lane s) (as_lane_id spawn)
              then Err (BranchG (LaneRebound (as_lane_id spawn)))
              else if (as_parent_operation_id spawn, as_task_name spawn) \<in> sq_task_names s
              then Err (BranchG (TaskNameReused (as_parent_operation_id spawn) (as_task_name spawn)))
              else Ok \<lparr>sq_nodes = btree_insert (as_agent_id spawn) (fresh_node spawn) (sq_nodes s),
                       sq_agent_by_lane =
                         btree_insert (as_lane_id spawn) (as_agent_id spawn) (sq_agent_by_lane s),
                       sq_task_names =
                         insert (as_parent_operation_id spawn, as_task_name spawn) (sq_task_names s)\<rparr>)))"

definition bound_elsewhere :: "(lane_id, agent_id) btree \<Rightarrow> operation_info \<Rightarrow> bool" where
  "bound_elsewhere agent_by_lane operation =
     (case btree_get agent_by_lane (oi_lane_id operation) of
        None \<Rightarrow> False
      | Some bound_agent \<Rightarrow>
          (case oi_kind operation of Subagent agent_id _ \<Rightarrow> agent_id \<noteq> bound_agent | _ \<Rightarrow> True))"

definition validate_child_operation_identity ::
    "operation_info \<Rightarrow> agent_spawned_fact \<Rightarrow> (graph_corruption, unit) result" where
  "validate_child_operation_identity operation spawn =
     (if oi_lane_id operation \<noteq> as_lane_id spawn \<or>
         oi_initial_harness_revision operation \<noteq> as_harness_revision_id spawn \<or>
         oi_model_harness_profile operation \<noteq> as_model_harness_profile_id spawn
      then Err (ChildG ChildIdentity) else Ok ())"

definition spawn_tool_of :: "collected \<Rightarrow> agent_spawned_fact \<Rightarrow> tool_info option" where
  "spawn_tool_of g spawn =
     find (\<lambda>tool. ti_operation_id tool = as_parent_operation_id spawn \<and>
             ti_tool_name tool = ''spawn_agent'') (tools_for (gc_tools g) (as_spawn_tool_call_id spawn))"

definition check_assignment ::
    "(u8 list \<Rightarrow> digest) \<Rightarrow> collected \<Rightarrow> agent_id \<Rightarrow> operation_id \<Rightarrow> operation_info \<Rightarrow>
     agent_spawned_fact \<Rightarrow> (graph_corruption, unit) result" where
  "check_assignment blake3 g agent_id operation_id operation spawn =
     (case oi_original_input operation of
        [entry] \<Rightarrow>
          (case pe_body entry of
             UserMessage assignment \<Rightarrow>
               if derive_subagent_operation_id blake3 agent_id (um_content assignment)
                    \<noteq> operation_id
               then Err (ChildG (AssignmentIdentity operation_id))
               else (case spawn_tool_of g spawn of
                       None \<Rightarrow> Err GraphPanic
                     | Some tool \<Rightarrow>
                         and_then (spawn_tool_assignment tool spawn) (\<lambda>task.
                           if task \<noteq> um_content assignment
                           then Err (ChildG (AssignmentDiffers operation_id))
                           else validate_child_operation_identity operation spawn))
           | _ \<Rightarrow> Err (ChildG (AssignmentNotUser operation_id)))
      | _ \<Rightarrow> Err (ChildG (AssignmentCount operation_id)))"

definition step_operation ::
    "(u8 list \<Rightarrow> digest) \<Rightarrow> collected \<Rightarrow> (lane_id, agent_id) btree \<Rightarrow> agent_nodes \<Rightarrow>
     operation_id \<times> operation_info \<Rightarrow> (graph_corruption, agent_nodes) result" where
  "step_operation blake3 g agent_by_lane nodes p =
     (case p of (operation_id, operation) \<Rightarrow>
       if bound_elsewhere agent_by_lane operation then Err (ChildG (UnrelatedOperation operation_id))
       else (case oi_kind operation of
          Subagent agent_id parent_operation_id \<Rightarrow>
            (case btree_get nodes agent_id of
               None \<Rightarrow> Err (ChildG (OperationNoSpawn operation_id))
             | Some node \<Rightarrow>
                 if as_parent_operation_id (an_spawned node) \<noteq> parent_operation_id \<or>
                    as_lane_id (an_spawned node) \<noteq> oi_lane_id operation
                 then Err (ChildG (OperationLinkage operation_id))
                 else (case btree_get (spawn_positions g) agent_id of
                   None \<Rightarrow> Err (ChildG (OperationNoPosition agent_id))
                 | Some spawn_position \<Rightarrow>
                     if oi_started_at operation \<le> spawn_position
                     then Err (ChildG (OperationPrecedesSpawn operation_id))
                     else if an_operation_id node \<noteq> None then Err (ChildG (SecondOperation agent_id))
                     else and_then (check_assignment blake3 g agent_id operation_id operation
                                       (an_spawned node))
                       (\<lambda>_. Ok (btree_insert agent_id
                                  (node\<lparr>an_operation_id := Some operation_id\<rparr>) nodes))))
        | _ \<Rightarrow> Ok nodes))"

section \<open>Deltas, results, applications\<close>

record delta_phase =
  dp_by_id :: "(workspace_delta_id, timeline_position \<times> workspace_delta_fact) btree"
  dp_by_agent :: "(agent_id, workspace_delta_id) btree"

definition step_delta ::
    "(u8 list \<Rightarrow> digest) \<Rightarrow> collected \<Rightarrow> agent_nodes \<Rightarrow> delta_phase \<Rightarrow>
     timeline_position \<times> workspace_delta_fact \<Rightarrow> (graph_corruption, delta_phase) result" where
  "step_delta blake3 g nodes s p =
     (case p of (position, delta) \<Rightarrow>
       and_then (validate_delta blake3 delta) (\<lambda>_.
       (case btree_get nodes (wf_agent_id delta) of
          None \<Rightarrow> Err (DeltaG (DeltaUnknownAgent (wf_delta_id delta)))
        | Some node \<Rightarrow>
            if as_workspace_lease_id (an_spawned node) \<noteq> wf_workspace_lease_id delta
            then Err (DeltaG (DeltaLease (wf_delta_id delta)))
            else (case an_operation_id node of
               None \<Rightarrow> Err (DeltaG (DeltaBeforeOperation (wf_delta_id delta)))
             | Some operation_id \<Rightarrow>
                 (case btree_get (gc_operations g) operation_id of
                    None \<Rightarrow> Err GraphPanic
                  | Some operation \<Rightarrow>
                      (case oi_finished operation of
                         None \<Rightarrow> Err (DeltaG (DeltaBeforeFinish (wf_delta_id delta)))
                       | Some (finished_sequence, _) \<Rightarrow>
                           if finished_sequence \<ge> position
                           then Err (DeltaG (DeltaBeforeFinish (wf_delta_id delta)))
                           else if btree_contains (dp_by_agent s) (wf_agent_id delta) \<or>
                                   btree_contains (dp_by_id s) (wf_delta_id delta)
                           then Err (DeltaG (SecondDelta (wf_agent_id delta)))
                           else Ok \<lparr>dp_by_id = btree_insert (wf_delta_id delta) (position, delta) (dp_by_id s),
                                    dp_by_agent = btree_insert (wf_agent_id delta) (wf_delta_id delta)
                                      (dp_by_agent s)\<rparr>))))))"

definition attach_delta :: "delta_phase \<Rightarrow> agent_graph_node \<Rightarrow> agent_graph_node" where
  "attach_delta s node =
     (case btree_get (dp_by_agent s) (as_agent_id (an_spawned node)) of
        None \<Rightarrow> node
      | Some delta_id \<Rightarrow>
          (case btree_get (dp_by_id s) delta_id of
             None \<Rightarrow> node
           | Some (_, delta) \<Rightarrow> node\<lparr>an_workspace_delta := Some delta\<rparr>))"

definition is_final_candidate ::
    "lane_id \<Rightarrow> timeline_position \<Rightarrow> timeline_position \<Rightarrow>
     entry_id \<times> lane_id \<times> session_entry \<times> timeline_position \<Rightarrow> bool" where
  "is_final_candidate lane started finished e =
     (case e of (_, lane_id, entry, position) \<Rightarrow>
        lane_id = lane \<and> position > started \<and> position < finished \<and>
        (case entry of AssistantMessage _ \<Rightarrow> True | _ \<Rightarrow> False))"

definition keep_latest ::
    "entry_id \<times> lane_id \<times> session_entry \<times> timeline_position \<Rightarrow>
     (timeline_position \<times> entry_id) option \<Rightarrow> (timeline_position \<times> entry_id) option" where
  "keep_latest e best =
     (case e of (entry_id, _, _, position) \<Rightarrow>
        (case best of
           None \<Rightarrow> Some (position, entry_id)
         | Some (p, _) \<Rightarrow> if position \<ge> p then Some (position, entry_id) else best))"

definition expected_final_entry_id ::
    "collected \<Rightarrow> lane_id \<Rightarrow> timeline_position \<Rightarrow> timeline_position \<Rightarrow> entry_id option" where
  "expected_final_entry_id g lane started finished =
     map_option snd (fold keep_latest
       (filter (is_final_candidate lane started finished) (gc_entries g)) None)"

definition check_final_entry ::
    "collected \<Rightarrow> agent_graph_node \<Rightarrow> agent_task_finished_fact \<Rightarrow> timeline_position \<Rightarrow>
     (graph_corruption, unit) result" where
  "check_final_entry g node terminal position =
     (case at_final_entry_id terminal of
        None \<Rightarrow> Ok ()
      | Some entry_id \<Rightarrow>
          (case btree_get (gc_entries g) entry_id of
             None \<Rightarrow> Err (ResultG (ResultMissingEntry (at_agent_id terminal)))
           | Some (lane_id, entry, entry_position) \<Rightarrow>
               if entry_position \<ge> position \<or> lane_id \<noteq> as_lane_id (an_spawned node)
               then Err (ResultG (ResultEntryForeign (at_agent_id terminal)))
               else (case entry of
                  AssistantMessage assistant \<Rightarrow>
                    (case at_report terminal of
                       Inline (JString report) \<Rightarrow>
                         if assistant_text assistant \<noteq> report
                         then Err (ResultG (ResultReport (at_agent_id terminal))) else Ok ()
                     | _ \<Rightarrow> Ok ())
                | _ \<Rightarrow> Err (ResultG (ResultEntryForeign (at_agent_id terminal))))))"

definition check_result_delta ::
    "delta_phase \<Rightarrow> agent_graph_node \<Rightarrow> agent_task_finished_fact \<Rightarrow> timeline_position \<Rightarrow>
     (graph_corruption, unit) result" where
  "check_result_delta s node terminal position =
     (case (at_workspace_delta_id terminal, an_workspace_delta node) of
        (Some delta_id, Some delta) \<Rightarrow>
          if delta_id = wf_delta_id delta
          then (if (case btree_get (dp_by_id s) delta_id of
                      None \<Rightarrow> True | Some (delta_position, _) \<Rightarrow> delta_position \<ge> position)
                then Err (ResultG (ResultBeforeDelta (at_agent_id terminal))) else Ok ())
          else Err (ResultG (ResultUnknownDelta (at_agent_id terminal)))
      | (Some _, None) \<Rightarrow> Err (ResultG (ResultUnknownDelta (at_agent_id terminal)))
      | (None, Some _) \<Rightarrow> Err (ResultG (ResultOmitsDelta (at_agent_id terminal)))
      | (None, None) \<Rightarrow> Ok ())"

record terminal_phase =
  tp_nodes :: agent_nodes
  tp_positions :: "(agent_id, timeline_position) btree"

definition step_terminal ::
    "collected \<Rightarrow> delta_phase \<Rightarrow> terminal_phase \<Rightarrow> timeline_position \<times> agent_task_finished_fact \<Rightarrow>
     (graph_corruption, terminal_phase) result" where
  "step_terminal g d s p =
     (case p of (position, terminal) \<Rightarrow>
       and_then (validate_terminal terminal) (\<lambda>_.
       (case btree_get (tp_nodes s) (at_agent_id terminal) of
          None \<Rightarrow> Err (ResultG (ResultUnknownAgent (at_agent_id terminal)))
        | Some node \<Rightarrow>
            if an_operation_id node \<noteq> Some (at_operation_id terminal)
            then Err (ResultG (ResultOperation (at_agent_id terminal)))
            else (case btree_get (gc_operations g) (at_operation_id terminal) of
               None \<Rightarrow> Err GraphPanic
             | Some operation \<Rightarrow>
                 (case oi_finished operation of
                    None \<Rightarrow> Err (ResultG (ResultBeforeFinish (at_agent_id terminal)))
                  | Some (finished_sequence, outcome) \<Rightarrow>
                      if finished_sequence \<ge> position \<or> outcome \<noteq> at_outcome terminal
                      then Err (ResultG (ResultOutcome (at_agent_id terminal)))
                      else if at_final_entry_id terminal \<noteq>
                              expected_final_entry_id g (as_lane_id (an_spawned node))
                                (oi_started_at operation) finished_sequence
                      then Err (ResultG (ResultFinalEntry (at_agent_id terminal)))
                      else
                        and_then (check_final_entry g node terminal position) (\<lambda>_.
                        and_then (check_result_delta d node terminal position) (\<lambda>_.
                          if an_terminal node \<noteq> None \<or>
                             btree_contains (tp_positions s) (as_agent_id (an_spawned node))
                          then Err (ResultG SecondResult)
                          else Ok \<lparr>tp_nodes = btree_insert (at_agent_id terminal)
                                     (node\<lparr>an_terminal := Some terminal\<rparr>) (tp_nodes s),
                                   tp_positions = btree_insert (as_agent_id (an_spawned node))
                                     position (tp_positions s)\<rparr>)))))))"

record applied_phase =
  pp_nodes :: agent_nodes
  pp_used_intents :: "(operation_id \<times> string \<times> timeline_position) set"

definition step_applied ::
    "collected \<Rightarrow> delta_phase \<Rightarrow> (agent_id, timeline_position) btree \<Rightarrow> applied_phase \<Rightarrow>
     timeline_position \<times> workspace_delta_applied_fact \<Rightarrow> (graph_corruption, applied_phase) result" where
  "step_applied g d terminal_positions s p =
     (case p of (position, applied) \<Rightarrow>
       and_then (validate_changed_paths (wa_changed_paths applied)) (\<lambda>_.
       and_then (validate_bounded_nonempty ''applied delta tool call ID'' (wa_tool_call_id applied)
                   MAX_MODEL_IDENTIFIER_BYTES) (\<lambda>_.
       (case btree_get (dp_by_id d) (wa_delta_id applied) of
          None \<Rightarrow> Err (AppliedG (AppliedUnknown (wa_delta_id applied)))
        | Some (delta_position, delta) \<Rightarrow>
            if delta_position \<ge> position then Err (AppliedG (AppliedBeforeDelta (wa_delta_id applied)))
            else if wa_changed_paths applied \<noteq> wf_changed_paths delta
            then Err (AppliedG (AppliedPaths (wa_delta_id applied)))
            else (case btree_get (pp_nodes s) (wf_agent_id delta) of
               None \<Rightarrow> Err GraphPanic
             | Some node \<Rightarrow>
                 if Option.bind (an_terminal node) at_workspace_delta_id \<noteq> Some (wf_delta_id delta)
                 then Err (AppliedG (AppliedNoResult (wa_delta_id applied)))
                 else if (case btree_get terminal_positions (wf_agent_id delta) of
                            None \<Rightarrow> True | Some terminal_position \<Rightarrow> terminal_position \<ge> position)
                 then Err (AppliedG (AppliedBeforeResult (wa_delta_id applied)))
                 else if wa_target_lane_id applied \<noteq> as_parent_lane_id (an_spawned node)
                 then Err (AppliedG (AppliedTarget (wa_delta_id applied)))
                 else (case matching_tools g (wa_tool_call_id applied) position
                              (as_parent_operation_id (an_spawned node)) ''apply_agent_changes'' of
                    [tool] \<Rightarrow>
                      and_then (validate_apply_tool_args tool (wa_delta_id applied)) (\<lambda>_.
                        let intent = (ti_operation_id tool, wa_tool_call_id applied, ti_position tool) in
                        if intent \<in> pp_used_intents s then Err (AppliedG IntentReused)
                        else if an_applied node \<noteq> None then Err (AppliedG SecondApplication)
                        else Ok \<lparr>pp_nodes = btree_insert (wf_agent_id delta)
                                   (node\<lparr>an_applied := Some applied\<rparr>) (pp_nodes s),
                                 pp_used_intents = insert intent (pp_used_intents s)\<rparr>)
                  | _ \<Rightarrow> Err (AppliedG (AppliedIntentCount (wa_delta_id applied)))))))))"

fun settled_state :: "operation_outcome \<Rightarrow> agent_state" where
  "settled_state Completed = AgentCompleted Completed"
| "settled_state Aborted = AgentInterrupted"
| "settled_state (Failed code) = AgentFailed code"

definition derive_state :: "collected \<Rightarrow> agent_graph_node \<Rightarrow> (graph_corruption, agent_state) result" where
  "derive_state g node =
     (case (an_operation_id node, an_terminal node, an_workspace_delta node, an_applied node) of
        (None, _, _, _) \<Rightarrow> Ok AgentSpawnedState
      | (Some operation_id, None, _, _) \<Rightarrow>
          (case btree_get (gc_operations g) operation_id of
             None \<Rightarrow> Err GraphPanic
           | Some operation \<Rightarrow>
               (case oi_finished operation of
                  Some (_, outcome) \<Rightarrow> Ok (AgentFinalizing outcome)
                | None \<Rightarrow> Ok AgentRunning))
      | (Some _, Some terminal, Some delta, Some _) \<Rightarrow>
          Ok (AgentApplied (at_outcome terminal) (wf_delta_id delta))
      | (Some _, Some terminal, Some delta, None) \<Rightarrow>
          Ok (AgentDeltaReady (at_outcome terminal) (wf_delta_id delta))
      | (Some _, Some terminal, None, None) \<Rightarrow> Ok (settled_state (at_outcome terminal))
      | (Some _, Some _, None, Some _) \<Rightarrow> Err (AppliedG AppliedWithoutDelta))"

fun derive_states :: "collected \<Rightarrow> agent_nodes \<Rightarrow> (graph_corruption, agent_nodes) result" where
  "derive_states g [] = Ok []"
| "derive_states g ((agent_id, node) # nodes) =
     and_then (derive_state g node) (\<lambda>state.
     and_then (derive_states g nodes) (\<lambda>rest.
       Ok ((agent_id, node\<lparr>an_state := state\<rparr>) # rest)))"

section \<open>The reduction\<close>

definition reduce_collected ::
    "(u8 list \<Rightarrow> digest) \<Rightarrow> session_header \<Rightarrow> collected \<Rightarrow> (graph_corruption, agent_graph_reduction) result"
  where
  "reduce_collected blake3 header g =
     and_then (check_policy_order header g) (\<lambda>_.
     and_then (try_fold (step_spawn blake3 header g)
                 \<lparr>sq_nodes = [], sq_agent_by_lane = [], sq_task_names = {}\<rparr> (gc_spawns g)) (\<lambda>spawned.
     and_then (try_fold (step_operation blake3 g (sq_agent_by_lane spawned)) (sq_nodes spawned)
                 (gc_operations g)) (\<lambda>nodes.
     and_then (try_fold (step_delta blake3 g nodes) \<lparr>dp_by_id = [], dp_by_agent = []\<rparr> (gc_deltas g))
       (\<lambda>deltas.
     and_then (try_fold (step_terminal g deltas)
                 \<lparr>tp_nodes = btree_map (attach_delta deltas) nodes, tp_positions = []\<rparr> (gc_terminals g))
       (\<lambda>terminals.
     and_then (try_fold (step_applied g deltas (tp_positions terminals))
                 \<lparr>pp_nodes = tp_nodes terminals, pp_used_intents = {}\<rparr> (gc_applied g)) (\<lambda>applied.
     and_then (derive_states g (pp_nodes applied)) (\<lambda>agents.
       Ok \<lparr>ag_policy = map_option fst (gc_policy g), ag_agents = agents\<rparr>)))))))"

definition reduce_agent_graph_prefix ::
    "(u8 list \<Rightarrow> digest) \<Rightarrow> session_header \<Rightarrow> stored_mutation list \<Rightarrow>
     (graph_corruption, agent_graph_reduction) result" where
  "reduce_agent_graph_prefix blake3 header ms =
     and_then (collect header ms) (\<lambda>g. reduce_collected blake3 header g)"

definition reduce_agent_graph ::
    "(u8 list \<Rightarrow> digest) \<Rightarrow> session_snapshot \<Rightarrow> (graph_corruption, agent_graph_reduction) result" where
  "reduce_agent_graph blake3 s = reduce_agent_graph_prefix blake3 (ss_header s) (mutations s)"

definition reduce_agent_graph_ref_with_commit ::
    "(u8 list \<Rightarrow> digest) \<Rightarrow> session_snapshot \<Rightarrow> stored_commit \<Rightarrow>
     (graph_corruption, agent_graph_reduction) result" where
  "reduce_agent_graph_ref_with_commit blake3 s appended =
     reduce_agent_graph_prefix blake3 (ss_header s) (mutations s @ sc_items appended)"

end
