(* ===== verification/Agent_Properties.thy ===== *)
theory Agent_Properties
  imports Agent_Graph
begin

text \<open>
  What the phases of the agent graph reduction establish: the \<open>expect\<close>s never fail, every node
  carries a validated spawn under its own identity, no two children share a lane or a task
  name, and an applied delta was finished by its child and authorised by one parent intent.
\<close>

section \<open>Nodes\<close>

definition spawn_accepted ::
    "(u8 list \<Rightarrow> digest) \<Rightarrow> session_header \<Rightarrow> collected \<Rightarrow> agent_spawned_fact \<Rightarrow> bool" where
  "spawn_accepted blake3 header g spawn \<longleftrightarrow>
     (\<exists>position policy set_at. (position, spawn) \<in> set (gc_spawns g) \<and> gc_policy g = Some (policy, set_at) \<and>
        set_at < position \<and> validate_spawn blake3 (sh_session_id header) g policy spawn position = Inr ())"

definition node_inv ::
    "(u8 list \<Rightarrow> digest) \<Rightarrow> session_header \<Rightarrow> collected \<Rightarrow> agent_nodes \<Rightarrow> bool" where
  "node_inv blake3 header g nodes \<longleftrightarrow>
     (\<forall>a n. map_of nodes a = Some n \<longrightarrow> as_agent_id (an_spawned n) = a \<and>
        spawn_accepted blake3 header g (an_spawned n) \<and>
        (\<forall>o'. an_operation_id n = Some o' \<longrightarrow> o' \<in> dom (map_of (gc_operations g))))"

lemma node_inv_get:
  assumes "node_inv blake3 header g nodes" and "map_of nodes a = Some n"
  shows "as_agent_id (an_spawned n) = a" and "spawn_accepted blake3 header g (an_spawned n)"
    and "an_operation_id n = Some o' \<Longrightarrow> map_of (gc_operations g) o' \<noteq> None"
  using assms unfolding node_inv_def by blast+

lemma node_inv_update:
  assumes "node_inv blake3 header g nodes" and "map_of nodes a = Some n"
    and "an_spawned n' = an_spawned n"
    and "\<And>o'. an_operation_id n' = Some o' \<Longrightarrow>
      an_operation_id n = Some o' \<or> o' \<in> dom (map_of (gc_operations g))"
  shows "node_inv blake3 header g (btree_insert a n' nodes)"
  using assms unfolding node_inv_def by (auto simp: domIff split: if_splits)

lemma node_inv_fresh:
  "node_inv blake3 header g nodes \<Longrightarrow> spawn_accepted blake3 header g spawn \<Longrightarrow>
   node_inv blake3 header g (btree_insert (as_agent_id spawn) (fresh_node spawn) nodes)"
  unfolding node_inv_def by (simp add: fresh_node_def)

text \<open>An accepted spawn has a matching tool intent, which the later lookup finds.\<close>

lemma spawn_accepted_intent:
  assumes "spawn_accepted blake3 header g spawn"
  shows "\<exists>tool. spawn_tool_of g spawn = Some tool"
proof -
  from assms obtain position tool where
    "matching_tools g (as_spawn_tool_call_id spawn) position (as_parent_operation_id spawn)
       ''spawn_agent'' = [tool]"
    by (auto simp: spawn_accepted_def validate_spawn_def result_simps
        split: option.splits if_splits list.splits)
  then have "tool \<in> set (tools_for (gc_tools g) (as_spawn_tool_call_id spawn))"
    "ti_operation_id tool = as_parent_operation_id spawn" "ti_tool_name tool = ''spawn_agent''"
    unfolding matching_tools_def by (auto dest!: arg_cong [where f = set])
  then have "spawn_tool_of g spawn \<noteq> None"
    unfolding spawn_tool_of_def find_None_iff by auto
  then show ?thesis by auto
qed

section \<open>The spawn phase\<close>

definition spawn_inv ::
    "(u8 list \<Rightarrow> digest) \<Rightarrow> session_header \<Rightarrow> collected \<Rightarrow> spawn_phase \<Rightarrow> bool" where
  "spawn_inv blake3 header g s \<longleftrightarrow>
     node_inv blake3 header g (sq_nodes s) \<and> btree_ok (sq_nodes s) \<and>
     (\<forall>a n. map_of (sq_nodes s) a = Some n \<longrightarrow> n = fresh_node (an_spawned n) \<and>
        map_of (sq_agent_by_lane s) (as_lane_id (an_spawned n)) = Some a \<and>
        (as_parent_operation_id (an_spawned n), as_task_name (an_spawned n)) \<in> sq_task_names s) \<and>
     (\<forall>a n b m. map_of (sq_nodes s) a = Some n \<and> map_of (sq_nodes s) b = Some m \<and>
        as_parent_operation_id (an_spawned n) = as_parent_operation_id (an_spawned m) \<and>
        as_task_name (an_spawned n) = as_task_name (an_spawned m) \<longrightarrow> a = b)"

lemma and_then_not_err: "(\<And>a. r = Inr a \<Longrightarrow> f a \<noteq> Inl e) \<Longrightarrow> r \<noteq> Inl e \<Longrightarrow> and_then r f \<noteq> Inl e"
  by (cases r) auto

named_theorems no_panic "computations that never end in a failing expect"

lemma validate_bounded_nonempty_no_panic [no_panic]: "validate_bounded_nonempty n v k \<noteq> Inl GraphPanic"
  by (simp add: validate_bounded_nonempty_def)

lemma validate_model_no_panic [no_panic]: "validate_model m \<noteq> Inl GraphPanic"
  unfolding validate_model_def
  by (intro and_then_not_err) (auto simp: no_panic split: option.splits if_splits)

lemma validate_task_name_no_panic [no_panic]: "validate_task_name n \<noteq> Inl GraphPanic"
  by (auto simp: validate_task_name_def split: list.splits)

lemma check_paths_no_panic [no_panic]: "check_paths p ps \<noteq> Inl GraphPanic"
  by (induction p ps rule: check_paths.induct) auto

lemma validate_changed_paths_no_panic [no_panic]: "validate_changed_paths ps \<noteq> Inl GraphPanic"
  by (simp add: validate_changed_paths_def no_panic)

lemma validate_delta_no_panic [no_panic]: "validate_delta blake3 d \<noteq> Inl GraphPanic"
  unfolding validate_delta_def
  by (intro and_then_not_err) (cases "wf_patch d"; auto simp: no_panic and_then_err split: if_splits)+

lemma validate_terminal_no_panic [no_panic]: "validate_terminal t \<noteq> Inl GraphPanic"
  unfolding validate_terminal_def
  by (cases "at_report t") (auto simp: no_panic split: option.splits)

lemma string_field_no_panic [no_panic]: "string_field fs n \<noteq> Inl GraphPanic"
  by (auto simp: string_field_def split: option.splits)

lemma context_argument_no_panic [no_panic]: "context_argument fs \<noteq> Inl GraphPanic"
  by (auto simp: context_argument_def split: option.splits)

lemma spawn_tool_assignment_no_panic [no_panic]: "spawn_tool_assignment t s \<noteq> Inl GraphPanic"
  by (auto simp: spawn_tool_assignment_def and_then_err no_panic split: option.splits if_splits)

lemma validate_apply_tool_args_no_panic [no_panic]: "validate_apply_tool_args t d \<noteq> Inl GraphPanic"
  by (auto simp: validate_apply_tool_args_def split: option.splits)

lemma validate_spawn_fields_no_panic [no_panic]: "validate_spawn_fields p s \<noteq> Inl GraphPanic"
  by (auto simp: validate_spawn_fields_def and_then_err no_panic split: if_splits)

lemma check_branch_base_no_panic [no_panic]: "check_branch_base g s p \<noteq> Inl GraphPanic"
  by (auto simp: check_branch_base_def split: option.splits)

lemma check_spawn_epoch_no_panic [no_panic]: "check_spawn_epoch g t s p \<noteq> Inl GraphPanic"
  by (auto simp: check_spawn_epoch_def split: option.splits)

lemma check_spawn_intent_no_panic [no_panic]: "check_spawn_intent blake3 i g t s p \<noteq> Inl GraphPanic"
  by (auto simp: check_spawn_intent_def and_then_err no_panic split: if_splits)

lemma validate_spawn_no_panic [no_panic]: "validate_spawn blake3 i g pol s p \<noteq> Inl GraphPanic"
  by (auto simp: validate_spawn_def and_then_err no_panic split: option.splits list.splits if_splits)

lemma step_spawn_ok:
  assumes "step_spawn blake3 header g s (position, spawn) = Inr s'"
  obtains policy set_at where "gc_policy g = Some (policy, set_at)" and "set_at < position"
    and "validate_spawn blake3 (sh_session_id header) g policy spawn position = Inr ()"
    and "map_of (sq_nodes s) (as_agent_id spawn) = None"
    and "map_of (sq_agent_by_lane s) (as_lane_id spawn) = None"
    and "(as_parent_operation_id spawn, as_task_name spawn) \<notin> sq_task_names s"
    and "s' = \<lparr>sq_nodes = btree_insert (as_agent_id spawn) (fresh_node spawn) (sq_nodes s),
       sq_agent_by_lane = btree_insert (as_lane_id spawn) (as_agent_id spawn) (sq_agent_by_lane s),
       sq_task_names = insert (as_parent_operation_id spawn, as_task_name spawn) (sq_task_names s)\<rparr>"
proof (cases "gc_policy g")
  case None
  with assms show thesis by (simp add: step_spawn_def)
next
  case (Some pa)
  moreover obtain policy set_at where "pa = (policy, set_at)" by (cases pa)
  ultimately show thesis
    using assms that by (simp add: step_spawn_def result_simps btree_contains_def not_le split: if_splits)
qed

interpretation spawn_fold: panic_free_fold "step_spawn blake3 header g" "spawn_inv blake3 header g"
    "\<lambda>p. p \<in> set (gc_spawns g)" GraphPanic for blake3 header g
proof
  fix s p s'
  assume inv: "spawn_inv blake3 header g s" and p: "p \<in> set (gc_spawns g)"
    and step: "step_spawn blake3 header g s p = Inr s'"
  obtain position spawn where p': "p = (position, spawn)" by (cases p)
  from step [unfolded p'] show "spawn_inv blake3 header g s'"
  proof (rule step_spawn_ok)
    fix policy set_at
    assume policy: "gc_policy g = Some (policy, set_at)" "set_at < position"
      and valid: "validate_spawn blake3 (sh_session_id header) g policy spawn position = Inr ()"
      and fresh: "map_of (sq_nodes s) (as_agent_id spawn) = None"
        "map_of (sq_agent_by_lane s) (as_lane_id spawn) = None"
        "(as_parent_operation_id spawn, as_task_name spawn) \<notin> sq_task_names s"
      and s': "s' = \<lparr>sq_nodes = btree_insert (as_agent_id spawn) (fresh_node spawn) (sq_nodes s),
       sq_agent_by_lane = btree_insert (as_lane_id spawn) (as_agent_id spawn) (sq_agent_by_lane s),
       sq_task_names = insert (as_parent_operation_id spawn, as_task_name spawn) (sq_task_names s)\<rparr>"
    have "spawn_accepted blake3 header g spawn"
      using p p' policy valid unfolding spawn_accepted_def by blast
    with inv have node: "node_inv blake3 header g (sq_nodes s')"
      by (simp add: spawn_inv_def s' node_inv_fresh)
    have old: "n = fresh_node (an_spawned n)"
        "map_of (sq_agent_by_lane s) (as_lane_id (an_spawned n)) = Some a"
        "(as_parent_operation_id (an_spawned n), as_task_name (an_spawned n)) \<in> sq_task_names s"
      if "map_of (sq_nodes s) a = Some n" for a n
      using that inv unfolding spawn_inv_def by blast+
    have old_names: "a = b" if "map_of (sq_nodes s) a = Some n" "map_of (sq_nodes s) b = Some m"
        "as_parent_operation_id (an_spawned n) = as_parent_operation_id (an_spawned m)"
        "as_task_name (an_spawned n) = as_task_name (an_spawned m)" for a b n m
      using that inv unfolding spawn_inv_def by blast
    have cases: "(a = as_agent_id spawn \<and> n = fresh_node spawn) \<or> map_of (sq_nodes s) a = Some n"
      if "map_of (sq_nodes s') a = Some n" for a n
      using that by (auto simp: s' split: if_splits)
    have new: "an_spawned (fresh_node spawn) = spawn" by (simp add: fresh_node_def)
    have "n = fresh_node (an_spawned n) \<and>
        map_of (sq_agent_by_lane s') (as_lane_id (an_spawned n)) = Some a \<and>
        (as_parent_operation_id (an_spawned n), as_task_name (an_spawned n)) \<in> sq_task_names s'"
      if "map_of (sq_nodes s') a = Some n" for a n
      using cases [OF that] old [of a n] fresh(2) new by (auto simp: s')
    moreover have "a = b" if n: "map_of (sq_nodes s') a = Some n" and m: "map_of (sq_nodes s') b = Some m"
        and same: "as_parent_operation_id (an_spawned n) = as_parent_operation_id (an_spawned m)"
        "as_task_name (an_spawned n) = as_task_name (an_spawned m)" for a b n m
      using cases [OF n] cases [OF m]
    proof (elim disjE conjE)
      assume "map_of (sq_nodes s) a = Some n" "map_of (sq_nodes s) b = Some m"
      then show ?thesis using old_names same by blast
    qed (use old(3) [of a n] old(3) [of b m] fresh(3) new same in auto)
    moreover note node
    moreover have "btree_ok (sq_nodes s')" using inv by (simp add: spawn_inv_def s')
    ultimately show ?thesis unfolding spawn_inv_def by blast
  qed
next
  fix s p
  show "step_spawn blake3 header g s p \<noteq> Inl GraphPanic"
    by (cases p) (auto simp: step_spawn_def and_then_err no_panic split: option.splits if_splits)
qed


section \<open>The operation phase\<close>

text \<open>A child's operation is the subagent operation of its own lane, parent and assignment.\<close>

definition child_ok :: "(u8 list \<Rightarrow> digest) \<Rightarrow> collected \<Rightarrow> agent_graph_node \<Rightarrow> operation_id \<Rightarrow> bool" where
  "child_ok blake3 g n o' \<longleftrightarrow>
     (\<exists>op e m. map_of (gc_operations g) o' = Some op \<and>
        oi_kind op = Subagent (as_agent_id (an_spawned n)) (as_parent_operation_id (an_spawned n)) \<and>
        oi_lane_id op = as_lane_id (an_spawned n) \<and> oi_original_input op = [e] \<and>
        pe_body e = UserMessage m \<and>
        o' = derive_subagent_operation_id blake3 (as_agent_id (an_spawned n)) (um_content m))"

definition children_inv ::
    "(u8 list \<Rightarrow> digest) \<Rightarrow> session_header \<Rightarrow> collected \<Rightarrow> agent_nodes \<Rightarrow> agent_nodes \<Rightarrow> bool" where
  "children_inv blake3 header g nodes0 nodes \<longleftrightarrow>
     btree_ok (gc_operations g) \<and> node_inv blake3 header g nodes \<and> btree_ok nodes \<and>
     (\<forall>a. map_option an_spawned (map_of nodes a) = map_option an_spawned (map_of nodes0 a)) \<and>
     (\<forall>a n. map_of nodes a = Some n \<longrightarrow> an_terminal n = None \<and> an_workspace_delta n = None \<and>
        an_applied n = None \<and>
        (\<forall>o'. an_operation_id n = Some o' \<longrightarrow> child_ok blake3 g n o'))"

lemma check_assignment_ok:
  assumes "check_assignment blake3 g a o' op spawn = Inr ()"
  obtains e m where "oi_original_input op = [e]" and "pe_body e = UserMessage m"
    and "o' = derive_subagent_operation_id blake3 a (um_content m)"
  using assms
  by (auto simp: check_assignment_def split: list.splits session_entry.splits if_splits)

lemma check_assignment_no_panic:
  assumes "spawn_accepted blake3 header g spawn"
  shows "check_assignment blake3 g a o' op spawn \<noteq> Inl GraphPanic"
proof -
  obtain tool where "spawn_tool_of g spawn = Some tool"
    using spawn_accepted_intent [OF assms] by blast
  then show ?thesis
    by (auto simp: check_assignment_def and_then_err no_panic validate_child_operation_identity_def
        split: list.splits session_entry.splits if_splits)
qed

lemma step_operation_ok:
  assumes "step_operation blake3 g by_lane nodes (o', op) = Inr nodes'"
  shows "nodes' = nodes \<or>
    (\<exists>a n. map_of nodes a = Some n \<and> an_operation_id n = None \<and>
       oi_kind op = Subagent a (as_parent_operation_id (an_spawned n)) \<and>
       as_lane_id (an_spawned n) = oi_lane_id op \<and>
       check_assignment blake3 g a o' op (an_spawned n) = Inr () \<and>
       nodes' = btree_insert a (n\<lparr>an_operation_id := Some o'\<rparr>) nodes)"
proof (cases "oi_kind op")
  case (Subagent a parent)
  show ?thesis
  proof (cases "map_of nodes a")
    case (Some n)
    with Subagent assms show ?thesis
      by (auto simp: step_operation_def result_simps split: option.splits if_splits)
  qed (use Subagent assms in \<open>simp add: step_operation_def split: if_splits\<close>)
qed (use assms in \<open>simp_all add: step_operation_def split: if_splits\<close>)

interpretation operation_fold: panic_free_fold "step_operation blake3 g by_lane"
    "children_inv blake3 header g nodes0" "\<lambda>p. p \<in> set (gc_operations g)" GraphPanic
  for blake3 header g by_lane nodes0
proof
  fix nodes p nodes'
  assume inv: "children_inv blake3 header g nodes0 nodes" and p: "p \<in> set (gc_operations g)"
    and step: "step_operation blake3 g by_lane nodes p = Inr nodes'"
  obtain o' op where p': "p = (o', op)" by (cases p)
  have op: "map_of (gc_operations g) o' = Some op"
    using p p' inv by (simp add: children_inv_def btree_mem_iff)
  have nodes: "node_inv blake3 header g nodes" using inv by (simp add: children_inv_def)
  from step_operation_ok [OF step [unfolded p']] show "children_inv blake3 header g nodes0 nodes'"
  proof (elim disjE exE conjE)
    assume "nodes' = nodes"
    with inv show ?thesis by simp
  next
    fix a n
    assume n: "map_of nodes a = Some n" and link: "as_lane_id (an_spawned n) = oi_lane_id op"
        "oi_kind op = Subagent a (as_parent_operation_id (an_spawned n))"
      and assign: "check_assignment blake3 g a o' op (an_spawned n) = Inr ()"
      and nodes': "nodes' = btree_insert a (n\<lparr>an_operation_id := Some o'\<rparr>) nodes"
    have id: "as_agent_id (an_spawned n) = a" using node_inv_get(1) [OF nodes n] .
    have "node_inv blake3 header g nodes'"
      unfolding nodes' using op by (intro node_inv_update [OF nodes n]) auto
    moreover have "child_ok blake3 g (n\<lparr>an_operation_id := Some o'\<rparr>) o'"
      using assign op link id by (elim check_assignment_ok) (auto simp: child_ok_def)
    moreover have "child_ok blake3 g m x"
      if "map_of nodes b = Some m" "an_operation_id m = Some x" for b m x
      using inv that by (simp add: children_inv_def)
    moreover have "map_option an_spawned (map_of nodes0 a) = Some (an_spawned n)"
      using inv n unfolding children_inv_def by (metis option.simps(9))
    ultimately show ?thesis
      using inv n unfolding children_inv_def nodes' by auto
  qed
next
  fix nodes and p :: "operation_id \<times> operation_info"
  assume inv: "children_inv blake3 header g nodes0 nodes"
  obtain o' op where p': "p = (o', op)" by (cases p)
  have "check_assignment blake3 g a o' op (an_spawned n) \<noteq> Inl GraphPanic"
    if "map_of nodes a = Some n" for a n
  proof -
    have "node_inv blake3 header g nodes" using inv by (simp add: children_inv_def)
    then show ?thesis using that by (intro check_assignment_no_panic [OF node_inv_get(2)])
  qed
  then show "step_operation blake3 g by_lane nodes p \<noteq> Inl GraphPanic"
    by (auto simp: p' step_operation_def and_then_err split: option.splits operation_kind.splits if_splits)
qed

section \<open>The delta phase\<close>

definition finished_before :: "collected \<Rightarrow> agent_graph_node \<Rightarrow> timeline_position \<Rightarrow> bool" where
  "finished_before g n position \<longleftrightarrow>
     (\<exists>o' op q out. an_operation_id n = Some o' \<and> map_of (gc_operations g) o' = Some op \<and>
        oi_finished op = Some (q, out) \<and> q < position)"

definition delta_inv ::
    "(u8 list \<Rightarrow> digest) \<Rightarrow> session_header \<Rightarrow> collected \<Rightarrow> agent_nodes \<Rightarrow> delta_phase \<Rightarrow> bool" where
  "delta_inv blake3 header g nodes s \<longleftrightarrow>
     node_inv blake3 header g nodes \<and>
     (\<forall>d p delta. map_of (dp_by_id s) d = Some (p, delta) \<longrightarrow>
        wf_delta_id delta = d \<and> validate_delta blake3 delta = Inr () \<and>
        (\<exists>n. map_of nodes (wf_agent_id delta) = Some n \<and> finished_before g n p \<and>
             as_workspace_lease_id (an_spawned n) = wf_workspace_lease_id delta)) \<and>
     (\<forall>a d. map_of (dp_by_agent s) a = Some d \<longrightarrow>
        (\<exists>p delta. map_of (dp_by_id s) d = Some (p, delta) \<and> wf_agent_id delta = a))"

lemma step_delta_ok:
  assumes "step_delta blake3 g nodes s (position, delta) = Inr s'"
  shows "validate_delta blake3 delta = Inr ()" and
    "\<exists>n. map_of nodes (wf_agent_id delta) = Some n \<and> finished_before g n position \<and>
       as_workspace_lease_id (an_spawned n) = wf_workspace_lease_id delta"
    and "map_of (dp_by_agent s) (wf_agent_id delta) = None"
    and "map_of (dp_by_id s) (wf_delta_id delta) = None"
    and "s' = \<lparr>dp_by_id = btree_insert (wf_delta_id delta) (position, delta) (dp_by_id s),
               dp_by_agent = btree_insert (wf_agent_id delta) (wf_delta_id delta) (dp_by_agent s)\<rparr>"
  using assms
  by (auto simp: step_delta_def result_simps finished_before_def btree_contains_def not_le
      simp del: less_prod_simp less_eq_prod_simp not_None_eq not_Some_eq split: option.splits if_splits)

interpretation delta_fold: panic_free_fold "step_delta blake3 g nodes"
    "delta_inv blake3 header g nodes" "\<lambda>p. True" GraphPanic for blake3 header g nodes
proof
  fix s p s'
  assume inv: "delta_inv blake3 header g nodes s" and step: "step_delta blake3 g nodes s p = Inr s'"
  obtain position delta where p: "p = (position, delta)" by (cases p)
  note ok = step_delta_ok [OF step [unfolded p]]
  show "delta_inv blake3 header g nodes s'"
    using inv ok(1-4) unfolding delta_inv_def ok(5) by (fastforce split: if_splits)
next
  fix s and p :: "timeline_position \<times> workspace_delta_fact"
  assume inv: "delta_inv blake3 header g nodes s"
  obtain position delta where p: "p = (position, delta)" by (cases p)
  have "an_operation_id n \<noteq> Some x"
    if "map_of nodes a = Some n" "map_of (gc_operations g) x = None" for a n x
    using inv that node_inv_get(3) unfolding delta_inv_def by blast
  then show "step_delta blake3 g nodes s p \<noteq> Inl GraphPanic"
    by (auto simp: p step_delta_def and_then_err no_panic split: option.splits if_splits)
qed


section \<open>The result phase\<close>

text \<open>
  \<open>result_inv\<close>: nodes keep what the earlier phases established; a delta attached to a node is the
  recorded one; a terminal result names the node's operation, its outcome and its delta.
\<close>

definition result_ok :: "collected \<Rightarrow> agent_graph_node \<Rightarrow> agent_task_finished_fact \<Rightarrow> bool" where
  "result_ok g n t \<longleftrightarrow>
     an_operation_id n = Some (at_operation_id t) \<and>
     (\<exists>op q. map_of (gc_operations g) (at_operation_id t) = Some op \<and>
        oi_finished op = Some (q, at_outcome t)) \<and>
     at_workspace_delta_id t = map_option wf_delta_id (an_workspace_delta n)"

definition node_ok ::
    "(u8 list \<Rightarrow> digest) \<Rightarrow> collected \<Rightarrow> delta_phase \<Rightarrow> agent_id \<Rightarrow> agent_graph_node \<Rightarrow> bool" where
  "node_ok blake3 g d a n \<longleftrightarrow>
     (\<forall>o'. an_operation_id n = Some o' \<longrightarrow> child_ok blake3 g n o') \<and>
     (\<forall>delta. an_workspace_delta n = Some delta \<longrightarrow> validate_delta blake3 delta = Inr () \<and>
        wf_agent_id delta = a \<and> wf_workspace_lease_id delta = as_workspace_lease_id (an_spawned n) \<and>
        (\<exists>p. map_of (dp_by_id d) (wf_delta_id delta) = Some (p, delta))) \<and>
     (\<forall>t. an_terminal n = Some t \<longrightarrow> result_ok g n t)"

definition nodes_ok ::
    "(u8 list \<Rightarrow> digest) \<Rightarrow> session_header \<Rightarrow> collected \<Rightarrow> delta_phase \<Rightarrow> agent_nodes \<Rightarrow> agent_nodes \<Rightarrow> bool"
  where
  "nodes_ok blake3 header g d nodes0 nodes \<longleftrightarrow>
     node_inv blake3 header g nodes \<and> btree_ok nodes \<and>
     (\<forall>a. map_option an_spawned (map_of nodes a) = map_option an_spawned (map_of nodes0 a)) \<and>
     (\<forall>a n. map_of nodes a = Some n \<longrightarrow> node_ok blake3 g d a n)"

definition result_inv ::
    "(u8 list \<Rightarrow> digest) \<Rightarrow> session_header \<Rightarrow> collected \<Rightarrow> delta_phase \<Rightarrow> agent_nodes \<Rightarrow> terminal_phase \<Rightarrow> bool"
  where
  "result_inv blake3 header g d nodes0 s \<longleftrightarrow>
     nodes_ok blake3 header g d nodes0 (tp_nodes s) \<and>
     (\<forall>a n. map_of (tp_nodes s) a = Some n \<longrightarrow> an_applied n = None)"

lemma nodes_ok_update:
  assumes ok: "nodes_ok blake3 header g d nodes0 nodes" and n: "map_of nodes a = Some n"
    and same: "an_spawned n' = an_spawned n" "an_operation_id n' = an_operation_id n"
    and n': "node_ok blake3 g d a n'"
  shows "nodes_ok blake3 header g d nodes0 (btree_insert a n' nodes)"
proof -
  have "node_inv blake3 header g (btree_insert a n' nodes)"
    using ok n same by (intro node_inv_update [of blake3 header g nodes a n]) (auto simp: nodes_ok_def)
  moreover have "map_option an_spawned (map_of nodes0 a) = Some (an_spawned n)"
    using ok n unfolding nodes_ok_def by (metis option.simps(9))
  ultimately show ?thesis
    using ok n n' same unfolding nodes_ok_def by auto
qed

lemma check_result_delta_ok:
  "check_result_delta d n t p = Inr () \<Longrightarrow>
   at_workspace_delta_id t = map_option wf_delta_id (an_workspace_delta n)"
  by (auto simp: check_result_delta_def split: option.splits if_splits)

lemma check_final_entry_no_panic [no_panic]: "check_final_entry g n t p \<noteq> Inl GraphPanic"
  by (auto simp: check_final_entry_def
      split: option.splits session_entry.splits payload_ref.splits json_value.splits)

lemma check_result_delta_no_panic [no_panic]: "check_result_delta d n t p \<noteq> Inl GraphPanic"
  by (auto simp: check_result_delta_def split: option.splits)

lemma step_terminal_ok:
  assumes "step_terminal g d s (position, t) = Inr s'"
  obtains n where "map_of (tp_nodes s) (at_agent_id t) = Some n" and "an_terminal n = None"
    and "result_ok g n t"
    and "tp_nodes s' = btree_insert (at_agent_id t) (n\<lparr>an_terminal := Some t\<rparr>) (tp_nodes s)"
  using assms
  by (auto simp: step_terminal_def result_simps result_ok_def
      simp del: less_prod_simp less_eq_prod_simp
      dest!: check_result_delta_ok split: option.splits if_splits)

interpretation terminal_fold: panic_free_fold "step_terminal g d"
    "result_inv blake3 header g d nodes0" "\<lambda>p. True" GraphPanic for blake3 header g d nodes0
proof
  fix s p s'
  assume inv: "result_inv blake3 header g d nodes0 s" and step: "step_terminal g d s p = Inr s'"
  obtain position t where p: "p = (position, t)" by (cases p)
  from step [unfolded p] show "result_inv blake3 header g d nodes0 s'"
  proof (rule step_terminal_ok)
    fix n
    assume n: "map_of (tp_nodes s) (at_agent_id t) = Some n" and t: "result_ok g n t"
      and s': "tp_nodes s' = btree_insert (at_agent_id t) (n\<lparr>an_terminal := Some t\<rparr>) (tp_nodes s)"
    have ok: "nodes_ok blake3 header g d nodes0 (tp_nodes s)" and "an_applied n = None"
      using inv n by (simp_all add: result_inv_def)
    moreover have "node_ok blake3 g d (at_agent_id t) (n\<lparr>an_terminal := Some t\<rparr>)"
      using ok n t unfolding nodes_ok_def node_ok_def result_ok_def child_ok_def by auto
    ultimately show ?thesis
      using inv nodes_ok_update [OF ok n] unfolding result_inv_def s' by auto
  qed
next
  fix s and p :: "timeline_position \<times> agent_task_finished_fact"
  assume inv: "result_inv blake3 header g d nodes0 s"
  obtain position t where p: "p = (position, t)" by (cases p)
  have "an_operation_id n \<noteq> Some x"
    if "map_of (tp_nodes s) a = Some n" "map_of (gc_operations g) x = None" for a n x
    using inv that node_inv_get(3) unfolding result_inv_def nodes_ok_def by blast
  then show "step_terminal g d s p \<noteq> Inl GraphPanic"
    by (auto simp: p step_terminal_def and_then_err no_panic split: option.splits if_splits)
qed

section \<open>The application phase\<close>

text \<open>An application repeats the delta's paths and is authorised by one intent of the parent.\<close>

definition applied_ok :: "collected \<Rightarrow> agent_graph_node \<Rightarrow> workspace_delta_applied_fact \<Rightarrow> bool" where
  "applied_ok g n x \<longleftrightarrow>
     (\<exists>delta t. an_workspace_delta n = Some delta \<and> an_terminal n = Some t \<and>
        wf_delta_id delta = wa_delta_id x \<and> wf_changed_paths delta = wa_changed_paths x \<and>
        wa_target_lane_id x = as_parent_lane_id (an_spawned n)) \<and>
     (\<exists>tool \<in> set (tools_for (gc_tools g) (wa_tool_call_id x)).
        ti_operation_id tool = as_parent_operation_id (an_spawned n) \<and>
        ti_tool_name tool = ''apply_agent_changes'' \<and>
        validate_apply_tool_args tool (wa_delta_id x) = Inr ())"

definition applied_inv ::
    "(u8 list \<Rightarrow> digest) \<Rightarrow> session_header \<Rightarrow> collected \<Rightarrow> delta_phase \<Rightarrow> agent_nodes \<Rightarrow> applied_phase \<Rightarrow> bool"
  where
  "applied_inv blake3 header g d nodes0 s \<longleftrightarrow>
     nodes_ok blake3 header g d nodes0 (pp_nodes s) \<and>
     (\<forall>i p delta. map_of (dp_by_id d) i = Some (p, delta) \<longrightarrow>
        wf_delta_id delta = i \<and> map_of nodes0 (wf_agent_id delta) \<noteq> None) \<and>
     (\<forall>a n x. map_of (pp_nodes s) a = Some n \<and> an_applied n = Some x \<longrightarrow> applied_ok g n x)"

lemma step_applied_ok:
  assumes "step_applied g d tps s (position, x) = Inr s'"
  obtains p delta n t tool where "map_of (dp_by_id d) (wa_delta_id x) = Some (p, delta)"
    and "wa_changed_paths x = wf_changed_paths delta"
    and "map_of (pp_nodes s) (wf_agent_id delta) = Some n" and "an_terminal n = Some t"
    and "at_workspace_delta_id t = Some (wf_delta_id delta)"
    and "wa_target_lane_id x = as_parent_lane_id (an_spawned n)"
    and "matching_tools g (wa_tool_call_id x) position (as_parent_operation_id (an_spawned n))
           ''apply_agent_changes'' = [tool]"
    and "validate_apply_tool_args tool (wa_delta_id x) = Inr ()"
    and "pp_nodes s' = btree_insert (wf_agent_id delta) (n\<lparr>an_applied := Some x\<rparr>) (pp_nodes s)"
proof (cases "map_of (dp_by_id d) (wa_delta_id x)")
  case None
  with assms show thesis by (simp add: step_applied_def result_simps)
next
  case (Some pd)
  moreover obtain p delta where "pd = (p, delta)" by (cases pd)
  ultimately show thesis
    using assms
    by (auto simp: step_applied_def result_simps Let_def bind_eq_Some_conv
        simp del: less_prod_simp less_eq_prod_simp
        split: option.splits if_splits list.splits intro!: that)
qed

lemma matching_tools_member:
  "matching_tools g c p o' name = [tool] \<Longrightarrow>
   tool \<in> set (tools_for (gc_tools g) c) \<and> ti_operation_id tool = o' \<and> ti_tool_name tool = name"
  unfolding matching_tools_def by (drule arg_cong [where f = set]) auto

interpretation applied_fold: panic_free_fold "step_applied g d tps"
    "applied_inv blake3 header g d nodes0" "\<lambda>p. True" GraphPanic for blake3 header g d tps nodes0
proof
  fix s p s'
  assume inv: "applied_inv blake3 header g d nodes0 s" and step: "step_applied g d tps s p = Inr s'"
  obtain position x where p: "p = (position, x)" by (cases p)
  from step [unfolded p] show "applied_inv blake3 header g d nodes0 s'"
  proof (rule step_applied_ok)
    fix q delta n t tool
    assume delta: "map_of (dp_by_id d) (wa_delta_id x) = Some (q, delta)"
        "wa_changed_paths x = wf_changed_paths delta"
      and n: "map_of (pp_nodes s) (wf_agent_id delta) = Some n" "an_terminal n = Some t"
        "at_workspace_delta_id t = Some (wf_delta_id delta)"
        "wa_target_lane_id x = as_parent_lane_id (an_spawned n)"
      and tool: "matching_tools g (wa_tool_call_id x) position (as_parent_operation_id (an_spawned n))
           ''apply_agent_changes'' = [tool]" "validate_apply_tool_args tool (wa_delta_id x) = Inr ()"
      and s': "pp_nodes s' = btree_insert (wf_agent_id delta) (n\<lparr>an_applied := Some x\<rparr>) (pp_nodes s)"
    have ok: "nodes_ok blake3 header g d nodes0 (pp_nodes s)"
      and id: "wf_delta_id delta = wa_delta_id x"
      using inv delta unfolding applied_inv_def by blast+
    have node: "node_ok blake3 g d (wf_agent_id delta) n" using ok n(1) by (simp add: nodes_ok_def)
    then have "at_workspace_delta_id t = map_option wf_delta_id (an_workspace_delta n)"
      using n(2) by (simp add: node_ok_def result_ok_def)
    then obtain delta' where d': "an_workspace_delta n = Some delta'" "wf_delta_id delta' = wf_delta_id delta"
      using n(3) by (metis map_option_eq_Some)
    then have "delta' = delta" using node delta(1) id by (auto simp: node_ok_def)
    then have "applied_ok g (n\<lparr>an_applied := Some x\<rparr>) x"
      using d' n id delta(2) matching_tools_member [OF tool(1)] tool(2) unfolding applied_ok_def by auto
    moreover have "node_ok blake3 g d (wf_agent_id delta) (n\<lparr>an_applied := Some x\<rparr>)"
      using node by (simp add: node_ok_def child_ok_def result_ok_def)
    ultimately show ?thesis
      using inv nodes_ok_update [OF ok n(1)] unfolding applied_inv_def s' by (auto split: if_splits)
  qed
next
  fix s and p :: "timeline_position \<times> workspace_delta_applied_fact"
  assume inv: "applied_inv blake3 header g d nodes0 s"
  obtain position x where p: "p = (position, x)" by (cases p)
  have "map_of (dp_by_id d) i \<noteq> Some (q, delta)"
    if "map_of (pp_nodes s) (wf_agent_id delta) = None" for i q delta
    using inv that unfolding applied_inv_def nodes_ok_def by (metis option.map_disc_iff)
  then show "step_applied g d tps s p \<noteq> Inl GraphPanic"
    by (auto simp: p step_applied_def and_then_err no_panic Let_def
        split: option.splits if_splits list.splits)
qed


section \<open>The whole reduction\<close>

lemma collect_step_operations:
  "collect_step g m = Inr g' \<Longrightarrow> btree_ok (gc_operations g) \<Longrightarrow> btree_ok (gc_operations g')"
  by (auto simp: collect_step_def collect_mutation_def collect_record_def collect_fact_def result_simps
      split: session_mutation.splits lane_mutation.splits lane_record.splits session_fact.splits
        option.splits if_splits)

interpretation collecting: checked_replay collect_step "\<lambda>g. btree_ok (gc_operations g)"
  by unfold_locales (rule collect_step_operations)

lemma collect_operations_ok: "collect header ms = Inr g \<Longrightarrow> btree_ok (gc_operations g)"
  unfolding collect_def by (erule collecting.replay_inv [rotated]) (simp add: initial_collected_def)

lemma scan_model_no_panic [no_panic]: "scan_model s m \<noteq> Inl GraphPanic"
  by (auto simp: scan_model_def Let_def and_then_err no_panic)

lemma try_fold_no_panic: "(\<And>s m. f s m \<noteq> Inl e) \<Longrightarrow> try_fold f s ms \<noteq> Inl e"
  by (induction ms arbitrary: s) (auto simp: and_then_err)

lemma validate_policy_no_panic [no_panic]: "validate_policy p \<noteq> Inl GraphPanic"
  by (auto simp: validate_policy_def and_then_err no_panic try_fold_no_panic)

lemma collect_no_panic [no_panic]: "collect header ms \<noteq> Inl GraphPanic"
  unfolding collect_def
  by (rule try_fold_no_panic)
    (auto simp: collect_step_def collect_mutation_def collect_record_def collect_fact_def and_then_err
      no_panic split: session_mutation.splits lane_mutation.splits lane_record.splits
        session_fact.splits option.splits)

lemma check_policy_order_no_panic [no_panic]: "check_policy_order header g \<noteq> Inl GraphPanic"
  by (auto simp: check_policy_order_def split: option.splits)

lemma spawn_inv_initial:
  "spawn_inv blake3 header g \<lparr>sq_nodes = [], sq_agent_by_lane = [], sq_task_names = {}\<rparr>"
  by (simp add: spawn_inv_def node_inv_def)

lemma children_inv_initial:
  assumes "spawn_inv blake3 header g s" and "btree_ok (gc_operations g)"
  shows "children_inv blake3 header g (sq_nodes s) (sq_nodes s)"
proof -
  have "an_operation_id n = None \<and> an_terminal n = None \<and> an_workspace_delta n = None \<and> an_applied n = None"
    if "map_of (sq_nodes s) a = Some n" for a n
  proof -
    have "n = fresh_node (an_spawned n)" using assms(1) that unfolding spawn_inv_def by blast
    then obtain sp where "n = fresh_node sp" ..
    then show ?thesis by (simp add: fresh_node_def)
  qed
  with assms show ?thesis by (simp add: children_inv_def spawn_inv_def)
qed

lemma delta_inv_initial:
  "node_inv blake3 header g nodes \<Longrightarrow> delta_inv blake3 header g nodes \<lparr>dp_by_id = [], dp_by_agent = []\<rparr>"
  by (simp add: delta_inv_def)

lemma btree_ok_map [simp]: "btree_ok (btree_map f m) = btree_ok m"
  by (simp add: btree_ok_def btree_map_def comp_def)

lemma attach_delta_fields [simp]:
  "an_spawned (attach_delta d n) = an_spawned n"
  "an_operation_id (attach_delta d n) = an_operation_id n"
  "an_terminal (attach_delta d n) = an_terminal n" "an_applied (attach_delta d n) = an_applied n"
  by (auto simp: attach_delta_def split: option.splits)

lemma result_inv_initial:
  assumes ch: "children_inv blake3 header g nodes0 nodes" and d: "delta_inv blake3 header g nodes d"
  shows "result_inv blake3 header g d nodes0
    \<lparr>tp_nodes = btree_map (attach_delta d) nodes, tp_positions = []\<rparr>"
proof -
  have node: "node_ok blake3 g d a (attach_delta d n)" if n: "map_of nodes a = Some n" for a n
  proof -
    have id: "as_agent_id (an_spawned n) = a"
      using ch n unfolding children_inv_def node_inv_def by blast
    have none: "an_terminal n = None" "an_workspace_delta n = None"
      and child: "\<forall>o'. an_operation_id n = Some o' \<longrightarrow> child_ok blake3 g n o'"
      using ch n unfolding children_inv_def by blast+
    have "validate_delta blake3 delta = Inr () \<and> wf_agent_id delta = a \<and>
        wf_workspace_lease_id delta = as_workspace_lease_id (an_spawned n) \<and>
        (\<exists>p. map_of (dp_by_id d) (wf_delta_id delta) = Some (p, delta))"
      if delta: "an_workspace_delta (attach_delta d n) = Some delta" for delta
    proof -
      from delta none obtain i p where i: "map_of (dp_by_agent d) a = Some i"
        "map_of (dp_by_id d) i = Some (p, delta)"
        by (auto simp: attach_delta_def id split: option.splits)
      then have "wf_agent_id delta = a" using d unfolding delta_inv_def by fastforce
      moreover have "wf_delta_id delta = i \<and> validate_delta blake3 delta = Inr () \<and>
          (\<exists>n. map_of nodes (wf_agent_id delta) = Some n \<and>
             as_workspace_lease_id (an_spawned n) = wf_workspace_lease_id delta)"
        using d i(2) unfolding delta_inv_def by blast
      ultimately show ?thesis using n i(2) by auto
    qed
    with none child show ?thesis by (simp add: node_ok_def child_ok_def)
  qed
  have "node_inv blake3 header g (btree_map (attach_delta d) nodes)"
    using ch unfolding children_inv_def node_inv_def by (auto simp: domIff)
  with ch node show ?thesis
    by (auto simp: result_inv_def nodes_ok_def children_inv_def option.map_comp comp_def)
qed

lemma applied_inv_initial:
  assumes "result_inv blake3 header g d nodes0 t" and d: "delta_inv blake3 header g nodes d"
    and "\<And>a. map_option an_spawned (map_of nodes a) = map_option an_spawned (map_of nodes0 a)"
  shows "applied_inv blake3 header g d nodes0 \<lparr>pp_nodes = tp_nodes t, pp_used_intents = {}\<rparr>"
proof -
  have "wf_delta_id delta = i \<and> map_of nodes0 (wf_agent_id delta) \<noteq> None"
    if "map_of (dp_by_id d) i = Some (p, delta)" for i p delta
  proof -
    from d that obtain m where "wf_delta_id delta = i" "map_of nodes (wf_agent_id delta) = Some m"
      unfolding delta_inv_def by blast
    with assms(3) [of "wf_agent_id delta"] show ?thesis by (cases "map_of nodes0 (wf_agent_id delta)") auto
  qed
  with assms(1) show ?thesis by (auto simp: applied_inv_def result_inv_def)
qed

lemma derive_states_no_panic:
  assumes "node_inv blake3 header g nodes" and "btree_ok nodes"
  shows "derive_states g nodes \<noteq> Inl GraphPanic"
proof -
  have "an_operation_id n \<noteq> Some x" if "(a, n) \<in> set nodes" "map_of (gc_operations g) x = None" for a n x
    using assms that node_inv_get(3) by (metis btree_mem_iff)
  then show ?thesis
  proof (induction nodes)
    case (Cons p nodes)
    obtain a n where p: "p = (a, n)" by (cases p)
    have "derive_state g n \<noteq> Inl GraphPanic"
      using Cons.prems [of a n] by (auto simp: p derive_state_def split: option.splits prod.splits)
    with Cons show ?case by (auto simp: p and_then_err)
  qed simp
qed


lemma derive_states_get:
  assumes "derive_states g nodes = Inr nodes'"
  shows "map_of nodes' a = Some n' \<longleftrightarrow>
    (\<exists>n state. map_of nodes a = Some n \<and> derive_state g n = Inr state \<and> n' = n\<lparr>an_state := state\<rparr>)"
  using assms
proof (induction nodes arbitrary: nodes')
  case (Cons p nodes)
  obtain b n where p: "p = (b, n)" by (cases p)
  with Cons.prems obtain state rest where "derive_state g n = Inr state"
    "derive_states g nodes = Inr rest" "nodes' = (b, n\<lparr>an_state := state\<rparr>) # rest"
    by (auto simp: result_simps)
  with Cons.IH show ?case by (auto simp: p)
qed simp

text \<open>
  The phases in order, with the invariant each leaves: neither fails with a panic, and the
  final nodes satisfy what the application phase established.
\<close>

definition graph_ok ::
    "(u8 list \<Rightarrow> digest) \<Rightarrow> session_header \<Rightarrow> collected \<Rightarrow> agent_graph_reduction \<Rightarrow> bool" where
  "graph_ok blake3 header g r \<longleftrightarrow>
     (\<exists>spawned deltas applied. spawn_inv blake3 header g spawned \<and>
        applied_inv blake3 header g deltas (sq_nodes spawned) applied \<and>
        derive_states g (pp_nodes applied) = Inr (ag_agents r))"

lemma children_inv_nodes:
  assumes "children_inv blake3 header g nodes0 nodes"
  shows "node_inv blake3 header g nodes"
    and "map_option an_spawned (map_of nodes a) = map_option an_spawned (map_of nodes0 a)"
  using assms by (simp_all add: children_inv_def)

lemma applied_inv_states:
  assumes "applied_inv blake3 header g d nodes0 s"
  shows "yields GraphPanic (\<lambda>agents. derive_states g (pp_nodes s) = Inr agents)
           (derive_states g (pp_nodes s))"
proof -
  have "node_inv blake3 header g (pp_nodes s)" and "btree_ok (pp_nodes s)"
    using assms by (simp_all add: applied_inv_def nodes_ok_def)
  then show ?thesis by (simp add: yields_def derive_states_no_panic)
qed

lemma reduce_collected_yields:
  assumes ops: "btree_ok (gc_operations g)"
  shows "yields GraphPanic (graph_ok blake3 header g) (reduce_collected blake3 header g)"
  unfolding reduce_collected_def
proof (rule yields_and_then [where P = "\<lambda>_. True"])
  show "yields GraphPanic (\<lambda>_. True) (check_policy_order header g)"
    by (simp add: yields_def no_panic)
next
  fix u
  show "yields GraphPanic (graph_ok blake3 header g)
    (and_then (try_fold (step_spawn blake3 header g)
       \<lparr>sq_nodes = [], sq_agent_by_lane = [], sq_task_names = {}\<rparr> (gc_spawns g)) (\<lambda>spawned.
     and_then (try_fold (step_operation blake3 g (sq_agent_by_lane spawned)) (sq_nodes spawned)
                 (gc_operations g)) (\<lambda>nodes.
     and_then (try_fold (step_delta blake3 g nodes) \<lparr>dp_by_id = [], dp_by_agent = []\<rparr> (gc_deltas g))
       (\<lambda>deltas.
     and_then (try_fold (step_terminal g deltas)
                 \<lparr>tp_nodes = btree_map (attach_delta deltas) nodes, tp_positions = []\<rparr> (gc_terminals g))
       (\<lambda>terminals.
     and_then (try_fold (step_applied g deltas (tp_positions terminals))
                 \<lparr>pp_nodes = tp_nodes terminals, pp_used_intents = {}\<rparr> (gc_applied g)) (\<lambda>applied.
     and_then (derive_states g (pp_nodes applied)) (\<lambda>agents.
       Ok \<lparr>ag_policy = map_option fst (gc_policy g), ag_agents = agents\<rparr>)))))))"
    by (rule yields_and_then, rule spawn_fold.fold_yields [OF spawn_inv_initial], assumption,
        rule yields_and_then, rule operation_fold.fold_yields [OF children_inv_initial [OF _ ops]],
        assumption, assumption,
        rule yields_and_then, rule delta_fold.fold_yields [OF delta_inv_initial],
        rule children_inv_nodes(1), assumption, rule TrueI,
        rule yields_and_then, rule terminal_fold.fold_yields [OF result_inv_initial],
        assumption, assumption, rule TrueI,
        rule yields_and_then, rule applied_fold.fold_yields [OF applied_inv_initial],
        assumption, assumption, erule children_inv_nodes(2), rule TrueI,
        rule yields_and_then, erule applied_inv_states,
        rule yields_ok) (auto simp: graph_ok_def)
qed

lemma reduce_agent_graph_yields:
  "yields GraphPanic (\<lambda>r. \<exists>g. collect header ms = Inr g \<and> graph_ok blake3 header g r)
     (reduce_agent_graph_prefix blake3 header ms)"
  unfolding reduce_agent_graph_prefix_def
proof (rule yields_and_then [where P = "\<lambda>g. collect header ms = Inr g"])
  show "yields GraphPanic (\<lambda>g. collect header ms = Inr g) (collect header ms)"
    by (simp add: yields_def no_panic)
next
  fix g
  assume "collect header ms = Inr g"
  with reduce_collected_yields [OF collect_operations_ok, of header ms g]
  show "yields GraphPanic (\<lambda>r. \<exists>g. collect header ms = Inr g \<and> graph_ok blake3 header g r)
      (reduce_collected blake3 header g)"
    by (auto simp: yields_def)
qed

end
