(* ===== verification/Agent_Example.thy ===== *)
theory Agent_Example
  imports Agent_Graph Session_Example "HOL-Library.Code_Target_Nat"
begin

text \<open>
  A concrete session with one child agent: the root operation spawns it through a recorded
  \<open>spawn_agent\<close> intent, the child operation finishes, its workspace delta is recorded and
  reported, and the root applies the delta through an \<open>apply_agent_changes\<close> intent.
\<close>

definition ag_blake3 :: "u8 list \<Rightarrow> digest" where
  "ag_blake3 bytes = zero_digest"

definition ag_zeros :: string where
  "ag_zeros = replicate 64 (CHR ''0'')"

definition ag_model :: subagent_model_record where
  "ag_model = \<lparr>sm_provider = ''p'', sm_model = ''m'', sm_revision = None, sm_display_name = ''M'',
     sm_context_window = None\<rparr>"

definition ag_policy_fact :: subagent_policy_fact where
  "ag_policy_fact = \<lparr>sp_schema_version = 1, sp_models = [ag_model], sp_max_concurrent = 1,
     sp_max_total_per_operation = 1, sp_timeout_ms = 30000, sp_tool_surface_digest = zero_digest\<rparr>"

definition ag_agent :: agent_id where
  "ag_agent = ''agent-'' @ ag_zeros"

definition ag_operation :: operation_id where
  "ag_operation = ''operation-'' @ ag_zeros"

definition ag_lease :: workspace_lease_id where
  "ag_lease = ''lease-'' @ ag_zeros"

definition ag_delta :: workspace_delta_fact where
  "ag_delta = \<lparr>wf_delta_id = ''delta-'' @ ag_zeros,
     wf_agent_id = ag_agent, wf_workspace_lease_id = ag_lease, wf_base_commit = ''base'',
     wf_result_commit = ''head'', wf_changed_paths = [''a.rs'', ''src/b.rs''],
     wf_patch = Artifact zero_digest 10 ''text/x-diff''\<rparr>"

definition ag_spawn :: agent_spawned_fact where
  "ag_spawn = \<lparr>as_agent_id = ag_agent, as_parent_lane_id = main_lane,
     as_parent_operation_id = ''op1'', as_lane_id = agent_lane_id ag_agent, as_task_name = ''fix'',
     as_model = ag_model, as_thinking = ''low'', as_context_mode = TaskContext,
     as_base_leaf_id = None, as_workspace_lease_id = ag_lease, as_harness_revision_id = ''rev'',
     as_harness_snapshot_id = ''snap'', as_model_harness_profile_id = ''profile'',
     as_spawn_tool_call_id = ''c1''\<rparr>"

definition ag_tool :: "string \<Rightarrow> string \<Rightarrow> string \<Rightarrow> json_value \<Rightarrow> lane_record" where
  "ag_tool call name key args = ToolStarted (ex_tool\<lparr>ts_tool_call_id := call, ts_tool_name := name,
     ts_idempotency_key := key, ts_effective_args := args\<rparr>)"

definition ag_entry :: "entry_id \<Rightarrow> session_entry \<Rightarrow> session_mutation" where
  "ag_entry i body = EntryM \<lparr>se_lane_id = agent_lane_id ag_agent,
     se_header = \<lparr>eh_id = i, eh_parent_id = None, eh_seq = 0, eh_timestamp_ms = 9\<rparr>, se_body = body\<rparr>"

definition ag_mutations :: "session_mutation list" where
  "ag_mutations =
    [ex_fact 1 (SubagentPolicy ag_policy_fact),
     ex_record 2 (OperationStarted
       (new_operation_started ''op1'' main_lane None RunOp [ex_user] ''rev'' ''profile'')),
     ex_record 3 (EpochStarted ex_epoch),
     ex_record 4 (ag_tool ''c1'' ''spawn_agent'' ''k1'' (object
       [(''task_name'', JString ''fix''), (''model'', JString ''m''), (''task'', JString ''fix it'')])),
     LaneM \<lparr>sl_seq = 5, sl_timestamp_ms = 9, sl_mutation = Created (agent_lane_id ag_agent) None\<rparr>,
     ag_entry ''m1'' (ModelChanged \<lparr>mc_provider = ''p'', mc_model = ''m'', mc_revision = None\<rparr>),
     ag_entry ''m2'' (ThinkingChanged ''low''),
     ag_entry ''m3'' (HarnessRevisionChanged \<lparr>hr_revision_id = ''rev'', hr_snapshot_id = ''snap'',
       hr_rollback_from = None\<rparr>),
     ex_fact 9 (AgentSpawned ag_spawn),
     ex_record 10 (OperationStarted (new_operation_started ag_operation (agent_lane_id ag_agent)
       (Some ''m3'') (Subagent ag_agent ''op1'') [provisioned_user ''m4'' ''fix it''] ''rev'' ''profile'')),
     ag_entry ''m5'' (pe_body (provisioned_assistant ''m5'' ''done'' [])),
     ex_record 12 (OperationFinished \<lparr>of_operation_id = ag_operation, of_outcome = Completed\<rparr>),
     ex_fact 13 (WorkspaceDelta ag_delta),
     ex_fact 14 (AgentTaskFinished \<lparr>at_agent_id = ag_agent, at_operation_id = ag_operation,
       at_outcome = Completed, at_final_entry_id = Some ''m5'', at_report = Inline (JString ''done''),
       at_workspace_delta_id = Some (wf_delta_id ag_delta)\<rparr>),
     ex_record 15 (ag_tool ''c2'' ''apply_agent_changes'' ''k2''
       (object [(''delta_id'', JString (wf_delta_id ag_delta))])),
     ex_fact 16 (WorkspaceDeltaApplied \<lparr>wa_delta_id = wf_delta_id ag_delta,
       wa_target_lane_id = main_lane, wa_tool_call_id = ''c2'',
       wa_changed_paths = wf_changed_paths ag_delta\<rparr>)]"

definition ag_timeline :: "stored_mutation list" where
  "ag_timeline = ex_stamp 1 ag_mutations"

lemma ag_reduced:
  "(case reduce_agent_graph_prefix ag_blake3 ex_header ag_timeline of
      Inl _ \<Rightarrow> None | Inr r \<Rightarrow> map_option an_state (btree_get (ag_agents r) ag_agent)) =
   Some (AgentApplied Completed (wf_delta_id ag_delta))"
  by code_simp

end
