(* ===== verification/Agent_Guarantees.thy ===== *)
theory Agent_Guarantees
  imports Agent_Properties Agent_Example
begin

text \<open>
  The guarantees of the child-agent graph (\<open>crates/tea-session/src/agents.rs\<close>): the reduction
  never fails internally, children are distinct and carry derived identities, a child's
  operation and result are its own, and an applied workspace delta was finished, reported and
  authorised by exactly such an intent of the parent operation.
\<close>

lemma reduced_graph_ok:
  assumes "reduce_agent_graph_prefix blake3 header ms = Inr r"
  obtains g where "collect header ms = Inr g" and "graph_ok blake3 header g r"
  using reduce_agent_graph_yields [of header ms blake3] assms by (auto simp: yields_def)

text \<open>What the phases leave of one node of the reduced graph.\<close>

lemma graph_ok_node:
  assumes "graph_ok blake3 header g r" and "btree_get (ag_agents r) a = Some n"
  obtains d n0 where "derive_state g n0 = Inr (an_state n)" and "n = n0\<lparr>an_state := an_state n\<rparr>"
    and "as_agent_id (an_spawned n) = a" and "spawn_accepted blake3 header g (an_spawned n)"
    and "node_ok blake3 g d a n" and "\<And>x. an_applied n = Some x \<Longrightarrow> applied_ok g n x"
proof -
  from assms(1) obtain s :: spawn_phase and d :: delta_phase and p :: applied_phase where
    p: "applied_inv blake3 header g d (sq_nodes s) p"
    and st: "derive_states g (pp_nodes p) = Inr (ag_agents r)" unfolding graph_ok_def by blast
  from assms(2) obtain n0 state where n0: "map_of (pp_nodes p) a = Some n0"
    "derive_state g n0 = Inr state" and n: "n = n0\<lparr>an_state := state\<rparr>"
    unfolding derive_states_get [OF st] by blast
  from p n0(1) have ok: "node_inv blake3 header g (pp_nodes p)" "node_ok blake3 g d a n0"
    "\<And>x. an_applied n0 = Some x \<Longrightarrow> applied_ok g n0 x"
    unfolding applied_inv_def nodes_ok_def by blast+
  show thesis
  proof (rule that)
    show "as_agent_id (an_spawned n) = a" "spawn_accepted blake3 header g (an_spawned n)"
      using node_inv_get [OF ok(1) n0(1)] by (simp_all add: n)
    show "node_ok blake3 g d a n" using ok(2) by (simp add: n node_ok_def child_ok_def result_ok_def)
    show "applied_ok g n x" if "an_applied n = Some x" for x
      using ok(3) [of x] that by (simp add: n applied_ok_def)
  qed (use n0(2) in \<open>simp_all add: n\<close>)
qed

lemma graph_ok_spawns:
  assumes "graph_ok blake3 header g r" and "btree_get (ag_agents r) a = Some n"
  obtains s m where "spawn_inv blake3 header g s" and "map_of (sq_nodes s) a = Some m"
    and "an_spawned m = an_spawned n"
    and "\<And>b n'. btree_get (ag_agents r) b = Some n' \<Longrightarrow>
      \<exists>m'. map_of (sq_nodes s) b = Some m' \<and> an_spawned m' = an_spawned n'"
proof -
  from assms(1) obtain s :: spawn_phase and d :: delta_phase and p :: applied_phase where
    s: "spawn_inv blake3 header g s"
    and p: "applied_inv blake3 header g d (sq_nodes s) p"
    and st: "derive_states g (pp_nodes p) = Inr (ag_agents r)" unfolding graph_ok_def by blast
  have same: "\<exists>m'. map_of (sq_nodes s) b = Some m' \<and> an_spawned m' = an_spawned n'"
    if "btree_get (ag_agents r) b = Some n'" for b n'
  proof -
    from that obtain n0 state where "map_of (pp_nodes p) b = Some n0" "n' = n0\<lparr>an_state := state\<rparr>"
      unfolding derive_states_get [OF st] by blast
    moreover have "map_option an_spawned (map_of (pp_nodes p) b) =
        map_option an_spawned (map_of (sq_nodes s) b)"
      using p unfolding applied_inv_def nodes_ok_def by blast
    ultimately show ?thesis by (cases "map_of (sq_nodes s) b") auto
  qed
  from same [OF assms(2)] that s same show thesis by blast
qed

lemma ag_reduction:
  obtains r n where "reduce_agent_graph_prefix ag_blake3 ex_header ag_timeline = Inr r"
    and "btree_get (ag_agents r) ag_agent = Some n"
    and "an_state n = AgentApplied Completed (wf_delta_id ag_delta)"
  using ag_reduced by (auto split: sum.splits)

lemma derive_state_applied:
  "derive_state g n = Inr (AgentApplied out i) \<Longrightarrow> an_applied n \<noteq> None"
  by (auto simp: derive_state_def split: option.splits elim!: settled_state.elims)

lemma applied_state_applied:
  assumes "reduce_agent_graph_prefix blake3 header ms = Inr r" and "btree_get (ag_agents r) a = Some n"
    and "an_state n = AgentApplied out i"
  obtains x where "an_applied n = Some x"
proof -
  from assms(1) obtain g where "graph_ok blake3 header g r" by (elim reduced_graph_ok)
  from graph_ok_node [OF this assms(2)] obtain n0 where
    n0: "derive_state g n0 = Inr (an_state n)" "n = n0\<lparr>an_state := an_state n\<rparr>" by metis
  from n0(2) have "an_applied n = an_applied n0"
    by (metis agent_graph_node.select_convs(5) agent_graph_node.surjective agent_graph_node.update_convs(6))
  with derive_state_applied [of g n0 out i] n0(1) assms(3) that show thesis by auto
qed

lemma check_paths_ok:
  "check_paths previous paths = Inr () \<Longrightarrow>
     sorted_wrt (<) paths \<and> (\<forall>p \<in> set paths. path_shape_ok p \<and> path_components_ok p) \<and>
     (\<forall>q. previous = Some q \<longrightarrow> (\<forall>p \<in> set paths. q < p))"
  by (induction previous paths rule: check_paths.induct) (auto split: if_splits option.splits)

section \<open>Guarantees\<close>

text \<open>
  C32: For every header and timeline the graph reduction returns a graph or a corruption: none
  of its \<open>expect\<close>s (the indexed spawn intent, the indexed child operation) fails.
\<close>

theorem graph_reduction_total:
  "reduce_agent_graph_prefix blake3 header ms \<noteq> Inl GraphPanic"
  using reduce_agent_graph_yields [of header ms blake3] by (simp add: yields_def)

text \<open>
  Two children of a reduced graph never share a lane, and two children of one root
  operation never share a task name.
\<close>

theorem children_distinct:
  assumes "reduce_agent_graph_prefix blake3 header ms = Inr r"
    and "btree_get (ag_agents r) a = Some n" and "btree_get (ag_agents r) b = Some m"
    and "as_lane_id (an_spawned n) = as_lane_id (an_spawned m) \<or>
      as_parent_operation_id (an_spawned n) = as_parent_operation_id (an_spawned m) \<and>
      as_task_name (an_spawned n) = as_task_name (an_spawned m)"
  shows "a = b"
proof -
  from assms(1) obtain g where ok: "graph_ok blake3 header g r" by (elim reduced_graph_ok)
  from graph_ok_spawns [OF ok assms(2)] obtain s n0 m0 where s: "spawn_inv blake3 header g s"
    "map_of (sq_nodes s) a = Some n0" "map_of (sq_nodes s) b = Some m0"
    "an_spawned n0 = an_spawned n" "an_spawned m0 = an_spawned m"
    by (metis assms(3))
  then have "map_of (sq_agent_by_lane s) (as_lane_id (an_spawned n)) = Some a"
    "map_of (sq_agent_by_lane s) (as_lane_id (an_spawned m)) = Some b"
    unfolding spawn_inv_def by metis+
  with s assms(4) show ?thesis unfolding spawn_inv_def by (metis option.inject)
qed

theorem children_distinct_witness:
  "\<exists>r (n :: agent_graph_node). reduce_agent_graph_prefix ag_blake3 ex_header ag_timeline = Inr r \<and>
     {b. \<exists>m. btree_get (ag_agents r) b = Some m \<and> as_lane_id (an_spawned m) = as_lane_id (an_spawned n)} =
     {ag_agent}"
proof (rule ag_reduction)
  fix r n
  assume r: "reduce_agent_graph_prefix ag_blake3 ex_header ag_timeline = Inr r"
    and n: "btree_get (ag_agents r) ag_agent = Some n"
  have "b = ag_agent" if "btree_get (ag_agents r) b = Some m"
    "as_lane_id (an_spawned m) = as_lane_id (an_spawned n)" for b m
    using children_distinct [OF r that(1) n] that(2) by blast
  with n have "{b. \<exists>m. btree_get (ag_agents r) b = Some m \<and>
      as_lane_id (an_spawned m) = as_lane_id (an_spawned n)} = {ag_agent}" by blast
  with r show ?thesis by blast
qed

text \<open>
  Every child carries derived identities. Its agent identity is derived from the session,
  the root lane and operation, and the idempotency key of the recorded \<open>spawn_agent\<close> intent;
  its lane and workspace lease are derived from the agent; its model is in the persisted
  policy, which precedes it; and its operation, once started, runs on its own lane, on behalf
  of its own parent operation, under the identity derived from its assignment.
\<close>

theorem child_identity:
  assumes "reduce_agent_graph_prefix blake3 header ms = Inr r"
    and "btree_get (ag_agents r) a = Some n"
  shows "\<exists>g policy key. collect header ms = Inr g \<and> map_option fst (gc_policy g) = Some policy \<and>
    as_agent_id (an_spawned n) = a \<and> as_model (an_spawned n) \<in> set (sp_models policy) \<and>
    as_parent_lane_id (an_spawned n) = main_lane \<and>
    a = derive_agent_id blake3 (sh_session_id header) main_lane
          (as_parent_operation_id (an_spawned n)) key \<and>
    as_lane_id (an_spawned n) = agent_lane_id a \<and>
    as_workspace_lease_id (an_spawned n) = derive_workspace_lease_id blake3 a \<and>
    (\<forall>o'. an_operation_id n = Some o' \<longrightarrow> (\<exists>op e m.
       btree_get (gc_operations g) o' = Some op \<and> oi_lane_id op = as_lane_id (an_spawned n) \<and>
       oi_kind op = Subagent a (as_parent_operation_id (an_spawned n)) \<and>
       oi_original_input op = [e] \<and> pe_body e = UserMessage m \<and>
       o' = derive_subagent_operation_id blake3 a (um_content m)))"
proof -
  from assms(1) obtain g where g: "collect header ms = Inr g" and ok: "graph_ok blake3 header g r"
    by (elim reduced_graph_ok)
  from graph_ok_node [OF ok assms(2)] obtain d where
    id: "as_agent_id (an_spawned n) = a" and sp: "spawn_accepted blake3 header g (an_spawned n)"
    and node: "node_ok blake3 g d a n" by metis
  from sp obtain policy set_at position tool where policy: "gc_policy g = Some (policy, set_at)"
    and v: "validate_spawn blake3 (sh_session_id header) g policy (an_spawned n) position = Inr ()"
    unfolding spawn_accepted_def by blast
  from v obtain key where "as_model (an_spawned n) \<in> set (sp_models policy)"
    "as_parent_lane_id (an_spawned n) = main_lane"
    "a = derive_agent_id blake3 (sh_session_id header) main_lane
          (as_parent_operation_id (an_spawned n)) key"
    "as_lane_id (an_spawned n) = agent_lane_id a"
    "as_workspace_lease_id (an_spawned n) = derive_workspace_lease_id blake3 a"
    by (auto simp: validate_spawn_def validate_spawn_fields_def parent_is_root_def
        check_spawn_intent_def id result_simps split: option.splits if_splits list.splits)
  moreover have "\<forall>o'. an_operation_id n = Some o' \<longrightarrow> child_ok blake3 g n o'"
    using node by (simp add: node_ok_def)
  ultimately show ?thesis
    using g policy id unfolding child_ok_def
    by (intro exI [of _ g] exI [of _ policy] exI [of _ key]) auto
qed

theorem child_identity_witness:
  "\<exists>r n. reduce_agent_graph_prefix ag_blake3 ex_header ag_timeline = Inr r \<and>
     btree_get (ag_agents r) ag_agent = Some n \<and>
     as_workspace_lease_id (an_spawned n) = derive_workspace_lease_id ag_blake3 ag_agent"
proof (rule ag_reduction)
  fix r n
  assume "reduce_agent_graph_prefix ag_blake3 ex_header ag_timeline = Inr r"
    and "btree_get (ag_agents r) ag_agent = Some n"
  with child_identity [OF this] show ?thesis by metis
qed

text \<open>
  C33: An applied child result. When the reduced graph records that a child's changes were
  applied, the child's operation has finished and its terminal report names exactly the
  recorded workspace delta; the delta was produced under the child's own lease, the applied
  paths are the delta's, the target is the parent's lane, and the parent operation recorded an
  \<open>apply_agent_changes\<close> intent whose only argument is that delta; the child's derived state says
  so.
\<close>

theorem applied_delta_authorised:
  assumes "reduce_agent_graph_prefix blake3 header ms = Inr r"
    and "btree_get (ag_agents r) a = Some n" and "an_applied n = Some x"
  shows "\<exists>g delta t tool. collect header ms = Inr g \<and>
    an_workspace_delta n = Some delta \<and> an_terminal n = Some t \<and>
    an_state n = AgentApplied (at_outcome t) (wf_delta_id delta) \<and>
    wf_delta_id delta = wa_delta_id x \<and> wf_agent_id delta = a \<and>
    wf_workspace_lease_id delta = as_workspace_lease_id (an_spawned n) \<and>
    at_workspace_delta_id t = Some (wa_delta_id x) \<and> an_operation_id n = Some (at_operation_id t) \<and>
    (\<exists>op q. btree_get (gc_operations g) (at_operation_id t) = Some op \<and>
       oi_finished op = Some (q, at_outcome t)) \<and>
    wa_changed_paths x = wf_changed_paths delta \<and>
    wa_target_lane_id x = as_parent_lane_id (an_spawned n) \<and>
    tool \<in> set (tools_for (gc_tools g) (wa_tool_call_id x)) \<and>
    ti_operation_id tool = as_parent_operation_id (an_spawned n) \<and>
    ti_tool_name tool = ''apply_agent_changes'' \<and>
    validate_apply_tool_args tool (wa_delta_id x) = Inr ()"
proof -
  from assms(1) obtain g where g: "collect header ms = Inr g" and ok: "graph_ok blake3 header g r"
    by (elim reduced_graph_ok)
  from graph_ok_node [OF ok assms(2)] obtain d n0 where
    n0: "derive_state g n0 = Inr (an_state n)" "n = n0\<lparr>an_state := an_state n\<rparr>"
    and node: "node_ok blake3 g d a n" and app: "applied_ok g n x" by (metis assms(3))
  from app obtain delta t tool where dt: "an_workspace_delta n = Some delta" "an_terminal n = Some t"
    "wf_delta_id delta = wa_delta_id x" "wf_changed_paths delta = wa_changed_paths x"
    "wa_target_lane_id x = as_parent_lane_id (an_spawned n)"
    and tool: "tool \<in> set (tools_for (gc_tools g) (wa_tool_call_id x))"
      "ti_operation_id tool = as_parent_operation_id (an_spawned n)"
      "ti_tool_name tool = ''apply_agent_changes''"
      "validate_apply_tool_args tool (wa_delta_id x) = Inr ()"
    unfolding applied_ok_def by blast
  from node dt have res: "result_ok g n t" "wf_agent_id delta = a"
    "wf_workspace_lease_id delta = as_workspace_lease_id (an_spawned n)"
    unfolding node_ok_def by blast+
  from n0 have eq: "an_operation_id n0 = an_operation_id n" "an_terminal n0 = an_terminal n"
    "an_workspace_delta n0 = an_workspace_delta n" "an_applied n0 = an_applied n"
    by (metis agent_graph_node.select_convs agent_graph_node.surjective
        agent_graph_node.update_convs)+
  have "an_state n = AgentApplied (at_outcome t) (wf_delta_id delta)"
    using n0(1) dt res(1) assms(3) by (auto simp: eq derive_state_def result_ok_def)
  with g dt tool res show ?thesis
    unfolding result_ok_def
    by (intro exI [of _ g] exI [of _ delta] exI [of _ t] exI [of _ tool]) auto
qed

theorem applied_delta_authorised_witness:
  "\<exists>r n. reduce_agent_graph_prefix ag_blake3 ex_header ag_timeline = Inr r \<and>
     btree_get (ag_agents r) ag_agent = Some n \<and>
     map_option wf_delta_id (an_workspace_delta n) = map_option wa_delta_id (an_applied n) \<and>
     an_applied n \<noteq> None"
proof (rule ag_reduction)
  fix r n
  assume r: "reduce_agent_graph_prefix ag_blake3 ex_header ag_timeline = Inr r"
    and n: "btree_get (ag_agents r) ag_agent = Some n"
    and "an_state n = AgentApplied Completed (wf_delta_id ag_delta)"
  then obtain x where x: "an_applied n = Some x" by (elim applied_state_applied)
  from applied_delta_authorised [OF r n x] r n x show ?thesis by auto
qed

text \<open>
  The changed paths of an accepted workspace delta are strictly increasing, so without
  repetition, and each is a relative, normalized path: bounded, not empty, no leading slash, no
  backslash and no empty, \<open>.\<close> or \<open>..\<close> component.
\<close>

theorem changed_paths_normalized:
  assumes "validate_changed_paths paths = Inr ()"
  shows "sorted_wrt (<) paths \<and>
    (\<forall>p \<in> set paths. p \<noteq> [] \<and> length p \<le> MAX_CHANGED_PATH_BYTES \<and> hd p \<noteq> CHR ''/'' \<and>
       (\<forall>c \<in> set (split_on (CHR ''/'') p). c \<notin> {[], ''.'', ''..''}))"
  using check_paths_ok [of None paths] assms
  by (auto simp: validate_changed_paths_def path_shape_ok_def path_components_ok_def list_all_iff)

theorem changed_paths_normalized_witness:
  "validate_changed_paths [''a.rs'', ''src/b.rs''] = Inr () \<and>
   sorted_wrt (<) [''a.rs'', ''src/b.rs'']"
proof -
  have "validate_changed_paths [''a.rs'', ''src/b.rs''] = Inr ()" by code_simp
  with changed_paths_normalized [OF this] show ?thesis by simp
qed

end
