(* ===== verification/Codec_Fields.thy ===== *)
theory Codec_Fields
  imports Session_Model
begin

text \<open>
  The field readers and writers of the session codec, \<open>crates/tea-session/src/jsonl.rs\<close>, and the
  codecs of the values that entries, records and facts share: usage, payload references, opaque
  provider context, model names, provider errors, operation kinds and outcomes, hook data and the
  enums that are written as a name.

  A decoder returns the source's error as a \<open>decode_error\<close>; \<open>FieldMustBe\<close> and \<open>UnknownName\<close> carry
  the field or the kind of name and what the message says of it. The locales \<open>wire_codec\<close>,
  \<open>object_codec\<close> and \<open>name_codec\<close> are the contract of every codec: what it encodes it decodes again,
  for the values that satisfy the type's invariant.
\<close>

type_synonym wire_fields = "(string, json_value) btree"

datatype decode_error =
    NotAnObject
  | MissingRequired string
  | WrongFields string
  | FieldMustBe string string
  | ArrayItemNotString
  | InputIdNotString
  | UnknownName string string
  | TooWide string
  | BadId id_error
  | BadDigest digest_error
  | ProviderErrorNotObject
  | OpaqueContext string
  | BlocksDisagree
  | EmptyItems
  | NotACommit
  | HeaderMismatch string

section \<open>Results over options and lists\<close>

fun ok_or :: "'a option \<Rightarrow> 'e \<Rightarrow> ('e, 'a) result" where
  "ok_or (Some a) e = Ok a"
| "ok_or None e = Err e"

text \<open>\<open>option.map(f).transpose()\<close>.\<close>

fun map_transpose :: "('a \<Rightarrow> ('e, 'b) result) \<Rightarrow> 'a option \<Rightarrow> ('e, 'b option) result" where
  "map_transpose f None = Ok None"
| "map_transpose f (Some a) = and_then (f a) (\<lambda>b. Ok (Some b))"

definition narrow :: "string \<Rightarrow> u64 \<Rightarrow> (decode_error, 'a::len word) result" where
  "narrow message value =
     (if unat value < 2 ^ LENGTH('a) then Ok (ucast value) else Err (TooWide message))"

section \<open>Field readers\<close>

definition parse_id :: "string \<Rightarrow> (decode_error, string) result" where
  "parse_id value = map_err BadId (new_id value)"

definition parse_digest :: "string \<Rightarrow> (decode_error, digest) result" where
  "parse_digest value = map_err BadDigest (from_hex value)"

definition parse_artifact :: "string \<Rightarrow> (decode_error, artifact_id) result" where
  "parse_artifact value = map_err BadDigest (from_hex value)"

definition read_object :: "json_value \<Rightarrow> (decode_error, wire_fields) result" where
  "read_object value = ok_or (as_object value) NotAnObject"

definition required_value :: "wire_fields \<Rightarrow> string \<Rightarrow> (decode_error, json_value) result" where
  "required_value obj k = ok_or (btree_get obj k) (MissingRequired k)"

definition require_exact_fields ::
    "wire_fields \<Rightarrow> string list \<Rightarrow> string \<Rightarrow> (decode_error, unit) result" where
  "require_exact_fields obj expected context =
     (if length obj \<noteq> length expected \<or> list_ex (\<lambda>k. \<not> btree_contains obj k) expected
      then Err (WrongFields context) else Ok ())"

definition required_string :: "wire_fields \<Rightarrow> string \<Rightarrow> (decode_error, string) result" where
  "required_string obj k =
     and_then (required_value obj k) (\<lambda>value. ok_or (as_str value) (FieldMustBe k ''a string''))"

definition required_u64 :: "wire_fields \<Rightarrow> string \<Rightarrow> (decode_error, u64) result" where
  "required_u64 obj k =
     and_then (required_value obj k) (\<lambda>value.
       ok_or (as_u64 value) (FieldMustBe k ''an unsigned integer''))"

definition required_bool :: "wire_fields \<Rightarrow> string \<Rightarrow> (decode_error, bool) result" where
  "required_bool obj k =
     and_then (required_value obj k) (\<lambda>value. ok_or (as_bool value) (FieldMustBe k ''a boolean''))"

definition required_array :: "wire_fields \<Rightarrow> string \<Rightarrow> (decode_error, json_value list) result" where
  "required_array obj k =
     and_then (required_value obj k) (\<lambda>value. ok_or (as_array value) (FieldMustBe k ''an array''))"

definition required_metadata :: "wire_fields \<Rightarrow> string \<Rightarrow> (decode_error, metadata) result" where
  "required_metadata obj k =
     and_then (required_value obj k) (\<lambda>value. ok_or (as_object value) (FieldMustBe k ''an object''))"

definition optional_value_of :: "wire_fields \<Rightarrow> string \<Rightarrow> json_value option" where
  "optional_value_of obj k =
     (case btree_get obj k of
        None \<Rightarrow> None | Some value \<Rightarrow> if value = JNull then None else Some value)"

definition optional_bool_of :: "wire_fields \<Rightarrow> string \<Rightarrow> (decode_error, bool option) result" where
  "optional_bool_of obj k =
     map_transpose (\<lambda>value. ok_or (as_bool value) (FieldMustBe k ''a boolean or null''))
       (optional_value_of obj k)"

definition optional_string_of :: "wire_fields \<Rightarrow> string \<Rightarrow> (decode_error, string option) result" where
  "optional_string_of obj k =
     map_transpose (\<lambda>value. ok_or (as_str value) (FieldMustBe k ''a string or null''))
       (optional_value_of obj k)"

definition optional_u64_of :: "wire_fields \<Rightarrow> string \<Rightarrow> (decode_error, u64 option) result" where
  "optional_u64_of obj k =
     map_transpose (\<lambda>value. ok_or (as_u64 value) (FieldMustBe k ''an unsigned integer or null''))
       (optional_value_of obj k)"

definition required_id :: "wire_fields \<Rightarrow> string \<Rightarrow> (decode_error, string) result" where
  "required_id obj k = and_then (required_string obj k) parse_id"

definition optional_id_of :: "wire_fields \<Rightarrow> string \<Rightarrow> (decode_error, string option) result" where
  "optional_id_of obj k = and_then (optional_string_of obj k) (map_transpose parse_id)"

definition optional_artifact_of ::
    "wire_fields \<Rightarrow> string \<Rightarrow> (decode_error, artifact_id option) result" where
  "optional_artifact_of obj k = and_then (optional_string_of obj k) (map_transpose parse_artifact)"

definition string_array :: "json_value list \<Rightarrow> (decode_error, string list) result" where
  "string_array values = try_map (\<lambda>value. ok_or (as_str value) ArrayItemNotString) values"

definition required_strings :: "wire_fields \<Rightarrow> string \<Rightarrow> (decode_error, string list) result" where
  "required_strings obj k = and_then (required_array obj k) string_array"

definition required_digest :: "wire_fields \<Rightarrow> string \<Rightarrow> (decode_error, digest) result" where
  "required_digest obj k = and_then (required_string obj k) parse_digest"

definition required_artifact :: "wire_fields \<Rightarrow> string \<Rightarrow> (decode_error, artifact_id) result" where
  "required_artifact obj k = and_then (required_string obj k) parse_artifact"

definition required_word ::
    "wire_fields \<Rightarrow> string \<Rightarrow> string \<Rightarrow> (decode_error, 'a::len word) result" where
  "required_word obj k message = and_then (required_u64 obj k) (narrow message)"

section \<open>Field writers\<close>

definition digest_value :: "digest \<Rightarrow> json_value" where
  "digest_value value = JString (to_hex value)"

definition artifact_value :: "artifact_id \<Rightarrow> json_value" where
  "artifact_value value = JString (to_hex value)"

definition u64_value :: "u64 \<Rightarrow> json_value" where
  "u64_value value = JNumber (Unsigned value)"

fun optional_value :: "json_value option \<Rightarrow> json_value" where
  "optional_value None = JNull"
| "optional_value (Some value) = value"

definition optional_string :: "string option \<Rightarrow> json_value" where
  "optional_string value = optional_value (map_option JString value)"

definition optional_u64 :: "u64 option \<Rightarrow> json_value" where
  "optional_u64 value = optional_value (map_option u64_value value)"

definition optional_bool :: "bool option \<Rightarrow> json_value" where
  "optional_bool value = optional_value (map_option JBool value)"

definition optional_id :: "string option \<Rightarrow> json_value" where
  "optional_id value = optional_value (map_option JString value)"

definition optional_artifact :: "artifact_id option \<Rightarrow> json_value" where
  "optional_artifact value = optional_value (map_option artifact_value value)"

definition string_values :: "string list \<Rightarrow> json_value" where
  "string_values values = JArray (map JString values)"

section \<open>Invariants of the identifier and digest types\<close>

definition id_ok :: "string \<Rightarrow> bool" where
  "id_ok i = is_ok (validate_id i)"

definition digest_ok :: "digest \<Rightarrow> bool" where
  "digest_ok d = (length d = 32)"

section \<open>Usage, payload references and models\<close>

definition encode_usage :: "usage \<Rightarrow> json_value" where
  "encode_usage usage =
     object [(''total_tokens'', optional_u64 (us_total_tokens usage)),
       (''input_tokens'', optional_u64 (us_input_tokens usage)),
       (''output_tokens'', optional_u64 (us_output_tokens usage)),
       (''reasoning_tokens'', optional_u64 (us_reasoning_tokens usage)),
       (''cache_read_tokens'', optional_u64 (us_cache_read_tokens usage)),
       (''cache_write_tokens'', optional_u64 (us_cache_write_tokens usage)),
       (''cost'', optional_string (us_cost usage))]"

definition decode_usage :: "json_value \<Rightarrow> (decode_error, usage) result" where
  "decode_usage value =
     and_then (read_object value) (\<lambda>obj.
     and_then (optional_u64_of obj ''total_tokens'') (\<lambda>total_tokens.
     and_then (optional_u64_of obj ''input_tokens'') (\<lambda>input_tokens.
     and_then (optional_u64_of obj ''output_tokens'') (\<lambda>output_tokens.
     and_then (optional_u64_of obj ''reasoning_tokens'') (\<lambda>reasoning_tokens.
     and_then (optional_u64_of obj ''cache_read_tokens'') (\<lambda>cache_read_tokens.
     and_then (optional_u64_of obj ''cache_write_tokens'') (\<lambda>cache_write_tokens.
     and_then (optional_string_of obj ''cost'') (\<lambda>cost.
       Ok \<lparr>us_total_tokens = total_tokens, us_input_tokens = input_tokens,
           us_output_tokens = output_tokens, us_reasoning_tokens = reasoning_tokens,
           us_cache_read_tokens = cache_read_tokens, us_cache_write_tokens = cache_write_tokens,
           us_cost = cost\<rparr>))))))))"

fun encode_payload_ref :: "payload_ref \<Rightarrow> json_value" where
  "encode_payload_ref (Inline value) = object [(''kind'', JString ''inline''), (''value'', value)]"
| "encode_payload_ref (Artifact artifact_id byte_len media_type) =
     object [(''kind'', JString ''artifact''), (''artifact_id'', artifact_value artifact_id),
       (''byte_len'', u64_value byte_len), (''media_type'', JString media_type)]"

definition decode_payload_ref :: "json_value \<Rightarrow> (decode_error, payload_ref) result" where
  "decode_payload_ref value =
     and_then (read_object value) (\<lambda>obj.
     and_then (required_string obj ''kind'') (\<lambda>tag.
       if tag = ''inline'' then and_then (required_value obj ''value'') (\<lambda>v. Ok (Inline v))
       else if tag = ''artifact'' then
         and_then (required_artifact obj ''artifact_id'') (\<lambda>artifact_id.
         and_then (required_u64 obj ''byte_len'') (\<lambda>byte_len.
         and_then (required_string obj ''media_type'') (\<lambda>media_type.
           Ok (Artifact artifact_id byte_len media_type))))
       else Err (UnknownName ''payload reference kind'' tag)))"

fun payload_ok :: "payload_ref \<Rightarrow> bool" where
  "payload_ok (Inline _) = True"
| "payload_ok (Artifact artifact_id _ _) = digest_ok artifact_id"

definition encode_model :: "model_changed_entry \<Rightarrow> json_value" where
  "encode_model model =
     object [(''provider'', JString (mc_provider model)), (''model'', JString (mc_model model)),
       (''revision'', optional_string (mc_revision model))]"

definition decode_model :: "json_value \<Rightarrow> (decode_error, model_changed_entry) result" where
  "decode_model value =
     and_then (read_object value) (\<lambda>obj.
     and_then (required_string obj ''provider'') (\<lambda>provider.
     and_then (required_string obj ''model'') (\<lambda>model.
     and_then (optional_string_of obj ''revision'') (\<lambda>revision.
       Ok \<lparr>mc_provider = provider, mc_model = model, mc_revision = revision\<rparr>))))"

definition encode_optional_model :: "model_changed_entry option \<Rightarrow> json_value" where
  "encode_optional_model model = optional_value (map_option encode_model model)"

definition decode_optional_model ::
    "wire_fields \<Rightarrow> string \<Rightarrow> (decode_error, model_changed_entry option) result" where
  "decode_optional_model obj k = map_transpose decode_model (optional_value_of obj k)"

definition encode_subagent_model :: "subagent_model_record \<Rightarrow> json_value" where
  "encode_subagent_model model =
     object [(''provider'', JString (sm_provider model)), (''model'', JString (sm_model model)),
       (''revision'', optional_string (sm_revision model)),
       (''display_name'', JString (sm_display_name model)),
       (''context_window'', optional_u64 (sm_context_window model))]"

definition decode_subagent_model :: "json_value \<Rightarrow> (decode_error, subagent_model_record) result" where
  "decode_subagent_model value =
     and_then (read_object value) (\<lambda>obj.
     and_then (required_string obj ''provider'') (\<lambda>provider.
     and_then (required_string obj ''model'') (\<lambda>model.
     and_then (optional_string_of obj ''revision'') (\<lambda>revision.
     and_then (required_string obj ''display_name'') (\<lambda>display_name.
     and_then (optional_u64_of obj ''context_window'') (\<lambda>context_window.
       Ok \<lparr>sm_provider = provider, sm_model = model, sm_revision = revision,
           sm_display_name = display_name, sm_context_window = context_window\<rparr>))))))"

section \<open>Opaque provider context\<close>

definition MAX_OPAQUE_PROVIDER_CONTEXT_BYTES :: nat where
  "MAX_OPAQUE_PROVIDER_CONTEXT_BYTES = 1048576"

definition MAX_OPAQUE_PROVIDER_CONTEXT_PROVIDER_BYTES :: nat where
  "MAX_OPAQUE_PROVIDER_CONTEXT_PROVIDER_BYTES = 64"

definition MAX_OPAQUE_PROVIDER_CONTEXT_KIND_BYTES :: nat where
  "MAX_OPAQUE_PROVIDER_CONTEXT_KIND_BYTES = 64"

definition MAX_OPAQUE_PROVIDER_CONTEXT_ITEM_ID_BYTES :: nat where
  "MAX_OPAQUE_PROVIDER_CONTEXT_ITEM_ID_BYTES = 512"

definition encode_opaque_provider_context :: "opaque_provider_context_entry \<Rightarrow> json_value" where
  "encode_opaque_provider_context value =
     object [(''provider'', JString (op_provider value)), (''kind'', JString (op_kind value)),
       (''item_id'', optional_string (op_item_id value)), (''payload'', JString (op_payload value))]"

definition check_context_label :: "string \<Rightarrow> nat \<Rightarrow> string \<Rightarrow> (decode_error, unit) result" where
  "check_context_label what bound value =
     (if is_blank value then Err (OpaqueContext (what @ '' must not be empty''))
      else if length value > bound then Err (OpaqueContext (what @ '' too long''))
      else if has_control value
      then Err (OpaqueContext (what @ '' must not contain control characters''))
      else Ok ())"

definition check_context_item :: "string option \<Rightarrow> (decode_error, unit) result" where
  "check_context_item item_id =
     (case item_id of
        None \<Rightarrow> Ok ()
      | Some i \<Rightarrow>
          if i = [] then Err (OpaqueContext ''item_id must not be empty'')
          else if length i > MAX_OPAQUE_PROVIDER_CONTEXT_ITEM_ID_BYTES
          then Err (OpaqueContext ''item_id too long'')
          else if has_control i
          then Err (OpaqueContext ''item_id must not contain control characters'')
          else Ok ())"

definition check_context_payload :: "string \<Rightarrow> (decode_error, unit) result" where
  "check_context_payload payload =
     (if payload = [] then Err (OpaqueContext ''payload must not be empty'')
      else if length payload > MAX_OPAQUE_PROVIDER_CONTEXT_BYTES
      then Err (OpaqueContext ''payload too long'') else Ok ())"

definition decode_opaque_provider_context ::
    "json_value \<Rightarrow> (decode_error, opaque_provider_context_entry) result" where
  "decode_opaque_provider_context value =
     and_then (read_object value) (\<lambda>obj.
     and_then (required_string obj ''provider'') (\<lambda>provider.
     and_then (required_string obj ''kind'') (\<lambda>kind.
     and_then (optional_string_of obj ''item_id'') (\<lambda>item_id.
     and_then (required_string obj ''payload'') (\<lambda>payload.
     and_then (check_context_label ''provider'' MAX_OPAQUE_PROVIDER_CONTEXT_PROVIDER_BYTES provider) (\<lambda>_.
     and_then (check_context_label ''kind'' MAX_OPAQUE_PROVIDER_CONTEXT_KIND_BYTES kind) (\<lambda>_.
     and_then (check_context_item item_id) (\<lambda>_.
     and_then (check_context_payload payload) (\<lambda>_.
       Ok \<lparr>op_provider = provider, op_kind = kind, op_item_id = item_id, op_payload = payload\<rparr>)))))))))"

text \<open>The values the decoder accepts. The writer does not check them.\<close>

definition opaque_ok :: "opaque_provider_context_entry \<Rightarrow> bool" where
  "opaque_ok c \<longleftrightarrow>
     is_ok (check_context_label ''provider'' MAX_OPAQUE_PROVIDER_CONTEXT_PROVIDER_BYTES (op_provider c)) \<and>
     is_ok (check_context_label ''kind'' MAX_OPAQUE_PROVIDER_CONTEXT_KIND_BYTES (op_kind c)) \<and>
     is_ok (check_context_item (op_item_id c)) \<and> is_ok (check_context_payload (op_payload c))"

section \<open>Provider errors\<close>

definition encode_provider_error :: "provider_error_record \<Rightarrow> json_value" where
  "encode_provider_error error =
     object [(''source'', JString (pe_source error)), (''message'', optional_string (pe_message error)),
       (''status_code'', optional_u64 (map_option ucast (pe_status_code error))),
       (''attempt'', optional_u64 (map_option ucast (pe_attempt error))),
       (''logical_request_id'', optional_string (pe_logical_request_id error)),
       (''visible_stream_event'', optional_bool (pe_visible_stream_event error)),
       (''auth_refresh_attempted'', optional_bool (pe_auth_refresh_attempted error)),
       (''quota_reset_at_unix_seconds'', optional_u64 (pe_quota_reset_at_unix_seconds error)),
       (''error_type'', optional_string (pe_error_type error)),
       (''error_code'', optional_string (pe_error_code error)),
       (''retryable'', optional_bool (pe_retryable error)),
       (''response_bytes'', optional_u64 (pe_response_bytes error)),
       (''request_bytes'', optional_u64 (pe_request_bytes error)),
       (''response_body'', optional_string (pe_response_body error))]"

definition decode_provider_error :: "json_value \<Rightarrow> (decode_error, provider_error_record) result" where
  "decode_provider_error value =
     and_then (ok_or (as_object value) ProviderErrorNotObject) (\<lambda>obj.
     and_then (and_then (optional_u64_of obj ''status_code'')
       (map_transpose (narrow ''provider_error status_code exceeds u16''))) (\<lambda>status_code.
     and_then (and_then (optional_u64_of obj ''attempt'')
       (map_transpose (narrow ''provider_error attempt exceeds u32''))) (\<lambda>attempt.
     and_then (optional_u64_of obj ''response_bytes'') (\<lambda>response_bytes.
     and_then (optional_u64_of obj ''request_bytes'') (\<lambda>request_bytes.
     and_then (required_string obj ''source'') (\<lambda>source.
     and_then (optional_string_of obj ''message'') (\<lambda>message.
     and_then (optional_string_of obj ''logical_request_id'') (\<lambda>logical_request_id.
     and_then (optional_bool_of obj ''visible_stream_event'') (\<lambda>visible_stream_event.
     and_then (optional_bool_of obj ''auth_refresh_attempted'') (\<lambda>auth_refresh_attempted.
     and_then (optional_u64_of obj ''quota_reset_at_unix_seconds'') (\<lambda>quota_reset_at_unix_seconds.
     and_then (optional_string_of obj ''error_type'') (\<lambda>error_type.
     and_then (optional_string_of obj ''error_code'') (\<lambda>error_code.
     and_then (optional_bool_of obj ''retryable'') (\<lambda>retryable.
     and_then (optional_string_of obj ''response_body'') (\<lambda>response_body.
       Ok \<lparr>pe_source = source, pe_message = message, pe_status_code = status_code,
           pe_attempt = attempt, pe_logical_request_id = logical_request_id,
           pe_visible_stream_event = visible_stream_event,
           pe_auth_refresh_attempted = auth_refresh_attempted,
           pe_quota_reset_at_unix_seconds = quota_reset_at_unix_seconds,
           pe_error_type = error_type, pe_error_code = error_code, pe_retryable = retryable,
           pe_response_bytes = response_bytes, pe_request_bytes = request_bytes,
           pe_response_body = response_body\<rparr>)))))))))))))))"

section \<open>Operation kinds, outcomes and hook data\<close>

fun encode_operation_kind :: "operation_kind \<Rightarrow> json_value" where
  "encode_operation_kind RunOp = object [(''kind'', JString ''run'')]"
| "encode_operation_kind (Subagent agent_id parent_operation_id) =
     object [(''kind'', JString ''subagent''), (''agent_id'', JString agent_id),
       (''parent_operation_id'', JString parent_operation_id)]"
| "encode_operation_kind (OtherOp name) =
     object [(''kind'', JString ''other''), (''name'', JString name)]"

definition decode_operation_kind :: "json_value \<Rightarrow> (decode_error, operation_kind) result" where
  "decode_operation_kind value =
     and_then (read_object value) (\<lambda>obj.
     and_then (required_string obj ''kind'') (\<lambda>tag.
       if tag = ''run'' then Ok RunOp
       else if tag = ''subagent'' then
         and_then (required_id obj ''agent_id'') (\<lambda>agent_id.
         and_then (required_id obj ''parent_operation_id'') (\<lambda>parent_operation_id.
           Ok (Subagent agent_id parent_operation_id)))
       else if tag = ''other'' then
         and_then (required_string obj ''name'') (\<lambda>name. Ok (OtherOp name))
       else Err (UnknownName ''operation kind'' tag)))"

fun operation_kind_ok :: "operation_kind \<Rightarrow> bool" where
  "operation_kind_ok (Subagent agent_id parent_operation_id) =
     (id_ok agent_id \<and> id_ok parent_operation_id)"
| "operation_kind_ok _ = True"

fun encode_operation_outcome :: "operation_outcome \<Rightarrow> json_value" where
  "encode_operation_outcome Completed = object [(''kind'', JString ''completed'')]"
| "encode_operation_outcome Aborted = object [(''kind'', JString ''aborted'')]"
| "encode_operation_outcome (Failed code) =
     object [(''kind'', JString ''failed''), (''code'', JString code)]"

definition decode_operation_outcome :: "json_value \<Rightarrow> (decode_error, operation_outcome) result" where
  "decode_operation_outcome value =
     and_then (read_object value) (\<lambda>obj.
     and_then (required_string obj ''kind'') (\<lambda>tag.
       if tag = ''completed'' then Ok Completed
       else if tag = ''aborted'' then Ok Aborted
       else if tag = ''failed'' then and_then (required_string obj ''code'') (\<lambda>code. Ok (Failed code))
       else Err (UnknownName ''operation outcome'' tag)))"

definition encode_hook_data :: "(stable_hook_id, json_value) btree \<Rightarrow> json_value" where
  "encode_hook_data data = object data"

definition decode_hook_data ::
    "json_value \<Rightarrow> (decode_error, (stable_hook_id, json_value) btree) result" where
  "decode_hook_data value =
     and_then (read_object value) (\<lambda>obj.
     and_then (try_map (\<lambda>(key, v). and_then (parse_id key) (\<lambda>hook. Ok (hook, v))) obj) (\<lambda>pairs.
       Ok (btree_of pairs)))"

definition hook_data_ok :: "(stable_hook_id, json_value) btree \<Rightarrow> bool" where
  "hook_data_ok data \<longleftrightarrow> btree_ok data \<and> list_all (\<lambda>p. id_ok (fst p)) data"

section \<open>Enums written as a name\<close>

fun memory_visibility_name :: "memory_visibility \<Rightarrow> string" where
  "memory_visibility_name ModelVisible = ''model_visible''"
| "memory_visibility_name ExternalOnly = ''external_only''"

definition parse_memory_visibility :: "string \<Rightarrow> (decode_error, memory_visibility) result" where
  "parse_memory_visibility value =
     (if value = ''model_visible'' then Ok ModelVisible
      else if value = ''external_only'' then Ok ExternalOnly
      else Err (UnknownName ''memory visibility'' value))"

fun memory_retention_name :: "memory_retention \<Rightarrow> string" where
  "memory_retention_name SessionRetention = ''session''"
| "memory_retention_name CheckpointRetention = ''checkpoint''"

definition parse_memory_retention :: "string \<Rightarrow> (decode_error, memory_retention) result" where
  "parse_memory_retention value =
     (if value = ''session'' then Ok SessionRetention
      else if value = ''checkpoint'' then Ok CheckpointRetention
      else Err (UnknownName ''memory retention'' value))"

fun step_kind_name :: "step_kind \<Rightarrow> string" where
  "step_kind_name AssistantStep = ''assistant''"
| "step_kind_name CompactionStep = ''compaction''"

definition parse_step_kind :: "string \<Rightarrow> (decode_error, step_kind) result" where
  "parse_step_kind value =
     (if value = ''assistant'' then Ok AssistantStep
      else if value = ''compaction'' then Ok CompactionStep
      else Err (UnknownName ''step kind'' value))"

fun epoch_finish_reason_name :: "epoch_finish_reason \<Rightarrow> string" where
  "epoch_finish_reason_name Settled_epoch = ''settled''"
| "epoch_finish_reason_name ActivationPending = ''activation_pending''"
| "epoch_finish_reason_name Interrupted_epoch = ''interrupted''"

definition parse_epoch_finish_reason :: "string \<Rightarrow> (decode_error, epoch_finish_reason) result" where
  "parse_epoch_finish_reason value =
     (if value = ''settled'' then Ok Settled_epoch
      else if value = ''activation_pending'' then Ok ActivationPending
      else if value = ''interrupted'' then Ok Interrupted_epoch
      else Err (UnknownName ''epoch finish reason'' value))"

fun tool_replay_policy_name :: "tool_replay_policy \<Rightarrow> string" where
  "tool_replay_policy_name Never = ''never''"
| "tool_replay_policy_name Safe = ''safe''"

definition parse_tool_replay_policy :: "string \<Rightarrow> (decode_error, tool_replay_policy) result" where
  "parse_tool_replay_policy value =
     (if value = ''never'' then Ok Never
      else if value = ''safe'' then Ok Safe
      else Err (UnknownName ''tool replay policy'' value))"

fun provider_classification_name :: "provider_settlement_classification \<Rightarrow> string" where
  "provider_classification_name Completed_request = ''completed''"
| "provider_classification_name Retryable = ''retryable''"
| "provider_classification_name Discarded = ''discarded''"
| "provider_classification_name Interrupted_request = ''interrupted''"

definition parse_provider_classification ::
    "string \<Rightarrow> (decode_error, provider_settlement_classification) result" where
  "parse_provider_classification value =
     (if value = ''completed'' then Ok Completed_request
      else if value = ''retryable'' then Ok Retryable
      else if value = ''discarded'' then Ok Discarded
      else if value = ''interrupted'' then Ok Interrupted_request
      else Err (UnknownName ''provider settlement classification'' value))"

fun agent_context_mode_name :: "agent_context_mode \<Rightarrow> string" where
  "agent_context_mode_name TaskContext = ''task''"
| "agent_context_mode_name ParentContext = ''parent''"

definition parse_agent_context_mode :: "string \<Rightarrow> (decode_error, agent_context_mode) result" where
  "parse_agent_context_mode value =
     (if value = ''task'' then Ok TaskContext
      else if value = ''parent'' then Ok ParentContext
      else Err (UnknownName ''agent context mode'' value))"

section \<open>The codec contracts\<close>

locale wire_codec =
  fixes encode :: "'a \<Rightarrow> json_value"
    and decode :: "json_value \<Rightarrow> (decode_error, 'a) result"
    and ok :: "'a \<Rightarrow> bool"
  assumes decode_encode: "ok x \<Longrightarrow> decode (encode x) = Inr x"
begin

lemma encode_inject: "ok x \<Longrightarrow> ok y \<Longrightarrow> encode x = encode y \<Longrightarrow> x = y"
  using decode_encode by (metis sum.inject(2))

lemma decode_list: "list_all ok xs \<Longrightarrow> try_map decode (map encode xs) = Inr xs"
  by (induction xs) (simp_all add: decode_encode)

end

locale object_codec = wire_codec encode decode ok
  for encode :: "'a \<Rightarrow> json_value" and decode and ok +
  assumes encode_object: "is_object (encode x)"
begin

lemma encode_not_null: "encode x \<noteq> JNull"
  using encode_object [of x] by (auto simp: is_object_def)

lemma decode_optional:
  assumes "btree_get obj k = Some (optional_value (map_option encode x))" and "pred_option ok x"
  shows "map_transpose decode (optional_value_of obj k) = Inr x"
  using assms by (cases x) (simp_all add: optional_value_of_def encode_not_null decode_encode)

lemma decode_present:
  assumes "btree_get obj k = Some (encode x)" and "ok x"
  shows "map_transpose decode (optional_value_of obj k) = Inr (Some x)"
  using assms by (simp add: optional_value_of_def encode_not_null decode_encode)

lemma decode_absent:
  assumes "btree_get obj k = None"
  shows "map_transpose decode (optional_value_of obj k) = Inr None"
  using assms by (simp add: optional_value_of_def)

end

locale name_codec =
  fixes to_name :: "'a \<Rightarrow> string"
    and of_name :: "string \<Rightarrow> (decode_error, 'a) result"
  assumes of_to_name: "of_name (to_name v) = Inr v"
begin

lemma to_name_inject: "to_name v = to_name w \<longleftrightarrow> v = w"
  using of_to_name by (metis sum.inject(2))

end

lemma btree_get_of: "btree_get (btree_of kvs) k = btree_get (rev kvs) k"
  for kvs :: "('k::linorder \<times> 'v) list"
proof -
  have "btree_get (fold (\<lambda>(k, v). btree_insert k v) kvs m) k = btree_get (rev kvs @ m) k"
    for m :: "('k, 'v) btree"
    by (induction kvs arbitrary: m) (auto simp: map_add_def split: option.splits)
  then show ?thesis by (simp add: btree_of_def)
qed

lemma read_object_object: "read_object (object kvs) = Inr (btree_of kvs)"
  by (simp add: read_object_def object_def)

lemma is_object_object: "is_object (object kvs)"
  by (simp add: is_object_def object_def)

lemma parse_id_ok: "id_ok i \<Longrightarrow> parse_id i = Inr i"
  by (auto simp: id_ok_def parse_id_def new_id_def is_ok_iff)

lemma parse_digest_ok: "digest_ok d \<Longrightarrow> parse_digest (to_hex d) = Inr d"
  by (simp add: digest_ok_def parse_digest_def from_hex_to_hex)

lemma parse_artifact_ok: "digest_ok d \<Longrightarrow> parse_artifact (to_hex d) = Inr d"
  by (simp add: digest_ok_def parse_artifact_def from_hex_to_hex)

lemma narrow_ucast:
  "LENGTH('a) \<le> 64 \<Longrightarrow> narrow message (ucast w) = Inr w" for w :: "'a::len word"
proof -
  assume le: "LENGTH('a) \<le> 64"
  have lt: "unat w < 2 ^ LENGTH('a)" by (rule unsigned_less)
  also have "\<dots> \<le> 2 ^ 64" using le by (rule power_increasing) simp
  finally have "unat (ucast w :: u64) = unat w"
    by (simp add: unsigned_ucast_eq take_bit_nat_eq_self)
  moreover have "(ucast (ucast w :: u64) :: 'a word) = w"
    by (rule bit_word_eqI) (use le in \<open>auto simp: bit_ucast_iff\<close>)
  ultimately show ?thesis using lt by (simp add: narrow_def)
qed

text \<open>Reading back the field a writer wrote.\<close>

lemma required_value_get: "btree_get obj k = Some v \<Longrightarrow> required_value obj k = Inr v"
  by (simp add: required_value_def)

lemma required_string_get: "btree_get obj k = Some (JString s) \<Longrightarrow> required_string obj k = Inr s"
  by (simp add: required_string_def required_value_def)

lemma required_u64_get: "btree_get obj k = Some (u64_value n) \<Longrightarrow> required_u64 obj k = Inr n"
  by (simp add: required_u64_def required_value_def u64_value_def)

lemma required_bool_get: "btree_get obj k = Some (JBool b) \<Longrightarrow> required_bool obj k = Inr b"
  by (simp add: required_bool_def required_value_def)

lemma required_array_get: "btree_get obj k = Some (JArray vs) \<Longrightarrow> required_array obj k = Inr vs"
  by (simp add: required_array_def required_value_def)

lemma required_metadata_get: "btree_get obj k = Some (JObject fs) \<Longrightarrow> required_metadata obj k = Inr fs"
  by (simp add: required_metadata_def required_value_def)

lemma required_id_get:
  "btree_get obj k = Some (JString i) \<Longrightarrow> id_ok i \<Longrightarrow> required_id obj k = Inr i"
  by (simp add: required_id_def required_string_get parse_id_ok)

lemma required_digest_get:
  "btree_get obj k = Some (digest_value d) \<Longrightarrow> digest_ok d \<Longrightarrow> required_digest obj k = Inr d"
  by (simp add: required_digest_def digest_value_def required_string_get parse_digest_ok)

lemma required_artifact_get:
  "btree_get obj k = Some (artifact_value d) \<Longrightarrow> digest_ok d \<Longrightarrow> required_artifact obj k = Inr d"
  by (simp add: required_artifact_def artifact_value_def required_string_get parse_artifact_ok)

lemma required_word_get:
  "btree_get obj k = Some (u64_value (ucast w)) \<Longrightarrow> LENGTH('a) \<le> 64 \<Longrightarrow>
     required_word obj k message = Inr w" for w :: "'a::len word"
  by (simp add: required_word_def required_u64_get narrow_ucast)

lemma string_array_values: "string_array (map JString vs) = Inr vs"
  by (induction vs) (simp_all add: string_array_def)

lemma required_strings_get:
  "btree_get obj k = Some (string_values vs) \<Longrightarrow> required_strings obj k = Inr vs"
  by (simp add: required_strings_def string_values_def required_array_get string_array_values)

lemma optional_string_of_get:
  "btree_get obj k = Some (optional_string x) \<Longrightarrow> optional_string_of obj k = Inr x"
  by (cases x) (simp_all add: optional_string_of_def optional_string_def optional_value_of_def)

lemma optional_u64_of_get:
  "btree_get obj k = Some (optional_u64 x) \<Longrightarrow> optional_u64_of obj k = Inr x"
  by (cases x) (simp_all add: optional_u64_of_def optional_u64_def optional_value_of_def u64_value_def)

lemma optional_bool_of_get:
  "btree_get obj k = Some (optional_bool x) \<Longrightarrow> optional_bool_of obj k = Inr x"
  by (cases x) (simp_all add: optional_bool_of_def optional_bool_def optional_value_of_def)

lemma optional_id_of_get:
  "btree_get obj k = Some (optional_id x) \<Longrightarrow> pred_option id_ok x \<Longrightarrow> optional_id_of obj k = Inr x"
  by (cases x)
    (simp_all add: optional_id_of_def optional_string_of_def optional_id_def optional_value_of_def parse_id_ok)

lemma optional_artifact_of_get:
  "btree_get obj k = Some (optional_artifact x) \<Longrightarrow> pred_option digest_ok x \<Longrightarrow>
     optional_artifact_of obj k = Inr x"
  by (cases x) (simp_all add: optional_artifact_of_def optional_string_of_def optional_artifact_def
      artifact_value_def optional_value_of_def parse_artifact_ok)

lemma map_transpose_narrow:
  "LENGTH('a) \<le> 64 \<Longrightarrow> map_transpose (narrow message) (map_option ucast x) = Inr x"
  for x :: "'a::len word option"
  by (cases x) (simp_all add: narrow_ucast)

lemmas reader_gets =
  required_value_get required_string_get required_u64_get required_bool_get required_array_get
  required_metadata_get required_id_get required_digest_get required_artifact_get required_word_get
  required_strings_get optional_string_of_get optional_u64_of_get optional_bool_of_get
  optional_id_of_get optional_artifact_of_get map_transpose_narrow

lemmas wire_simps = read_object_object is_object_object btree_get_of reader_gets

section \<open>The codecs keep the contract\<close>

interpretation usage: object_codec encode_usage decode_usage "\<lambda>_. True"
  by unfold_locales (simp_all add: encode_usage_def decode_usage_def wire_simps)

interpretation payload: object_codec encode_payload_ref decode_payload_ref payload_ok
proof
  show "payload_ok x \<Longrightarrow> decode_payload_ref (encode_payload_ref x) = Inr x" for x
    by (cases x) (simp_all add: decode_payload_ref_def wire_simps)
  show "is_object (encode_payload_ref x)" for x
    by (cases x) (simp_all add: wire_simps)
qed

interpretation model: object_codec encode_model decode_model "\<lambda>_. True"
  by unfold_locales (simp_all add: encode_model_def decode_model_def wire_simps)

interpretation subagent_model: object_codec encode_subagent_model decode_subagent_model "\<lambda>_. True"
  by unfold_locales (simp_all add: encode_subagent_model_def decode_subagent_model_def wire_simps)

interpretation opaque: object_codec encode_opaque_provider_context decode_opaque_provider_context opaque_ok
  by unfold_locales
    (auto simp: encode_opaque_provider_context_def decode_opaque_provider_context_def wire_simps
      opaque_ok_def is_ok_unit)

interpretation provider_error: object_codec encode_provider_error decode_provider_error "\<lambda>_. True"
proof
  show "decode_provider_error (encode_provider_error x) = Inr x" for x
    by (simp add: encode_provider_error_def decode_provider_error_def object_def wire_simps)
  show "is_object (encode_provider_error x)" for x
    by (simp add: encode_provider_error_def wire_simps)
qed

interpretation operation_kind: object_codec encode_operation_kind decode_operation_kind operation_kind_ok
proof
  show "operation_kind_ok x \<Longrightarrow> decode_operation_kind (encode_operation_kind x) = Inr x" for x
    by (cases x) (simp_all add: decode_operation_kind_def wire_simps)
  show "is_object (encode_operation_kind x)" for x
    by (cases x) (simp_all add: wire_simps)
qed

interpretation operation_outcome: object_codec encode_operation_outcome decode_operation_outcome "\<lambda>_. True"
proof
  show "decode_operation_outcome (encode_operation_outcome x) = Inr x" for x
    by (cases x) (simp_all add: decode_operation_outcome_def wire_simps)
  show "is_object (encode_operation_outcome x)" for x
    by (cases x) (simp_all add: wire_simps)
qed

lemma btree_of_ok: "btree_ok m \<Longrightarrow> btree_of m = m"
proof (rule btree.iteration_determined)
  assume "btree_ok m"
  then show "btree_get (btree_of m) = btree_get m"
    by (simp add: btree_get_of [abs_def] map_of_inject_set btree_ok_distinct rev_map [symmetric])
qed simp_all

lemma try_map_keys:
  "list_all (\<lambda>p. id_ok (fst p)) m \<Longrightarrow>
     try_map (\<lambda>(key, v). and_then (parse_id key) (\<lambda>hook. Inr (hook, v))) m = Inr m"
  by (induction m) (auto simp: parse_id_ok)

interpretation hook_data: object_codec encode_hook_data decode_hook_data hook_data_ok
  by unfold_locales
    (simp_all add: encode_hook_data_def decode_hook_data_def hook_data_ok_def btree_of_ok try_map_keys
      read_object_object is_object_object)

interpretation memory_visibility: name_codec memory_visibility_name parse_memory_visibility
proof
  show "parse_memory_visibility (memory_visibility_name v) = Inr v" for v
    by (cases v) (simp_all add: parse_memory_visibility_def)
qed

interpretation memory_retention: name_codec memory_retention_name parse_memory_retention
proof
  show "parse_memory_retention (memory_retention_name v) = Inr v" for v
    by (cases v) (simp_all add: parse_memory_retention_def)
qed

interpretation step_kind: name_codec step_kind_name parse_step_kind
proof
  show "parse_step_kind (step_kind_name v) = Inr v" for v
    by (cases v) (simp_all add: parse_step_kind_def)
qed

interpretation epoch_finish_reason: name_codec epoch_finish_reason_name parse_epoch_finish_reason
proof
  show "parse_epoch_finish_reason (epoch_finish_reason_name v) = Inr v" for v
    by (cases v) (simp_all add: parse_epoch_finish_reason_def)
qed

interpretation tool_replay_policy: name_codec tool_replay_policy_name parse_tool_replay_policy
proof
  show "parse_tool_replay_policy (tool_replay_policy_name v) = Inr v" for v
    by (cases v) (simp_all add: parse_tool_replay_policy_def)
qed

interpretation provider_classification: name_codec provider_classification_name parse_provider_classification
proof
  show "parse_provider_classification (provider_classification_name v) = Inr v" for v
    by (cases v) (simp_all add: parse_provider_classification_def)
qed

interpretation agent_context_mode: name_codec agent_context_mode_name parse_agent_context_mode
proof
  show "parse_agent_context_mode (agent_context_mode_name v) = Inr v" for v
    by (cases v) (simp_all add: parse_agent_context_mode_def)
qed

lemmas codec_rules =
  usage.decode_encode payload.decode_encode model.decode_encode subagent_model.decode_encode
  opaque.decode_encode provider_error.decode_encode operation_kind.decode_encode
  operation_outcome.decode_encode hook_data.decode_encode memory_visibility.of_to_name
  memory_retention.of_to_name step_kind.of_to_name epoch_finish_reason.of_to_name
  tool_replay_policy.of_to_name provider_classification.of_to_name agent_context_mode.of_to_name

end
