(* ===== verification/Codec_Entries.thy ===== *)
theory Codec_Entries
  imports Codec_Fields
begin

text \<open>
  The codec of semantic entries, \<open>encode_entry\<close> and \<open>decode_entry\<close> of
  \<open>crates/tea-session/src/jsonl.rs\<close>, with the assistant message it nests. \<open>entry_ok\<close> collects the
  invariants of an entry's identifiers and digests, the bounds the decoder puts on opaque provider
  context, and that a reply does not consist of one empty text block.
\<close>

section \<open>Assistant messages\<close>

definition encode_assistant_tool_call :: "assistant_tool_call \<Rightarrow> json_value" where
  "encode_assistant_tool_call call =
     object [(''id'', JString (tc_id call)), (''name'', JString (tc_name call)),
       (''arguments'', tc_arguments call)]"

definition decode_assistant_tool_call :: "json_value \<Rightarrow> (decode_error, assistant_tool_call) result" where
  "decode_assistant_tool_call value =
     and_then (read_object value) (\<lambda>obj.
     and_then (required_string obj ''id'') (\<lambda>i.
     and_then (required_string obj ''name'') (\<lambda>name.
     and_then (required_value obj ''arguments'') (\<lambda>arguments.
       Ok \<lparr>tc_id = i, tc_name = name, tc_arguments = arguments\<rparr>))))"

fun encode_assistant_block :: "assistant_content_entry \<Rightarrow> json_value" where
  "encode_assistant_block (Text text) = object [(''type'', JString ''text''), (''text'', JString text)]"
| "encode_assistant_block (Thinking text signature) =
     object [(''type'', JString ''thinking''), (''text'', JString text),
       (''signature'', optional_value (map_option encode_opaque_provider_context signature))]"
| "encode_assistant_block (RedactedThinking data) =
     object [(''type'', JString ''redacted_thinking''), (''data'', encode_opaque_provider_context data)]"

definition decode_assistant_block :: "json_value \<Rightarrow> (decode_error, assistant_content_entry) result" where
  "decode_assistant_block value =
     and_then (read_object value) (\<lambda>block.
     and_then (required_string block ''type'') (\<lambda>tag.
       if tag = ''text'' then and_then (required_string block ''text'') (\<lambda>text. Ok (Text text))
       else if tag = ''thinking'' then
         and_then (required_string block ''text'') (\<lambda>text.
         and_then (map_transpose decode_opaque_provider_context (optional_value_of block ''signature''))
           (\<lambda>signature. Ok (Thinking text signature)))
       else if tag = ''redacted_thinking'' then
         and_then (required_value block ''data'') (\<lambda>data.
         and_then (decode_opaque_provider_context data) (\<lambda>context. Ok (RedactedThinking context)))
       else Err (UnknownName ''assistant content block type'' tag)))"

fun block_ok :: "assistant_content_entry \<Rightarrow> bool" where
  "block_ok (Text _) = True"
| "block_ok (Thinking _ signature) = pred_option opaque_ok signature"
| "block_ok (RedactedThinking data) = opaque_ok data"

fun is_text_block :: "assistant_content_entry \<Rightarrow> bool" where
  "is_text_block (Text _) = True"
| "is_text_block _ = False"

definition text_only :: "assistant_content_entry list \<Rightarrow> bool" where
  "text_only content \<longleftrightarrow> length content \<le> 1 \<and> list_all is_text_block content"

definition encode_assistant_message :: "assistant_message_entry \<Rightarrow> json_value" where
  "encode_assistant_message entry =
     object
       ([(''type'', JString ''assistant_message''), (''content'', JString (assistant_text entry))] @
        (if text_only (am_content entry) then []
         else [(''content_blocks'', JArray (map encode_assistant_block (am_content entry)))]) @
        [(''tool_calls'', JArray (map encode_assistant_tool_call (am_tool_calls entry))),
         (''stop_reason'', optional_string (am_stop_reason entry)),
         (''error_message'', optional_string (am_error_message entry)),
         (''opaque_context'', JArray (map encode_opaque_provider_context (am_opaque_context entry))),
         (''metadata'', JObject (am_metadata entry))] @
        (case am_origin entry of None \<Rightarrow> [] | Some origin \<Rightarrow> [(''origin'', encode_model origin)]))"

definition decode_content :: "wire_fields \<Rightarrow> string \<Rightarrow> (decode_error, assistant_content_entry list) result" where
  "decode_content obj text =
     (case optional_value_of obj ''content_blocks'' of
        Some value \<Rightarrow>
          and_then (ok_or (as_array value) (FieldMustBe ''content_blocks'' ''an array'')) (\<lambda>values.
          and_then (try_map decode_assistant_block values) (\<lambda>blocks.
            if content_text blocks \<noteq> text then Err BlocksDisagree else Ok blocks))
      | None \<Rightarrow> Ok (text_content text))"

definition decode_opaque_contexts ::
    "wire_fields \<Rightarrow> (decode_error, opaque_provider_context_entry list) result" where
  "decode_opaque_contexts obj =
     (case optional_value_of obj ''opaque_context'' of
        None \<Rightarrow> Ok []
      | Some value \<Rightarrow>
          and_then (ok_or (as_array value) (FieldMustBe ''opaque_context'' ''an array or null''))
            (try_map decode_opaque_provider_context))"

definition decode_assistant_message :: "wire_fields \<Rightarrow> (decode_error, assistant_message_entry) result" where
  "decode_assistant_message obj =
     and_then (required_string obj ''content'') (\<lambda>text.
     and_then (decode_content obj text) (\<lambda>content.
     and_then (map_transpose decode_model (optional_value_of obj ''origin'')) (\<lambda>origin.
     and_then (required_array obj ''tool_calls'') (\<lambda>calls.
     and_then (try_map decode_assistant_tool_call calls) (\<lambda>tool_calls.
     and_then (optional_string_of obj ''stop_reason'') (\<lambda>stop_reason.
     and_then (optional_string_of obj ''error_message'') (\<lambda>error_message.
     and_then (decode_opaque_contexts obj) (\<lambda>opaque_context.
     and_then (required_metadata obj ''metadata'') (\<lambda>metadata.
       Ok \<lparr>am_content = content, am_tool_calls = tool_calls, am_stop_reason = stop_reason,
           am_error_message = error_message, am_opaque_context = opaque_context,
           am_origin = origin, am_metadata = metadata\<rparr>)))))))))"

definition assistant_ok :: "assistant_message_entry \<Rightarrow> bool" where
  "assistant_ok entry \<longleftrightarrow>
     list_all block_ok (am_content entry) \<and> am_content entry \<noteq> [Text []] \<and>
     list_all opaque_ok (am_opaque_context entry)"

section \<open>Entries\<close>

definition encode_section_change :: "prompt_section_change \<Rightarrow> json_value" where
  "encode_section_change change =
     object [(''id'', JString (ps_id change)), (''content'', optional_string (ps_content change))]"

definition decode_section_change :: "json_value \<Rightarrow> (decode_error, prompt_section_change) result" where
  "decode_section_change value =
     and_then (read_object value) (\<lambda>change.
     and_then (required_string change ''id'') (\<lambda>i.
     and_then (optional_string_of change ''content'') (\<lambda>content.
       Ok \<lparr>ps_id = i, ps_content = content\<rparr>)))"

definition encode_tool_declaration :: "tool_declaration_record \<Rightarrow> json_value" where
  "encode_tool_declaration tool =
     object [(''name'', JString (td_name tool)), (''description'', JString (td_description tool)),
       (''schema'', td_schema tool)]"

definition decode_tool_declaration :: "json_value \<Rightarrow> (decode_error, tool_declaration_record) result" where
  "decode_tool_declaration value =
     and_then (read_object value) (\<lambda>tool.
     and_then (required_string tool ''name'') (\<lambda>name.
     and_then (required_string tool ''description'') (\<lambda>description.
     and_then (required_value tool ''schema'') (\<lambda>schema.
       Ok \<lparr>td_name = name, td_description = description, td_schema = schema\<rparr>))))"

fun encode_entry :: "session_entry \<Rightarrow> json_value" where
  "encode_entry (UserMessage entry) =
     object [(''type'', JString ''user_message''), (''content'', JString (um_content entry)),
       (''metadata'', JObject (um_metadata entry))]"
| "encode_entry (AssistantMessage entry) = encode_assistant_message entry"
| "encode_entry (ToolResult entry) =
     object [(''type'', JString ''tool_result''), (''tool_call_id'', JString (tr_tool_call_id entry)),
       (''tool_name'', JString (tr_tool_name entry)),
       (''full_result'', encode_payload_ref (tr_full_result entry)),
       (''model_projection'', tr_model_projection entry), (''is_error'', JBool (tr_is_error entry)),
       (''terminate'', JBool (tr_terminate entry)), (''usage'', encode_usage (tr_usage entry)),
       (''projection_strategy_id'', JString (tr_projection_strategy_id entry)),
       (''artifact_policy_id'', JString (tr_artifact_policy_id entry))]"
| "encode_entry (Compaction entry) =
     object [(''type'', JString ''compaction''), (''covered_from'', optional_id (ce_covered_from entry)),
       (''covered_to'', optional_id (ce_covered_to entry)),
       (''retained_tail_boundary'', optional_id (ce_retained_tail_boundary entry)),
       (''summary'', JString (ce_summary entry)), (''strategy_id'', JString (ce_strategy_id entry)),
       (''recovery_index_artifact'', optional_artifact (ce_recovery_index_artifact entry)),
       (''harness_revision_id'', optional_id (ce_harness_revision_id entry)),
       (''replacement'', encode_payload_ref (ce_replacement entry)),
       (''replacement_digest'', digest_value (ce_replacement_digest entry)),
       (''provider_request_id'', optional_id (ce_provider_request_id entry))]"
| "encode_entry (BranchSummary entry) =
     object [(''type'', JString ''branch_summary''), (''summary'', JString (bs_summary entry)),
       (''covered_to'', optional_id (bs_covered_to entry))]"
| "encode_entry (ModelChanged entry) =
     object [(''type'', JString ''model_changed''), (''provider'', JString (mc_provider entry)),
       (''model'', JString (mc_model entry)), (''revision'', optional_string (mc_revision entry))]"
| "encode_entry (ThinkingChanged level) =
     object [(''type'', JString ''thinking_changed''), (''level'', JString level)]"
| "encode_entry (ConfigurationChanged entry) =
     object [(''type'', JString ''configuration_changed''),
       (''sections'', JArray (map encode_section_change (cc_sections entry))),
       (''tools_added'', JArray (map encode_tool_declaration (cc_tools_added entry))),
       (''tools_removed'', string_values (cc_tools_removed entry))]"
| "encode_entry (HarnessRevisionChanged entry) =
     object [(''type'', JString ''harness_revision_changed''),
       (''revision_id'', JString (hr_revision_id entry)),
       (''snapshot_id'', JString (hr_snapshot_id entry)),
       (''rollback_from'', optional_id (hr_rollback_from entry))]"
| "encode_entry (PluginMemory entry) =
     object [(''type'', JString ''plugin_memory''), (''plugin_id'', JString (pm_plugin_id entry)),
       (''kind'', JString (pm_kind entry)), (''content'', encode_payload_ref (pm_content entry)),
       (''provenance'', string_values (pm_provenance entry)),
       (''visibility'', JString (memory_visibility_name (pm_visibility entry))),
       (''retention'', JString (memory_retention_name (pm_retention entry)))]"
| "encode_entry (CustomEntry entry) =
     object [(''type'', JString ''custom''), (''type_name'', JString (cu_type_name entry)),
       (''payload'', encode_payload_ref (cu_payload entry)),
       (''model_visible'', JBool (cu_model_visible entry))]"

definition required_payload :: "wire_fields \<Rightarrow> string \<Rightarrow> (decode_error, payload_ref) result" where
  "required_payload obj k = and_then (required_value obj k) decode_payload_ref"

definition required_usage :: "wire_fields \<Rightarrow> string \<Rightarrow> (decode_error, usage) result" where
  "required_usage obj k = and_then (required_value obj k) decode_usage"

definition decode_user_message :: "wire_fields \<Rightarrow> (decode_error, user_message_entry) result" where
  "decode_user_message obj =
     and_then (required_string obj ''content'') (\<lambda>content.
     and_then (required_metadata obj ''metadata'') (\<lambda>metadata.
       Ok \<lparr>um_content = content, um_metadata = metadata\<rparr>))"

definition decode_tool_result :: "wire_fields \<Rightarrow> (decode_error, tool_result_entry) result" where
  "decode_tool_result obj =
     and_then (required_string obj ''tool_call_id'') (\<lambda>tool_call_id.
     and_then (required_string obj ''tool_name'') (\<lambda>tool_name.
     and_then (required_payload obj ''full_result'') (\<lambda>full_result.
     and_then (required_value obj ''model_projection'') (\<lambda>model_projection.
     and_then (required_bool obj ''is_error'') (\<lambda>is_error.
     and_then (required_bool obj ''terminate'') (\<lambda>terminate.
     and_then (required_usage obj ''usage'') (\<lambda>usage.
     and_then (required_string obj ''projection_strategy_id'') (\<lambda>projection_strategy_id.
     and_then (required_id obj ''artifact_policy_id'') (\<lambda>artifact_policy_id.
       Ok \<lparr>tr_tool_call_id = tool_call_id, tr_tool_name = tool_name, tr_full_result = full_result,
           tr_model_projection = model_projection, tr_is_error = is_error, tr_terminate = terminate,
           tr_usage = usage, tr_projection_strategy_id = projection_strategy_id,
           tr_artifact_policy_id = artifact_policy_id\<rparr>)))))))))"

definition decode_compaction :: "wire_fields \<Rightarrow> (decode_error, compaction_entry) result" where
  "decode_compaction obj =
     and_then (optional_id_of obj ''covered_from'') (\<lambda>covered_from.
     and_then (optional_id_of obj ''covered_to'') (\<lambda>covered_to.
     and_then (optional_id_of obj ''retained_tail_boundary'') (\<lambda>retained_tail_boundary.
     and_then (required_string obj ''summary'') (\<lambda>summary.
     and_then (required_string obj ''strategy_id'') (\<lambda>strategy_id.
     and_then (optional_artifact_of obj ''recovery_index_artifact'') (\<lambda>recovery_index_artifact.
     and_then (optional_id_of obj ''harness_revision_id'') (\<lambda>harness_revision_id.
     and_then (required_payload obj ''replacement'') (\<lambda>replacement.
     and_then (required_digest obj ''replacement_digest'') (\<lambda>replacement_digest.
     and_then (optional_id_of obj ''provider_request_id'') (\<lambda>provider_request_id.
       Ok \<lparr>ce_covered_from = covered_from, ce_covered_to = covered_to,
           ce_retained_tail_boundary = retained_tail_boundary, ce_summary = summary,
           ce_strategy_id = strategy_id, ce_recovery_index_artifact = recovery_index_artifact,
           ce_harness_revision_id = harness_revision_id, ce_replacement = replacement,
           ce_replacement_digest = replacement_digest,
           ce_provider_request_id = provider_request_id\<rparr>))))))))))"

definition decode_branch_summary :: "wire_fields \<Rightarrow> (decode_error, branch_summary_entry) result" where
  "decode_branch_summary obj =
     and_then (required_string obj ''summary'') (\<lambda>summary.
     and_then (optional_id_of obj ''covered_to'') (\<lambda>covered_to.
       Ok \<lparr>bs_summary = summary, bs_covered_to = covered_to\<rparr>))"

definition decode_model_changed :: "wire_fields \<Rightarrow> (decode_error, model_changed_entry) result" where
  "decode_model_changed obj =
     and_then (required_string obj ''provider'') (\<lambda>provider.
     and_then (required_string obj ''model'') (\<lambda>model.
     and_then (optional_string_of obj ''revision'') (\<lambda>revision.
       Ok \<lparr>mc_provider = provider, mc_model = model, mc_revision = revision\<rparr>)))"

definition decode_configuration :: "wire_fields \<Rightarrow> (decode_error, configuration_changed_entry) result" where
  "decode_configuration obj =
     and_then (required_array obj ''sections'') (\<lambda>sections.
     and_then (try_map decode_section_change sections) (\<lambda>changes.
     and_then (required_array obj ''tools_added'') (\<lambda>tools.
     and_then (try_map decode_tool_declaration tools) (\<lambda>added.
     and_then (required_strings obj ''tools_removed'') (\<lambda>removed.
       Ok \<lparr>cc_sections = changes, cc_tools_added = added, cc_tools_removed = removed\<rparr>)))))"

definition decode_harness_revision ::
    "wire_fields \<Rightarrow> (decode_error, harness_revision_changed_entry) result" where
  "decode_harness_revision obj =
     and_then (required_id obj ''revision_id'') (\<lambda>revision_id.
     and_then (required_id obj ''snapshot_id'') (\<lambda>snapshot_id.
     and_then (optional_id_of obj ''rollback_from'') (\<lambda>rollback_from.
       Ok \<lparr>hr_revision_id = revision_id, hr_snapshot_id = snapshot_id,
           hr_rollback_from = rollback_from\<rparr>)))"

definition decode_plugin_memory :: "wire_fields \<Rightarrow> (decode_error, plugin_memory_entry) result" where
  "decode_plugin_memory obj =
     and_then (required_string obj ''plugin_id'') (\<lambda>plugin_id.
     and_then (required_string obj ''kind'') (\<lambda>memory_kind.
     and_then (required_payload obj ''content'') (\<lambda>content.
     and_then (required_strings obj ''provenance'') (\<lambda>provenance.
     and_then (and_then (required_string obj ''visibility'') parse_memory_visibility) (\<lambda>visibility.
     and_then (and_then (required_string obj ''retention'') parse_memory_retention) (\<lambda>retention.
       Ok \<lparr>pm_plugin_id = plugin_id, pm_kind = memory_kind, pm_content = content,
           pm_provenance = provenance, pm_visibility = visibility, pm_retention = retention\<rparr>))))))"

definition decode_custom :: "wire_fields \<Rightarrow> (decode_error, custom_entry) result" where
  "decode_custom obj =
     and_then (required_string obj ''type_name'') (\<lambda>type_name.
     and_then (required_payload obj ''payload'') (\<lambda>payload.
     and_then (required_bool obj ''model_visible'') (\<lambda>model_visible.
       Ok \<lparr>cu_type_name = type_name, cu_payload = payload, cu_model_visible = model_visible\<rparr>)))"

definition map_ok :: "('a \<Rightarrow> 'b) \<Rightarrow> ('e, 'a) result \<Rightarrow> ('e, 'b) result" where
  "map_ok f r = and_then r (\<lambda>a. Ok (f a))"

definition decode_entry :: "json_value \<Rightarrow> (decode_error, session_entry) result" where
  "decode_entry value =
     and_then (read_object value) (\<lambda>obj.
     and_then (required_string obj ''type'') (\<lambda>tag.
       if tag = ''user_message'' then map_ok UserMessage (decode_user_message obj)
       else if tag = ''assistant_message'' then map_ok AssistantMessage (decode_assistant_message obj)
       else if tag = ''tool_result'' then map_ok ToolResult (decode_tool_result obj)
       else if tag = ''compaction'' then map_ok Compaction (decode_compaction obj)
       else if tag = ''branch_summary'' then map_ok BranchSummary (decode_branch_summary obj)
       else if tag = ''model_changed'' then map_ok ModelChanged (decode_model_changed obj)
       else if tag = ''thinking_changed'' then map_ok ThinkingChanged (required_string obj ''level'')
       else if tag = ''configuration_changed'' then map_ok ConfigurationChanged (decode_configuration obj)
       else if tag = ''harness_revision_changed''
       then map_ok HarnessRevisionChanged (decode_harness_revision obj)
       else if tag = ''plugin_memory'' then map_ok PluginMemory (decode_plugin_memory obj)
       else if tag = ''custom'' then map_ok CustomEntry (decode_custom obj)
       else Err (UnknownName ''semantic entry type'' tag)))"

fun entry_ok :: "session_entry \<Rightarrow> bool" where
  "entry_ok (AssistantMessage entry) = assistant_ok entry"
| "entry_ok (ToolResult entry) =
     (payload_ok (tr_full_result entry) \<and> id_ok (tr_artifact_policy_id entry))"
| "entry_ok (Compaction entry) =
     (pred_option id_ok (ce_covered_from entry) \<and> pred_option id_ok (ce_covered_to entry) \<and>
      pred_option id_ok (ce_retained_tail_boundary entry) \<and>
      pred_option digest_ok (ce_recovery_index_artifact entry) \<and>
      pred_option id_ok (ce_harness_revision_id entry) \<and> payload_ok (ce_replacement entry) \<and>
      digest_ok (ce_replacement_digest entry) \<and> pred_option id_ok (ce_provider_request_id entry))"
| "entry_ok (BranchSummary entry) = pred_option id_ok (bs_covered_to entry)"
| "entry_ok (HarnessRevisionChanged entry) =
     (id_ok (hr_revision_id entry) \<and> id_ok (hr_snapshot_id entry) \<and>
      pred_option id_ok (hr_rollback_from entry))"
| "entry_ok (PluginMemory entry) = payload_ok (pm_content entry)"
| "entry_ok (CustomEntry entry) = payload_ok (cu_payload entry)"
| "entry_ok _ = True"

definition encode_provisioned_entry :: "provisioned_entry \<Rightarrow> json_value" where
  "encode_provisioned_entry entry =
     object [(''id'', JString (pe_id entry)), (''body'', encode_entry (pe_body entry))]"

definition decode_provisioned_entry :: "json_value \<Rightarrow> (decode_error, provisioned_entry) result" where
  "decode_provisioned_entry value =
     and_then (read_object value) (\<lambda>obj.
     and_then (required_id obj ''id'') (\<lambda>i.
     and_then (required_value obj ''body'') (\<lambda>v.
     and_then (decode_entry v) (\<lambda>body. Ok \<lparr>pe_id = i, pe_body = body\<rparr>))))"

definition provisioned_ok :: "provisioned_entry \<Rightarrow> bool" where
  "provisioned_ok entry \<longleftrightarrow> id_ok (pe_id entry) \<and> entry_ok (pe_body entry)"

section \<open>Entries decode to what was encoded\<close>

interpretation tool_call: object_codec encode_assistant_tool_call decode_assistant_tool_call "\<lambda>_. True"
  by unfold_locales (simp_all add: encode_assistant_tool_call_def decode_assistant_tool_call_def wire_simps)

interpretation section_change: object_codec encode_section_change decode_section_change "\<lambda>_. True"
  by unfold_locales (simp_all add: encode_section_change_def decode_section_change_def wire_simps)

interpretation tool_declaration: object_codec encode_tool_declaration decode_tool_declaration "\<lambda>_. True"
  by unfold_locales (simp_all add: encode_tool_declaration_def decode_tool_declaration_def wire_simps)

interpretation block: object_codec encode_assistant_block decode_assistant_block block_ok
proof
  show "block_ok x \<Longrightarrow> decode_assistant_block (encode_assistant_block x) = Inr x" for x
    by (cases x) (simp_all add: decode_assistant_block_def wire_simps opaque.decode_optional
        opaque.decode_encode)
  show "is_object (encode_assistant_block x)" for x
    by (cases x) (simp_all add: wire_simps)
qed

lemma text_only_content:
  assumes "text_only content" and "content \<noteq> [Text []]"
  shows "text_content (content_text content) = content"
proof (cases content)
  case (Cons c cs)
  with assms show ?thesis by (cases c) (auto simp: text_only_def text_content_def)
qed (simp add: text_content_def)

lemma decode_content_text:
  "btree_get obj ''content_blocks'' = None \<Longrightarrow> decode_content obj text = Inr (text_content text)"
  by (simp add: decode_content_def optional_value_of_def)

lemma decode_content_blocks:
  "btree_get obj ''content_blocks'' = Some (JArray (map encode_assistant_block content)) \<Longrightarrow>
   list_all block_ok content \<Longrightarrow> decode_content obj (content_text content) = Inr content"
  by (simp add: decode_content_def optional_value_of_def block.decode_list)

lemma decode_opaque_contexts_get:
  "btree_get obj ''opaque_context'' = Some (JArray (map encode_opaque_provider_context cs)) \<Longrightarrow>
   list_all opaque_ok cs \<Longrightarrow> decode_opaque_contexts obj = Inr cs"
  by (simp add: decode_opaque_contexts_def optional_value_of_def opaque.decode_list)

lemma decode_assistant_entry:
  assumes "assistant_ok entry"
  shows "decode_entry (encode_assistant_message entry) = Inr (AssistantMessage entry)"
proof -
  have joined: "text_content (assistant_text entry) = am_content entry" if "text_only (am_content entry)"
    using assms that by (simp add: assistant_text_def text_only_content assistant_ok_def)
  show ?thesis
  proof (cases "text_only (am_content entry)")
    case True
    then show ?thesis
      using assms joined [OF True]
      by (cases "am_origin entry")
        (simp_all add: encode_assistant_message_def decode_entry_def decode_assistant_message_def map_ok_def
          wire_simps decode_content_text decode_opaque_contexts_get model.decode_absent model.decode_present tool_call.decode_list list.pred_True
          assistant_ok_def)
  next
    case False
    then show ?thesis
      using assms
      by (cases "am_origin entry")
        (simp_all add: encode_assistant_message_def decode_entry_def decode_assistant_message_def map_ok_def
          wire_simps decode_content_blocks decode_opaque_contexts_get model.decode_absent model.decode_present tool_call.decode_list list.pred_True
          assistant_ok_def assistant_text_def)
  qed
qed

lemma required_payload_get:
  "btree_get obj k = Some (encode_payload_ref p) \<Longrightarrow> payload_ok p \<Longrightarrow> required_payload obj k = Inr p"
  by (simp add: required_payload_def required_value_get payload.decode_encode)

lemma required_usage_get:
  "btree_get obj k = Some (encode_usage u) \<Longrightarrow> required_usage obj k = Inr u"
  by (simp add: required_usage_def required_value_get usage.decode_encode)

lemmas entry_wire_simps = wire_simps codec_rules map_ok_def required_payload_get required_usage_get

interpretation entry: object_codec encode_entry decode_entry entry_ok
proof
  fix x
  show "is_object (encode_entry x)"
    by (cases x) (simp_all add: wire_simps encode_assistant_message_def)
  assume ok: "entry_ok x"
  show "decode_entry (encode_entry x) = Inr x"
  proof (cases x)
    case (AssistantMessage entry)
    with ok show ?thesis by (simp add: decode_assistant_entry)
  qed (use ok in \<open>simp_all add: decode_entry_def entry_wire_simps decode_user_message_def
      decode_tool_result_def decode_compaction_def decode_branch_summary_def decode_model_changed_def
      decode_configuration_def decode_harness_revision_def decode_plugin_memory_def decode_custom_def
      section_change.decode_list tool_declaration.decode_list list.pred_True\<close>)
qed

interpretation provisioned: object_codec encode_provisioned_entry decode_provisioned_entry provisioned_ok
  by unfold_locales
    (simp_all add: encode_provisioned_entry_def decode_provisioned_entry_def wire_simps provisioned_ok_def
      entry.decode_encode)

end
