(* ===== verification/Codec_Records.thy ===== *)
theory Codec_Records
  imports Codec_Entries
begin

text \<open>
  The codec of write-ahead records, \<open>encode_record\<close> and \<open>decode_record\<close> of
  \<open>crates/tea-session/src/jsonl.rs\<close>. Each arm of the source's match that decodes a struct is a
  definition \<open>decode_<record>\<close>; \<open>record_ok\<close> collects the invariants of the record's types.
\<close>

section \<open>Encoding\<close>

definition encode_settlement :: "provider_request_settled_record \<Rightarrow> json_value" where
  "encode_settlement record =
     (let obj = btree_of [(''type'', JString ''provider_request_settled''),
            (''request_id'', JString (st_request_id record)),
            (''operation_id'', JString (st_operation_id record)), (''outcome'', st_outcome record),
            (''usage'', optional_value (map_option encode_usage (st_usage record))),
            (''response_artifact'', optional_artifact (st_response_artifact record)),
            (''classification'', JString (provider_classification_name (st_classification record)))]
      in JObject (case st_provider_error record of
           None \<Rightarrow> obj
         | Some error \<Rightarrow> btree_insert ''provider_error'' (encode_provider_error error) obj))"

fun maintenance_outcome :: "cache_maintenance_outcome \<Rightarrow> string \<times> string option" where
  "maintenance_outcome CompletedMaintenance = (''completed'', None)"
| "maintenance_outcome (FailedMaintenance message) = (''failed'', Some message)"
| "maintenance_outcome CancelledMaintenance = (''cancelled'', None)"

fun encode_record :: "lane_record \<Rightarrow> json_value" where
  "encode_record (OperationStarted record) =
     object [(''type'', JString ''operation_started''), (''id'', JString (os_id record)),
       (''lane_id'', JString (os_lane_id record)),
       (''source_leaf_id'', optional_id (os_source_leaf_id record)),
       (''operation_kind'', encode_operation_kind (os_kind record)),
       (''original_input'', JArray (map encode_provisioned_entry (os_original_input record))),
       (''input_ids'', JArray (map JString (os_input_ids record))),
       (''initial_harness_revision'', JString (os_initial_harness_revision record)),
       (''model_harness_profile'', JString (os_model_harness_profile record)),
       (''operation_resume_data'', encode_hook_data (os_operation_resume_data record))]"
| "encode_record (OperationFinished record) =
     object [(''type'', JString ''operation_finished''), (''operation_id'', JString (of_operation_id record)),
       (''outcome'', encode_operation_outcome (of_outcome record))]"
| "encode_record (AbortRequested record) =
     object [(''type'', JString ''abort_requested''), (''operation_id'', JString (ar_operation_id record)),
       (''reason'', optional_string (ar_reason record))]"
| "encode_record (EpochStarted record) =
     object [(''type'', JString ''epoch_started''), (''id'', JString (es_id record)),
       (''operation_id'', JString (es_operation_id record)),
       (''epoch_index'', u64_value (ucast (es_epoch_index record))),
       (''source_leaf_id'', optional_id (es_source_leaf_id record)),
       (''harness_revision_id'', JString (es_harness_revision_id record)),
       (''harness_snapshot_id'', JString (es_harness_snapshot_id record)),
       (''model_harness_profile'', JString (es_model_harness_profile record)),
       (''core_run_id'', JString (es_core_run_id record)),
       (''epoch_resume_data'', encode_hook_data (es_epoch_resume_data record))]"
| "encode_record (EpochFinished record) =
     object [(''type'', JString ''epoch_finished''), (''epoch_id'', JString (ef_epoch_id record)),
       (''operation_id'', JString (ef_operation_id record)),
       (''reason'', JString (epoch_finish_reason_name (ef_reason record)))]"
| "encode_record (StepAttempted record) =
     object [(''type'', JString ''step_attempted''), (''id'', JString (sa_id record)),
       (''operation_id'', JString (sa_operation_id record)), (''epoch_id'', JString (sa_epoch_id record)),
       (''step_kind'', JString (step_kind_name (sa_kind record))),
       (''attempt'', u64_value (ucast (sa_attempt record))),
       (''result_entry_id'', JString (sa_result_entry_id record)),
       (''reason'', optional_string (sa_reason record))]"
| "encode_record (ProviderRequestStarted record) =
     object [(''type'', JString ''provider_request_started''), (''request_id'', JString (pr_request_id record)),
       (''operation_id'', JString (pr_operation_id record)), (''epoch_id'', JString (pr_epoch_id record)),
       (''step_id'', JString (pr_step_id record)),
       (''physical_attempt'', u64_value (ucast (pr_physical_attempt record))),
       (''model_harness_profile'', JString (pr_model_harness_profile record)),
       (''request_surface_digest'', digest_value (pr_request_surface_digest record)),
       (''idempotency_key'', optional_string (pr_idempotency_key record))]"
| "encode_record (ProviderRequestSettled record) = encode_settlement record"
| "encode_record (ToolStarted record) =
     object [(''type'', JString ''tool_started''), (''record_id'', JString (ts_record_id record)),
       (''operation_id'', JString (ts_operation_id record)), (''epoch_id'', JString (ts_epoch_id record)),
       (''assistant_entry_id'', JString (ts_assistant_entry_id record)),
       (''tool_index'', u64_value (ucast (ts_tool_index record))),
       (''tool_call_id'', JString (ts_tool_call_id record)), (''tool_name'', JString (ts_tool_name record)),
       (''effective_args'', ts_effective_args record),
       (''result_entry_id'', JString (ts_result_entry_id record)),
       (''replay_policy_at_start'', JString (tool_replay_policy_name (ts_replay_policy_at_start record))),
       (''tool_definition_digest'', digest_value (ts_tool_definition_digest record)),
       (''harness_revision_id'', JString (ts_harness_revision_id record)),
       (''idempotency_key'', JString (ts_idempotency_key record))]"
| "encode_record (InputAccepted record) =
     object [(''type'', JString ''input_accepted''), (''lane_id'', JString (ia_lane_id record)),
       (''entry'', encode_provisioned_entry (ia_entry record))]"
| "encode_record (InputWithdrawn record) =
     object [(''type'', JString ''input_withdrawn''), (''lane_id'', JString (iw_lane_id record)),
       (''input_id'', JString (iw_input_id record))]"
| "encode_record (InputSettled record) =
     object [(''type'', JString ''input_settled''), (''operation_id'', JString (is_operation_id record)),
       (''input_id'', JString (is_input_id record)),
       (''outcome'', encode_operation_outcome (is_outcome record))]"
| "encode_record (ExtensionControlEnqueued record) =
     object [(''type'', JString ''extension_control_enqueued''),
       (''operation_id'', JString (xc_operation_id record)), (''control_id'', JString (xc_control_id record)),
       (''extension_id'', JString (xc_extension_id record)),
       (''harness_revision_id'', JString (xc_harness_revision_id record)),
       (''command_name'', JString (xc_command_name record)), (''arguments'', xc_arguments record)]"
| "encode_record (ExtensionControlApplied control_id) =
     object [(''type'', JString ''extension_control_applied''), (''control_id'', JString control_id)]"
| "encode_record (WriteDeferred record) =
     object [(''type'', JString ''write_deferred''), (''operation_id'', JString (wd_operation_id record)),
       (''entry'', encode_provisioned_entry (wd_entry record))]"
| "encode_record (HarnessActivationRequested record) =
     object [(''type'', JString ''harness_activation_requested''),
       (''operation_id'', JString (ha_operation_id record)),
       (''candidate_id'', JString (ha_candidate_id record)),
       (''parent_revision_id'', JString (ha_parent_revision_id record)),
       (''proposed_snapshot_id'', JString (ha_proposed_snapshot_id record)),
       (''revision_entry_id'', JString (ha_revision_entry_id record))]"
| "encode_record (UsageRecord record) =
     object [(''type'', JString ''usage''), (''operation_id'', JString (ur_operation_id record)),
       (''request_id'', optional_id (ur_request_id record)), (''usage'', encode_usage (ur_usage record))]"
| "encode_record (CacheMaintenance record) =
     object [(''type'', JString ''cache_maintenance''), (''operation_id'', JString (cm_operation_id record)),
       (''model'', encode_optional_model (cm_model record)),
       (''selected_model'', encode_optional_model (cm_selected_model record)),
       (''outcome'', JString (fst (maintenance_outcome (cm_outcome record)))),
       (''message'', optional_string (snd (maintenance_outcome (cm_outcome record)))),
       (''usage'', encode_usage (cm_usage record)),
       (''estimated_cost'', optional_string (cm_estimated_cost record))]"

section \<open>Decoding\<close>

definition decode_input_id :: "json_value \<Rightarrow> (decode_error, entry_id) result" where
  "decode_input_id value = and_then (ok_or (as_str value) InputIdNotString) parse_id"

definition required_provisioned :: "wire_fields \<Rightarrow> string \<Rightarrow> (decode_error, provisioned_entry) result" where
  "required_provisioned obj k = and_then (required_value obj k) decode_provisioned_entry"

definition required_outcome :: "wire_fields \<Rightarrow> string \<Rightarrow> (decode_error, operation_outcome) result" where
  "required_outcome obj k = and_then (required_value obj k) decode_operation_outcome"

definition required_hook_data ::
    "wire_fields \<Rightarrow> string \<Rightarrow> (decode_error, (stable_hook_id, json_value) btree) result" where
  "required_hook_data obj k = and_then (required_value obj k) decode_hook_data"

definition decode_operation_started :: "wire_fields \<Rightarrow> (decode_error, operation_started_record) result" where
  "decode_operation_started obj =
     and_then (required_id obj ''id'') (\<lambda>i.
     and_then (required_id obj ''lane_id'') (\<lambda>lane_id.
     and_then (optional_id_of obj ''source_leaf_id'') (\<lambda>source_leaf_id.
     and_then (and_then (required_value obj ''operation_kind'') decode_operation_kind) (\<lambda>op_kind.
     and_then (and_then (required_array obj ''original_input'') (try_map decode_provisioned_entry)) (\<lambda>original_input.
     and_then (and_then (required_array obj ''input_ids'') (try_map decode_input_id)) (\<lambda>input_ids.
     and_then (required_id obj ''initial_harness_revision'') (\<lambda>initial_harness_revision.
     and_then (required_id obj ''model_harness_profile'') (\<lambda>model_harness_profile.
     and_then (required_hook_data obj ''operation_resume_data'') (\<lambda>operation_resume_data.
       Ok \<lparr>os_id = i, os_lane_id = lane_id, os_source_leaf_id = source_leaf_id, os_kind = op_kind,
           os_original_input = original_input, os_input_ids = input_ids,
           os_initial_harness_revision = initial_harness_revision,
           os_model_harness_profile = model_harness_profile,
           os_operation_resume_data = operation_resume_data\<rparr>)))))))))"

definition decode_operation_finished :: "wire_fields \<Rightarrow> (decode_error, operation_finished_record) result" where
  "decode_operation_finished obj =
     and_then (required_id obj ''operation_id'') (\<lambda>operation_id.
     and_then (required_outcome obj ''outcome'') (\<lambda>outcome.
       Ok \<lparr>of_operation_id = operation_id, of_outcome = outcome\<rparr>))"

definition decode_abort_requested :: "wire_fields \<Rightarrow> (decode_error, abort_requested_record) result" where
  "decode_abort_requested obj =
     and_then (required_id obj ''operation_id'') (\<lambda>operation_id.
     and_then (optional_string_of obj ''reason'') (\<lambda>reason.
       Ok \<lparr>ar_operation_id = operation_id, ar_reason = reason\<rparr>))"

definition decode_epoch_started :: "wire_fields \<Rightarrow> (decode_error, epoch_started_record) result" where
  "decode_epoch_started obj =
     and_then (required_id obj ''id'') (\<lambda>i.
     and_then (required_id obj ''operation_id'') (\<lambda>operation_id.
     and_then (required_word obj ''epoch_index'' ''epoch index exceeds u32'') (\<lambda>epoch_index.
     and_then (optional_id_of obj ''source_leaf_id'') (\<lambda>source_leaf_id.
     and_then (required_id obj ''harness_revision_id'') (\<lambda>harness_revision_id.
     and_then (required_id obj ''harness_snapshot_id'') (\<lambda>harness_snapshot_id.
     and_then (required_id obj ''model_harness_profile'') (\<lambda>model_harness_profile.
     and_then (required_id obj ''core_run_id'') (\<lambda>core_run_id.
     and_then (required_hook_data obj ''epoch_resume_data'') (\<lambda>epoch_resume_data.
       Ok \<lparr>es_id = i, es_operation_id = operation_id, es_epoch_index = epoch_index,
           es_source_leaf_id = source_leaf_id, es_harness_revision_id = harness_revision_id,
           es_harness_snapshot_id = harness_snapshot_id, es_model_harness_profile = model_harness_profile,
           es_core_run_id = core_run_id, es_epoch_resume_data = epoch_resume_data\<rparr>)))))))))"

definition decode_epoch_finished :: "wire_fields \<Rightarrow> (decode_error, epoch_finished_record) result" where
  "decode_epoch_finished obj =
     and_then (required_id obj ''epoch_id'') (\<lambda>epoch_id.
     and_then (required_id obj ''operation_id'') (\<lambda>operation_id.
     and_then (and_then (required_string obj ''reason'') parse_epoch_finish_reason) (\<lambda>reason.
       Ok \<lparr>ef_epoch_id = epoch_id, ef_operation_id = operation_id, ef_reason = reason\<rparr>)))"

definition decode_step_attempted :: "wire_fields \<Rightarrow> (decode_error, step_attempted_record) result" where
  "decode_step_attempted obj =
     and_then (required_id obj ''id'') (\<lambda>i.
     and_then (required_id obj ''operation_id'') (\<lambda>operation_id.
     and_then (required_id obj ''epoch_id'') (\<lambda>epoch_id.
     and_then (and_then (required_string obj ''step_kind'') parse_step_kind) (\<lambda>stepped.
     and_then (required_word obj ''attempt'' ''step attempt exceeds u32'') (\<lambda>attempt.
     and_then (required_id obj ''result_entry_id'') (\<lambda>result_entry_id.
     and_then (optional_string_of obj ''reason'') (\<lambda>reason.
       Ok \<lparr>sa_id = i, sa_operation_id = operation_id, sa_epoch_id = epoch_id, sa_kind = stepped,
           sa_attempt = attempt, sa_result_entry_id = result_entry_id, sa_reason = reason\<rparr>)))))))"

definition decode_request_started ::
    "wire_fields \<Rightarrow> (decode_error, provider_request_started_record) result" where
  "decode_request_started obj =
     and_then (required_id obj ''request_id'') (\<lambda>request_id.
     and_then (required_id obj ''operation_id'') (\<lambda>operation_id.
     and_then (required_id obj ''epoch_id'') (\<lambda>epoch_id.
     and_then (required_id obj ''step_id'') (\<lambda>step_id.
     and_then (required_word obj ''physical_attempt'' ''physical attempt exceeds u32'') (\<lambda>physical_attempt.
     and_then (required_id obj ''model_harness_profile'') (\<lambda>model_harness_profile.
     and_then (required_digest obj ''request_surface_digest'') (\<lambda>request_surface_digest.
     and_then (optional_string_of obj ''idempotency_key'') (\<lambda>idempotency_key.
       Ok \<lparr>pr_request_id = request_id, pr_operation_id = operation_id, pr_epoch_id = epoch_id,
           pr_step_id = step_id, pr_physical_attempt = physical_attempt,
           pr_model_harness_profile = model_harness_profile,
           pr_request_surface_digest = request_surface_digest,
           pr_idempotency_key = idempotency_key\<rparr>))))))))"

definition decode_request_settled ::
    "wire_fields \<Rightarrow> (decode_error, provider_request_settled_record) result" where
  "decode_request_settled obj =
     and_then (required_id obj ''request_id'') (\<lambda>request_id.
     and_then (required_id obj ''operation_id'') (\<lambda>operation_id.
     and_then (required_value obj ''outcome'') (\<lambda>outcome.
     and_then (map_transpose decode_provider_error (optional_value_of obj ''provider_error'')) (\<lambda>provider_error.
     and_then (map_transpose decode_usage (optional_value_of obj ''usage'')) (\<lambda>usage.
     and_then (optional_artifact_of obj ''response_artifact'') (\<lambda>response_artifact.
     and_then (and_then (required_string obj ''classification'') parse_provider_classification) (\<lambda>classification.
       Ok \<lparr>st_request_id = request_id, st_operation_id = operation_id, st_outcome = outcome,
           st_provider_error = provider_error, st_usage = usage,
           st_response_artifact = response_artifact, st_classification = classification\<rparr>)))))))"

definition decode_tool_started :: "wire_fields \<Rightarrow> (decode_error, tool_started_record) result" where
  "decode_tool_started obj =
     and_then (required_id obj ''record_id'') (\<lambda>record_id.
     and_then (required_id obj ''operation_id'') (\<lambda>operation_id.
     and_then (required_id obj ''epoch_id'') (\<lambda>epoch_id.
     and_then (required_id obj ''assistant_entry_id'') (\<lambda>assistant_entry_id.
     and_then (required_word obj ''tool_index'' ''tool index exceeds u32'') (\<lambda>tool_index.
     and_then (required_string obj ''tool_call_id'') (\<lambda>tool_call_id.
     and_then (required_string obj ''tool_name'') (\<lambda>tool_name.
     and_then (required_value obj ''effective_args'') (\<lambda>effective_args.
     and_then (required_id obj ''result_entry_id'') (\<lambda>result_entry_id.
     and_then (and_then (required_string obj ''replay_policy_at_start'') parse_tool_replay_policy) (\<lambda>replay_policy.
     and_then (required_digest obj ''tool_definition_digest'') (\<lambda>tool_definition_digest.
     and_then (required_id obj ''harness_revision_id'') (\<lambda>harness_revision_id.
     and_then (required_string obj ''idempotency_key'') (\<lambda>idempotency_key.
       Ok \<lparr>ts_record_id = record_id, ts_operation_id = operation_id, ts_epoch_id = epoch_id,
           ts_assistant_entry_id = assistant_entry_id, ts_tool_index = tool_index,
           ts_tool_call_id = tool_call_id, ts_tool_name = tool_name,
           ts_effective_args = effective_args, ts_result_entry_id = result_entry_id,
           ts_replay_policy_at_start = replay_policy, ts_tool_definition_digest = tool_definition_digest,
           ts_harness_revision_id = harness_revision_id,
           ts_idempotency_key = idempotency_key\<rparr>)))))))))))))"

definition decode_input_accepted :: "wire_fields \<Rightarrow> (decode_error, input_accepted_record) result" where
  "decode_input_accepted obj =
     and_then (required_id obj ''lane_id'') (\<lambda>lane_id.
     and_then (required_provisioned obj ''entry'') (\<lambda>entry.
       Ok \<lparr>ia_lane_id = lane_id, ia_entry = entry\<rparr>))"

definition decode_input_withdrawn :: "wire_fields \<Rightarrow> (decode_error, input_withdrawn_record) result" where
  "decode_input_withdrawn obj =
     and_then (required_id obj ''lane_id'') (\<lambda>lane_id.
     and_then (required_id obj ''input_id'') (\<lambda>input_id.
       Ok \<lparr>iw_lane_id = lane_id, iw_input_id = input_id\<rparr>))"

definition decode_input_settled :: "wire_fields \<Rightarrow> (decode_error, input_settled_record) result" where
  "decode_input_settled obj =
     and_then (required_id obj ''operation_id'') (\<lambda>operation_id.
     and_then (required_id obj ''input_id'') (\<lambda>input_id.
     and_then (required_outcome obj ''outcome'') (\<lambda>outcome.
       Ok \<lparr>is_operation_id = operation_id, is_input_id = input_id, is_outcome = outcome\<rparr>)))"

definition decode_control_enqueued ::
    "wire_fields \<Rightarrow> (decode_error, extension_control_enqueued_record) result" where
  "decode_control_enqueued obj =
     and_then (required_id obj ''operation_id'') (\<lambda>operation_id.
     and_then (required_string obj ''control_id'') (\<lambda>control_id.
     and_then (required_string obj ''extension_id'') (\<lambda>extension_id.
     and_then (required_id obj ''harness_revision_id'') (\<lambda>harness_revision_id.
     and_then (required_string obj ''command_name'') (\<lambda>command_name.
     and_then (required_value obj ''arguments'') (\<lambda>arguments.
       Ok \<lparr>xc_operation_id = operation_id, xc_control_id = control_id, xc_extension_id = extension_id,
           xc_harness_revision_id = harness_revision_id, xc_command_name = command_name,
           xc_arguments = arguments\<rparr>))))))"

definition decode_write_deferred :: "wire_fields \<Rightarrow> (decode_error, write_deferred_record) result" where
  "decode_write_deferred obj =
     and_then (required_id obj ''operation_id'') (\<lambda>operation_id.
     and_then (required_provisioned obj ''entry'') (\<lambda>entry.
       Ok \<lparr>wd_operation_id = operation_id, wd_entry = entry\<rparr>))"

definition decode_activation_requested ::
    "wire_fields \<Rightarrow> (decode_error, harness_activation_requested_record) result" where
  "decode_activation_requested obj =
     and_then (required_id obj ''operation_id'') (\<lambda>operation_id.
     and_then (required_id obj ''candidate_id'') (\<lambda>candidate_id.
     and_then (required_id obj ''parent_revision_id'') (\<lambda>parent_revision_id.
     and_then (required_id obj ''proposed_snapshot_id'') (\<lambda>proposed_snapshot_id.
     and_then (required_id obj ''revision_entry_id'') (\<lambda>revision_entry_id.
       Ok \<lparr>ha_operation_id = operation_id, ha_candidate_id = candidate_id,
           ha_parent_revision_id = parent_revision_id, ha_proposed_snapshot_id = proposed_snapshot_id,
           ha_revision_entry_id = revision_entry_id\<rparr>)))))"

definition decode_usage_record :: "wire_fields \<Rightarrow> (decode_error, usage_record) result" where
  "decode_usage_record obj =
     and_then (required_id obj ''operation_id'') (\<lambda>operation_id.
     and_then (optional_id_of obj ''request_id'') (\<lambda>request_id.
     and_then (required_usage obj ''usage'') (\<lambda>usage.
       Ok \<lparr>ur_operation_id = operation_id, ur_request_id = request_id, ur_usage = usage\<rparr>)))"

definition decode_maintenance_outcome ::
    "wire_fields \<Rightarrow> (decode_error, cache_maintenance_outcome) result" where
  "decode_maintenance_outcome obj =
     and_then (required_string obj ''outcome'') (\<lambda>tag.
       if tag = ''completed'' then Ok CompletedMaintenance
       else if tag = ''failed'' then
         and_then (optional_string_of obj ''message'') (\<lambda>message.
           Ok (FailedMaintenance (case message of None \<Rightarrow> [] | Some m \<Rightarrow> m)))
       else if tag = ''cancelled'' then Ok CancelledMaintenance
       else Err (UnknownName ''cache maintenance outcome'' tag))"

definition decode_cache_maintenance :: "wire_fields \<Rightarrow> (decode_error, cache_maintenance_record) result" where
  "decode_cache_maintenance obj =
     and_then (decode_maintenance_outcome obj) (\<lambda>outcome.
     and_then (required_id obj ''operation_id'') (\<lambda>operation_id.
     and_then (decode_optional_model obj ''model'') (\<lambda>model.
     and_then (decode_optional_model obj ''selected_model'') (\<lambda>selected_model.
     and_then (required_usage obj ''usage'') (\<lambda>usage.
     and_then (optional_string_of obj ''estimated_cost'') (\<lambda>estimated_cost.
       Ok \<lparr>cm_operation_id = operation_id, cm_model = model, cm_selected_model = selected_model,
           cm_outcome = outcome, cm_usage = usage, cm_estimated_cost = estimated_cost\<rparr>))))))"

definition decode_record :: "json_value \<Rightarrow> (decode_error, lane_record) result" where
  "decode_record value =
     and_then (read_object value) (\<lambda>obj.
     and_then (required_string obj ''type'') (\<lambda>tag.
       if tag = ''operation_started'' then map_ok OperationStarted (decode_operation_started obj)
       else if tag = ''operation_finished'' then map_ok OperationFinished (decode_operation_finished obj)
       else if tag = ''abort_requested'' then map_ok AbortRequested (decode_abort_requested obj)
       else if tag = ''epoch_started'' then map_ok EpochStarted (decode_epoch_started obj)
       else if tag = ''epoch_finished'' then map_ok EpochFinished (decode_epoch_finished obj)
       else if tag = ''step_attempted'' then map_ok StepAttempted (decode_step_attempted obj)
       else if tag = ''provider_request_started'' then map_ok ProviderRequestStarted (decode_request_started obj)
       else if tag = ''provider_request_settled'' then map_ok ProviderRequestSettled (decode_request_settled obj)
       else if tag = ''tool_started'' then map_ok ToolStarted (decode_tool_started obj)
       else if tag = ''input_accepted'' then map_ok InputAccepted (decode_input_accepted obj)
       else if tag = ''input_withdrawn'' then map_ok InputWithdrawn (decode_input_withdrawn obj)
       else if tag = ''input_settled'' then map_ok InputSettled (decode_input_settled obj)
       else if tag = ''extension_control_enqueued''
       then map_ok ExtensionControlEnqueued (decode_control_enqueued obj)
       else if tag = ''extension_control_applied''
       then map_ok ExtensionControlApplied (required_string obj ''control_id'')
       else if tag = ''write_deferred'' then map_ok WriteDeferred (decode_write_deferred obj)
       else if tag = ''harness_activation_requested''
       then map_ok HarnessActivationRequested (decode_activation_requested obj)
       else if tag = ''usage'' then map_ok UsageRecord (decode_usage_record obj)
       else if tag = ''cache_maintenance'' then map_ok CacheMaintenance (decode_cache_maintenance obj)
       else Err (UnknownName ''operation record type'' tag)))"

section \<open>Well-formed records\<close>

fun record_ok :: "lane_record \<Rightarrow> bool" where
  "record_ok (OperationStarted r) =
     (id_ok (os_id r) \<and> id_ok (os_lane_id r) \<and> pred_option id_ok (os_source_leaf_id r) \<and>
      operation_kind_ok (os_kind r) \<and> list_all provisioned_ok (os_original_input r) \<and>
      list_all id_ok (os_input_ids r) \<and> id_ok (os_initial_harness_revision r) \<and>
      id_ok (os_model_harness_profile r) \<and> hook_data_ok (os_operation_resume_data r))"
| "record_ok (OperationFinished r) = id_ok (of_operation_id r)"
| "record_ok (AbortRequested r) = id_ok (ar_operation_id r)"
| "record_ok (EpochStarted r) =
     (id_ok (es_id r) \<and> id_ok (es_operation_id r) \<and> pred_option id_ok (es_source_leaf_id r) \<and>
      id_ok (es_harness_revision_id r) \<and> id_ok (es_harness_snapshot_id r) \<and>
      id_ok (es_model_harness_profile r) \<and> id_ok (es_core_run_id r) \<and> hook_data_ok (es_epoch_resume_data r))"
| "record_ok (EpochFinished r) = (id_ok (ef_epoch_id r) \<and> id_ok (ef_operation_id r))"
| "record_ok (StepAttempted r) =
     (id_ok (sa_id r) \<and> id_ok (sa_operation_id r) \<and> id_ok (sa_epoch_id r) \<and> id_ok (sa_result_entry_id r))"
| "record_ok (ProviderRequestStarted r) =
     (id_ok (pr_request_id r) \<and> id_ok (pr_operation_id r) \<and> id_ok (pr_epoch_id r) \<and>
      id_ok (pr_step_id r) \<and> id_ok (pr_model_harness_profile r) \<and> digest_ok (pr_request_surface_digest r))"
| "record_ok (ProviderRequestSettled r) =
     (id_ok (st_request_id r) \<and> id_ok (st_operation_id r) \<and> pred_option digest_ok (st_response_artifact r))"
| "record_ok (ToolStarted r) =
     (id_ok (ts_record_id r) \<and> id_ok (ts_operation_id r) \<and> id_ok (ts_epoch_id r) \<and>
      id_ok (ts_assistant_entry_id r) \<and> id_ok (ts_result_entry_id r) \<and>
      digest_ok (ts_tool_definition_digest r) \<and> id_ok (ts_harness_revision_id r))"
| "record_ok (InputAccepted r) = (id_ok (ia_lane_id r) \<and> provisioned_ok (ia_entry r))"
| "record_ok (InputWithdrawn r) = (id_ok (iw_lane_id r) \<and> id_ok (iw_input_id r))"
| "record_ok (InputSettled r) = (id_ok (is_operation_id r) \<and> id_ok (is_input_id r))"
| "record_ok (ExtensionControlEnqueued r) = (id_ok (xc_operation_id r) \<and> id_ok (xc_harness_revision_id r))"
| "record_ok (ExtensionControlApplied _) = True"
| "record_ok (WriteDeferred r) = (id_ok (wd_operation_id r) \<and> provisioned_ok (wd_entry r))"
| "record_ok (HarnessActivationRequested r) =
     (id_ok (ha_operation_id r) \<and> id_ok (ha_candidate_id r) \<and> id_ok (ha_parent_revision_id r) \<and>
      id_ok (ha_proposed_snapshot_id r) \<and> id_ok (ha_revision_entry_id r))"
| "record_ok (UsageRecord r) = (id_ok (ur_operation_id r) \<and> pred_option id_ok (ur_request_id r))"
| "record_ok (CacheMaintenance r) = id_ok (cm_operation_id r)"

section \<open>Records decode to what was encoded\<close>

lemma try_map_input_ids: "list_all id_ok ids \<Longrightarrow> try_map decode_input_id (map JString ids) = Inr ids"
  by (induction ids) (simp_all add: decode_input_id_def parse_id_ok)

lemma required_provisioned_get:
  "btree_get obj k = Some (encode_provisioned_entry p) \<Longrightarrow> provisioned_ok p \<Longrightarrow>
     required_provisioned obj k = Inr p"
  by (simp add: required_provisioned_def required_value_get provisioned.decode_encode)

lemma required_outcome_get:
  "btree_get obj k = Some (encode_operation_outcome v) \<Longrightarrow> required_outcome obj k = Inr v"
  by (simp add: required_outcome_def required_value_get operation_outcome.decode_encode)

lemma required_hook_data_get:
  "btree_get obj k = Some (encode_hook_data d) \<Longrightarrow> hook_data_ok d \<Longrightarrow> required_hook_data obj k = Inr d"
  by (simp add: required_hook_data_def required_value_get hook_data.decode_encode)

lemma decode_optional_model_get:
  "btree_get obj k = Some (encode_optional_model m) \<Longrightarrow> decode_optional_model obj k = Inr m"
  by (simp add: decode_optional_model_def encode_optional_model_def model.decode_optional option.pred_True)

lemma decode_maintenance_outcome_get:
  "btree_get obj ''outcome'' = Some (JString (fst (maintenance_outcome v))) \<Longrightarrow>
   btree_get obj ''message'' = Some (optional_string (snd (maintenance_outcome v))) \<Longrightarrow>
     decode_maintenance_outcome obj = Inr v"
  by (cases v) (simp_all add: decode_maintenance_outcome_def reader_gets)

lemmas record_wire_simps =
  entry_wire_simps required_provisioned_get required_outcome_get required_hook_data_get
  decode_optional_model_get decode_maintenance_outcome_get

lemma decode_settlement_entry:
  assumes "record_ok (ProviderRequestSettled r)"
  shows "decode_record (encode_settlement r) = Inr (ProviderRequestSettled r)"
  using assms
  by (cases "st_provider_error r")
    (simp_all add: encode_settlement_def decode_record_def decode_request_settled_def read_object_def
      record_wire_simps usage.decode_optional provider_error.decode_absent provider_error.decode_present
      option.pred_True)

interpretation lane_record: object_codec encode_record decode_record record_ok
proof
  fix x
  show "is_object (encode_record x)"
    by (cases x) (simp_all add: encode_settlement_def is_object_def object_def Let_def)
  assume ok: "record_ok x"
  show "decode_record (encode_record x) = Inr x"
  proof (cases x)
    case (ProviderRequestSettled r)
    with ok show ?thesis by (simp add: decode_settlement_entry)
  qed (use ok in \<open>simp_all add: decode_record_def record_wire_simps decode_operation_started_def
      decode_operation_finished_def decode_abort_requested_def decode_epoch_started_def
      decode_epoch_finished_def decode_step_attempted_def decode_request_started_def
      decode_tool_started_def decode_input_accepted_def decode_input_withdrawn_def
      decode_input_settled_def decode_control_enqueued_def decode_write_deferred_def
      decode_activation_requested_def decode_usage_record_def decode_cache_maintenance_def
      provisioned.decode_list try_map_input_ids\<close>)
qed

end
