(* ===== verification/Session_Codec.thy ===== *)
theory Session_Codec
  imports Codec_Records
begin

text \<open>
  The rest of the closed wire schema of \<open>crates/tea-session/src/jsonl.rs\<close>: lane mutations, session
  facts, and the payload that tags one mutation of a commit. A decoded mutation takes its sequence
  and timestamp from the commit's envelope; \<open>mutation_ok\<close> says that it carries them.
\<close>

section \<open>Lane mutations\<close>

fun encode_lane_mutation :: "lane_mutation \<Rightarrow> json_value" where
  "encode_lane_mutation (Created lane_id base_leaf_id) =
     object [(''type'', JString ''created''), (''lane_id'', JString lane_id),
       (''base_leaf_id'', optional_id base_leaf_id)]"

definition decode_lane_mutation :: "json_value \<Rightarrow> (decode_error, lane_mutation) result" where
  "decode_lane_mutation value =
     and_then (read_object value) (\<lambda>obj.
     and_then (required_string obj ''type'') (\<lambda>tag.
       if tag = ''created'' then
         and_then (required_id obj ''lane_id'') (\<lambda>lane_id.
         and_then (optional_id_of obj ''base_leaf_id'') (\<lambda>base_leaf_id.
           Ok (Created lane_id base_leaf_id)))
       else Err (UnknownName ''lane mutation type'' tag)))"

fun lane_mutation_ok :: "lane_mutation \<Rightarrow> bool" where
  "lane_mutation_ok (Created lane_id base_leaf_id) = (id_ok lane_id \<and> pred_option id_ok base_leaf_id)"

section \<open>Facts\<close>

definition encode_state_value :: "extension_state_value \<Rightarrow> json_value" where
  "encode_state_value value =
     object [(''state_version'', JString (xv_state_version value)), (''value'', xv_value value)]"

definition decode_state_value :: "json_value \<Rightarrow> (decode_error, extension_state_value) result" where
  "decode_state_value value =
     and_then (read_object value) (\<lambda>obj.
     and_then (required_string obj ''state_version'') (\<lambda>state_version.
     and_then (required_value obj ''value'') (\<lambda>v.
       Ok \<lparr>xv_state_version = state_version, xv_value = v\<rparr>)))"

definition encode_extension_state :: "extension_state \<Rightarrow> json_value" where
  "encode_extension_state state =
     JObject (btree_of (map (\<lambda>(extension_id, value). (extension_id, encode_state_value value)) state))"

definition decode_extension_state :: "json_value \<Rightarrow> (decode_error, extension_state) result" where
  "decode_extension_state value =
     and_then (read_object value) (\<lambda>obj.
     and_then (try_map (\<lambda>(extension_id, v).
         and_then (decode_state_value v) (\<lambda>state_value. Ok (extension_id, state_value))) obj) (\<lambda>pairs.
       Ok (btree_of pairs)))"

definition encode_mismatch :: "schema_field_mismatch \<Rightarrow> json_value" where
  "encode_mismatch mismatch =
     object [(''field'', JString (fm_field mismatch)), (''expected'', JString (fm_expected mismatch)),
       (''actual'', JString (fm_actual mismatch))]"

definition decode_mismatch :: "json_value \<Rightarrow> (decode_error, schema_field_mismatch) result" where
  "decode_mismatch value =
     and_then (read_object value) (\<lambda>mismatch.
     and_then (required_string mismatch ''field'') (\<lambda>f.
     and_then (required_string mismatch ''expected'') (\<lambda>expected.
     and_then (required_string mismatch ''actual'') (\<lambda>actual.
       Ok \<lparr>fm_field = f, fm_expected = expected, fm_actual = actual\<rparr>))))"

fun encode_fact :: "session_fact \<Rightarrow> json_value" where
  "encode_fact (SubagentPolicy f) =
     object [(''type'', JString ''subagent_policy''),
       (''schema_version'', u64_value (ucast (sp_schema_version f))),
       (''models'', JArray (map encode_subagent_model (sp_models f))),
       (''max_concurrent'', u64_value (ucast (sp_max_concurrent f))),
       (''max_total_per_operation'', u64_value (ucast (sp_max_total_per_operation f))),
       (''timeout_ms'', u64_value (sp_timeout_ms f)),
       (''tool_surface_digest'', digest_value (sp_tool_surface_digest f))]"
| "encode_fact (AgentSpawned f) =
     object [(''type'', JString ''agent_spawned''), (''agent_id'', JString (as_agent_id f)),
       (''parent_lane_id'', JString (as_parent_lane_id f)),
       (''parent_operation_id'', JString (as_parent_operation_id f)),
       (''lane_id'', JString (as_lane_id f)), (''task_name'', JString (as_task_name f)),
       (''model'', encode_subagent_model (as_model f)), (''thinking'', JString (as_thinking f)),
       (''context_mode'', JString (agent_context_mode_name (as_context_mode f))),
       (''base_leaf_id'', optional_id (as_base_leaf_id f)),
       (''workspace_lease_id'', JString (as_workspace_lease_id f)),
       (''harness_revision_id'', JString (as_harness_revision_id f)),
       (''harness_snapshot_id'', JString (as_harness_snapshot_id f)),
       (''model_harness_profile_id'', JString (as_model_harness_profile_id f)),
       (''spawn_tool_call_id'', JString (as_spawn_tool_call_id f))]"
| "encode_fact (WorkspaceDelta f) =
     object [(''type'', JString ''workspace_delta''), (''delta_id'', JString (wf_delta_id f)),
       (''agent_id'', JString (wf_agent_id f)), (''workspace_lease_id'', JString (wf_workspace_lease_id f)),
       (''base_commit'', JString (wf_base_commit f)), (''result_commit'', JString (wf_result_commit f)),
       (''changed_paths'', string_values (wf_changed_paths f)), (''patch'', encode_payload_ref (wf_patch f))]"
| "encode_fact (AgentTaskFinished f) =
     object [(''type'', JString ''agent_task_finished''), (''agent_id'', JString (at_agent_id f)),
       (''operation_id'', JString (at_operation_id f)),
       (''outcome'', encode_operation_outcome (at_outcome f)),
       (''final_entry_id'', optional_id (at_final_entry_id f)), (''report'', encode_payload_ref (at_report f)),
       (''workspace_delta_id'', optional_id (at_workspace_delta_id f))]"
| "encode_fact (WorkspaceDeltaApplied f) =
     object [(''type'', JString ''workspace_delta_applied''), (''delta_id'', JString (wa_delta_id f)),
       (''target_lane_id'', JString (wa_target_lane_id f)), (''tool_call_id'', JString (wa_tool_call_id f)),
       (''changed_paths'', string_values (wa_changed_paths f))]"
| "encode_fact (HarnessCatalog f) =
     object [(''type'', JString ''harness_catalog''),
       (''schema_version'', u64_value (ucast (hc_schema_version f))),
       (''artifact_id'', artifact_value (hc_artifact_id f)), (''byte_len'', u64_value (hc_byte_len f))]"
| "encode_fact (ToolSchemaDeviation f) =
     object [(''type'', JString ''tool_schema_deviation''), (''operation_id'', JString (sd_operation_id f)),
       (''epoch_id'', JString (sd_epoch_id f)), (''assistant_entry_id'', JString (sd_assistant_entry_id f)),
       (''tool_call_id'', JString (sd_tool_call_id f)), (''tool_name'', JString (sd_tool_name f)),
       (''model_harness_profile'', JString (sd_model_harness_profile f)),
       (''arguments_valid_json'', JBool (sd_arguments_valid_json f)),
       (''unknown_fields'', string_values (sd_unknown_fields f)),
       (''missing_fields'', string_values (sd_missing_fields f)),
       (''type_mismatches'', JArray (map encode_mismatch (sd_type_mismatches f))),
       (''raw_arguments'', encode_payload_ref (sd_raw_arguments f))]"
| "encode_fact (TraceArtifact f) =
     object [(''type'', JString ''trace_artifact''),
       (''schema_version'', u64_value (ucast (ta_schema_version f))),
       (''operation_id'', JString (ta_operation_id f)), (''epoch_id'', JString (ta_epoch_id f)),
       (''core_run_id'', JString (ta_core_run_id f)),
       (''harness_revision_id'', JString (ta_harness_revision_id f)),
       (''harness_snapshot_id'', JString (ta_harness_snapshot_id f)),
       (''model_harness_profile'', JString (ta_model_harness_profile f)),
       (''artifact_id'', artifact_value (ta_artifact_id f)), (''byte_len'', u64_value (ta_byte_len f)),
       (''media_type'', JString (ta_media_type f))]"
| "encode_fact (ProviderRequestMaterial f) =
     object [(''type'', JString ''provider_request_material''), (''operation_id'', JString (mf_operation_id f)),
       (''epoch_id'', JString (mf_epoch_id f)), (''request_id'', JString (mf_request_id f)),
       (''request'', encode_payload_ref (mf_request f))]"
| "encode_fact (ExtensionStateValueSet f) =
     object [(''type'', JString ''extension_state_value_set''), (''lane_id'', JString (xs_lane_id f)),
       (''extension_id'', JString (xs_extension_id f)), (''state_version'', JString (xs_state_version f)),
       (''value'', xs_value f)]"
| "encode_fact (TurnCheckpoint f) =
     object [(''type'', JString ''turn_checkpoint''), (''checkpoint_id'', JString (cp_checkpoint_id f)),
       (''lane_id'', JString (cp_lane_id f)), (''operation_id'', JString (cp_operation_id f)),
       (''leaf_id'', optional_id (cp_leaf_id f)),
       (''extension_state'', encode_extension_state (cp_extension_state f))]"
| "encode_fact (ForkedLane f) =
     object [(''type'', JString ''forked_lane''), (''checkpoint_id'', JString (fl_checkpoint_id f)),
       (''lane_id'', JString (fl_lane_id f)), (''base_leaf_id'', optional_id (fl_base_leaf_id f))]"
| "encode_fact (CustomFact type_name payload) =
     object [(''type'', JString ''custom''), (''type_name'', JString type_name), (''payload'', payload)]"

definition decode_policy :: "wire_fields \<Rightarrow> (decode_error, subagent_policy_fact) result" where
  "decode_policy obj =
     and_then (required_word obj ''schema_version'' ''subagent policy schema version exceeds u16'') (\<lambda>schema_version.
     and_then (and_then (required_array obj ''models'') (try_map decode_subagent_model)) (\<lambda>models.
     and_then (required_word obj ''max_concurrent'' ''subagent max_concurrent exceeds u32'') (\<lambda>max_concurrent.
     and_then (required_word obj ''max_total_per_operation''
       ''subagent max_total_per_operation exceeds u32'') (\<lambda>max_total_per_operation.
     and_then (required_u64 obj ''timeout_ms'') (\<lambda>timeout_ms.
     and_then (required_digest obj ''tool_surface_digest'') (\<lambda>tool_surface_digest.
       Ok \<lparr>sp_schema_version = schema_version, sp_models = models, sp_max_concurrent = max_concurrent,
           sp_max_total_per_operation = max_total_per_operation, sp_timeout_ms = timeout_ms,
           sp_tool_surface_digest = tool_surface_digest\<rparr>))))))"

definition decode_spawned :: "wire_fields \<Rightarrow> (decode_error, agent_spawned_fact) result" where
  "decode_spawned obj =
     and_then (required_id obj ''agent_id'') (\<lambda>agent_id.
     and_then (required_id obj ''parent_lane_id'') (\<lambda>parent_lane_id.
     and_then (required_id obj ''parent_operation_id'') (\<lambda>parent_operation_id.
     and_then (required_id obj ''lane_id'') (\<lambda>lane_id.
     and_then (required_string obj ''task_name'') (\<lambda>task_name.
     and_then (and_then (required_value obj ''model'') decode_subagent_model) (\<lambda>model.
     and_then (required_string obj ''thinking'') (\<lambda>thinking.
     and_then (and_then (required_string obj ''context_mode'') parse_agent_context_mode) (\<lambda>context_mode.
     and_then (optional_id_of obj ''base_leaf_id'') (\<lambda>base_leaf_id.
     and_then (required_id obj ''workspace_lease_id'') (\<lambda>workspace_lease_id.
     and_then (required_id obj ''harness_revision_id'') (\<lambda>harness_revision_id.
     and_then (required_id obj ''harness_snapshot_id'') (\<lambda>harness_snapshot_id.
     and_then (required_id obj ''model_harness_profile_id'') (\<lambda>model_harness_profile_id.
     and_then (required_string obj ''spawn_tool_call_id'') (\<lambda>spawn_tool_call_id.
       Ok \<lparr>as_agent_id = agent_id, as_parent_lane_id = parent_lane_id,
           as_parent_operation_id = parent_operation_id, as_lane_id = lane_id,
           as_task_name = task_name, as_model = model, as_thinking = thinking,
           as_context_mode = context_mode, as_base_leaf_id = base_leaf_id,
           as_workspace_lease_id = workspace_lease_id, as_harness_revision_id = harness_revision_id,
           as_harness_snapshot_id = harness_snapshot_id,
           as_model_harness_profile_id = model_harness_profile_id,
           as_spawn_tool_call_id = spawn_tool_call_id\<rparr>))))))))))))))"

definition decode_delta :: "wire_fields \<Rightarrow> (decode_error, workspace_delta_fact) result" where
  "decode_delta obj =
     and_then (required_id obj ''delta_id'') (\<lambda>delta_id.
     and_then (required_id obj ''agent_id'') (\<lambda>agent_id.
     and_then (required_id obj ''workspace_lease_id'') (\<lambda>workspace_lease_id.
     and_then (required_string obj ''base_commit'') (\<lambda>base_commit.
     and_then (required_string obj ''result_commit'') (\<lambda>result_commit.
     and_then (required_strings obj ''changed_paths'') (\<lambda>changed_paths.
     and_then (required_payload obj ''patch'') (\<lambda>patch.
       Ok \<lparr>wf_delta_id = delta_id, wf_agent_id = agent_id, wf_workspace_lease_id = workspace_lease_id,
           wf_base_commit = base_commit, wf_result_commit = result_commit,
           wf_changed_paths = changed_paths, wf_patch = patch\<rparr>)))))))"

definition decode_task_finished :: "wire_fields \<Rightarrow> (decode_error, agent_task_finished_fact) result" where
  "decode_task_finished obj =
     and_then (required_id obj ''agent_id'') (\<lambda>agent_id.
     and_then (required_id obj ''operation_id'') (\<lambda>operation_id.
     and_then (required_outcome obj ''outcome'') (\<lambda>outcome.
     and_then (optional_id_of obj ''final_entry_id'') (\<lambda>final_entry_id.
     and_then (required_payload obj ''report'') (\<lambda>report.
     and_then (optional_id_of obj ''workspace_delta_id'') (\<lambda>workspace_delta_id.
       Ok \<lparr>at_agent_id = agent_id, at_operation_id = operation_id, at_outcome = outcome,
           at_final_entry_id = final_entry_id, at_report = report,
           at_workspace_delta_id = workspace_delta_id\<rparr>))))))"

definition decode_delta_applied :: "wire_fields \<Rightarrow> (decode_error, workspace_delta_applied_fact) result" where
  "decode_delta_applied obj =
     and_then (required_id obj ''delta_id'') (\<lambda>delta_id.
     and_then (required_id obj ''target_lane_id'') (\<lambda>target_lane_id.
     and_then (required_string obj ''tool_call_id'') (\<lambda>tool_call_id.
     and_then (required_strings obj ''changed_paths'') (\<lambda>changed_paths.
       Ok \<lparr>wa_delta_id = delta_id, wa_target_lane_id = target_lane_id, wa_tool_call_id = tool_call_id,
           wa_changed_paths = changed_paths\<rparr>))))"

definition decode_catalog :: "wire_fields \<Rightarrow> (decode_error, harness_catalog_fact) result" where
  "decode_catalog obj =
     and_then (required_word obj ''schema_version'' ''harness catalog schema version exceeds u16'') (\<lambda>schema_version.
     and_then (required_artifact obj ''artifact_id'') (\<lambda>artifact_id.
     and_then (required_u64 obj ''byte_len'') (\<lambda>byte_len.
       Ok \<lparr>hc_schema_version = schema_version, hc_artifact_id = artifact_id, hc_byte_len = byte_len\<rparr>)))"

definition decode_deviation :: "wire_fields \<Rightarrow> (decode_error, tool_schema_deviation_fact) result" where
  "decode_deviation obj =
     and_then (and_then (required_array obj ''type_mismatches'') (try_map decode_mismatch)) (\<lambda>type_mismatches.
     and_then (required_id obj ''operation_id'') (\<lambda>operation_id.
     and_then (required_id obj ''epoch_id'') (\<lambda>epoch_id.
     and_then (required_id obj ''assistant_entry_id'') (\<lambda>assistant_entry_id.
     and_then (required_string obj ''tool_call_id'') (\<lambda>tool_call_id.
     and_then (required_string obj ''tool_name'') (\<lambda>tool_name.
     and_then (required_id obj ''model_harness_profile'') (\<lambda>model_harness_profile.
     and_then (required_bool obj ''arguments_valid_json'') (\<lambda>arguments_valid_json.
     and_then (required_strings obj ''unknown_fields'') (\<lambda>unknown_fields.
     and_then (required_strings obj ''missing_fields'') (\<lambda>missing_fields.
     and_then (required_payload obj ''raw_arguments'') (\<lambda>raw_arguments.
       Ok \<lparr>sd_operation_id = operation_id, sd_epoch_id = epoch_id,
           sd_assistant_entry_id = assistant_entry_id, sd_tool_call_id = tool_call_id,
           sd_tool_name = tool_name, sd_model_harness_profile = model_harness_profile,
           sd_arguments_valid_json = arguments_valid_json, sd_unknown_fields = unknown_fields,
           sd_missing_fields = missing_fields, sd_type_mismatches = type_mismatches,
           sd_raw_arguments = raw_arguments\<rparr>)))))))))))"

definition decode_trace :: "wire_fields \<Rightarrow> (decode_error, trace_artifact_fact) result" where
  "decode_trace obj =
     and_then (required_word obj ''schema_version'' ''trace artifact schema version exceeds u16'') (\<lambda>schema_version.
     and_then (required_id obj ''operation_id'') (\<lambda>operation_id.
     and_then (required_id obj ''epoch_id'') (\<lambda>epoch_id.
     and_then (required_id obj ''core_run_id'') (\<lambda>core_run_id.
     and_then (required_id obj ''harness_revision_id'') (\<lambda>harness_revision_id.
     and_then (required_id obj ''harness_snapshot_id'') (\<lambda>harness_snapshot_id.
     and_then (required_id obj ''model_harness_profile'') (\<lambda>model_harness_profile.
     and_then (required_artifact obj ''artifact_id'') (\<lambda>artifact_id.
     and_then (required_u64 obj ''byte_len'') (\<lambda>byte_len.
     and_then (required_string obj ''media_type'') (\<lambda>media_type.
       Ok \<lparr>ta_schema_version = schema_version, ta_operation_id = operation_id, ta_epoch_id = epoch_id,
           ta_core_run_id = core_run_id, ta_harness_revision_id = harness_revision_id,
           ta_harness_snapshot_id = harness_snapshot_id,
           ta_model_harness_profile = model_harness_profile, ta_artifact_id = artifact_id,
           ta_byte_len = byte_len, ta_media_type = media_type\<rparr>))))))))))"

definition decode_material :: "wire_fields \<Rightarrow> (decode_error, provider_request_material_fact) result" where
  "decode_material obj =
     and_then (required_id obj ''operation_id'') (\<lambda>operation_id.
     and_then (required_id obj ''epoch_id'') (\<lambda>epoch_id.
     and_then (required_id obj ''request_id'') (\<lambda>request_id.
     and_then (required_payload obj ''request'') (\<lambda>request.
       Ok \<lparr>mf_operation_id = operation_id, mf_epoch_id = epoch_id, mf_request_id = request_id,
           mf_request = request\<rparr>))))"

definition decode_state_set :: "wire_fields \<Rightarrow> (decode_error, extension_state_value_set_fact) result" where
  "decode_state_set obj =
     and_then (required_id obj ''lane_id'') (\<lambda>lane_id.
     and_then (required_string obj ''extension_id'') (\<lambda>extension_id.
     and_then (required_string obj ''state_version'') (\<lambda>state_version.
     and_then (required_value obj ''value'') (\<lambda>value.
       Ok \<lparr>xs_lane_id = lane_id, xs_extension_id = extension_id, xs_state_version = state_version,
           xs_value = value\<rparr>))))"

definition decode_checkpoint :: "wire_fields \<Rightarrow> (decode_error, turn_checkpoint_fact) result" where
  "decode_checkpoint obj =
     and_then (required_id obj ''checkpoint_id'') (\<lambda>checkpoint_id.
     and_then (required_id obj ''lane_id'') (\<lambda>lane_id.
     and_then (required_id obj ''operation_id'') (\<lambda>operation_id.
     and_then (optional_id_of obj ''leaf_id'') (\<lambda>leaf_id.
     and_then (and_then (required_value obj ''extension_state'') decode_extension_state) (\<lambda>extension_state.
       Ok \<lparr>cp_checkpoint_id = checkpoint_id, cp_lane_id = lane_id, cp_operation_id = operation_id,
           cp_leaf_id = leaf_id, cp_extension_state = extension_state\<rparr>)))))"

definition decode_forked :: "wire_fields \<Rightarrow> (decode_error, forked_lane_fact) result" where
  "decode_forked obj =
     and_then (required_id obj ''checkpoint_id'') (\<lambda>checkpoint_id.
     and_then (required_id obj ''lane_id'') (\<lambda>lane_id.
     and_then (optional_id_of obj ''base_leaf_id'') (\<lambda>base_leaf_id.
       Ok \<lparr>fl_checkpoint_id = checkpoint_id, fl_lane_id = lane_id, fl_base_leaf_id = base_leaf_id\<rparr>)))"

definition decode_fact :: "json_value \<Rightarrow> (decode_error, session_fact) result" where
  "decode_fact value =
     and_then (read_object value) (\<lambda>obj.
     and_then (required_string obj ''type'') (\<lambda>tag.
       if tag = ''subagent_policy'' then map_ok SubagentPolicy (decode_policy obj)
       else if tag = ''agent_spawned'' then map_ok AgentSpawned (decode_spawned obj)
       else if tag = ''workspace_delta'' then map_ok WorkspaceDelta (decode_delta obj)
       else if tag = ''agent_task_finished'' then map_ok AgentTaskFinished (decode_task_finished obj)
       else if tag = ''workspace_delta_applied'' then map_ok WorkspaceDeltaApplied (decode_delta_applied obj)
       else if tag = ''harness_catalog'' then map_ok HarnessCatalog (decode_catalog obj)
       else if tag = ''tool_schema_deviation'' then map_ok ToolSchemaDeviation (decode_deviation obj)
       else if tag = ''trace_artifact'' then map_ok TraceArtifact (decode_trace obj)
       else if tag = ''provider_request_material'' then map_ok ProviderRequestMaterial (decode_material obj)
       else if tag = ''extension_state_value_set'' then map_ok ExtensionStateValueSet (decode_state_set obj)
       else if tag = ''turn_checkpoint'' then map_ok TurnCheckpoint (decode_checkpoint obj)
       else if tag = ''forked_lane'' then map_ok ForkedLane (decode_forked obj)
       else if tag = ''custom'' then
         and_then (required_string obj ''type_name'') (\<lambda>type_name.
         and_then (required_value obj ''payload'') (\<lambda>payload. Ok (CustomFact type_name payload)))
       else Err (UnknownName ''session fact type'' tag)))"

fun fact_ok :: "session_fact \<Rightarrow> bool" where
  "fact_ok (SubagentPolicy f) = digest_ok (sp_tool_surface_digest f)"
| "fact_ok (AgentSpawned f) =
     (id_ok (as_agent_id f) \<and> id_ok (as_parent_lane_id f) \<and> id_ok (as_parent_operation_id f) \<and>
      id_ok (as_lane_id f) \<and> pred_option id_ok (as_base_leaf_id f) \<and> id_ok (as_workspace_lease_id f) \<and>
      id_ok (as_harness_revision_id f) \<and> id_ok (as_harness_snapshot_id f) \<and>
      id_ok (as_model_harness_profile_id f))"
| "fact_ok (WorkspaceDelta f) =
     (id_ok (wf_delta_id f) \<and> id_ok (wf_agent_id f) \<and> id_ok (wf_workspace_lease_id f) \<and>
      payload_ok (wf_patch f))"
| "fact_ok (AgentTaskFinished f) =
     (id_ok (at_agent_id f) \<and> id_ok (at_operation_id f) \<and> pred_option id_ok (at_final_entry_id f) \<and>
      payload_ok (at_report f) \<and> pred_option id_ok (at_workspace_delta_id f))"
| "fact_ok (WorkspaceDeltaApplied f) = (id_ok (wa_delta_id f) \<and> id_ok (wa_target_lane_id f))"
| "fact_ok (HarnessCatalog f) = digest_ok (hc_artifact_id f)"
| "fact_ok (ToolSchemaDeviation f) =
     (id_ok (sd_operation_id f) \<and> id_ok (sd_epoch_id f) \<and> id_ok (sd_assistant_entry_id f) \<and>
      id_ok (sd_model_harness_profile f) \<and> payload_ok (sd_raw_arguments f))"
| "fact_ok (TraceArtifact f) =
     (id_ok (ta_operation_id f) \<and> id_ok (ta_epoch_id f) \<and> id_ok (ta_core_run_id f) \<and>
      id_ok (ta_harness_revision_id f) \<and> id_ok (ta_harness_snapshot_id f) \<and>
      id_ok (ta_model_harness_profile f) \<and> digest_ok (ta_artifact_id f))"
| "fact_ok (ProviderRequestMaterial f) =
     (id_ok (mf_operation_id f) \<and> id_ok (mf_epoch_id f) \<and> id_ok (mf_request_id f) \<and>
      payload_ok (mf_request f))"
| "fact_ok (ExtensionStateValueSet f) = id_ok (xs_lane_id f)"
| "fact_ok (TurnCheckpoint f) =
     (id_ok (cp_checkpoint_id f) \<and> id_ok (cp_lane_id f) \<and> id_ok (cp_operation_id f) \<and>
      pred_option id_ok (cp_leaf_id f) \<and> btree_ok (cp_extension_state f))"
| "fact_ok (ForkedLane f) =
     (id_ok (fl_checkpoint_id f) \<and> id_ok (fl_lane_id f) \<and> pred_option id_ok (fl_base_leaf_id f))"
| "fact_ok (CustomFact _ _) = True"

section \<open>Mutations\<close>

fun encode_mutation_payload :: "session_mutation \<Rightarrow> json_value" where
  "encode_mutation_payload (EntryM entry) =
     object [(''kind'', JString ''entry''),
       (''payload'', object [(''lane_id'', JString (se_lane_id entry)),
          (''id'', JString (eh_id (se_header entry))),
          (''parent_id'', optional_id (eh_parent_id (se_header entry))),
          (''entry'', encode_entry (se_body entry))])]"
| "encode_mutation_payload (RecordM record) =
     object [(''kind'', JString ''record''), (''payload'', encode_record (sr_record record))]"
| "encode_mutation_payload (LaneM lane) =
     object [(''kind'', JString ''lane''), (''payload'', encode_lane_mutation (sl_mutation lane))]"
| "encode_mutation_payload (FactM f) =
     object [(''kind'', JString ''fact''), (''payload'', encode_fact (sf_fact f))]"

definition decode_stored_entry ::
    "sequence \<Rightarrow> u64 \<Rightarrow> wire_fields \<Rightarrow> (decode_error, stored_entry) result" where
  "decode_stored_entry seq timestamp_ms payload =
     and_then (required_id payload ''lane_id'') (\<lambda>lane_id.
     and_then (required_id payload ''id'') (\<lambda>i.
     and_then (optional_id_of payload ''parent_id'') (\<lambda>parent_id.
     and_then (and_then (required_value payload ''entry'') decode_entry) (\<lambda>body.
       Ok \<lparr>se_lane_id = lane_id,
           se_header = \<lparr>eh_id = i, eh_parent_id = parent_id, eh_seq = seq, eh_timestamp_ms = timestamp_ms\<rparr>,
           se_body = body\<rparr>))))"

definition decode_session_mutation ::
    "sequence \<Rightarrow> u64 \<Rightarrow> json_value \<Rightarrow> (decode_error, session_mutation) result" where
  "decode_session_mutation seq timestamp_ms value =
     and_then (read_object value) (\<lambda>obj.
     and_then (require_exact_fields obj [''kind'', ''payload''] ''mutation'') (\<lambda>_.
     and_then (required_string obj ''kind'') (\<lambda>tag.
     and_then (required_value obj ''payload'') (\<lambda>payload.
       if tag = ''entry'' then
         map_ok EntryM (and_then (read_object payload) (decode_stored_entry seq timestamp_ms))
       else if tag = ''record'' then
         map_ok (\<lambda>r. RecordM \<lparr>sr_seq = seq, sr_timestamp_ms = timestamp_ms, sr_record = r\<rparr>)
           (decode_record payload)
       else if tag = ''lane'' then
         map_ok (\<lambda>l. LaneM \<lparr>sl_seq = seq, sl_timestamp_ms = timestamp_ms, sl_mutation = l\<rparr>)
           (decode_lane_mutation payload)
       else if tag = ''fact'' then
         map_ok (\<lambda>f. FactM \<lparr>sf_seq = seq, sf_timestamp_ms = timestamp_ms, sf_fact = f\<rparr>)
           (decode_fact payload)
       else Err (UnknownName ''session line kind'' tag)))))"

fun mutation_ok :: "sequence \<Rightarrow> u64 \<Rightarrow> session_mutation \<Rightarrow> bool" where
  "mutation_ok seq timestamp_ms (EntryM e) =
     (id_ok (se_lane_id e) \<and> id_ok (eh_id (se_header e)) \<and> pred_option id_ok (eh_parent_id (se_header e)) \<and>
      entry_ok (se_body e) \<and> eh_seq (se_header e) = seq \<and> eh_timestamp_ms (se_header e) = timestamp_ms)"
| "mutation_ok seq timestamp_ms (RecordM r) =
     (record_ok (sr_record r) \<and> sr_seq r = seq \<and> sr_timestamp_ms r = timestamp_ms)"
| "mutation_ok seq timestamp_ms (LaneM l) =
     (lane_mutation_ok (sl_mutation l) \<and> sl_seq l = seq \<and> sl_timestamp_ms l = timestamp_ms)"
| "mutation_ok seq timestamp_ms (FactM f) =
     (fact_ok (sf_fact f) \<and> sf_seq f = seq \<and> sf_timestamp_ms f = timestamp_ms)"

section \<open>Mutations decode to what was encoded\<close>

interpretation lane_mutation: object_codec encode_lane_mutation decode_lane_mutation lane_mutation_ok
proof
  show "lane_mutation_ok x \<Longrightarrow> decode_lane_mutation (encode_lane_mutation x) = Inr x" for x
    by (cases x) (simp add: decode_lane_mutation_def wire_simps)
  show "is_object (encode_lane_mutation x)" for x
    by (cases x) (simp add: wire_simps)
qed

interpretation state_value: object_codec encode_state_value decode_state_value "\<lambda>_. True"
  by unfold_locales (simp_all add: encode_state_value_def decode_state_value_def wire_simps)

interpretation mismatch: object_codec encode_mismatch decode_mismatch "\<lambda>_. True"
  by unfold_locales (simp_all add: encode_mismatch_def decode_mismatch_def wire_simps)

lemma try_map_state:
  "try_map (\<lambda>(extension_id, v). and_then (decode_state_value v) (\<lambda>x. Inr (extension_id, x)))
     (map (\<lambda>(extension_id, value). (extension_id, encode_state_value value)) state) = Inr state"
  by (induction state) (auto simp: state_value.decode_encode)

interpretation extension_state: object_codec encode_extension_state decode_extension_state btree_ok
proof
  fix x :: extension_state
  show "is_object (encode_extension_state x)"
    by (simp add: encode_extension_state_def is_object_def)
  assume ok: "btree_ok x"
  have "btree_ok (map (\<lambda>(extension_id, value). (extension_id, encode_state_value value)) x)"
    using ok by (simp add: btree_ok_def comp_def case_prod_beta)
  with ok show "decode_extension_state (encode_extension_state x) = Inr x"
    by (simp add: decode_extension_state_def encode_extension_state_def read_object_def btree_of_ok
        try_map_state)
qed

interpretation session_fact: object_codec encode_fact decode_fact fact_ok
proof
  fix x
  show "is_object (encode_fact x)"
    by (cases x) (simp_all add: wire_simps)
  assume ok: "fact_ok x"
  show "decode_fact (encode_fact x) = Inr x"
    by (cases x) (use ok in \<open>simp_all add: decode_fact_def record_wire_simps decode_policy_def
      decode_spawned_def decode_delta_def decode_task_finished_def decode_delta_applied_def
      decode_catalog_def decode_deviation_def decode_trace_def decode_material_def decode_state_set_def
      decode_checkpoint_def decode_forked_def subagent_model.decode_list mismatch.decode_list
      list.pred_True extension_state.decode_encode\<close>)
qed

lemma encode_payload_not_null: "encode_mutation_payload x \<noteq> JNull"
  by (cases x) (simp_all add: object_def)

lemma exact_kind_payload:
  "require_exact_fields (btree_of [(''kind'', k), (''payload'', p)]) [''kind'', ''payload''] context = Inr ()"
  by (simp add: require_exact_fields_def btree_of_def btree_contains_def less_char_def)

interpretation session_mutation: wire_codec encode_mutation_payload "decode_session_mutation n t" "mutation_ok n t"
  for n t
proof
  fix x
  assume ok: "mutation_ok n t x"
  show "decode_session_mutation n t (encode_mutation_payload x) = Inr x"
  proof (cases x)
    case (EntryM e)
    with ok show ?thesis
      by (simp add: decode_session_mutation_def decode_stored_entry_def wire_simps exact_kind_payload
          map_ok_def entry.decode_encode)
  qed (use ok in \<open>simp_all add: decode_session_mutation_def wire_simps exact_kind_payload map_ok_def
      lane_record.decode_encode lane_mutation.decode_encode session_fact.decode_encode\<close>)
qed

end
