(* ===== verification/Session_Store.thy ===== *)
theory Session_Store
  imports Lane_Order Agent_Graph Session_Codec
begin

text \<open>
  The in-memory session writer of \<open>crates/tea-session/src/store.rs\<close> with the sealing functions
  it calls in \<open>jsonl.rs\<close>. A \<open>MemorySession\<close> is the record \<open>memory_session\<close>; \<open>commit\<close> takes the
  clock's reading as an argument and returns the new session with the stored commit, or the
  error with which the source leaves the session as it was.

  \<open>io\<close> bundles what the session uses of packages: the lane reducer's \<open>codec\<close> (the JSON printer and
  BLAKE3) and the JSON parser.

  \<open>advance\<close> returns \<open>None\<close> where an \<open>expect\<close> of \<open>advance_lifecycle_record\<close> would fail.
\<close>

record session_io =
  io_codec :: codec
  io_from_str :: "string \<Rightarrow> json_value option"

abbreviation io_blake3 :: "session_io \<Rightarrow> u8 list \<Rightarrow> digest" where
  "io_blake3 io \<equiv> cx_blake3 (io_codec io)"

abbreviation io_json :: "session_io \<Rightarrow> json_value \<Rightarrow> (json_error, string) result" where
  "io_json io \<equiv> to_json_string (cx_miniserde (io_codec io))"

datatype invalid_input =
    NotV1Header
  | WorkspaceNul
  | HeaderEncoding
  | EntryMaterialized entry_id
  | EmptyCommit
  | CommitEncoding
  | CommitJson
  | LineTooLong

text \<open>The message of a \<open>Format\<close> error; its line, offset and sequence are arguments of the error.\<close>

datatype format_problem =
    NoHeaderLine
  | NotUtf8
  | Unparsable json_error
  | Unencodable json_error
  | NotCanonical
  | LineLimit
  | Undecodable decode_error
  | HeaderDigestMismatch
  | CommitDigestMismatch
  | SchemaMismatch
  | NonConsecutive sequence sequence
  | PreviousDigestMismatch
  | DigestEncoding

datatype session_error =
    InvalidInput invalid_input
  | Format nat nat "sequence option" format_problem
  | UnsupportedFormat "u64 option"
  | RecoveryRequired nat
  | WriterBusy
  | IndeterminateWrite string
  | IoError string
  | CorruptionError corruption
  | GraphError graph_corruption
  | FaultedError string
  | ReturnedOtherItem
  | IndexPanic

section \<open>Sealing\<close>

definition encode_unsigned_header :: "session_header \<Rightarrow> json_value" where
  "encode_unsigned_header header =
     object [(''kind'', JString SESSION_HEADER_KIND), (''format'', JString SESSION_FORMAT_IDENTITY),
       (''version'', JNumber (Unsigned (ucast (sh_version header)))),
       (''session_id'', JString (sh_session_id header)),
       (''created_at_ms'', JNumber (Unsigned (sh_created_at_ms header))),
       (''workspace'', JString (sh_workspace header)), (''metadata'', JObject (sh_metadata header)),
       (''initial_lane'', JString (sh_initial_lane header))]"

definition calculate_header_digest :: "session_io \<Rightarrow> session_header \<Rightarrow> (session_error, digest) result" where
  "calculate_header_digest io header =
     (case io_json io (encode_unsigned_header header) of
        Inl _ \<Rightarrow> Err (InvalidInput HeaderEncoding)
      | Inr canonical \<Rightarrow>
          Ok (io_blake3 io (hash_bytes ''canonical_unsigned_header'' (str_bytes canonical)
                (new_hash ''tea-session-header-v1'' 1 1))))"

definition seal_header :: "session_io \<Rightarrow> session_header \<Rightarrow> (session_error, session_header) result" where
  "seal_header io header =
     and_then (calculate_header_digest io header) (\<lambda>digest. Ok (header\<lparr>sh_digest := digest\<rparr>))"

definition encode_commit_payload :: "session_mutation list \<Rightarrow> json_value" where
  "encode_commit_payload items =
     object [(''kind'', JString ''commit''), (''items'', JArray (map encode_mutation_payload items))]"

definition calculate_commit_digest ::
    "session_io \<Rightarrow> session_id \<Rightarrow> sequence \<Rightarrow> u64 \<Rightarrow> digest \<Rightarrow> session_mutation list \<Rightarrow>
     (session_error, digest) result" where
  "calculate_commit_digest io session_id seq timestamp_ms prev_digest items =
     (case io_json io (encode_commit_payload items) of
        Inl _ \<Rightarrow> Err (InvalidInput CommitEncoding)
      | Inr canonical \<Rightarrow>
          Ok (io_blake3 io
            (hash_bytes ''canonical_mutation_payload'' (str_bytes canonical)
            (hash_bytes ''previous_digest'' prev_digest
            (hash_u64 ''timestamp_ms'' timestamp_ms
            (hash_u64 ''sequence'' seq
            (hash_string ''session_id'' session_id (new_hash ''tea-session-commit-v1'' 1 1))))))))"

definition seal_commit ::
    "session_io \<Rightarrow> session_snapshot \<Rightarrow> sequence \<Rightarrow> u64 \<Rightarrow> session_mutation list \<Rightarrow>
     (session_error, stored_commit) result" where
  "seal_commit io snapshot seq timestamp_ms items =
     (if items = [] then Err (InvalidInput EmptyCommit)
      else let prev_digest = ss_last_digest snapshot in
        and_then (calculate_commit_digest io (sh_session_id (ss_header snapshot)) seq timestamp_ms
                    prev_digest items) (\<lambda>digest.
          Ok \<lparr>sc_seq = seq, sc_timestamp_ms = timestamp_ms, sc_prev_digest = prev_digest,
              sc_digest = digest,
              sc_items = map (\<lambda>m. \<lparr>sv_seq = seq, sv_timestamp_ms = timestamp_ms,
                 sv_prev_digest = prev_digest, sv_digest = digest, sv_mutation = m\<rparr>) items\<rparr>))"

section \<open>The append index\<close>

record indexed_operation =
  xo_lane_id :: lane_id
  xo_finished :: bool
  xo_epoch_ids :: "epoch_id list"
  xo_open_epochs :: "epoch_id set"

record session_append_index =
  ix_entry_ids :: "entry_id set"
  ix_lane_leaves :: "(lane_id, entry_id option) btree"
  ix_provisioned_entries :: "(entry_id, provisioned_entry) btree"
  ix_operations :: "(operation_id, indexed_operation) btree"
  ix_active_operations :: "(lane_id, operation_id) btree"
  ix_epochs :: "(epoch_id, operation_id) btree"
  ix_step_attempts :: "(operation_id \<times> epoch_id \<times> step_kind, step_id \<times> u32) btree"
  ix_steps :: "(step_id, operation_id \<times> epoch_id \<times> step_kind) btree"
  ix_provider_starts :: "(provider_request_id, operation_id) btree"
  ix_provider_settled :: "provider_request_id set"
  ix_agent_lanes :: "lane_id set"
  ix_incremental_validation_ready :: bool

definition empty_index :: "session_header \<Rightarrow> session_append_index" where
  "empty_index header =
     \<lparr>ix_entry_ids = {}, ix_lane_leaves = [(sh_initial_lane header, None)],
      ix_provisioned_entries = [], ix_operations = [], ix_active_operations = [], ix_epochs = [],
      ix_step_attempts = [], ix_steps = [], ix_provider_starts = [], ix_provider_settled = {},
      ix_agent_lanes = {}, ix_incremental_validation_ready = True\<rparr>"

definition contains_entry :: "session_append_index \<Rightarrow> entry_id \<Rightarrow> bool" where
  "contains_entry ix i = (i \<in> ix_entry_ids ix)"

definition index_lane_leaf :: "session_append_index \<Rightarrow> lane_id \<Rightarrow> (corruption, entry_id option) result" where
  "index_lane_leaf ix lane =
     (case btree_get (ix_lane_leaves ix) lane of
        None \<Rightarrow> Err (TimelineC (UnknownLane lane)) | Some leaf \<Rightarrow> Ok leaf)"

definition index_open_operation ::
    "session_append_index \<Rightarrow> operation_id \<Rightarrow> (corruption, indexed_operation) result" where
  "index_open_operation ix i =
     (case btree_get (ix_operations ix) i of
        None \<Rightarrow> Err (OperationC (UnknownOperation i))
      | Some operation \<Rightarrow>
          if xo_finished operation then Err (OperationC (TerminalOperation i)) else Ok operation)"

definition check_provisioned ::
    "session_append_index \<Rightarrow> operation_id \<Rightarrow> entry_id set \<Rightarrow> provisioned_entry \<Rightarrow>
     (corruption, entry_id set) result" where
  "check_provisioned ix operation_id seen provisioned =
     (if pe_id provisioned \<in> ix_entry_ids ix
      then Err (OperationC (ProvisionsMaterialized operation_id (pe_id provisioned)))
      else if btree_contains (ix_provisioned_entries ix) (pe_id provisioned) \<or> pe_id provisioned \<in> seen
      then Err (OperationC (ProvisionedTwice (pe_id provisioned)))
      else Ok (insert (pe_id provisioned) seen))"

definition validate_started ::
    "session_append_index \<Rightarrow> operation_started_record \<Rightarrow> (corruption, bool) result" where
  "validate_started ix r =
     (if btree_contains (ix_operations ix) (os_id r) then Err (OperationC (DuplicateOperation (os_id r)))
      else (case btree_get (ix_lane_leaves ix) (os_lane_id r) of
         None \<Rightarrow> Err (OperationC (OperationUnknownLane (os_id r) (os_lane_id r)))
       | Some current_leaf \<Rightarrow>
           if os_source_leaf_id r \<noteq> current_leaf then Err (OperationC (OperationStaleLeaf (os_id r)))
           else if btree_contains (ix_active_operations ix) (os_lane_id r)
           then Err (OperationC (LaneBusy (os_lane_id r)))
           else and_then (try_fold (check_provisioned ix (os_id r)) {} (os_original_input r))
                  (\<lambda>_. Ok True)))"

definition epoch_open_for :: "session_append_index \<Rightarrow> epoch_id \<Rightarrow> operation_id \<Rightarrow> indexed_operation \<Rightarrow> bool" where
  "epoch_open_for ix epoch_id operation_id operation \<longleftrightarrow>
     btree_get (ix_epochs ix) epoch_id = Some operation_id \<and> epoch_id \<in> xo_open_epochs operation"

fun validate_lifecycle_record ::
    "session_append_index \<Rightarrow> lane_record \<Rightarrow> (corruption, bool) result" where
  "validate_lifecycle_record ix (OperationStarted r) = validate_started ix r"
| "validate_lifecycle_record ix (OperationFinished r) =
     and_then (index_open_operation ix (of_operation_id r)) (\<lambda>operation.
       if xo_open_epochs operation \<noteq> {}
       then Err (OperationC (FinishedWithOpenEpoch (of_operation_id r)))
       else if btree_get (ix_active_operations ix) (xo_lane_id operation) = Some (of_operation_id r)
       then Ok True
       else Err (OperationC (NotActiveAtFinish (of_operation_id r))))"
| "validate_lifecycle_record ix (EpochStarted r) =
     and_then (index_open_operation ix (es_operation_id r)) (\<lambda>operation.
       if xo_open_epochs operation \<noteq> {} then Err (EpochC (EpochAlreadyOpen (es_operation_id r)))
       else if es_epoch_index r \<noteq> of_nat (length (xo_epoch_ids operation))
       then Err (EpochC (EpochIndex (es_id r) (es_epoch_index r)))
       else if btree_contains (ix_epochs ix) (es_id r) then Err (EpochC (DuplicateEpoch (es_id r)))
       else Ok True)"
| "validate_lifecycle_record ix (EpochFinished r) =
     and_then (index_open_operation ix (ef_operation_id r)) (\<lambda>operation.
       if \<not> epoch_open_for ix (ef_epoch_id r) (ef_operation_id r) operation
       then Err (EpochC (EpochNotOpen (ef_epoch_id r) (ef_operation_id r))) else Ok True)"
| "validate_lifecycle_record ix (StepAttempted r) =
     and_then (index_open_operation ix (sa_operation_id r)) (\<lambda>operation.
       if \<not> epoch_open_for ix (sa_epoch_id r) (sa_operation_id r) operation
       then Err (EpochC (StepAfterEpoch (sa_id r)))
       else if btree_contains (ix_steps ix) (sa_id r) then Err (EpochC (StepRepeated (sa_id r)))
       else and_then (attempt_follows (btree_get (ix_step_attempts ix) (step_key r)) r) (\<lambda>_. Ok True))"
| "validate_lifecycle_record ix (ProviderRequestStarted r) =
     and_then (index_open_operation ix (pr_operation_id r)) (\<lambda>operation.
       if \<not> epoch_open_for ix (pr_epoch_id r) (pr_operation_id r) operation
       then Err (EffectC (RequestEpoch (pr_request_id r)))
       else if \<not> owns_step (btree_get (ix_steps ix) (pr_step_id r)) (pr_operation_id r) (pr_epoch_id r)
       then Err (EffectC (RequestStep (pr_request_id r) (pr_step_id r)))
       else if btree_contains (ix_provider_starts ix) (pr_request_id r)
       then Err (EffectC (DuplicateRequest (pr_request_id r)))
       else Ok True)"
| "validate_lifecycle_record ix (ProviderRequestSettled r) =
     and_then (index_open_operation ix (st_operation_id r)) (\<lambda>_.
       if btree_get (ix_provider_starts ix) (st_request_id r) \<noteq> Some (st_operation_id r) \<or>
          st_request_id r \<in> ix_provider_settled ix
       then Err (EffectC (SettlementInvalid (st_request_id r))) else Ok True)"
| "validate_lifecycle_record ix (UsageRecord r) =
     and_then (index_open_operation ix (ur_operation_id r)) (\<lambda>_. Ok True)"
| "validate_lifecycle_record ix (CacheMaintenance r) =
     and_then (index_open_operation ix (cm_operation_id r)) (\<lambda>_. Ok True)"
| "validate_lifecycle_record ix _ = Ok False"

definition needs_graph :: "session_append_index \<Rightarrow> lane_record \<Rightarrow> bool" where
  "needs_graph ix record =
     (case record of
        OperationStarted r \<Rightarrow> is_subagent (os_kind r) \<or> os_lane_id r \<in> ix_agent_lanes ix
      | _ \<Rightarrow> False)"

definition dispatches_inputs :: "lane_record \<Rightarrow> bool" where
  "dispatches_inputs record = (case record of OperationStarted r \<Rightarrow> os_input_ids r \<noteq> [] | _ \<Rightarrow> False)"

definition is_locally_validated_mutation ::
    "session_append_index \<Rightarrow> stored_mutation \<Rightarrow> (corruption, bool) result" where
  "is_locally_validated_mutation ix m =
     (if \<not> ix_incremental_validation_ready ix then Ok False
      else (case sv_mutation m of
         EntryM entry \<Rightarrow>
           if is_user_message (se_body entry)
           then (case btree_get (ix_provisioned_entries ix) (eh_id (se_header entry)) of
                   None \<Rightarrow> Ok True
                 | Some provisioned \<Rightarrow>
                     if pe_body provisioned \<noteq> se_body entry
                     then Err (EntryC (ProvisionedContent (eh_id (se_header entry)))) else Ok True)
           else Ok False
       | RecordM stored \<Rightarrow>
           if needs_graph ix (sr_record stored) then Ok False
           else if dispatches_inputs (sr_record stored) then Ok False
           else validate_lifecycle_record ix (sr_record stored)
       | LaneM _ \<Rightarrow> Ok False
       | FactM _ \<Rightarrow> Ok False))"

definition update_operation ::
    "operation_id \<Rightarrow> (indexed_operation \<Rightarrow> indexed_operation) \<Rightarrow> session_append_index \<Rightarrow>
     session_append_index option" where
  "update_operation i f ix =
     map_option (\<lambda>operation. ix\<lparr>ix_operations := btree_insert i (f operation) (ix_operations ix)\<rparr>)
       (btree_get (ix_operations ix) i)"

fun advance_lifecycle_record ::
    "session_append_index \<Rightarrow> lane_record \<Rightarrow> session_append_index option" where
  "advance_lifecycle_record ix (OperationStarted r) =
     Some (ix\<lparr>ix_provisioned_entries :=
                fold (\<lambda>p. btree_insert (pe_id p) p) (os_original_input r) (ix_provisioned_entries ix),
              ix_active_operations := btree_insert (os_lane_id r) (os_id r) (ix_active_operations ix),
              ix_operations := btree_insert (os_id r)
                \<lparr>xo_lane_id = os_lane_id r, xo_finished = False, xo_epoch_ids = [], xo_open_epochs = {}\<rparr>
                (ix_operations ix)\<rparr>)"
| "advance_lifecycle_record ix (OperationFinished r) =
     (case btree_get (ix_operations ix) (of_operation_id r) of
        None \<Rightarrow> None
      | Some operation \<Rightarrow>
          Some (ix\<lparr>ix_operations := btree_insert (of_operation_id r)
                     (operation\<lparr>xo_finished := True\<rparr>) (ix_operations ix),
                   ix_active_operations :=
                     btree_remove (xo_lane_id operation) (ix_active_operations ix)\<rparr>))"
| "advance_lifecycle_record ix (EpochStarted r) =
     update_operation (es_operation_id r)
       (\<lambda>operation. operation\<lparr>xo_epoch_ids := xo_epoch_ids operation @ [es_id r],
          xo_open_epochs := insert (es_id r) (xo_open_epochs operation)\<rparr>)
       (ix\<lparr>ix_epochs := btree_insert (es_id r) (es_operation_id r) (ix_epochs ix)\<rparr>)"
| "advance_lifecycle_record ix (EpochFinished r) =
     update_operation (ef_operation_id r)
       (\<lambda>operation. operation\<lparr>xo_open_epochs := xo_open_epochs operation - {ef_epoch_id r}\<rparr>) ix"
| "advance_lifecycle_record ix (StepAttempted r) =
     Some (ix\<lparr>ix_steps := btree_insert (sa_id r) (step_key r) (ix_steps ix),
              ix_step_attempts :=
                btree_insert (step_key r) (sa_id r, sa_attempt r) (ix_step_attempts ix)\<rparr>)"
| "advance_lifecycle_record ix (ProviderRequestStarted r) =
     Some (ix\<lparr>ix_provider_starts :=
                btree_insert (pr_request_id r) (pr_operation_id r) (ix_provider_starts ix)\<rparr>)"
| "advance_lifecycle_record ix (ProviderRequestSettled r) =
     Some (ix\<lparr>ix_provider_settled := insert (st_request_id r) (ix_provider_settled ix)\<rparr>)"
| "advance_lifecycle_record ix _ = Some ix"

definition advance_mutation ::
    "session_append_index \<Rightarrow> session_mutation \<Rightarrow> session_append_index option" where
  "advance_mutation ix m =
     (case m of
        EntryM entry \<Rightarrow>
          Some (ix\<lparr>ix_entry_ids := insert (eh_id (se_header entry)) (ix_entry_ids ix),
                   ix_lane_leaves := btree_insert (se_lane_id entry)
                     (Some (eh_id (se_header entry))) (ix_lane_leaves ix)\<rparr>)
      | LaneM stored \<Rightarrow>
          (case sl_mutation stored of Created lane_id base_leaf_id \<Rightarrow>
             Some (ix\<lparr>ix_lane_leaves := btree_insert lane_id base_leaf_id (ix_lane_leaves ix)\<rparr>))
      | RecordM stored \<Rightarrow> advance_lifecycle_record ix (sr_record stored)
      | FactM stored \<Rightarrow>
          (case sf_fact stored of
             AgentSpawned spawn \<Rightarrow> Some (ix\<lparr>ix_agent_lanes := insert (as_lane_id spawn) (ix_agent_lanes ix)\<rparr>)
           | _ \<Rightarrow> Some ix))"

definition advance :: "session_append_index \<Rightarrow> stored_mutation \<Rightarrow> session_append_index option" where
  "advance ix m =
     (if \<not> ix_incremental_validation_ready ix then Some ix
      else if \<not> is_ok (is_locally_validated_mutation ix m)
      then Some (ix\<lparr>ix_incremental_validation_ready := False\<rparr>)
      else advance_mutation ix (sv_mutation m))"

fun advance_all :: "session_append_index \<Rightarrow> stored_mutation list \<Rightarrow> session_append_index option" where
  "advance_all ix [] = Some ix"
| "advance_all ix (m # ms) = Option.bind (advance ix m) (\<lambda>ix'. advance_all ix' ms)"

definition from_snapshot :: "session_snapshot \<Rightarrow> session_append_index option" where
  "from_snapshot s = advance_all (empty_index (ss_header s)) (mutations s)"

section \<open>Preparing and validating a commit\<close>

text \<open>
  The loop of \<open>prepare_commit\<close> threads the leaves and the entry identities of the batch, and
  emits one mutation per item.
\<close>

record batch =
  ba_lane_leaves :: "(lane_id, entry_id option) btree"
  ba_entry_ids :: "entry_id set"
  ba_items :: "session_mutation list"

definition empty_batch :: batch where
  "empty_batch = \<lparr>ba_lane_leaves = [], ba_entry_ids = {}, ba_items = []\<rparr>"

definition batch_parent ::
    "session_append_index \<Rightarrow> batch \<Rightarrow> lane_id \<Rightarrow> (session_error, entry_id option) result" where
  "batch_parent ix b lane =
     (case btree_get (ba_lane_leaves b) lane of
        Some leaf_id \<Rightarrow> Ok leaf_id
      | None \<Rightarrow> map_err CorruptionError (index_lane_leaf ix lane))"

fun prepare_item ::
    "session_append_index \<Rightarrow> sequence \<Rightarrow> u64 \<Rightarrow> batch \<Rightarrow> session_commit_item \<Rightarrow>
     (session_error, batch) result" where
  "prepare_item ix seq timestamp_ms b (EntryItem lane_id entry) =
     (if contains_entry ix (pe_id entry) \<or> pe_id entry \<in> ba_entry_ids b
      then Err (InvalidInput (EntryMaterialized (pe_id entry)))
      else and_then (batch_parent ix b lane_id) (\<lambda>parent_id.
        Ok (b\<lparr>ba_entry_ids := insert (pe_id entry) (ba_entry_ids b),
              ba_lane_leaves := btree_insert lane_id (Some (pe_id entry)) (ba_lane_leaves b),
              ba_items := ba_items b @
                [EntryM \<lparr>se_lane_id = lane_id,
                   se_header = \<lparr>eh_id = pe_id entry, eh_parent_id = parent_id, eh_seq = seq,
                                eh_timestamp_ms = timestamp_ms\<rparr>,
                   se_body = pe_body entry\<rparr>]\<rparr>)))"
| "prepare_item ix seq timestamp_ms b (RecordItem record) =
     Ok (b\<lparr>ba_items := ba_items b @
           [RecordM \<lparr>sr_seq = seq, sr_timestamp_ms = timestamp_ms, sr_record = record\<rparr>]\<rparr>)"
| "prepare_item ix seq timestamp_ms b (LaneItem mutation) =
     (case mutation of Created lane_id base_leaf_id \<Rightarrow>
        Ok (b\<lparr>ba_lane_leaves := btree_insert lane_id base_leaf_id (ba_lane_leaves b),
              ba_items := ba_items b @
                [LaneM \<lparr>sl_seq = seq, sl_timestamp_ms = timestamp_ms, sl_mutation = mutation\<rparr>]\<rparr>))"
| "prepare_item ix seq timestamp_ms b (FactItem f) =
     Ok (b\<lparr>ba_items := ba_items b @
           [FactM \<lparr>sf_seq = seq, sf_timestamp_ms = timestamp_ms, sf_fact = f\<rparr>]\<rparr>)"

definition prepare_commit ::
    "session_io \<Rightarrow> session_snapshot \<Rightarrow> session_append_index \<Rightarrow> session_commit \<Rightarrow> u64 \<Rightarrow>
     (session_error, stored_commit) result" where
  "prepare_commit io snapshot ix commit timestamp_ms =
     (let seq = next_sequence snapshot in
      and_then (try_fold (prepare_item ix seq timestamp_ms) empty_batch commit) (\<lambda>b.
        seal_commit io snapshot seq timestamp_ms (ba_items b)))"

definition add_lane :: "lane_id list \<Rightarrow> lane_mutation \<Rightarrow> lane_id list" where
  "add_lane lanes mutation =
     (case mutation of Created lane_id _ \<Rightarrow>
        if lane_id \<in> set lanes then lanes else lanes @ [lane_id])"

definition snapshot_lanes :: "session_snapshot \<Rightarrow> lane_id list" where
  "snapshot_lanes s =
     foldl add_lane [sh_initial_lane (ss_header s)] (map sl_mutation (ss_lane_mutations s))"

definition validate_snapshot :: "session_io \<Rightarrow> session_snapshot \<Rightarrow> (session_error, unit) result" where
  "validate_snapshot io s =
     and_then (check_all (\<lambda>lane. map_err CorruptionError
         (and_then (reduce_lane_ref (io_codec io) s lane) (\<lambda>_. Ok ()))) (snapshot_lanes s)) (\<lambda>_.
     and_then (map_err GraphError (reduce_agent_graph (io_blake3 io) s)) (\<lambda>_. Ok ()))"

definition add_created_lane :: "lane_id list \<Rightarrow> stored_mutation \<Rightarrow> lane_id list" where
  "add_created_lane lanes item =
     (case sv_mutation item of LaneM stored \<Rightarrow> add_lane lanes (sl_mutation stored) | _ \<Rightarrow> lanes)"

definition validate_snapshot_commit ::
    "session_io \<Rightarrow> session_snapshot \<Rightarrow> stored_commit \<Rightarrow> (session_error, unit) result" where
  "validate_snapshot_commit io s appended =
     and_then (check_all (\<lambda>lane. map_err CorruptionError
         (and_then (reduce_lane_ref_with_commit (io_codec io) s appended lane) (\<lambda>_. Ok ())))
         (foldl add_created_lane (snapshot_lanes s) (sc_items appended))) (\<lambda>_.
     and_then (map_err GraphError (reduce_agent_graph_ref_with_commit (io_blake3 io) s appended))
       (\<lambda>_. Ok ()))"

definition locally_validated ::
    "session_append_index \<Rightarrow> stored_mutation list \<Rightarrow> (corruption, bool) result" where
  "locally_validated ix items =
     (case items of [item] \<Rightarrow> is_locally_validated_mutation ix item | _ \<Rightarrow> Ok False)"

definition validate_prepared_commit ::
    "session_io \<Rightarrow> session_snapshot \<Rightarrow> session_append_index \<Rightarrow> stored_commit \<Rightarrow>
     (session_error, unit) result" where
  "validate_prepared_commit io s ix appended =
     and_then (map_err CorruptionError (locally_validated ix (sc_items appended))) (\<lambda>covered.
       if covered then Ok () else validate_snapshot_commit io s appended)"

definition preview_session_commit ::
    "session_io \<Rightarrow> session_snapshot \<Rightarrow> session_commit \<Rightarrow> lane_id \<Rightarrow> u64 \<Rightarrow>
     (session_error, lane_reduction) result" where
  "preview_session_commit io s commit lane timestamp_ms =
     (case from_snapshot s of
        None \<Rightarrow> Err IndexPanic
      | Some ix \<Rightarrow>
          and_then (prepare_commit io s ix commit timestamp_ms) (\<lambda>stored.
          and_then (validate_snapshot_commit io s stored) (\<lambda>_.
            map_err CorruptionError (reduce_lane_ref_with_commit (io_codec io) s stored lane))))"

section \<open>The in-memory session\<close>

record memory_session =
  ms_snapshot :: session_snapshot
  ms_append_index :: session_append_index
  ms_fault :: "string option"

definition create_with_clock ::
    "session_io \<Rightarrow> session_header \<Rightarrow> (session_error, memory_session) result" where
  "create_with_clock io header =
     (if sh_kind header \<noteq> SESSION_HEADER_KIND \<or> sh_format header \<noteq> SESSION_FORMAT_IDENTITY \<or>
         sh_version header \<noteq> SESSION_FORMAT_VERSION
      then Err (InvalidInput NotV1Header)
      else if CHR 0x00 \<in> set (sh_workspace header) then Err (InvalidInput WorkspaceNul)
      else and_then (seal_header io header) (\<lambda>sealed.
        Ok \<lparr>ms_snapshot = empty_snapshot sealed, ms_append_index = empty_index sealed,
            ms_fault = None\<rparr>))"

definition fault_for_test :: "string \<Rightarrow> memory_session \<Rightarrow> memory_session" where
  "fault_for_test message s = s\<lparr>ms_fault := Some message\<rparr>"

definition ensure_writable :: "memory_session \<Rightarrow> (session_error, unit) result" where
  "ensure_writable s =
     (case ms_fault s of Some message \<Rightarrow> Err (FaultedError message) | None \<Rightarrow> Ok ())"

definition apply_prepared :: "memory_session \<Rightarrow> stored_commit \<Rightarrow> (session_error, memory_session) result"
  where
  "apply_prepared s stored =
     (case advance_all (ms_append_index s) (sc_items stored) of
        None \<Rightarrow> Err IndexPanic
      | Some ix \<Rightarrow>
          Ok (s\<lparr>ms_append_index := ix, ms_snapshot := push_commit (ms_snapshot s) stored\<rparr>))"

definition commit ::
    "session_io \<Rightarrow> u64 \<Rightarrow> session_commit \<Rightarrow> memory_session \<Rightarrow>
     (session_error, stored_commit) result \<times> memory_session" where
  "commit io now_ms c s =
     (case and_then (ensure_writable s) (\<lambda>_.
           and_then (prepare_commit io (ms_snapshot s) (ms_append_index s) c now_ms) (\<lambda>stored.
           and_then (validate_prepared_commit io (ms_snapshot s) (ms_append_index s) stored) (\<lambda>_.
           and_then (apply_prepared s stored) (\<lambda>s'. Ok (stored, s'))))) of
        Inl e \<Rightarrow> (Err e, s)
      | Inr (stored, s') \<Rightarrow> (Ok stored, s'))"

fun first_entry :: "stored_mutation list \<Rightarrow> stored_entry option" where
  "first_entry (item # _) = (case sv_mutation item of EntryM entry \<Rightarrow> Some entry | _ \<Rightarrow> None)"
| "first_entry [] = None"

fun first_record :: "stored_mutation list \<Rightarrow> stored_record option" where
  "first_record (item # _) = (case sv_mutation item of RecordM record \<Rightarrow> Some record | _ \<Rightarrow> None)"
| "first_record [] = None"

fun first_lane :: "stored_mutation list \<Rightarrow> stored_lane_mutation option" where
  "first_lane (item # _) = (case sv_mutation item of LaneM lane \<Rightarrow> Some lane | _ \<Rightarrow> None)"
| "first_lane [] = None"

fun first_fact :: "stored_mutation list \<Rightarrow> stored_fact option" where
  "first_fact (item # _) = (case sv_mutation item of FactM f \<Rightarrow> Some f | _ \<Rightarrow> None)"
| "first_fact [] = None"

definition take_single ::
    "(stored_mutation list \<Rightarrow> 'a option) \<Rightarrow> stored_commit \<Rightarrow> (session_error, 'a) result" where
  "take_single pick stored =
     (case pick (sc_items stored) of None \<Rightarrow> Err ReturnedOtherItem | Some x \<Rightarrow> Ok x)"

definition append_entry ::
    "session_io \<Rightarrow> u64 \<Rightarrow> lane_id \<Rightarrow> provisioned_entry \<Rightarrow> memory_session \<Rightarrow>
     (session_error, stored_entry) result \<times> memory_session" where
  "append_entry io now_ms lane_id entry s =
     (case commit io now_ms (one_commit (EntryItem lane_id entry)) s of
        (r, s') \<Rightarrow> (and_then r (take_single first_entry), s'))"

definition append_record ::
    "session_io \<Rightarrow> u64 \<Rightarrow> lane_record \<Rightarrow> memory_session \<Rightarrow>
     (session_error, stored_record) result \<times> memory_session" where
  "append_record io now_ms record s =
     (case commit io now_ms (one_commit (RecordItem record)) s of
        (r, s') \<Rightarrow> (and_then r (take_single first_record), s'))"

definition append_lane_mutation ::
    "session_io \<Rightarrow> u64 \<Rightarrow> lane_mutation \<Rightarrow> memory_session \<Rightarrow>
     (session_error, stored_lane_mutation) result \<times> memory_session" where
  "append_lane_mutation io now_ms mutation s =
     (case commit io now_ms (one_commit (LaneItem mutation)) s of
        (r, s') \<Rightarrow> (and_then r (take_single first_lane), s'))"

definition append_fact ::
    "session_io \<Rightarrow> u64 \<Rightarrow> session_fact \<Rightarrow> memory_session \<Rightarrow>
     (session_error, stored_fact) result \<times> memory_session" where
  "append_fact io now_ms f s =
     (case commit io now_ms (one_commit (FactItem f)) s of
        (r, s') \<Rightarrow> (and_then r (take_single first_fact), s'))"

end
