(* ===== verification/Store_Refinement.thy ===== *)
theory Store_Refinement
  imports Session_Store
begin

text \<open>
  The append index of \<open>crates/tea-session/src/store.rs\<close> refines the lane reducer, and the
  snapshot's typed views refine one list of mutations.

  \<open>index_of st lanes\<close> is the index that stands for a reducer state: a functional abstraction, so
  that advancing the index by a mutation the reducer accepts is the abstraction of the
  reducer's step. \<open>mutations\<close> reads the snapshot back: pushing a sealed commit appends exactly
  its items.
\<close>

section \<open>The snapshot\<close>

fun lane_creation :: "session_mutation \<Rightarrow> stored_lane_mutation list" where
  "lane_creation (LaneM l) = [l]"
| "lane_creation _ = []"

definition lane_creations :: "stored_mutation list \<Rightarrow> stored_lane_mutation list" where
  "lane_creations ms = concat (map (\<lambda>m. lane_creation (sv_mutation m)) ms)"

definition snapshot_ok :: "session_snapshot \<Rightarrow> bool" where
  "snapshot_ok s \<longleftrightarrow> (\<forall>ev \<in> set (ss_timeline s). locate s (ev_location ev) \<noteq> None) \<and>
     ss_lane_mutations s = lane_creations (mutations s)"

definition sealed :: "stored_commit \<Rightarrow> bool" where
  "sealed c \<longleftrightarrow> sc_items c \<noteq> [] \<and>
     (\<forall>m \<in> set (sc_items c). sv_seq m = sc_seq c \<and> sv_timestamp_ms m = sc_timestamp_ms c \<and>
        sv_prev_digest m = sc_prev_digest c \<and> sv_digest m = sc_digest c)"

lemma at_index_append: "at_index xs i \<noteq> None \<Longrightarrow> at_index (xs @ ys) i = at_index xs i"
  by (auto simp: at_index_def nth_append split: if_splits)

lemma at_index_last [simp]: "at_index (xs @ [x]) (length xs) = Some x"
  by (simp add: at_index_def)

lemma push_item_mutation_fields:
  "ss_header (push_item_mutation c m s) = ss_header s"
  "ss_last_sequence (push_item_mutation c m s) = ss_last_sequence s"
  "ss_last_digest (push_item_mutation c m s) = ss_last_digest s"
  by (cases "sv_mutation m"; simp add: push_item_mutation_def Let_def split: option.splits)+

lemma push_item_lane_mutations:
  "ss_lane_mutations (push_item_mutation c m s) = ss_lane_mutations s @ lane_creation (sv_mutation m)"
  by (cases "sv_mutation m") (simp_all add: push_item_mutation_def Let_def split: option.splits)

lemma push_item_locate_old:
  "locate s loc \<noteq> None \<Longrightarrow> locate (push_item_mutation c m s) loc = locate s loc"
  by (cases "sv_mutation m"; cases loc)
    (auto simp: push_item_mutation_def Let_def at_index_append split: option.splits)

lemma push_item_timeline:
  "\<exists>loc. ss_timeline (push_item_mutation c m s) = ss_timeline s @
     [\<lparr>ev_seq = sc_seq c, ev_timestamp_ms = sc_timestamp_ms c, ev_prev_digest = sc_prev_digest c,
       ev_digest = sc_digest c, ev_location = loc\<rparr>] \<and>
     locate (push_item_mutation c m s) loc = Some (sv_mutation m)"
  by (cases "sv_mutation m") (auto simp: push_item_mutation_def Let_def split: option.splits)

lemma mutations_push_item:
  assumes ok: "snapshot_ok s"
    and m: "sv_seq m = sc_seq c" "sv_timestamp_ms m = sc_timestamp_ms c"
      "sv_prev_digest m = sc_prev_digest c" "sv_digest m = sc_digest c"
  shows "mutations (push_item_mutation c m s) = mutations s @ [m]"
    and "snapshot_ok (push_item_mutation c m s)"
proof -
  let ?s = "push_item_mutation c m s"
  from push_item_timeline [of c m s] obtain loc where
    tl: "ss_timeline ?s = ss_timeline s @
     [\<lparr>ev_seq = sc_seq c, ev_timestamp_ms = sc_timestamp_ms c, ev_prev_digest = sc_prev_digest c,
       ev_digest = sc_digest c, ev_location = loc\<rparr>]"
    and loc: "locate ?s loc = Some (sv_mutation m)" by blast
  have old: "borrow_mutation ?s ev = borrow_mutation s ev" if "ev \<in> set (ss_timeline s)" for ev
    using that ok by (simp add: borrow_mutation_def snapshot_ok_def push_item_locate_old)
  then have "List.map_filter (borrow_mutation ?s) (ss_timeline s) = mutations s"
    unfolding mutations_def by (simp add: List.map_filter_def cong: map_cong filter_cong)
  with m tl loc show eq: "mutations ?s = mutations s @ [m]"
    by (simp add: mutations_def List.map_filter_def borrow_mutation_def)
  show "snapshot_ok ?s"
    using ok tl loc eq
    by (auto simp: snapshot_ok_def push_item_locate_old push_item_lane_mutations lane_creations_def)
qed

lemma mutations_push_items:
  assumes "snapshot_ok s" and "\<forall>m \<in> set items. sv_seq m = sc_seq c \<and>
      sv_timestamp_ms m = sc_timestamp_ms c \<and> sv_prev_digest m = sc_prev_digest c \<and>
      sv_digest m = sc_digest c"
  shows "mutations (fold (push_item_mutation c) items s) = mutations s @ items \<and>
    snapshot_ok (fold (push_item_mutation c) items s) \<and>
    ss_header (fold (push_item_mutation c) items s) = ss_header s \<and>
    ss_last_sequence (fold (push_item_mutation c) items s) = ss_last_sequence s \<and>
    ss_last_digest (fold (push_item_mutation c) items s) = ss_last_digest s"
  using assms
proof (induction items arbitrary: s)
  case (Cons m items)
  have m: "sv_seq m = sc_seq c" "sv_timestamp_ms m = sc_timestamp_ms c"
      "sv_prev_digest m = sc_prev_digest c" "sv_digest m = sc_digest c" using Cons.prems(2) by auto
  have rest: "\<forall>m \<in> set items. sv_seq m = sc_seq c \<and> sv_timestamp_ms m = sc_timestamp_ms c \<and>
      sv_prev_digest m = sc_prev_digest c \<and> sv_digest m = sc_digest c" using Cons.prems(2) by auto
  note item = mutations_push_item [OF Cons.prems(1) m]
  from Cons.IH [OF item(2) rest] show ?case
    unfolding fold.simps comp_def item(1) push_item_mutation_fields by simp
qed simp

lemma push_commit_ok:
  assumes "snapshot_ok s" and "sealed c"
  shows "mutations (push_commit s c) = mutations s @ sc_items c"
    and "snapshot_ok (push_commit s c)" and "ss_header (push_commit s c) = ss_header s"
    and "ss_last_sequence (push_commit s c) = sc_seq c" and "ss_last_digest (push_commit s c) = sc_digest c"
proof -
  let ?s = "s\<lparr>ss_last_sequence := sc_seq c, ss_last_digest := sc_digest c\<rparr>"
  have same: "locate ?s loc = locate s loc" for loc by (cases loc) auto
  then have "borrow_mutation ?s = borrow_mutation s" by (simp add: fun_eq_iff borrow_mutation_def)
  then have "snapshot_ok ?s" and "mutations ?s = mutations s"
    using assms(1) same by (auto simp: snapshot_ok_def mutations_def)
  with mutations_push_items [of ?s "sc_items c" c] assms(2)
  show "mutations (push_commit s c) = mutations s @ sc_items c"
    and "snapshot_ok (push_commit s c)" and "ss_header (push_commit s c) = ss_header s"
    and "ss_last_sequence (push_commit s c) = sc_seq c" and "ss_last_digest (push_commit s c) = sc_digest c"
    by (auto simp: push_commit_def sealed_def)
qed

lemma snapshot_ok_empty [simp]: "snapshot_ok (empty_snapshot header)" "mutations (empty_snapshot header) = []"
  by (simp_all add: snapshot_ok_def empty_snapshot_def mutations_def map_filter_simps lane_creations_def)

text \<open>The lanes of a snapshot are those of its timeline.\<close>

lemma snapshot_lanes_push:
  assumes "snapshot_ok s" and "sealed c"
  shows "snapshot_lanes (push_commit s c) = foldl add_created_lane (snapshot_lanes s) (sc_items c)"
proof -
  have "foldl add_lane lanes (map sl_mutation (lane_creations items)) =
    foldl add_created_lane lanes items" for lanes items
  proof (induction items arbitrary: lanes)
    case (Cons m items)
    then show ?case
      by (cases "sv_mutation m") (simp_all add: lane_creations_def add_created_lane_def)
  qed (simp add: lane_creations_def)
  moreover have "ss_lane_mutations (push_commit s c) = ss_lane_mutations s @ lane_creations (sc_items c)"
    using push_commit_ok [OF assms] assms(1) by (simp add: snapshot_ok_def lane_creations_def)
  ultimately show ?thesis by (simp add: snapshot_lanes_def push_commit_ok(3) [OF assms])
qed

lemma set_add_lanes:
  "set (foldl add_lane lanes ms) = set lanes \<union> {l. \<exists>b. Created l b \<in> set ms}"
proof (induction ms arbitrary: lanes)
  case (Cons m ms)
  then show ?case by (cases m) (auto simp: add_lane_def)
qed simp

definition created_lanes :: "stored_mutation list \<Rightarrow> lane_id set" where
  "created_lanes ms = {l. \<exists>b. Created l b \<in> sl_mutation ` set (lane_creations ms)}"

lemma set_snapshot_lanes:
  "snapshot_ok s \<Longrightarrow>
   set (snapshot_lanes s) = insert (sh_initial_lane (ss_header s)) (created_lanes (mutations s))"
  by (auto simp: snapshot_lanes_def set_add_lanes snapshot_ok_def created_lanes_def)

lemma created_lanes_snoc:
  "created_lanes (ms @ [m]) = created_lanes ms \<union>
     {l. \<exists>b. Created l b \<in> sl_mutation ` set (lane_creation (sv_mutation m))}"
  by (auto simp: created_lanes_def lane_creations_def)

section \<open>Sealing\<close>

lemma seal_commit_sealed:
  "seal_commit io s seq t items = Inr c \<Longrightarrow>
     sealed c \<and> sc_seq c = seq \<and> sc_timestamp_ms c = t \<and> sc_prev_digest c = ss_last_digest s \<and>
     map sv_mutation (sc_items c) = items \<and>
     calculate_commit_digest io (sh_session_id (ss_header s)) seq t (ss_last_digest s) items =
       Inr (sc_digest c)"
  by (auto simp: seal_commit_def sealed_def Let_def result_simps comp_def split: if_splits)

section \<open>The index of a reducer state\<close>

definition index_op :: "operation_state \<Rightarrow> indexed_operation" where
  "index_op op = \<lparr>xo_lane_id = st_lane_id op, xo_finished = st_finished op,
     xo_epoch_ids = st_epoch_ids op, xo_open_epochs = st_open_epochs op\<rparr>"

definition index_of :: "reducer \<Rightarrow> lane_id set \<Rightarrow> session_append_index" where
  "index_of st lanes =
     \<lparr>ix_entry_ids = dom (map_of (rd_entries st)), ix_lane_leaves = rd_lane_leaves st,
      ix_provisioned_entries = rd_provisioned_entries st,
      ix_operations = btree_map index_op (rd_operations st),
      ix_active_operations = rd_active_operations st, ix_epochs = rd_epochs st,
      ix_step_attempts = rd_step_attempts st, ix_steps = rd_steps st,
      ix_provider_starts = btree_map pr_operation_id (rd_provider_starts st),
      ix_provider_settled = dom (map_of (rd_provider_settled st)), ix_agent_lanes = lanes,
      ix_incremental_validation_ready = True\<rparr>"

fun spawned_lane :: "session_mutation \<Rightarrow> lane_id set" where
  "spawned_lane (FactM s) = (case sf_fact s of AgentSpawned spawn \<Rightarrow> {as_lane_id spawn} | _ \<Rightarrow> {})"
| "spawned_lane _ = {}"

definition agent_lanes :: "stored_mutation list \<Rightarrow> lane_id set" where
  "agent_lanes ms = (\<Union>m \<in> set ms. spawned_lane (sv_mutation m))"

lemma index_op_simps [simp]:
  "xo_lane_id (index_op op) = st_lane_id op" "xo_finished (index_op op) = st_finished op"
  "xo_epoch_ids (index_op op) = st_epoch_ids op" "xo_open_epochs (index_op op) = st_open_epochs op"
  by (simp_all add: index_op_def)

lemma index_of_simps [simp]:
  "ix_entry_ids (index_of st lanes) = dom (map_of (rd_entries st))"
  "ix_lane_leaves (index_of st lanes) = rd_lane_leaves st"
  "ix_provisioned_entries (index_of st lanes) = rd_provisioned_entries st"
  "ix_operations (index_of st lanes) = btree_map index_op (rd_operations st)"
  "ix_active_operations (index_of st lanes) = rd_active_operations st"
  "ix_epochs (index_of st lanes) = rd_epochs st"
  "ix_step_attempts (index_of st lanes) = rd_step_attempts st"
  "ix_steps (index_of st lanes) = rd_steps st"
  "ix_provider_starts (index_of st lanes) = btree_map pr_operation_id (rd_provider_starts st)"
  "ix_provider_settled (index_of st lanes) = dom (map_of (rd_provider_settled st))"
  "ix_agent_lanes (index_of st lanes) = lanes"
  "ix_incremental_validation_ready (index_of st lanes)"
  by (simp_all add: index_of_def)

lemma index_of_timeline [simp]:
  "index_of (st\<lparr>rd_observed_item_index := n, rd_observed_sequence := s,
     rd_checkpoint_ready_for := ready\<rparr>) lanes = index_of st lanes"
  by (simp add: index_of_def)

text \<open>Operations are kept in key order, so writing one back in place changes nothing.\<close>

lemma btree_insert_present: "btree_ok m \<Longrightarrow> map_of m k = Some v \<Longrightarrow> btree_insert k v m = m"
proof (induction m)
  case (Cons p m)
  from Cons.prems(1) have ok: "btree_ok m" and lt: "\<forall>q \<in> set m. fst p < fst q"
    by (auto simp: btree_ok_def)
  show ?case
  proof (cases "fst p = k")
    case False
    with Cons.prems(2) have k: "map_of m k = Some v" by (cases p) auto
    then have "fst p < k" using lt by (auto dest!: map_of_SomeD)
    with Cons.IH [OF ok k] show ?thesis by auto
  qed (use Cons.prems(2) in \<open>cases p, auto\<close>)
qed simp

lemma btree_map_insert_same:
  "btree_ok m \<Longrightarrow> map_of m k = Some v \<Longrightarrow> f v' = f v \<Longrightarrow> btree_map f (btree_insert k v' m) = btree_map f m"
  by (metis btree_insert_present btree_map_insert)

definition operations_sorted :: "reducer \<Rightarrow> bool" where
  "operations_sorted st \<longleftrightarrow> btree_ok (rd_operations st)"

lemma operations_sorted_step: "lane_step cx st st' \<Longrightarrow> operations_sorted st \<Longrightarrow> operations_sorted st'"
proof (induction rule: lane_step.induct)
  case (lane l b)
  then show ?case by (auto simp: step_effects operations_sorted_def simp del: step_lane.simps)
next
  case (entry e)
  from entry(1) show ?case by (rule step_entry_ok) (use entry(2) in \<open>auto simp: operations_sorted_def\<close>)
next
  case (operation_started r)
  from operation_started(1) show ?case
    by (rule step_operation_started_ok) (use operation_started(2) in \<open>auto simp: operations_sorted_def\<close>)
qed (auto simp: step_effects operations_sorted_def)

interpretation sorted_operations: lane_invariant cx operations_sorted for cx
  by unfold_locales (simp add: operations_sorted_def, rule operations_sorted_step)

lemma replay_operations_sorted: "replay cx header ms = Inr st \<Longrightarrow> btree_ok (rd_operations st)"
  using sorted_operations.replay_inv [of "initial_reducer header" cx ms st]
  by (simp add: replay_def operations_sorted_def initial_reducer_def)

section \<open>Local validation agrees with the reducer\<close>

lemma provision_fold_ok:
  "try_fold (provision_input o' es) ps xs = Inr ps' \<Longrightarrow>
     ps' = fold (\<lambda>p. btree_insert (pe_id p) p) xs ps"
proof (induction xs arbitrary: ps)
  case (Cons x xs)
  then obtain q where q: "provision_input o' es ps x = Inr q" "try_fold (provision_input o' es) q xs = Inr ps'"
    by (auto simp: result_simps)
  then have "q = btree_insert (pe_id x) x ps"
    by (auto simp: provision_input_def split: if_splits option.splits)
  with Cons.IH [OF q(2)] show ?case by simp
qed simp

lemma provision_fold_local:
  assumes "ix_entry_ids ix = dom (map_of es)"
    and "dom (map_of ps) = dom (map_of (ix_provisioned_entries ix)) \<union> seen"
  shows "is_ok (try_fold (provision_input o' es) ps xs) = is_ok (try_fold (check_provisioned ix o2) seen xs)"
  using assms(2)
proof (induction xs arbitrary: ps seen)
  case (Cons x xs)
  let ?new = "pe_id x \<notin> dom (map_of es) \<and> pe_id x \<notin> dom (map_of ps)"
  have p: "provision_input o' es ps x = Inr q \<longleftrightarrow> ?new \<and> q = btree_insert (pe_id x) x ps" for q
    by (auto simp: provision_input_def btree_simps split: option.splits if_splits)
  have c: "check_provisioned ix o2 seen x = Inr q \<longleftrightarrow> ?new \<and> q = insert (pe_id x) seen" for q
    using Cons.prems assms(1) by (auto simp: check_provisioned_def btree_simps)
  have "dom (map_of (btree_insert (pe_id x) x ps)) =
      dom (map_of (ix_provisioned_entries ix)) \<union> insert (pe_id x) seen"
    using Cons.prems by auto
  from Cons.IH [OF this] show ?case by (simp add: is_ok_and_then p c)
qed simp

lemma index_open_ok:
  "index_open_operation (index_of st lanes) i = Inr x \<longleftrightarrow>
     (\<exists>op. map_of (rd_operations st) i = Some op \<and> \<not> st_finished op \<and> x = index_op op)"
  by (auto simp: index_open_operation_def split: option.splits)

lemma index_open_known:
  "map_of (rd_operations st) i = Some op \<Longrightarrow> \<not> st_finished op \<Longrightarrow>
   index_open_operation (index_of st lanes) i = Inr (index_op op)"
  by (simp add: index_open_ok)

lemma validate_started_ok:
  "validate_started (index_of st lanes) r = Inr b \<longleftrightarrow> b \<and>
     os_id r \<notin> dom (map_of (rd_operations st)) \<and>
     map_of (rd_lane_leaves st) (os_lane_id r) = Some (os_source_leaf_id r) \<and>
     map_of (rd_active_operations st) (os_lane_id r) = None \<and>
     is_ok (try_fold (provision_input (os_id r) (rd_entries st)) (rd_provisioned_entries st)
       (os_original_input r))"
proof -
  have "is_ok (try_fold (provision_input (os_id r) (rd_entries st)) (rd_provisioned_entries st)
      (os_original_input r)) =
    is_ok (try_fold (check_provisioned (index_of st lanes) (os_id r)) {} (os_original_input r))"
    by (rule provision_fold_local) simp_all
  then show ?thesis
    by (auto simp: validate_started_def result_simps is_ok_iff btree_contains_def
        split: option.splits if_splits)
qed

lemma validate_record_complete:
  assumes "step_record cx st s i r = Inr st'"
  shows "is_ok (validate_lifecycle_record (index_of st lanes) r)"
proof (cases r)
  case (OperationStarted x)
  with assms have "step_operation_started st x = Inr st'" by simp
  then show ?thesis
    by (rule step_operation_started_ok)
      (auto simp: OperationStarted is_ok_iff validate_started_ok intro: exI [of _ True])
next
  case (StepAttempted x)
  with assms obtain op where "map_of (rd_operations st) (sa_operation_id x) = Some op" "\<not> st_finished op"
    "map_of (rd_epochs st) (sa_epoch_id x) = Some (sa_operation_id x)" "sa_epoch_id x \<in> st_open_epochs op"
    "sa_id x \<notin> dom (map_of (rd_steps st))"
    "attempt_follows (map_of (rd_step_attempts st) (step_key x)) x = Inr ()"
    by (auto simp: step_step_attempted_ok)
  with StepAttempted show ?thesis
    by (simp add: index_open_known epoch_open_for_def btree_contains_def domIff)
qed (use assms in \<open>auto simp: step_effects index_open_known epoch_open_for_def btree_contains_def domIff\<close>)

lemma validate_record_sound:
  assumes "validate_lifecycle_record (index_of st lanes) r = Inr True" and "\<not> dispatches_inputs r"
  shows "is_ok (step_record cx st s i r)"
proof (cases r)
  case (OperationStarted x)
  with assms have v: "validate_started (index_of st lanes) x = Inr True" and "os_input_ids x = []"
    by (simp_all add: dispatches_inputs_def)
  then show ?thesis
    unfolding validate_started_ok
    by (auto simp: OperationStarted step_operation_started_def Let_def dispatch_inputs_def
        is_ok_and_then is_ok_iff btree_contains_def domIff)
next
  case (StepAttempted x)
  with assms show ?thesis
    by (auto simp: step_effects is_ok_iff result_simps index_open_ok epoch_open_for_def
        btree_contains_def domIff split: if_splits)
qed (use assms in \<open>auto simp: step_effects is_ok_iff result_simps index_open_ok epoch_open_for_def
      btree_contains_def domIff split: if_splits\<close>)

section \<open>Advancing the index\<close>

lemma advance_record:
  assumes step: "step_record cx st s i r = Inr st'" and sorted: "btree_ok (rd_operations st)"
  shows "advance_lifecycle_record (index_of st lanes) r = Some (index_of st' lanes)"
proof (cases r)
  case (OperationStarted x)
  with step have "step_operation_started st x = Inr st'" by simp
  then show ?thesis
    by (rule step_operation_started_ok)
      (auto simp: OperationStarted index_of_def index_op_def fresh_operation_state_def btree_map_insert
        dest!: provision_fold_ok)
qed (use step in \<open>auto simp: step_effects index_of_def update_operation_def btree_map_insert index_op_def\<close>)

lemma advance_entry:
  assumes step: "step_entry cx st e = Inr st'" and sorted: "btree_ok (rd_operations st)"
  shows "advance_mutation (index_of st lanes) (EntryM e) = Some (index_of st' lanes)"
  using step
proof (rule step_entry_ok)
  fix R leaf ops
  assume ops: "(map_of (rd_active_operations st) (se_lane_id e) = None \<and> ops = rd_operations st) \<or>
     (\<exists>o' op. map_of (rd_active_operations st) (se_lane_id e) = Some o' \<and>
        map_of (rd_operations st) o' = Some op \<and>
        ops = btree_insert o' (op\<lparr>st_entry_ids := st_entry_ids op @ [eh_id (se_header e)]\<rparr>)
                (rd_operations st))"
    and st': "st' = st\<lparr>rd_fresh_lanes := rd_fresh_lanes st - {se_lane_id e}, rd_compaction_requests := R,
              rd_operations := ops,
              rd_lane_leaves := btree_insert (se_lane_id e) (Some (eh_id (se_header e))) (rd_lane_leaves st),
              rd_entries := btree_insert (eh_id (se_header e)) e (rd_entries st)\<rparr>"
  have "btree_map index_op ops = btree_map index_op (rd_operations st)"
    using ops
  proof (elim disjE exE conjE)
    fix o' op
    assume "map_of (rd_operations st) o' = Some op"
      and "ops = btree_insert o' (op\<lparr>st_entry_ids := st_entry_ids op @ [eh_id (se_header e)]\<rparr>)
        (rd_operations st)"
    then show ?thesis by (simp add: btree_map_insert_same [OF sorted] index_op_def)
  qed simp
  then show ?thesis by (simp add: st' advance_mutation_def index_of_def)
qed

lemma advance_fact:
  "step_fact cx st s f = Inr st' \<Longrightarrow>
   index_of st' lanes = index_of st lanes"
  by (cases f) (auto simp: step_effects index_of_def)

lemma step_mutation_local_ok:
  assumes "step_mutation cx st i (sv_mutation m) = Inr st'"
  shows "is_ok (is_locally_validated_mutation (index_of st lanes) m)"
proof (cases "sv_mutation m")
  case (EntryM e)
  with assms have "step_entry cx st e = Inr st'" by (simp add: step_mutation_def)
  then have "\<not> provisioned_differs st (eh_id (se_header e)) (se_body e)" by (rule step_entry_ok)
  with EntryM show ?thesis
    by (auto simp: is_locally_validated_mutation_def provisioned_differs_def split: option.splits)
next
  case (RecordM s)
  with assms validate_record_complete show ?thesis
    by (auto simp: is_locally_validated_mutation_def step_mutation_def)
qed (simp_all add: is_locally_validated_mutation_def)

lemma advance_step:
  assumes step: "step_mutation cx st i (sv_mutation m) = Inr st'" and sorted: "btree_ok (rd_operations st)"
  shows "advance (index_of st lanes) m = Some (index_of st' (lanes \<union> spawned_lane (sv_mutation m)))"
proof -
  have "advance_mutation (index_of st lanes) (sv_mutation m) =
      Some (index_of st' (lanes \<union> spawned_lane (sv_mutation m)))"
  proof (cases "sv_mutation m")
    case (EntryM e)
    with step advance_entry [OF _ sorted] show ?thesis by (simp add: step_mutation_def)
  next
    case (RecordM s)
    with step advance_record [OF _ sorted] show ?thesis
      by (auto simp: step_mutation_def advance_mutation_def)
  next
    case (LaneM s)
    with step show ?thesis
      by (cases "sl_mutation s")
        (auto simp: step_mutation_def advance_mutation_def step_effects index_of_def simp del: step_lane.simps)
  next
    case (FactM s)
    with step have "step_fact cx st (sf_seq s) (sf_fact s) = Inr st'" by (simp add: step_mutation_def)
    from advance_fact [OF this] FactM show ?thesis
      by (cases "sf_fact s") (auto simp: advance_mutation_def index_of_def)
  qed
  then show ?thesis using step_mutation_local_ok [OF step] by (simp add: advance_def)
qed

lemma advance_reduce_step:
  assumes "reduce_step cx st m = Inr st'" and "btree_ok (rd_operations st)"
  shows "advance (index_of st lanes) m = Some (index_of st' (lanes \<union> spawned_lane (sv_mutation m)))"
proof -
  let ?u = "clear_readiness (advance_timeline st (sv_seq m)) (sv_mutation m)"
  from assms(1) have "step_mutation cx ?u (rd_observed_item_index st) (sv_mutation m) = Inr st'"
    by (auto simp: reduce_step_def Let_def split: if_splits)
  moreover have "index_of ?u lanes = index_of st lanes" "rd_operations ?u = rd_operations st"
    by (simp_all add: index_of_def clear_readiness_def advance_timeline_def)
  ultimately show ?thesis using advance_step [of cx ?u] assms(2) by metis
qed

text \<open>The index of a replayed timeline.\<close>

lemma advance_all_append:
  "advance_all ix (ms @ ms2) = Option.bind (advance_all ix ms) (\<lambda>ix'. advance_all ix' ms2)"
  by (induction ms arbitrary: ix) (auto simp: Option.bind_assoc)

lemma advance_all_replay:
  assumes "try_fold (reduce_step cx) st ms = Inr st'" and "operations_sorted st"
  shows "advance_all (index_of st lanes) ms = Some (index_of st' (lanes \<union> agent_lanes ms))"
  using assms
proof (induction ms arbitrary: st lanes)
  case (Cons m ms)
  then obtain u where u: "reduce_step cx st m = Inr u" "try_fold (reduce_step cx) u ms = Inr st'"
    by (auto simp: result_simps)
  from advance_reduce_step [OF u(1)] Cons.prems(2)
  have "advance (index_of st lanes) m = Some (index_of u (lanes \<union> spawned_lane (sv_mutation m)))"
    by (simp add: operations_sorted_def)
  with Cons.IH [OF u(2) sorted_operations.step_inv [OF Cons.prems(2) u(1)],
      of "lanes \<union> spawned_lane (sv_mutation m)"]
  show ?case by (simp add: agent_lanes_def Un_assoc)
qed (simp add: agent_lanes_def)

lemma empty_index_of: "empty_index header = index_of (initial_reducer header) {}"
  by (simp add: empty_index_def index_of_def initial_reducer_def)

lemma from_snapshot_replay:
  assumes "replay cx (ss_header s) (mutations s) = Inr st"
  shows "from_snapshot s = Some (index_of st (agent_lanes (mutations s)))"
  using advance_all_replay [of cx "initial_reducer (ss_header s)" "mutations s" st "{}"] assms
  by (simp add: from_snapshot_def replay_def empty_index_of operations_sorted_def initial_reducer_def)

text \<open>The lanes of a replayed timeline are the ones its snapshot lists.\<close>

lemma step_mutation_lanes:
  assumes "step_mutation cx st i m = Inr st'"
  shows "dom (map_of (rd_lane_leaves st')) = dom (map_of (rd_lane_leaves st)) \<union>
    {l. \<exists>b. Created l b \<in> sl_mutation ` set (lane_creation m)}"
proof (cases m)
  case (EntryM e)
  with assms show ?thesis by (auto simp: step_mutation_def elim!: step_entry_ok split: if_splits)
next
  case (RecordM s)
  show ?thesis
  proof (cases "sr_record s")
    case (OperationStarted r)
    with assms RecordM show ?thesis by (auto simp: step_mutation_def elim!: step_operation_started_ok)
  qed (use assms RecordM in \<open>auto simp: step_mutation_def step_effects\<close>)
next
  case (LaneM s)
  with assms show ?thesis
    by (cases "sl_mutation s") (auto simp: step_mutation_def step_effects simp del: step_lane.simps)
next
  case (FactM s)
  with assms show ?thesis by (cases "sf_fact s") (auto simp: step_mutation_def step_effects)
qed

lemma replay_lanes:
  "replay cx header ms = Inr st \<Longrightarrow>
   dom (map_of (rd_lane_leaves st)) = insert (sh_initial_lane header) (created_lanes ms)"
proof (induction ms arbitrary: st rule: rev_induct)
  case Nil
  then show ?case
    by (auto simp: replay_def initial_reducer_def created_lanes_def lane_creations_def split: if_splits)
next
  case (snoc m ms)
  then obtain u where u: "replay cx header ms = Inr u" "reduce_step cx u m = Inr st"
    by (auto simp: replay_def try_fold_append result_simps)
  let ?v = "clear_readiness (advance_timeline u (sv_seq m)) (sv_mutation m)"
  from u(2) have "step_mutation cx ?v (rd_observed_item_index u) (sv_mutation m) = Inr st"
    by (auto simp: reduce_step_def Let_def split: if_splits)
  from step_mutation_lanes [OF this] snoc.IH [OF u(1)] show ?case
    by (simp add: created_lanes_snoc clear_readiness_def advance_timeline_def)
qed

end
