(* ===== verification/Graph_Extension.thy ===== *)
theory Graph_Extension
  imports Store_Refinement
begin

text \<open>
  When does the child-agent graph stay valid without being reduced again? \<open>graph_ext\<close> relates the
  collected timeline before and after one mutation that the append index validates alone: a
  user entry, an operation on a lane no agent is bound to, the end of an operation, a new
  epoch, or a record the graph does not read. Each phase of the reduction succeeds on the
  extension when it succeeded before.
\<close>

section \<open>Inserting into an ordered map\<close>

lemma btree_insert_fresh_split:
  "k \<notin> dom (map_of m) \<Longrightarrow> \<exists>xs ys. m = xs @ ys \<and> btree_insert k v m = xs @ (k, v) # ys"
proof (induction m)
  case (Cons p m)
  show ?case
  proof (cases "k < fst p")
    case True
    then have "p # m = [] @ (p # m) \<and> btree_insert k v (p # m) = [] @ (k, v) # (p # m)" by simp
    then show ?thesis by blast
  next
    case False
    with Cons.prems have "fst p < k" "k \<notin> dom (map_of m)" by (cases p; auto split: if_splits)+
    with Cons.IH obtain xs ys where "m = xs @ ys" "btree_insert k v m = xs @ (k, v) # ys" by blast
    with False \<open>fst p < k\<close> have "p # m = (p # xs) @ ys \<and> btree_insert k v (p # m) = (p # xs) @ (k, v) # ys"
      by simp
    then show ?thesis by blast
  qed
qed simp

lemma btree_insert_replace_split:
  assumes "btree_ok m" and "map_of m k = Some w"
  shows "\<exists>xs ys. m = xs @ (k, w) # ys \<and> btree_insert k v m = xs @ (k, v) # ys"
  using assms
proof (induction m)
  case (Cons p m)
  from Cons.prems(1) have ok: "btree_ok m" and lt: "\<forall>q \<in> set m. fst p < fst q"
    by (auto simp: btree_ok_def)
  show ?case
  proof (cases "fst p = k")
    case True
    with Cons.prems(2) have "p = (k, w)" by (cases p) auto
    then have "p # m = [] @ (k, w) # m \<and> btree_insert k v (p # m) = [] @ (k, v) # m" by simp
    then show ?thesis by blast
  next
    case False
    with Cons.prems(2) have k: "map_of m k = Some w" by (cases p) auto
    then have "fst p < k" using lt by (auto dest!: map_of_SomeD)
    moreover obtain xs ys where "m = xs @ (k, w) # ys" "btree_insert k v m = xs @ (k, v) # ys"
      using Cons.IH [OF ok k] by blast
    ultimately have "p # m = (p # xs) @ (k, w) # ys \<and> btree_insert k v (p # m) = (p # xs) @ (k, v) # ys"
      by auto
    then show ?thesis by blast
  qed
qed simp

lemma try_fold_mono:
  assumes "try_fold f s ms = Inr t"
    and "\<And>s m s'. m \<in> set ms \<Longrightarrow> f s m = Inr s' \<Longrightarrow> g s m = Inr s'"
  shows "try_fold g s ms = Inr t"
  using assms
proof (induction ms arbitrary: s)
  case (Cons m ms)
  then obtain u where "f s m = Inr u" "try_fold f u ms = Inr t" by (auto simp: result_simps)
  with Cons show ?case by simp
qed simp

section \<open>The extension\<close>

definition entries_ext ::
    "(entry_id, lane_id \<times> session_entry \<times> timeline_position) btree \<Rightarrow>
     (entry_id, lane_id \<times> session_entry \<times> timeline_position) btree \<Rightarrow> bool" where
  "entries_ext es es' \<longleftrightarrow> es' = es \<or>
     (\<exists>i l u p. i \<notin> dom (map_of es) \<and> es' = btree_insert i (l, UserMessage u, p) es)"

definition operations_ext ::
    "lane_id set \<Rightarrow> timeline_position set \<Rightarrow> (operation_id, operation_info) btree \<Rightarrow>
     (operation_id, operation_info) btree \<Rightarrow> bool" where
  "operations_ext bound spawned ops ops' \<longleftrightarrow> ops' = ops \<or>
     (\<exists>i op. i \<notin> dom (map_of ops) \<and> ops' = btree_insert i op ops \<and> \<not> is_subagent (oi_kind op) \<and>
        oi_lane_id op \<notin> bound) \<or>
     (\<exists>i op p out. btree_ok ops \<and> map_of ops i = Some op \<and> oi_finished op = None \<and>
        ops' = btree_insert i (op\<lparr>oi_finished := Some (p, out)\<rparr>) ops \<and>
        (\<forall>q \<in> spawned. \<not> p < q))"

definition graph_ext :: "collected \<Rightarrow> collected \<Rightarrow> bool" where
  "graph_ext g g' \<longleftrightarrow>
     entries_ext (gc_entries g) (gc_entries g') \<and>
     operations_ext (as_lane_id ` snd ` set (gc_spawns g)) (fst ` set (gc_spawns g))
       (gc_operations g) (gc_operations g') \<and>
     map_of (gc_epochs g) \<subseteq>\<^sub>m map_of (gc_epochs g') \<and>
     gc_lanes g' = gc_lanes g \<and> gc_tools g' = gc_tools g \<and> gc_policy g' = gc_policy g \<and>
     gc_spawns g' = gc_spawns g \<and> gc_deltas g' = gc_deltas g \<and> gc_terminals g' = gc_terminals g \<and>
     gc_applied g' = gc_applied g"

text \<open>A user entry is read by no search over entries.\<close>

lemma entries_ext_cases:
  assumes "entries_ext es es'"
  obtains "es' = es" | xs ys i l u p where "es = xs @ ys" and "es' = xs @ (i, l, UserMessage u, p) # ys"
  using assms btree_insert_fresh_split unfolding entries_ext_def by metis

lemma entries_ext_get:
  "entries_ext es es' \<Longrightarrow> map_of es i = Some e \<Longrightarrow> map_of es' i = Some e"
  unfolding entries_ext_def
  by (elim disjE exE conjE) (simp, metis domIff fun_upd_apply map_of_btree_insert option.distinct(1))

lemma configuration_ext:
  assumes "graph_ext g g'"
  shows "lane_configuration_before g' lane position = lane_configuration_before g lane position"
proof -
  have "entries_ext (gc_entries g) (gc_entries g')" using assms by (simp add: graph_ext_def)
  then show ?thesis
    by (rule entries_ext_cases)
      (simp_all add: lane_configuration_before_def btree_values_def note_configuration_def)
qed

lemma policy_order_ext:
  assumes "graph_ext g g'"
  shows "check_policy_order header g' = check_policy_order header g"
proof -
  have "entries_ext (gc_entries g) (gc_entries g')" using assms by (simp add: graph_ext_def)
  then have "List.map_filter (root_revision_position l) (btree_values (gc_entries g')) =
      List.map_filter (root_revision_position l) (btree_values (gc_entries g))" for l
    by (rule entries_ext_cases)
      (simp_all add: btree_values_def List.map_filter_def root_revision_position_def)
  moreover have "gc_policy g' = gc_policy g" using assms by (simp add: graph_ext_def)
  ultimately show ?thesis by (simp add: check_policy_order_def split: option.splits)
qed

lemma final_entry_ext:
  assumes "graph_ext g g'"
  shows "expected_final_entry_id g' lane started finished = expected_final_entry_id g lane started finished"
proof -
  have "entries_ext (gc_entries g) (gc_entries g')" using assms by (simp add: graph_ext_def)
  then show ?thesis
    by (rule entries_ext_cases) (simp_all add: expected_final_entry_id_def is_final_candidate_def)
qed

lemma operations_ext_get:
  assumes "operations_ext bound spawned ops ops'" and "map_of ops i = Some op"
  shows "\<exists>op'. map_of ops' i = Some op' \<and> oi_lane_id op' = oi_lane_id op \<and> oi_kind op' = oi_kind op \<and>
    oi_started_at op' = oi_started_at op \<and>
    (oi_finished op' = oi_finished op \<or>
     oi_finished op = None \<and> (\<exists>p out. oi_finished op' = Some (p, out) \<and> (\<forall>q \<in> spawned. \<not> p < q)))"
  using assms unfolding operations_ext_def by (elim disjE exE conjE) (auto simp: domIff)

lemma operations_ext_finished:
  assumes "operations_ext bound spawned ops ops'" and "map_of ops i = Some op" and "oi_finished op = Some f"
  shows "map_of ops' i = Some op"
  using assms unfolding operations_ext_def by (elim disjE exE conjE) (auto simp: domIff)

section \<open>Each phase on the extension\<close>

lemma validate_spawn_ext:
  assumes ext: "graph_ext g g'" and spawn: "(position, spawn) \<in> set (gc_spawns g)"
    and ok: "validate_spawn blake3 i g policy spawn position = Inr ()"
  shows "validate_spawn blake3 i g' policy spawn position = Inr ()"
proof -
  from ok obtain parent tool where fields: "validate_spawn_fields policy spawn = Inr ()"
    and parent: "map_of (gc_operations g) (as_parent_operation_id spawn) = Some parent"
      "parent_is_root parent spawn position"
    and tool: "matching_tools g (as_spawn_tool_call_id spawn) position (as_parent_operation_id spawn)
        ''spawn_agent'' = [tool]"
    and intent: "check_spawn_intent blake3 i g tool spawn position = Inr ()"
    by (auto simp: validate_spawn_def result_simps split: option.splits if_splits list.splits)
  from ext have ops: "operations_ext (as_lane_id ` snd ` set (gc_spawns g)) (fst ` set (gc_spawns g))
       (gc_operations g) (gc_operations g')" by (simp add: graph_ext_def)
  have "position \<in> fst ` set (gc_spawns g)" using spawn by force
  with operations_ext_get [OF ops parent(1)] parent(2) obtain parent' where
    parent': "map_of (gc_operations g') (as_parent_operation_id spawn) = Some parent'"
      "parent_is_root parent' spawn position"
    unfolding parent_is_root_def by (auto split: option.splits)
  have "matching_tools g' (as_spawn_tool_call_id spawn) position (as_parent_operation_id spawn)
      ''spawn_agent'' = [tool]" using tool ext by (simp add: matching_tools_def graph_ext_def)
  moreover have "check_spawn_epoch g tool spawn position = Inr () \<Longrightarrow>
      check_spawn_epoch g' tool spawn position = Inr ()"
    using ext by (fastforce simp: check_spawn_epoch_def graph_ext_def map_le_def dom_def
        split: option.splits prod.splits)
  then have "check_spawn_intent blake3 i g' tool spawn position = Inr ()"
    using intent ext
    by (auto simp: check_spawn_intent_def result_simps configuration_ext check_branch_base_def
        graph_ext_def split: if_splits)
  ultimately show ?thesis using fields parent' by (simp add: validate_spawn_def)
qed

lemma spawn_phase_ext:
  assumes "graph_ext g g'" and "try_fold (step_spawn blake3 header g) s (gc_spawns g) = Inr t"
  shows "try_fold (step_spawn blake3 header g') s (gc_spawns g') = Inr t"
proof -
  have same: "gc_spawns g' = gc_spawns g" "gc_policy g' = gc_policy g"
    using assms(1) by (simp_all add: graph_ext_def)
  show ?thesis unfolding same(1)
  proof (rule try_fold_mono [OF assms(2)])
    fix s m s'
    assume m: "m \<in> set (gc_spawns g)" and step: "step_spawn blake3 header g s m = Inr s'"
    obtain position spawn where p: "m = (position, spawn)" by (cases m)
    have "validate_spawn blake3 i g policy spawn position = Inr () \<Longrightarrow>
        validate_spawn blake3 i g' policy spawn position = Inr ()" for i policy
      using validate_spawn_ext [OF assms(1)] m p by blast
    moreover from step obtain policy pos where policy: "gc_policy g = Some (policy, pos)"
      by (auto simp: p step_spawn_def split: option.splits)
    moreover from step have "\<not> position \<le> pos"
      and "validate_spawn blake3 (sh_session_id header) g policy spawn position = Inr ()"
      by (auto simp: p step_spawn_def policy result_simps split: if_splits)
    ultimately show "step_spawn blake3 header g' s m = Inr s'"
      using step by (simp add: p step_spawn_def same(2))
  qed
qed

lemma agent_by_lane_spawned:
  "try_fold (step_spawn blake3 header g) s ps = Inr t \<Longrightarrow>
   dom (map_of (sq_agent_by_lane t)) \<subseteq> dom (map_of (sq_agent_by_lane s)) \<union> as_lane_id ` snd ` set ps"
proof (induction ps arbitrary: s)
  case (Cons p ps)
  then obtain u where u: "step_spawn blake3 header g s p = Inr u"
    "try_fold (step_spawn blake3 header g) u ps = Inr t" by (auto simp: result_simps)
  then have "dom (map_of (sq_agent_by_lane u)) \<subseteq> insert (as_lane_id (snd p)) (dom (map_of (sq_agent_by_lane s)))"
    by (cases p) (auto simp: step_spawn_def result_simps split: option.splits if_splits)
  with Cons.IH [OF u(2)] show ?case by auto
qed simp

lemma operation_phase_ext:
  assumes ext: "graph_ext g g'"
    and bound: "dom (map_of lanes) \<subseteq> as_lane_id ` snd ` set (gc_spawns g)"
    and ok: "try_fold (step_operation blake3 g lanes) nodes (gc_operations g) = Inr nodes'"
  shows "try_fold (step_operation blake3 g' lanes) nodes (gc_operations g') = Inr nodes'"
proof -
  have same: "spawn_positions g' = spawn_positions g" "spawn_tool_of g' = spawn_tool_of g"
    using ext by (simp_all add: fun_eq_iff spawn_positions_def spawn_tool_of_def graph_ext_def)
  have assignment: "check_assignment blake3 g' = check_assignment blake3 g"
    unfolding fun_eq_iff check_assignment_def same by simp
  have step: "step_operation blake3 g' lanes = step_operation blake3 g lanes"
    unfolding fun_eq_iff step_operation_def same assignment by simp
  have "operations_ext (as_lane_id ` snd ` set (gc_spawns g)) (fst ` set (gc_spawns g))
       (gc_operations g) (gc_operations g')" using ext by (simp add: graph_ext_def)
  then consider "gc_operations g' = gc_operations g"
    | i op where "i \<notin> dom (map_of (gc_operations g))" "gc_operations g' = btree_insert i op (gc_operations g)"
        "\<not> is_subagent (oi_kind op)" "oi_lane_id op \<notin> as_lane_id ` snd ` set (gc_spawns g)"
    | i op f where "btree_ok (gc_operations g)" "map_of (gc_operations g) i = Some op"
        "gc_operations g' = btree_insert i (op\<lparr>oi_finished := f\<rparr>) (gc_operations g)"
    unfolding operations_ext_def by blast
  then show ?thesis
  proof cases
    case 1
    then show ?thesis using ok by (simp add: step)
  next
    case 2
    then obtain xs ys where "gc_operations g = xs @ ys" "gc_operations g' = xs @ (i, op) # ys"
      using btree_insert_fresh_split by metis
    moreover have "step_operation blake3 g lanes n (i, op) = Inr n" for n
      using 2(3,4) bound
      by (cases "oi_kind op") (auto simp: step_operation_def bound_elsewhere_def domIff split: option.splits)
    ultimately show ?thesis using ok by (simp add: step try_fold_append)
  next
    case 3
    then obtain xs ys where split: "gc_operations g = xs @ (i, op) # ys"
      "gc_operations g' = xs @ (i, op\<lparr>oi_finished := f\<rparr>) # ys"
      using btree_insert_replace_split by metis
    have fields: "oi_lane_id (op\<lparr>oi_finished := f\<rparr>) = oi_lane_id op"
      "oi_kind (op\<lparr>oi_finished := f\<rparr>) = oi_kind op"
      "oi_started_at (op\<lparr>oi_finished := f\<rparr>) = oi_started_at op"
      "oi_original_input (op\<lparr>oi_finished := f\<rparr>) = oi_original_input op" by simp_all
    have identity: "validate_child_operation_identity (op\<lparr>oi_finished := f\<rparr>) = validate_child_operation_identity op"
      unfolding fun_eq_iff validate_child_operation_identity_def by simp
    have assigned: "check_assignment blake3 g a i (op\<lparr>oi_finished := f\<rparr>) x = check_assignment blake3 g a i op x" for a x
      unfolding check_assignment_def identity fields ..
    have "step_operation blake3 g lanes n (i, op\<lparr>oi_finished := f\<rparr>) =
        step_operation blake3 g lanes n (i, op)" for n
      unfolding step_operation_def bound_elsewhere_def prod.case assigned fields ..
    then show ?thesis using ok by (simp add: split step try_fold_append)
  qed
qed

lemma delta_phase_ext:
  assumes ext: "graph_ext g g'" and ok: "try_fold (step_delta blake3 g nodes) s (gc_deltas g) = Inr t"
  shows "try_fold (step_delta blake3 g' nodes) s (gc_deltas g') = Inr t"
proof -
  have same: "gc_deltas g' = gc_deltas g" using ext by (simp add: graph_ext_def)
  have ops: "operations_ext (as_lane_id ` snd ` set (gc_spawns g)) (fst ` set (gc_spawns g))
       (gc_operations g) (gc_operations g')" using ext by (simp add: graph_ext_def)
  show ?thesis unfolding same
  proof (rule try_fold_mono [OF ok])
    fix s m s'
    assume step: "step_delta blake3 g nodes s m = Inr s'"
    obtain position delta where p: "m = (position, delta)" by (cases m)
    from step obtain node i op f where "validate_delta blake3 delta = Inr ()"
      "map_of nodes (wf_agent_id delta) = Some node" "an_operation_id node = Some i"
      "map_of (gc_operations g) i = Some op" "oi_finished op = Some f"
      by (auto simp: p step_delta_def result_simps split: option.splits if_splits)
    moreover from operations_ext_finished [OF ops this(4,5)]
    have "map_of (gc_operations g') i = Some op" .
    ultimately have "step_delta blake3 g' nodes s m = step_delta blake3 g nodes s m"
      by (simp only: p step_delta_def prod.case option.case)
    with step show "step_delta blake3 g' nodes s m = Inr s'" by simp
  qed
qed

lemma terminal_phase_ext:
  assumes ext: "graph_ext g g'" and ok: "try_fold (step_terminal g d) s (gc_terminals g) = Inr t"
  shows "try_fold (step_terminal g' d) s (gc_terminals g') = Inr t"
proof -
  have same: "gc_terminals g' = gc_terminals g" using ext by (simp add: graph_ext_def)
  have ops: "operations_ext (as_lane_id ` snd ` set (gc_spawns g)) (fst ` set (gc_spawns g))
       (gc_operations g) (gc_operations g')" using ext by (simp add: graph_ext_def)
  have "entries_ext (gc_entries g) (gc_entries g')" using ext by (simp add: graph_ext_def)
  then have final: "check_final_entry g node x position = Inr () \<Longrightarrow>
      check_final_entry g' node x position = Inr ()" for node x position
    by (auto simp: check_final_entry_def split: option.splits dest: entries_ext_get)
  show ?thesis unfolding same
  proof (rule try_fold_mono [OF ok])
    fix s m s'
    assume step: "step_terminal g d s m = Inr s'"
    obtain position x where p: "m = (position, x)" by (cases m)
    from step obtain node op f where "map_of (tp_nodes s) (at_agent_id x) = Some node"
      "map_of (gc_operations g) (at_operation_id x) = Some op" "oi_finished op = Some f"
      "check_final_entry g node x position = Inr ()"
      by (auto simp: p step_terminal_def result_simps split: option.splits if_splits)
    moreover from operations_ext_finished [OF ops this(2,3)]
    have "map_of (gc_operations g') (at_operation_id x) = Some op" .
    ultimately have "step_terminal g' d s m = step_terminal g d s m"
      by (simp only: p step_terminal_def prod.case option.case final final_entry_ext [OF ext])
    with step show "step_terminal g' d s m = Inr s'" by simp
  qed
qed

lemma applied_phase_ext:
  assumes ext: "graph_ext g g'" and ok: "try_fold (step_applied g d ps) s (gc_applied g) = Inr t"
  shows "try_fold (step_applied g' d ps) s (gc_applied g') = Inr t"
proof -
  have tools: "matching_tools g' = matching_tools g"
    using ext by (simp add: fun_eq_iff matching_tools_def graph_ext_def)
  have "step_applied g' d ps = step_applied g d ps" unfolding fun_eq_iff step_applied_def tools by simp
  with ok ext show ?thesis by (simp add: graph_ext_def)
qed

lemma derive_state_ext:
  assumes ext: "graph_ext g g'" and ok: "is_ok (derive_state g n)"
  shows "is_ok (derive_state g' n)"
proof -
  have ops: "operations_ext (as_lane_id ` snd ` set (gc_spawns g)) (fst ` set (gc_spawns g))
       (gc_operations g) (gc_operations g')" using ext by (simp add: graph_ext_def)
  show ?thesis
    using ok by (auto simp: derive_state_def split: option.splits dest: operations_ext_get [OF ops])
qed

lemma is_ok_both: "is_ok (and_then r (\<lambda>a. and_then q (\<lambda>b. Inr (f a b)))) \<longleftrightarrow> is_ok r \<and> is_ok q"
  by (cases r; cases q) simp_all

lemma derive_states_ext:
  "graph_ext g g' \<Longrightarrow> is_ok (derive_states g nodes) \<Longrightarrow> is_ok (derive_states g' nodes)"
proof (induction nodes)
  case (Cons p nodes)
  then show ?case
    using derive_state_ext [OF Cons.prems(1), of "snd p"] by (cases p) (simp add: is_ok_both)
qed simp

lemma reduce_collected_ext:
  assumes ext: "graph_ext g g'" and "is_ok (reduce_collected blake3 header g)"
  shows "is_ok (reduce_collected blake3 header g')"
proof -
  from assms(2) obtain s nodes d t a where
    policy: "check_policy_order header g = Inr ()"
    and s: "try_fold (step_spawn blake3 header g)
        \<lparr>sq_nodes = [], sq_agent_by_lane = [], sq_task_names = {}\<rparr> (gc_spawns g) = Inr s"
    and nodes: "try_fold (step_operation blake3 g (sq_agent_by_lane s)) (sq_nodes s) (gc_operations g) =
        Inr nodes"
    and d: "try_fold (step_delta blake3 g nodes) \<lparr>dp_by_id = [], dp_by_agent = []\<rparr> (gc_deltas g) = Inr d"
    and t: "try_fold (step_terminal g d) \<lparr>tp_nodes = btree_map (attach_delta d) nodes, tp_positions = []\<rparr>
        (gc_terminals g) = Inr t"
    and a: "try_fold (step_applied g d (tp_positions t)) \<lparr>pp_nodes = tp_nodes t, pp_used_intents = {}\<rparr>
        (gc_applied g) = Inr a"
    and states: "is_ok (derive_states g (pp_nodes a))"
    unfolding reduce_collected_def is_ok_and_then by auto
  have "dom (map_of (sq_agent_by_lane s)) \<subseteq> as_lane_id ` snd ` set (gc_spawns g)"
    using agent_by_lane_spawned [OF s] by simp
  note phases = spawn_phase_ext [OF ext s] operation_phase_ext [OF ext this nodes]
    delta_phase_ext [OF ext d] terminal_phase_ext [OF ext t] applied_phase_ext [OF ext a]
  show ?thesis
    unfolding reduce_collected_def policy_order_ext [OF ext] policy
    using derive_states_ext [OF ext states] by (auto simp: phases is_ok_and_then is_ok_iff)
qed

end
