(* ===== verification/Local_Validation.thy ===== *)
theory Local_Validation
  imports Graph_Extension Agent_Properties
begin

text \<open>
  The fast path of \<open>store.rs\<close> is sound: a single mutation that the append index validates on its
  own would also be accepted by the full validation, which replays the timeline, reduces every
  lane and reduces the agent graph.

  The lane side needs one fact the code does not check: a user entry must not take an identity
  that a started tool or a requested harness activation reserves for its own entry.
\<close>

section \<open>Lanes\<close>

definition lanes_valid :: "reducer \<Rightarrow> bool" where
  "lanes_valid st \<longleftrightarrow>
     validate_tool_results (rd_entries st) (rd_tool_starts st) = Inr () \<and>
     (\<forall>l o'. map_of (rd_active_operations st) l = Some o' \<longrightarrow>
        is_ok (unresolved_activation (rd_activation_requests st) (rd_entries st) (Some o')))"

definition reserved_ids :: "reducer \<Rightarrow> entry_id set" where
  "reserved_ids st = ts_result_entry_id ` snd ` set (rd_tool_starts st) \<union>
     ha_revision_entry_id ` set (rd_activation_requests st)"

definition activations_owned :: "reducer \<Rightarrow> bool" where
  "activations_owned st \<longleftrightarrow>
     (\<forall>q \<in> set (rd_activation_requests st). map_of (rd_operations st) (ha_operation_id q) \<noteq> None)"

lemma activations_owned_step: "lane_step cx st st' \<Longrightarrow> activations_owned st \<Longrightarrow> activations_owned st'"
proof (induction rule: lane_step.induct)
  case (lane l b)
  then show ?case by (auto simp: step_effects activations_owned_def simp del: step_lane.simps)
next
  case (entry e)
  from entry(1) show ?case by (rule step_entry_ok) (use entry(2) in \<open>auto simp: activations_owned_def\<close>)
next
  case (operation_started r)
  from operation_started(1) show ?case
    by (rule step_operation_started_ok) (use operation_started(2) in \<open>auto simp: activations_owned_def\<close>)
next
  case (epoch_started r)
  then show ?case by (auto simp: step_effects activations_owned_def dest!: bspec split: if_splits)
qed (auto simp: step_effects activations_owned_def split: if_splits)

interpretation activations: lane_invariant cx activations_owned for cx
  by unfold_locales (simp add: activations_owned_def, rule activations_owned_step)

lemma replay_activations_owned: "replay cx header ms = Inr st \<Longrightarrow> activations_owned st"
  using activations.replay_inv [of "initial_reducer header" cx ms st]
  by (simp add: replay_def activations_owned_def initial_reducer_def)

text \<open>With the invariants of the reducer, only those two checks can reject a replayed timeline.\<close>

lemma finish_reduction_valid:
  assumes inv: "reducer_inv st" and lane: "l \<in> dom (map_of (rd_lane_leaves st))"
    and valid: "lanes_valid st"
  shows "is_ok (finish_reduction st (rd_observed_sequence st) l)"
proof -
  obtain c where "derive_configuration (rd_entries st) (lane_leaf_flat st l) = Inr c"
    using derive_configuration_total inv unfolding reducer_inv_def by blast
  moreover have "is_ok (unresolved_activation (rd_activation_requests st) (rd_entries st)
      (map_of (rd_active_operations st) l))"
    using valid by (cases "map_of (rd_active_operations st) l") (auto simp: lanes_valid_def unresolved_activation_def)
  moreover have "is_ok (derive_recovery_plan st (map_of (rd_active_operations st) l))"
    using operation_inv_active [of st l] inv
    by (auto simp: derive_recovery_plan_def reducer_inv_def split: option.splits)
  ultimately show ?thesis
    using valid lane
    by (auto simp: finish_reduction_def Let_def is_ok_iff result_simps lanes_valid_def btree_contains_iff)
qed

lemma finish_reduction_lanes_valid:
  assumes "\<And>l. l \<in> dom (map_of (rd_lane_leaves st)) \<Longrightarrow> is_ok (finish_reduction st n l)"
    and "rd_lane_leaves st \<noteq> []" and "reducer_inv st"
  shows "lanes_valid st"
proof -
  have *: "validate_tool_results (rd_entries st) (rd_tool_starts st) = Inr () \<and>
      is_ok (unresolved_activation (rd_activation_requests st) (rd_entries st)
        (map_of (rd_active_operations st) l))" if "l \<in> dom (map_of (rd_lane_leaves st))" for l
    using assms(1) [OF that]
    by (auto simp: finish_reduction_def Let_def is_ok_iff result_simps split: if_splits)
  have "l \<in> dom (map_of (rd_lane_leaves st))" if "map_of (rd_active_operations st) l = Some o'" for l o'
    using operation_inv_active [OF _ that] operation_inv_state(1) assms(3) unfolding reducer_inv_def by blast
  moreover obtain l where "l \<in> dom (map_of (rd_lane_leaves st))"
    using assms(2) by (cases "rd_lane_leaves st") auto
  ultimately show ?thesis unfolding lanes_valid_def using * by metis
qed

text \<open>A user entry with an unreserved identity changes neither check.\<close>

lemma check_activations_insert:
  assumes "\<forall>r \<in> set rs. ha_revision_entry_id r \<noteq> i"
  shows "try_fold (check_activation (btree_insert i e es)) a rs = try_fold (check_activation es) a rs"
  using assms
proof (induction rs arbitrary: a)
  case (Cons r rs)
  then have "check_activation (btree_insert i e es) a r = check_activation es a r"
    by (simp add: check_activation_def)
  with Cons show ?case by (cases "check_activation es a r") simp_all
qed simp

lemma any_call_insert:
  "i \<notin> dom (map_of es) \<Longrightarrow> any_assistant_call_matches es c t \<Longrightarrow>
   any_assistant_call_matches (btree_insert i e es) c t"
  using btree_insert_fresh_split [of i es e]
  by (auto simp: any_assistant_call_matches_def btree_values_def)

lemma tool_results_insert:
  assumes ok: "validate_tool_results es starts = Inr ()" and fresh: "i \<notin> dom (map_of es)"
    and user: "is_user_message (se_body e)" and free: "i \<notin> ts_result_entry_id ` snd ` set starts"
  shows "validate_tool_results (btree_insert i e es) starts = Inr ()"
proof -
  have started: "check_started_result (btree_insert i e es) s = check_started_result es s"
    if "s \<in> set starts" for s
    using that free by (auto simp: check_started_result_def Let_def)
  have results: "check_result_entry (btree_insert i e es) starts p = Inr ()"
    if "p \<in> set (btree_insert i e es)" for p
  proof (cases "p = (i, e)")
    case True
    with user show ?thesis by (cases "se_body e") (simp_all add: check_result_entry_def is_user_message_def)
  next
    case False
    with that set_btree_insert_subset have "p \<in> set es" by fastforce
    with ok have "check_result_entry es starts p = Inr ()"
      by (auto simp: validate_tool_results_def result_simps check_all_ok)
    then show ?thesis using any_call_insert [OF fresh]
      by (auto simp: check_result_entry_def split: session_entry.splits option.splits if_splits)
  qed
  from ok started results show ?thesis
    by (auto simp: validate_tool_results_def result_simps check_all_ok)
qed

lemma local_step_valid:
  assumes step: "step_mutation cx st n m = Inr st'"
    and covered: "is_locally_validated_mutation (index_of st lanes) x = Inr True" "sv_mutation x = m"
    and owned: "activations_owned st" and inv: "operation_inv st" and valid: "lanes_valid st"
    and free: "\<And>e. m = EntryM e \<Longrightarrow> eh_id (se_header e) \<notin> reserved_ids st"
  shows "lanes_valid st'"
proof (cases m)
  case (EntryM e)
  with covered have user: "is_user_message (se_body e)"
    by (auto simp: is_locally_validated_mutation_def split: if_splits)
  from step EntryM have "step_entry cx st e = Inr st'" by (simp add: step_mutation_def)
  then show ?thesis
  proof (rule step_entry_ok)
    fix R leaf ops
    assume fresh: "eh_id (se_header e) \<notin> dom (map_of (rd_entries st))"
      and st': "st' = st\<lparr>rd_fresh_lanes := rd_fresh_lanes st - {se_lane_id e}, rd_compaction_requests := R,
              rd_operations := ops,
              rd_lane_leaves := btree_insert (se_lane_id e) (Some (eh_id (se_header e))) (rd_lane_leaves st),
              rd_entries := btree_insert (eh_id (se_header e)) e (rd_entries st)\<rparr>"
    have "eh_id (se_header e) \<notin> ts_result_entry_id ` snd ` set (rd_tool_starts st)"
      and "\<forall>r \<in> set (rd_activation_requests st). ha_revision_entry_id r \<noteq> eh_id (se_header e)"
      using free [OF EntryM] unfolding reserved_ids_def image_iff Un_iff by metis+
    then show ?thesis
      using valid tool_results_insert [OF _ fresh user]
      by (simp add: lanes_valid_def st' unresolved_activation_def check_activations_insert)
  qed
next
  case (RecordM s)
  show ?thesis
  proof (cases "sr_record s")
    case (OperationStarted r)
    with step RecordM have "step_operation_started st r = Inr st'" by (simp add: step_mutation_def)
    then show ?thesis
    proof (rule step_operation_started_ok)
      fix prov inputs
      assume new: "os_id r \<notin> dom (map_of (rd_operations st))"
        and st': "st' = st\<lparr>rd_fresh_lanes := rd_fresh_lanes st - {os_lane_id r},
              rd_active_operations := btree_insert (os_lane_id r) (os_id r) (rd_active_operations st),
              rd_provisioned_entries := prov, rd_input_states := inputs,
              rd_operations := btree_insert (os_id r) (fresh_operation_state r) (rd_operations st)\<rparr>"
      have "filter (\<lambda>q. ha_operation_id q = os_id r) (rd_activation_requests st) = []"
        using owned new by (auto simp: activations_owned_def filter_empty_conv)
      then show ?thesis using valid by (auto simp: lanes_valid_def st' unresolved_activation_def)
    qed
  qed (use step covered valid RecordM in \<open>auto simp: step_mutation_def step_effects lanes_valid_def
         is_locally_validated_mutation_def split: if_splits\<close>)
qed (use covered in \<open>auto simp: is_locally_validated_mutation_def split: if_splits\<close>)

section \<open>The graph\<close>

text \<open>What the collecting loop of the graph and the lane reducer know in common.\<close>

definition graph_tracks :: "reducer \<Rightarrow> collected \<Rightarrow> bool" where
  "graph_tracks st g \<longleftrightarrow> btree_ok (gc_operations g) \<and>
     dom (map_of (gc_entries g)) = dom (map_of (rd_entries st)) \<and>
     dom (map_of (gc_epochs g)) = dom (map_of (rd_epochs st)) \<and>
     map_option (\<lambda>op. oi_finished op \<noteq> None) \<circ> map_of (gc_operations g) =
       map_option st_finished \<circ> map_of (rd_operations st) \<and>
     (\<forall>p \<in> set (gc_spawns g). fst (fst p) \<le> rd_observed_sequence st \<and> snd (fst p) \<le> gc_item_index g)"

lemma graph_tracks_initial: "graph_tracks (initial_reducer header) (initial_collected header)"
  by (simp add: graph_tracks_def initial_reducer_def initial_collected_def fun_eq_iff)

lemma map_option_comp_upd: "map_option f \<circ> m(k \<mapsto> v) = (map_option f \<circ> m)(k \<mapsto> f v)"
  by auto

lemma finished_same:
  "map_of m k = Some op \<Longrightarrow> f op' = f op \<Longrightarrow> map_option f \<circ> (map_of m)(k \<mapsto> op') = map_option f \<circ> map_of m"
  by (auto simp: fun_eq_iff)

lemma step_entry_finished:
  assumes "step_entry cx st e = Inr st'"
  shows "map_option st_finished \<circ> map_of (rd_operations st') = map_option st_finished \<circ> map_of (rd_operations st)"
  using assms by (rule step_entry_ok) (auto simp: finished_same)

definition moved :: "reducer \<Rightarrow> stored_mutation \<Rightarrow> reducer" where
  "moved st m = clear_readiness (advance_timeline st (sv_seq m)) (sv_mutation m)"

lemma moved_simps [simp]:
  "rd_entries (moved st m) = rd_entries st" "rd_epochs (moved st m) = rd_epochs st"
  "rd_operations (moved st m) = rd_operations st" "rd_observed_sequence (moved st m) = sv_seq m"
  "rd_lane_leaves (moved st m) = rd_lane_leaves st"
  "rd_active_operations (moved st m) = rd_active_operations st"
  "rd_tool_starts (moved st m) = rd_tool_starts st"
  "rd_activation_requests (moved st m) = rd_activation_requests st"
  by (simp_all add: moved_def clear_readiness_def advance_timeline_def)

lemma index_of_moved [simp]: "index_of (moved st m) lanes = index_of st lanes"
  by (simp add: index_of_def moved_def clear_readiness_def advance_timeline_def)

lemma reduce_step_moved:
  "reduce_step cx st m = Inr st' \<longleftrightarrow>
     (sv_seq m = rd_observed_sequence st \<or> sv_seq m = saturating_add (rd_observed_sequence st) 1) \<and>
     step_mutation cx (moved st m) (rd_observed_item_index st) (sv_mutation m) = Inr st'"
  by (auto simp: reduce_step_def moved_def Let_def)

lemma step_observed_sequence:
  "lane_step cx st st' \<Longrightarrow> rd_observed_sequence st' = rd_observed_sequence st"
proof (induction rule: lane_step.induct)
  case (lane l b)
  then show ?case by (auto simp: step_effects simp del: step_lane.simps)
next
  case (entry e)
  then show ?case by (auto elim!: step_entry_ok)
next
  case (operation_started r)
  then show ?case by (auto elim!: step_operation_started_ok)
qed (auto simp: step_effects)

text \<open>The fields of the reducer the graph has a counterpart of, after one mutation.\<close>

definition graph_fields :: "reducer \<Rightarrow> entry_id set \<times> epoch_id set \<times> (operation_id \<rightharpoonup> bool)" where
  "graph_fields st = (dom (map_of (rd_entries st)), dom (map_of (rd_epochs st)),
     map_option st_finished \<circ> map_of (rd_operations st))"

definition graph_fields_after ::
    "session_mutation \<Rightarrow> entry_id set \<times> epoch_id set \<times> (operation_id \<rightharpoonup> bool) \<Rightarrow>
     entry_id set \<times> epoch_id set \<times> (operation_id \<rightharpoonup> bool)" where
  "graph_fields_after m x =
     (case x of (es, eps, ops) \<Rightarrow>
       case m of
         EntryM e \<Rightarrow> (insert (eh_id (se_header e)) es, eps, ops)
       | RecordM s \<Rightarrow>
           (case sr_record s of
              OperationStarted r \<Rightarrow> (es, eps, ops(os_id r \<mapsto> False))
            | OperationFinished r \<Rightarrow> (es, eps, ops(of_operation_id r \<mapsto> True))
            | EpochStarted r \<Rightarrow> (es, insert (es_id r) eps, ops)
            | _ \<Rightarrow> x)
       | _ \<Rightarrow> x)"

lemma step_graph_fields:
  assumes "step_mutation cx st n m = Inr st'"
  shows "graph_fields st' = graph_fields_after m (graph_fields st)"
proof (cases m)
  case (EntryM e)
  with assms have step: "step_entry cx st e = Inr st'" by (simp add: step_mutation_def)
  from step step_entry_finished [OF step] EntryM show ?thesis
    by (auto simp: graph_fields_def graph_fields_after_def elim!: step_entry_ok)
next
  case (RecordM s)
  show ?thesis
  proof (cases "sr_record s")
    case (OperationStarted r)
    with assms RecordM have "step_operation_started st r = Inr st'" by (simp add: step_mutation_def)
    then show ?thesis
      by (rule step_operation_started_ok)
        (simp add: graph_fields_def graph_fields_after_def RecordM OperationStarted map_option_comp_upd
          fresh_operation_state_def)
  qed (use assms RecordM in \<open>auto simp: step_mutation_def step_effects graph_fields_def
         graph_fields_after_def finished_same map_option_comp_upd\<close>)
next
  case (LaneM s)
  with assms show ?thesis
    by (cases "sl_mutation s")
      (auto simp: step_mutation_def step_effects graph_fields_def graph_fields_after_def
        simp del: step_lane.simps)
next
  case (FactM s)
  with assms show ?thesis
    by (cases "sf_fact s")
      (auto simp: step_mutation_def step_effects graph_fields_def graph_fields_after_def)
qed

text \<open>The collecting loop moves its own copy of those fields the same way.\<close>

definition collected_fields :: "collected \<Rightarrow> entry_id set \<times> epoch_id set \<times> (operation_id \<rightharpoonup> bool)" where
  "collected_fields g = (dom (map_of (gc_entries g)), dom (map_of (gc_epochs g)),
     map_option (\<lambda>op. oi_finished op \<noteq> None) \<circ> map_of (gc_operations g))"

lemma collect_fields:
  assumes "collect_mutation position g m = Inr g'"
  shows "collected_fields g' = graph_fields_after m (collected_fields g)"
proof (cases m)
  case (RecordM s)
  with assms show ?thesis
    by (cases "sr_record s")
      (auto simp: collect_mutation_def collect_record_def collected_fields_def graph_fields_after_def
        map_option_comp_upd operation_info_of_def split: option.splits)
next
  case (LaneM s)
  with assms show ?thesis
    by (cases "sl_mutation s") (auto simp: collect_mutation_def collected_fields_def graph_fields_after_def)
next
  case (FactM s)
  with assms show ?thesis
    by (cases "sf_fact s")
      (auto simp: collect_mutation_def collect_fact_def collected_fields_def graph_fields_after_def
        result_simps split: if_splits)
qed (use assms in \<open>auto simp: collect_mutation_def collected_fields_def graph_fields_after_def\<close>)

fun spawn_facts :: "session_mutation \<Rightarrow> agent_spawned_fact list" where
  "spawn_facts (FactM s) = (case sf_fact s of AgentSpawned f \<Rightarrow> [f] | _ \<Rightarrow> [])"
| "spawn_facts _ = []"

lemma collect_mutation_spawns:
  assumes "collect_mutation position g m = Inr g'"
  shows "gc_spawns g' = gc_spawns g @ map (Pair position) (spawn_facts m) \<and> gc_item_index g' = gc_item_index g"
proof (cases m)
  case (RecordM s)
  with assms show ?thesis
    by (cases "sr_record s") (auto simp: collect_mutation_def collect_record_def split: option.splits)
next
  case (LaneM s)
  with assms show ?thesis by (cases "sl_mutation s") (auto simp: collect_mutation_def)
next
  case (FactM s)
  with assms show ?thesis
    by (cases "sf_fact s")
      (auto simp: collect_mutation_def collect_fact_def result_simps split: if_splits)
qed (use assms in \<open>auto simp: collect_mutation_def\<close>)

lemma spawned_lane_facts: "spawned_lane m = as_lane_id ` set (spawn_facts m)"
  by (cases m) (auto split: session_fact.splits)

lemma collect_spawns:
  assumes "collect_mutation position g m = Inr g'"
  shows "as_lane_id ` snd ` set (gc_spawns g') = as_lane_id ` snd ` set (gc_spawns g) \<union> spawned_lane m \<and>
    set (gc_spawns g') \<subseteq> set (gc_spawns g) \<union> {position} \<times> UNIV \<and> gc_item_index g' = gc_item_index g"
  using collect_mutation_spawns [OF assms] by (auto simp: spawned_lane_facts image_Un image_image)

lemma graph_tracks_fields:
  "graph_tracks st g \<longleftrightarrow> btree_ok (gc_operations g) \<and> collected_fields g = graph_fields st \<and>
     (\<forall>p \<in> set (gc_spawns g). fst (fst p) \<le> rd_observed_sequence st \<and> snd (fst p) \<le> gc_item_index g)"
  by (auto simp: graph_tracks_def collected_fields_def graph_fields_def)

lemma graph_fields_moved [simp]: "graph_fields (moved st m) = graph_fields st"
  by (simp add: graph_fields_def)

lemma graph_tracks_step:
  assumes tracks: "graph_tracks st g" and step: "reduce_step cx st m = Inr st'"
    and collects: "collect_step g m = Inr g'"
  shows "graph_tracks st' g'"
proof -
  let ?g = "g\<lparr>gc_item_index := saturating_add (gc_item_index g) 1\<rparr>"
  from step have seq: "rd_observed_sequence st \<le> sv_seq m"
    and run: "step_mutation cx (moved st m) (rd_observed_item_index st) (sv_mutation m) = Inr st'"
    by (auto simp: reduce_step_moved saturating_add_ge)
  from collects have g': "collect_mutation (sv_seq m, gc_item_index g) ?g (sv_mutation m) = Inr g'"
    by (simp add: collect_step_def)
  have "collected_fields ?g = collected_fields g" by (simp add: collected_fields_def)
  with tracks step_graph_fields [OF run] collect_fields [OF g']
  have "collected_fields g' = graph_fields st'" by (simp add: graph_tracks_fields)
  moreover have "rd_observed_sequence st' = sv_seq m"
    using step_observed_sequence [OF step_mutation_lane_step [OF run]] by simp
  moreover have "fst (fst p) \<le> sv_seq m \<and> snd (fst p) \<le> gc_item_index g'" if p: "p \<in> set (gc_spawns g')" for p
  proof -
    have index: "gc_item_index g \<le> gc_item_index g'"
      using collect_spawns [OF g'] by (simp add: saturating_add_ge)
    from p collect_spawns [OF g'] consider "p \<in> set (gc_spawns g)" | "fst p = (sv_seq m, gc_item_index g)"
      by auto
    then show ?thesis
    proof cases
      case 1
      with tracks have "fst (fst p) \<le> rd_observed_sequence st" "snd (fst p) \<le> gc_item_index g"
        by (simp_all add: graph_tracks_def)
      with seq index show ?thesis by (blast intro: order_trans)
    qed (simp add: index)
  qed
  moreover have "btree_ok (gc_operations g')"
    using collect_step_operations [OF collects] tracks by (simp add: graph_tracks_def)
  ultimately show ?thesis
    unfolding graph_tracks_fields by simp
qed

lemma replay_graph_tracks:
  assumes "replay cx header ms = Inr st" and "collect header ms = Inr g"
  shows "graph_tracks st g" and "as_lane_id ` snd ` set (gc_spawns g) = agent_lanes ms"
proof -
  have "replay cx header ms = Inr st \<Longrightarrow> collect header ms = Inr g \<Longrightarrow>
      graph_tracks st g \<and> as_lane_id ` snd ` set (gc_spawns g) = agent_lanes ms" for st g
  proof (induction ms arbitrary: st g rule: rev_induct)
    case Nil
    then have "st = initial_reducer header" "g = initial_collected header"
      by (simp_all add: replay_def collect_def)
    then show ?case using graph_tracks_initial by (simp add: agent_lanes_def initial_collected_def)
  next
    case (snoc m ms)
    then obtain u h where u: "replay cx header ms = Inr u" "reduce_step cx u m = Inr st"
      and h: "collect header ms = Inr h" "collect_step h m = Inr g"
      by (auto simp: replay_def collect_def try_fold_append result_simps)
    from snoc.IH [OF u(1) h(1)] graph_tracks_step [OF _ u(2) h(2)]
    have "graph_tracks st g" "as_lane_id ` snd ` set (gc_spawns h) = agent_lanes ms" by blast+
    moreover have "as_lane_id ` snd ` set (gc_spawns g) =
        as_lane_id ` snd ` set (gc_spawns h) \<union> spawned_lane (sv_mutation m)"
      using collect_spawns [OF h(2) [unfolded collect_step_def]] by simp
    ultimately show ?case by (auto simp: agent_lanes_def)
  qed
  with assms show "graph_tracks st g" and "as_lane_id ` snd ` set (gc_spawns g) = agent_lanes ms" by blast+
qed

text \<open>A covered mutation extends the collected timeline only where the graph stays valid.\<close>

lemma local_graph_ext:
  assumes tracks: "graph_tracks st g" and lanes: "lanes = as_lane_id ` snd ` set (gc_spawns g)"
    and step: "reduce_step cx st m = Inr st'"
    and covered: "is_locally_validated_mutation (index_of st lanes) m = Inr True"
  shows "\<exists>g'. collect_step g m = Inr g' \<and> graph_ext g g'"
proof -
  let ?g = "g\<lparr>gc_item_index := saturating_add (gc_item_index g) 1\<rparr>"
  let ?p = "(sv_seq m, gc_item_index g)"
  from step have seq: "rd_observed_sequence st \<le> sv_seq m"
    and run: "step_mutation cx (moved st m) (rd_observed_item_index st) (sv_mutation m) = Inr st'"
    by (auto simp: reduce_step_moved saturating_add_ge)
  have later: "\<not> ?p < q" if "q \<in> fst ` set (gc_spawns g)" for q
  proof -
    from that tracks have "fst q \<le> rd_observed_sequence st" "snd q \<le> gc_item_index g"
      by (auto simp: graph_tracks_def)
    with seq show ?thesis by (cases q) auto
  qed
  have same: "graph_ext g ?g" by (simp add: graph_ext_def entries_ext_def operations_ext_def)
  show ?thesis
  proof (cases "sv_mutation m")
    case (EntryM e)
    with covered obtain u where user: "se_body e = UserMessage u"
      by (auto simp: is_locally_validated_mutation_def is_user_message_def split: if_splits session_entry.splits)
    from run EntryM have "eh_id (se_header e) \<notin> dom (map_of (rd_entries st))"
      by (auto simp: step_mutation_def elim!: step_entry_ok)
    with tracks have "entries_ext (gc_entries g)
        (btree_insert (eh_id (se_header e)) (se_lane_id e, UserMessage u, ?p) (gc_entries g))"
      unfolding entries_ext_def graph_tracks_def by blast
    with EntryM user show ?thesis
      by (auto simp: collect_step_def collect_mutation_def graph_ext_def operations_ext_def)
  next
    case (RecordM s)
    have ops: "i \<in> dom (map_of (gc_operations g)) \<longleftrightarrow> i \<in> dom (map_of (rd_operations st))"
      "map_of (gc_operations g) i = Some op \<Longrightarrow> map_of (rd_operations st) i = Some op' \<Longrightarrow>
        (oi_finished op = None) = (\<not> st_finished op')" for i op op'
    proof -
      have eq: "map_option (\<lambda>op. oi_finished op \<noteq> None) (map_of (gc_operations g) i) =
          map_option st_finished (map_of (rd_operations st) i)"
        using tracks unfolding graph_tracks_def by (metis comp_apply)
      then show "i \<in> dom (map_of (gc_operations g)) \<longleftrightarrow> i \<in> dom (map_of (rd_operations st))"
        by (metis domIff map_option_is_None)
      show "map_of (gc_operations g) i = Some op \<Longrightarrow> map_of (rd_operations st) i = Some op' \<Longrightarrow>
          (oi_finished op = None) = (\<not> st_finished op')"
        using eq by (simp del: not_None_eq) blast
    qed
    show ?thesis
    proof (cases "sr_record s")
      case (OperationStarted r)
      with RecordM covered have "\<not> is_subagent (os_kind r)" "os_lane_id r \<notin> lanes"
        by (auto simp: is_locally_validated_mutation_def needs_graph_def split: if_splits)
      then have kind: "\<not> is_subagent (oi_kind (operation_info_of ?p r))"
        "oi_lane_id (operation_info_of ?p r) \<notin> lanes" by (simp_all add: operation_info_of_def)
      from run RecordM OperationStarted have "os_id r \<notin> dom (map_of (rd_operations st))"
        by (auto simp: step_mutation_def elim!: step_operation_started_ok)
      then have "os_id r \<notin> dom (map_of (gc_operations g))" using ops(1) by blast
      with kind have "operations_ext lanes (fst ` set (gc_spawns g)) (gc_operations g)
          (btree_insert (os_id r) (operation_info_of ?p r) (gc_operations g))"
        unfolding operations_ext_def by blast
      with RecordM OperationStarted show ?thesis
        by (auto simp: collect_step_def collect_mutation_def collect_record_def graph_ext_def
            entries_ext_def lanes)
    next
      case (OperationFinished r)
      with run RecordM obtain op where op: "map_of (rd_operations st) (of_operation_id r) = Some op"
        "\<not> st_finished op" by (auto simp: step_mutation_def step_effects)
      with ops(1) [of "of_operation_id r"] obtain i where i: "map_of (gc_operations g) (of_operation_id r) = Some i"
        by auto
      with ops(2) [OF i op(1)] op(2) have "oi_finished i = None" by simp
      with i tracks later have "operations_ext lanes (fst ` set (gc_spawns g)) (gc_operations g)
          (btree_insert (of_operation_id r) (i\<lparr>oi_finished := Some (?p, of_outcome r)\<rparr>) (gc_operations g))"
        unfolding operations_ext_def graph_tracks_def by blast
      with RecordM OperationFinished i show ?thesis
        by (auto simp: collect_step_def collect_mutation_def collect_record_def graph_ext_def
            entries_ext_def lanes)
    next
      case (EpochStarted r)
      with run RecordM have "es_id r \<notin> dom (map_of (rd_epochs st))"
        by (auto simp: step_mutation_def step_effects)
      with tracks have "es_id r \<notin> dom (map_of (gc_epochs g))" by (simp add: graph_tracks_def)
      with RecordM EpochStarted show ?thesis
        by (auto simp: collect_step_def collect_mutation_def collect_record_def graph_ext_def
            entries_ext_def operations_ext_def map_le_def)
    qed (use covered RecordM same in \<open>auto simp: collect_step_def collect_mutation_def collect_record_def
           is_locally_validated_mutation_def split: if_splits\<close>)
  qed (use covered in \<open>auto simp: is_locally_validated_mutation_def split: if_splits\<close>)
qed

end
