(* ===== verification/Store_Invariants.thy ===== *)
theory Store_Invariants
  imports Local_Validation
begin

text \<open>
  The in-memory session keeps three things in step: the snapshot, the append index and the
  reducer's view of the timeline. \<open>tracked\<close> says that they agree; \<open>session_valid\<close> adds that the
  full validation accepts the snapshot. Both are shown for every state the writer reaches.
\<close>

section \<open>Writers\<close>

text \<open>
  The contract of a session writer: a failed write changes nothing, and a successful one keeps
  the invariant and appends its payload to the log.
\<close>

fun put_all :: "('c \<Rightarrow> 's \<Rightarrow> ('e, 'r) result \<times> 's) \<Rightarrow> 'c list \<Rightarrow> 's \<Rightarrow> 'r list \<times> 's" where
  "put_all put [] s = ([], s)"
| "put_all put (c # cs) s =
     (case put c s of (r, s') \<Rightarrow>
       case put_all put cs s' of (rs, t) \<Rightarrow>
         (case r of Inl _ \<Rightarrow> (rs, t) | Inr x \<Rightarrow> (x # rs, t)))"

locale session_writer =
  fixes put :: "'c \<Rightarrow> 's \<Rightarrow> ('e, 'r) result \<times> 's"
    and inv :: "'s \<Rightarrow> bool"
    and log :: "'s \<Rightarrow> 'm list"
    and payload :: "'r \<Rightarrow> 'm list"
  assumes put_err: "put c s = (Inl e, s') \<Longrightarrow> s' = s"
    and put_inv: "inv s \<Longrightarrow> put c s = (Inr r, s') \<Longrightarrow> inv s'"
    and put_log: "inv s \<Longrightarrow> put c s = (Inr r, s') \<Longrightarrow> log s' = log s @ payload r"
begin

lemma put_keeps: "inv s \<Longrightarrow> put c s = (r, s') \<Longrightarrow> inv s'"
  using put_err put_inv by (cases r) blast+

lemma put_all_inv: "inv s \<Longrightarrow> put_all put cs s = (rs, t) \<Longrightarrow> inv t"
proof (induction cs arbitrary: s rs t)
  case (Cons c cs)
  obtain r s' where w: "put c s = (r, s')" by fastforce
  obtain rs' t' where ws: "put_all put cs s' = (rs', t')" by fastforce
  from Cons.prems(2) w ws have "t' = t" by (auto split: sum.splits)
  with Cons.IH [OF put_keeps [OF Cons.prems(1) w] ws] show ?case by simp
qed simp

lemma put_all_log: "inv s \<Longrightarrow> put_all put cs s = (rs, t) \<Longrightarrow> log t = log s @ concat (map payload rs)"
proof (induction cs arbitrary: s rs t)
  case (Cons c cs)
  obtain r s' where w: "put c s = (r, s')" by fastforce
  obtain rs' t' where ws: "put_all put cs s' = (rs', t')" by fastforce
  from Cons.prems(2) w ws have "t' = t" and rs: "rs = (case r of Inl _ \<Rightarrow> rs' | Inr x \<Rightarrow> x # rs')"
    by (auto split: sum.splits)
  with Cons.IH [OF put_keeps [OF Cons.prems(1) w] ws] have "log t = log s' @ concat (map payload rs')" by simp
  moreover have "log s' = log s @ (case r of Inl _ \<Rightarrow> [] | Inr x \<Rightarrow> payload x)"
    using w put_err put_log [OF Cons.prems(1)] by (cases r) fastforce+
  ultimately show ?case using rs by (cases r) simp_all
qed simp

end

section \<open>Validation of a sealed commit\<close>

lemma validate_push:
  assumes "snapshot_ok s" and "sealed c"
  shows "validate_snapshot io (push_commit s c) = validate_snapshot_commit io s c"
  by (simp add: validate_snapshot_def validate_snapshot_commit_def snapshot_lanes_push [OF assms]
      reduce_lane_ref_def reduce_lane_ref_with_commit_def reduce_agent_graph_def
      reduce_agent_graph_ref_with_commit_def push_commit_ok [OF assms])

lemma map_err_unit: "map_err f (and_then r (\<lambda>_. Inr ())) = Inr () \<longleftrightarrow> is_ok r"
  by (cases r) simp_all

lemma validate_snapshot_ok:
  assumes "snapshot_ok s"
  shows "validate_snapshot io s = Inr () \<longleftrightarrow>
    (\<exists>st. replay (io_codec io) (ss_header s) (mutations s) = Inr st \<and>
       ss_last_sequence s = rd_observed_sequence st \<and> lanes_valid st) \<and>
    is_ok (reduce_agent_graph (io_blake3 io) s)"
proof -
  have lanes: "set (snapshot_lanes s) = dom (map_of (rd_lane_leaves st))"
    if "replay (io_codec io) (ss_header s) (mutations s) = Inr st" for st
    using replay_lanes [OF that] set_snapshot_lanes [OF assms] by simp
  have "(\<forall>l \<in> set (snapshot_lanes s). is_ok (reduce_lane_ref (io_codec io) s l)) \<longleftrightarrow>
    (\<exists>st. replay (io_codec io) (ss_header s) (mutations s) = Inr st \<and>
       ss_last_sequence s = rd_observed_sequence st \<and> lanes_valid st)"
  proof (cases "replay (io_codec io) (ss_header s) (mutations s)")
    case (Inl e)
    have "sh_initial_lane (ss_header s) \<in> set (snapshot_lanes s)" using set_snapshot_lanes [OF assms] by simp
    with Inl show ?thesis by (auto simp: reduce_lane_ref_def reduce_lane_prefix_def)
  next
    case (Inr st)
    have inv: "reducer_inv st" using Inr by (rule replay_reducer_inv)
    have some: "rd_lane_leaves st \<noteq> []" using replay_lanes [OF Inr] by auto
    have red: "reduce_lane_ref (io_codec io) s l = finish_reduction st (ss_last_sequence s) l" for l
      by (simp add: reduce_lane_ref_def reduce_lane_prefix_def Inr)
    show ?thesis unfolding red lanes [OF Inr]
    proof
      assume all: "\<forall>l \<in> dom (map_of (rd_lane_leaves st)). is_ok (finish_reduction st (ss_last_sequence s) l)"
      moreover obtain l where "l \<in> dom (map_of (rd_lane_leaves st))" using some by (cases "rd_lane_leaves st") auto
      ultimately have "is_ok (finish_reduction st (ss_last_sequence s) l)" by blast
      then have "ss_last_sequence s = rd_observed_sequence st"
        by (auto simp: finish_reduction_def split: if_splits)
      moreover have "lanes_valid st"
        using all some inv by (intro finish_reduction_lanes_valid) blast+
      ultimately show "\<exists>st. replay (io_codec io) (ss_header s) (mutations s) = Inr st \<and>
          ss_last_sequence s = rd_observed_sequence st \<and> lanes_valid st" using Inr by blast
    qed (use Inr inv finish_reduction_valid in auto)
  qed
  then show ?thesis
    by (simp add: validate_snapshot_def result_simps check_all_ok map_err_unit is_ok_iff)
qed

section \<open>The invariant of the session\<close>

definition tracked :: "session_io \<Rightarrow> memory_session \<Rightarrow> bool" where
  "tracked io s \<longleftrightarrow> snapshot_ok (ms_snapshot s) \<and>
     (\<exists>st. replay (io_codec io) (ss_header (ms_snapshot s)) (mutations (ms_snapshot s)) = Inr st \<and>
        ss_last_sequence (ms_snapshot s) = rd_observed_sequence st \<and>
        ms_append_index s = index_of st (agent_lanes (mutations (ms_snapshot s))))"

definition session_valid :: "session_io \<Rightarrow> memory_session \<Rightarrow> bool" where
  "session_valid io s \<longleftrightarrow> tracked io s \<and> validate_snapshot io (ms_snapshot s) = Inr ()"

lemma create_session_ok:
  "create_with_clock io header = Inr s \<longleftrightarrow>
     sh_kind header = SESSION_HEADER_KIND \<and> sh_format header = SESSION_FORMAT_IDENTITY \<and>
     sh_version header = SESSION_FORMAT_VERSION \<and> CHR 0x00 \<notin> set (sh_workspace header) \<and>
     (\<exists>h. seal_header io header = Inr h \<and>
        s = \<lparr>ms_snapshot = empty_snapshot h, ms_append_index = empty_index h, ms_fault = None\<rparr>)"
  by (auto simp: create_with_clock_def result_simps)

lemma create_fields:
  "create_with_clock io header = Inr s \<Longrightarrow>
   ms_fault s = None \<and> ss_last_sequence (ms_snapshot s) = 0 \<and> mutations (ms_snapshot s) = []"
  by (auto simp: create_session_ok) (simp add: empty_snapshot_def)

definition new_session :: "session_header \<Rightarrow> memory_session" where
  "new_session h = \<lparr>ms_snapshot = empty_snapshot h, ms_append_index = empty_index h, ms_fault = None\<rparr>"

lemma new_session_tracked: "tracked io (new_session h)"
  by (auto simp: new_session_def tracked_def replay_def empty_index_of agent_lanes_def)
    (auto simp: empty_snapshot_def initial_reducer_def)

lemma empty_graph_ok: "is_ok (reduce_agent_graph_prefix blake3 header [])"
  by (simp add: reduce_agent_graph_prefix_def collect_def initial_collected_def reduce_collected_def
      check_policy_order_def btree_map_def)

lemma new_session_valid: "session_valid io (new_session h)"
proof -
  have "lanes_valid (initial_reducer h)"
    by (simp add: lanes_valid_def initial_reducer_def validate_tool_results_def)
  then have "validate_snapshot io (empty_snapshot h) = Inr ()"
    using empty_graph_ok
    by (simp add: validate_snapshot_ok replay_def reduce_agent_graph_def)
      (simp add: empty_snapshot_def initial_reducer_def)
  with new_session_tracked [of io h] show ?thesis by (simp add: session_valid_def new_session_def)
qed

lemma create_valid: "create_with_clock io header = Inr s \<Longrightarrow> session_valid io s"
  using new_session_valid by (auto simp: create_session_ok new_session_def)

lemma create_tracked: "create_with_clock io header = Inr s \<Longrightarrow> tracked io s"
  using create_valid by (simp add: session_valid_def)

section \<open>Preparing\<close>

lemma prepare_item_one:
  assumes "prepare_item ix n t b item = Inr b'"
  shows "length (ba_items b') = Suc (length (ba_items b))"
  using assms by (cases item) (auto simp: result_simps split: if_splits lane_mutation.splits)

lemma prepare_fold_length:
  "try_fold (prepare_item ix n t) b items = Inr b' \<Longrightarrow> length (ba_items b') = length (ba_items b) + length items"
proof (induction items arbitrary: b)
  case (Cons x xs)
  then obtain u where "prepare_item ix n t b x = Inr u" "try_fold (prepare_item ix n t) u xs = Inr b'"
    by (auto simp: result_simps)
  with Cons.IH prepare_item_one show ?case by fastforce
qed simp

lemma prepare_commit_sealed:
  assumes "prepare_commit io s ix c t = Inr stored"
  shows "sealed stored" and "sc_seq stored = next_sequence s" and "sc_prev_digest stored = ss_last_digest s"
    and "length (sc_items stored) = length c"
proof -
  from assms obtain b where b: "try_fold (prepare_item ix (next_sequence s) t) empty_batch c = Inr b"
    and seal: "seal_commit io s (next_sequence s) t (ba_items b) = Inr stored"
    by (auto simp: prepare_commit_def Let_def result_simps)
  from seal_commit_sealed [OF seal] prepare_fold_length [OF b]
  show "sealed stored" "sc_seq stored = next_sequence s" "sc_prev_digest stored = ss_last_digest s"
    "length (sc_items stored) = length c"
    by (auto simp: empty_batch_def dest: arg_cong [of _ _ length])
qed

text \<open>A commit of one entry links it to the leaf of its lane.\<close>

lemma prepare_commit_entry:
  assumes "prepare_commit io s ix c t = Inr stored" and "sc_items stored = [x]" and "sv_mutation x = EntryM e"
  obtains p where "c = [EntryItem (se_lane_id e) p]" and "eh_id (se_header e) = pe_id p"
    and "se_body e = pe_body p" and "pe_id p \<notin> ix_entry_ids ix"
    and "map_of (ix_lane_leaves ix) (se_lane_id e) = Some (eh_parent_id (se_header e))"
proof -
  from assms(1) obtain b where b: "try_fold (prepare_item ix (next_sequence s) t) empty_batch c = Inr b"
    and seal: "seal_commit io s (next_sequence s) t (ba_items b) = Inr stored"
    by (auto simp: prepare_commit_def Let_def result_simps)
  from seal_commit_sealed [OF seal] assms(2,3) have items: "ba_items b = [EntryM e]" by auto
  with prepare_fold_length [OF b] have "length c = 1" by (simp add: empty_batch_def)
  then obtain item where c: "c = [item]" by (auto simp: length_Suc_conv)
  with b items show thesis
    by (cases item)
      (auto simp: result_simps empty_batch_def batch_parent_def index_lane_leaf_def contains_entry_def
        split: if_splits lane_mutation.splits option.splits intro!: that)
qed

section \<open>The fast path\<close>

lemma leaf_parent_known:
  "entry_inv st \<Longrightarrow> map_of (rd_lane_leaves st) l = Some p \<Longrightarrow> \<not> parent_missing st p"
  using entry_inv_leaf_known [of st l]
  by (auto simp: leaf_known_def lane_leaf_flat_def parent_missing_def btree_simps split: option.splits)

lemma local_entry_ok:
  assumes inv: "reducer_inv st"
    and covered: "is_locally_validated_mutation (index_of st lanes) m = Inr True" "sv_mutation m = EntryM e"
    and leaf: "map_of (rd_lane_leaves st) (se_lane_id e) = Some (eh_parent_id (se_header e))"
    and new: "eh_id (se_header e) \<notin> dom (map_of (rd_entries st))"
  shows "is_ok (step_entry cx st e)"
proof -
  from covered have "is_user_message (se_body e)"
    and differs: "\<not> provisioned_differs st (eh_id (se_header e)) (se_body e)"
    by (auto simp: is_locally_validated_mutation_def provisioned_differs_def split: if_splits option.splits)
  then obtain u where "se_body e = UserMessage u" by (auto simp: is_user_message_def split: session_entry.splits)
  then have "step_compaction cx t (se_body e) = Inr t" for t by (simp add: step_compaction_def)
  moreover have "\<not> parent_missing st (eh_parent_id (se_header e))"
    using leaf_parent_known [OF _ leaf] inv by (simp add: reducer_inv_def)
  moreover have "is_ok (note_operation_entry (st\<lparr>rd_fresh_lanes := F\<rparr>) (se_lane_id e) i)" for F i
    using operation_inv_active [of st "se_lane_id e"] inv
    by (auto simp: note_operation_entry_def reducer_inv_def split: option.splits)
  moreover have "provisioned_differs (st\<lparr>rd_fresh_lanes := F\<rparr>) = provisioned_differs st"
    "parent_missing (st\<lparr>rd_fresh_lanes := F\<rparr>) = parent_missing st" for F
    by (simp_all add: fun_eq_iff provisioned_differs_def parent_missing_def split: option.splits)
  ultimately show ?thesis
    using leaf new differs by (simp add: step_entry_def Let_def is_ok_and_then btree_contains_iff) (simp add: is_ok_iff)
qed

lemma local_step_ok:
  assumes st: "replay cx header ms = Inr st"
    and covered: "is_locally_validated_mutation (index_of st lanes) m = Inr True"
    and seq: "sv_seq m = saturating_add (rd_observed_sequence st) 1"
    and entry: "\<And>e. sv_mutation m = EntryM e \<Longrightarrow> eh_id (se_header e) \<notin> dom (map_of (rd_entries st)) \<and>
      map_of (rd_lane_leaves st) (se_lane_id e) = Some (eh_parent_id (se_header e))"
  shows "is_ok (reduce_step cx st m)"
proof -
  have inv: "reducer_inv (moved st m)"
    using lanes.inv_timeline replay_reducer_inv [OF st] unfolding moved_def by (metis prepare_step_fields)
  have "is_ok (step_mutation cx (moved st m) (rd_observed_item_index st) (sv_mutation m))"
  proof (cases "sv_mutation m")
    case (EntryM e)
    with local_entry_ok [OF inv, of lanes m e cx] covered entry [OF EntryM] show ?thesis
      by (simp add: step_mutation_def)
  next
    case (RecordM s)
    with covered have "validate_lifecycle_record (index_of (moved st m) lanes) (sr_record s) = Inr True"
      and "\<not> dispatches_inputs (sr_record s)"
      by (auto simp: is_locally_validated_mutation_def split: if_splits)
    from validate_record_sound [OF this] RecordM show ?thesis by (simp add: step_mutation_def)
  qed (use covered in \<open>auto simp: is_locally_validated_mutation_def split: if_splits\<close>)
  with seq show ?thesis by (auto simp: is_ok_iff reduce_step_moved)
qed

section \<open>Committing\<close>

lemma prepared_locally_ok:
  assumes st: "replay cx header ms = Inr st" and seq: "ss_last_sequence s = rd_observed_sequence st"
    and prepared: "prepare_commit io s (index_of st lanes) c t = Inr stored" and item: "sc_items stored = [x]"
    and covered: "is_locally_validated_mutation (index_of st lanes) x = Inr True"
  shows "is_ok (reduce_step cx st x)"
proof (rule local_step_ok [OF st covered])
  note sealed = prepare_commit_sealed [OF prepared]
  from sealed(1) item have "sv_seq x = sc_seq stored" by (simp add: sealed_def)
  with sealed(2) seq show "sv_seq x = saturating_add (rd_observed_sequence st) 1" by (simp add: next_sequence_def)
  fix e
  assume "sv_mutation x = EntryM e"
  from prepared item this show "eh_id (se_header e) \<notin> dom (map_of (rd_entries st)) \<and>
      map_of (rd_lane_leaves st) (se_lane_id e) = Some (eh_parent_id (se_header e))"
    by (rule prepare_commit_entry) (simp del: not_None_eq)
qed

lemma replay_snoc: "replay cx header ms = Inr st \<Longrightarrow> replay cx header (ms @ [m]) = reduce_step cx st m"
  by (simp add: replay_def try_fold_append and_then_case split: sum.splits)

lemma replay_append: "replay cx header ms = Inr st \<Longrightarrow> replay cx header (ms @ ms2) = try_fold (reduce_step cx) st ms2"
  by (simp add: replay_def try_fold_append)

lemma covered_single:
  "locally_validated ix items = Inr True \<Longrightarrow>
   \<exists>x. items = [x] \<and> is_locally_validated_mutation ix x = Inr True"
  by (auto simp: locally_validated_def split: list.splits)

lemma reduce_step_sequence: "reduce_step cx st m = Inr st' \<Longrightarrow> rd_observed_sequence st' = sv_seq m"
  using step_observed_sequence step_mutation_lane_step by (fastforce simp: reduce_step_moved)

lemma validated_replays:
  assumes "tracked io s"
    and prepared: "prepare_commit io (ms_snapshot s) (ms_append_index s) c t = Inr stored"
    and valid: "validate_prepared_commit io (ms_snapshot s) (ms_append_index s) stored = Inr ()"
  shows "\<exists>st. replay (io_codec io) (ss_header (ms_snapshot s)) (mutations (ms_snapshot s) @ sc_items stored) = Inr st \<and>
    rd_observed_sequence st = sc_seq stored"
proof -
  let ?s = "ms_snapshot s"
  from assms(1) obtain st where ok: "snapshot_ok ?s"
    and st: "replay (io_codec io) (ss_header ?s) (mutations ?s) = Inr st"
    and seq: "ss_last_sequence ?s = rd_observed_sequence st"
    and ix: "ms_append_index s = index_of st (agent_lanes (mutations ?s))" by (auto simp: tracked_def)
  note sealed = prepare_commit_sealed [OF prepared]
  from valid obtain b where b: "locally_validated (ms_append_index s) (sc_items stored) = Inr b"
    and full: "b \<or> validate_snapshot_commit io ?s stored = Inr ()"
    by (auto simp: validate_prepared_commit_def result_simps split: if_splits)
  show ?thesis
  proof (cases b)
    case True
    with b obtain x where x: "sc_items stored = [x]" "is_locally_validated_mutation (ms_append_index s) x = Inr True"
      using covered_single by fastforce
    from prepared_locally_ok [OF st seq, of io _ c t stored x] prepared x ix obtain st' where
      "reduce_step (io_codec io) st x = Inr st'" by (auto simp: is_ok_iff)
    with x(1) sealed(1) reduce_step_sequence [OF this] show ?thesis
      by (simp add: replay_snoc [OF st] sealed_def)
  next
    case False
    with full have "validate_snapshot io (push_commit ?s stored) = Inr ()"
      by (simp add: validate_push [OF ok sealed(1)])
    then show ?thesis
      unfolding validate_snapshot_ok [OF push_commit_ok(2) [OF ok sealed(1)]]
      by (auto simp: push_commit_ok [OF ok sealed(1)])
  qed
qed

lemma apply_prepared_tracked:
  assumes "tracked io s"
    and prepared: "prepare_commit io (ms_snapshot s) (ms_append_index s) c t = Inr stored"
    and valid: "validate_prepared_commit io (ms_snapshot s) (ms_append_index s) stored = Inr ()"
  shows "\<exists>s'. apply_prepared s stored = Inr s' \<and> tracked io s' \<and> ms_snapshot s' = push_commit (ms_snapshot s) stored"
proof -
  let ?s = "ms_snapshot s"
  from assms(1) obtain st where ok: "snapshot_ok ?s"
    and st: "replay (io_codec io) (ss_header ?s) (mutations ?s) = Inr st"
    and ix: "ms_append_index s = index_of st (agent_lanes (mutations ?s))" by (auto simp: tracked_def)
  note sealed = prepare_commit_sealed [OF prepared]
  note pushed = push_commit_ok [OF ok sealed(1)]
  from validated_replays [OF assms] obtain st' where
    st': "replay (io_codec io) (ss_header ?s) (mutations ?s @ sc_items stored) = Inr st'"
      "rd_observed_sequence st' = sc_seq stored" by blast
  then have "try_fold (reduce_step (io_codec io)) st (sc_items stored) = Inr st'" by (simp add: replay_append [OF st])
  from advance_all_replay [OF this] replay_operations_sorted [OF st]
  have "advance_all (ms_append_index s) (sc_items stored) =
      Some (index_of st' (agent_lanes (mutations ?s @ sc_items stored)))"
    by (simp add: ix operations_sorted_def agent_lanes_def)
  with st' pushed show ?thesis by (simp add: apply_prepared_def tracked_def)
qed

lemma commit_ok:
  "commit io t c s = (Inr stored, s') \<longleftrightarrow>
     ms_fault s = None \<and> prepare_commit io (ms_snapshot s) (ms_append_index s) c t = Inr stored \<and>
     validate_prepared_commit io (ms_snapshot s) (ms_append_index s) stored = Inr () \<and>
     apply_prepared s stored = Inr s'"
proof -
  have "commit io t c s = (Inr stored, s') \<longleftrightarrow>
      and_then (ensure_writable s) (\<lambda>_.
           and_then (prepare_commit io (ms_snapshot s) (ms_append_index s) c t) (\<lambda>stored.
           and_then (validate_prepared_commit io (ms_snapshot s) (ms_append_index s) stored) (\<lambda>_.
           and_then (apply_prepared s stored) (\<lambda>s'. Inr (stored, s'))))) = Inr (stored, s')"
    unfolding commit_def by (auto split: sum.splits)
  also have "\<dots> \<longleftrightarrow> ms_fault s = None \<and> prepare_commit io (ms_snapshot s) (ms_append_index s) c t = Inr stored \<and>
     validate_prepared_commit io (ms_snapshot s) (ms_append_index s) stored = Inr () \<and>
     apply_prepared s stored = Inr s'"
    by (auto simp: result_simps ensure_writable_def split: option.splits)
  finally show ?thesis .
qed

lemma commit_err: "commit io t c s = (Inl e, s') \<Longrightarrow> s' = s"
  unfolding commit_def by (auto split: sum.splits)

lemma commit_tracked:
  assumes "tracked io s" and "commit io t c s = (Inr stored, s')"
  shows "tracked io s'" and "ms_snapshot s' = push_commit (ms_snapshot s) stored"
    and "sealed stored"
    and "mutations (ms_snapshot s') = mutations (ms_snapshot s) @ sc_items stored"
proof -
  from assms(2) have prepared: "prepare_commit io (ms_snapshot s) (ms_append_index s) c t = Inr stored"
    and valid: "validate_prepared_commit io (ms_snapshot s) (ms_append_index s) stored = Inr ()"
    and applied: "apply_prepared s stored = Inr s'" by (auto simp: commit_ok)
  from apply_prepared_tracked [OF assms(1) prepared valid] applied
  show "tracked io s'" and snap: "ms_snapshot s' = push_commit (ms_snapshot s) stored" by auto
  show sealed: "sealed stored" using prepare_commit_sealed [OF prepared] by simp
  show "mutations (ms_snapshot s') = mutations (ms_snapshot s) @ sc_items stored"
    using push_commit_ok(1) [OF _ sealed] assms(1) by (simp add: snap tracked_def)
qed

interpretation memory: session_writer "\<lambda>(t, c). commit io t c" "tracked io" "\<lambda>s. mutations (ms_snapshot s)" sc_items
  for io
  by unfold_locales (auto dest: commit_err commit_tracked)

text \<open>The writer never meets one of its own failing \<open>expect\<close>s.\<close>

lemma commit_no_panic:
  assumes "tracked io s" and "commit io t c s = (Inl e, s')"
  shows "e \<notin> {IndexPanic, ReturnedOtherItem}"
proof
  assume e: "e \<in> {IndexPanic, ReturnedOtherItem}"
  have "prepare_item ix n t b i \<noteq> Inl e" for ix n b i
    using e by (cases i) (auto simp: and_then_err batch_parent_def split: option.splits lane_mutation.splits sum.splits
        elim!: map_err.elims)
  then have "try_fold (prepare_item ix n t) b c \<noteq> Inl e" for ix n b
    by (induction c arbitrary: b) (auto simp: and_then_err)
  with e have "prepare_commit io (ms_snapshot s) (ms_append_index s) c t \<noteq> Inl e"
    by (auto simp: prepare_commit_def Let_def and_then_err seal_commit_def calculate_commit_digest_def
        split: sum.splits if_splits)
  moreover have "validate_prepared_commit io (ms_snapshot s) (ms_append_index s) x \<noteq> Inl e" for x
  proof -
    have "check_all (\<lambda>l. map_err CorruptionError (f l)) ls \<noteq> Inl e" for f :: "lane_id \<Rightarrow> (corruption, unit) result" and ls
      using e by (induction ls) (auto simp: and_then_err elim!: map_err.elims)
    with e show ?thesis
      by (auto simp: validate_prepared_commit_def validate_snapshot_commit_def and_then_err
          elim!: map_err.elims split: if_splits)
  qed
  ultimately show False
    using e assms(2) apply_prepared_tracked [OF assms(1), of c t] unfolding commit_def
    by (auto simp: and_then_err ensure_writable_def split: sum.splits option.splits)
qed

section \<open>Reserved identities\<close>

text \<open>The entry identities that a mutation promises to a later entry of its own kind.\<close>

fun promised_entries :: "session_mutation \<Rightarrow> entry_id set" where
  "promised_entries (RecordM s) =
     (case sr_record s of
        ToolStarted r \<Rightarrow> {ts_result_entry_id r}
      | HarnessActivationRequested r \<Rightarrow> {ha_revision_entry_id r}
      | _ \<Rightarrow> {})"
| "promised_entries _ = {}"

definition reserved_entries :: "stored_mutation list \<Rightarrow> entry_id set" where
  "reserved_entries ms = (\<Union>m \<in> set ms. promised_entries (sv_mutation m))"

fun started_tools :: "session_mutation \<Rightarrow> tool_started_record list" where
  "started_tools (RecordM s) = (case sr_record s of ToolStarted r \<Rightarrow> [r] | _ \<Rightarrow> [])"
| "started_tools _ = []"

fun requested_activations :: "session_mutation \<Rightarrow> harness_activation_requested_record list" where
  "requested_activations (RecordM s) = (case sr_record s of HarnessActivationRequested r \<Rightarrow> [r] | _ \<Rightarrow> [])"
| "requested_activations _ = []"

lemma step_promises:
  assumes "step_mutation cx st n m = Inr st'"
  shows "map snd (rd_tool_starts st') = map snd (rd_tool_starts st) @ started_tools m \<and>
    rd_activation_requests st' = rd_activation_requests st @ requested_activations m"
proof (cases m)
  case (EntryM e)
  with assms show ?thesis by (auto simp: step_mutation_def elim!: step_entry_ok)
next
  case (RecordM s)
  show ?thesis
  proof (cases "sr_record s")
    case (OperationStarted r)
    with assms RecordM show ?thesis
      by (auto simp: step_mutation_def elim!: step_operation_started_ok)
  qed (use assms RecordM in \<open>auto simp: step_mutation_def step_effects\<close>)
next
  case (LaneM s)
  with assms show ?thesis
    by (cases "sl_mutation s") (auto simp: step_mutation_def step_effects simp del: step_lane.simps)
next
  case (FactM s)
  with assms show ?thesis by (cases "sf_fact s") (auto simp: step_mutation_def step_effects)
qed

lemma promised_entries_lists:
  "promised_entries m = ts_result_entry_id ` set (started_tools m) \<union>
     ha_revision_entry_id ` set (requested_activations m)"
  by (cases m) (simp_all split: lane_record.splits)

lemma step_reserved:
  assumes "step_mutation cx st n m = Inr st'"
  shows "reserved_ids st' = reserved_ids st \<union> promised_entries m"
proof -
  from step_promises [OF assms]
  have "snd ` set (rd_tool_starts st') = snd ` set (rd_tool_starts st) \<union> set (started_tools m)"
    and requests: "rd_activation_requests st' = rd_activation_requests st @ requested_activations m"
    by (metis set_append set_map, blast)
  then show ?thesis by (simp add: reserved_ids_def promised_entries_lists image_Un Un_ac)
qed

lemma replay_reserved: "replay cx header ms = Inr st \<Longrightarrow> reserved_ids st = reserved_entries ms"
proof (induction ms arbitrary: st rule: rev_induct)
  case Nil
  then show ?case by (auto simp: replay_def reserved_ids_def reserved_entries_def initial_reducer_def)
next
  case (snoc m ms)
  then obtain u where u: "replay cx header ms = Inr u" "reduce_step cx u m = Inr st"
    by (auto simp: replay_def try_fold_append result_simps)
  have "reserved_ids (moved u m) = reserved_ids u" by (simp add: reserved_ids_def)
  with u step_reserved [of cx "moved u m"] snoc.IH [OF u(1)] show ?case
    by (auto simp: reduce_step_moved reserved_entries_def)
qed

text \<open>What the code leaves to its callers: a user entry takes no reserved identity.\<close>

definition unreserved :: "memory_session \<Rightarrow> session_commit \<Rightarrow> bool" where
  "unreserved s c \<longleftrightarrow> (\<forall>l p. c = [EntryItem l p] \<and> is_user_message (pe_body p) \<longrightarrow>
     pe_id p \<notin> reserved_entries (mutations (ms_snapshot s)))"

section \<open>The fast path against the full validation\<close>

lemma fast_path_sound:
  assumes "session_valid io s" and free: "unreserved s c"
    and prepared: "prepare_commit io (ms_snapshot s) (ms_append_index s) c t = Inr stored"
    and items: "sc_items stored = [x]"
    and covered: "is_locally_validated_mutation (ms_append_index s) x = Inr True"
  shows "validate_snapshot_commit io (ms_snapshot s) stored = Inr ()"
proof -
  let ?s = "ms_snapshot s" and ?cx = "io_codec io"
  let ?lanes = "agent_lanes (mutations (ms_snapshot s))"
  from assms(1) obtain st where ok: "snapshot_ok ?s"
    and st: "replay ?cx (ss_header ?s) (mutations ?s) = Inr st"
    and seq: "ss_last_sequence ?s = rd_observed_sequence st"
    and ix: "ms_append_index s = index_of st ?lanes"
    and graph: "is_ok (reduce_agent_graph (io_blake3 io) ?s)" and valid: "lanes_valid st"
    by (auto simp: session_valid_def tracked_def validate_snapshot_ok)
  note sealed = prepare_commit_sealed [OF prepared]
  note pushed = push_commit_ok [OF ok sealed(1)]
  from prepared_locally_ok [OF st seq _ items, of io ?lanes c t] prepared covered ix obtain st' where
    st': "reduce_step ?cx st x = Inr st'" by (auto simp: is_ok_iff)
  have inv: "reducer_inv st" and owned: "activations_owned st"
    using st by (rule replay_reducer_inv, rule replay_activations_owned)
  from st' have run: "step_mutation ?cx (moved st x) (rd_observed_item_index st) (sv_mutation x) = Inr st'"
    by (simp add: reduce_step_moved)
  have "eh_id (se_header e) \<notin> reserved_ids (moved st x)" if e: "sv_mutation x = EntryM e" for e
  proof (rule prepare_commit_entry [OF prepared items e])
    fix p
    assume "c = [EntryItem (se_lane_id e) p]" "eh_id (se_header e) = pe_id p" "se_body e = pe_body p"
    moreover have "is_user_message (se_body e)"
      using covered e by (auto simp: is_locally_validated_mutation_def split: if_splits)
    ultimately show ?thesis
      using free replay_reserved [OF st] by (auto simp: unreserved_def reserved_ids_def)
  qed
  moreover have "lanes_valid (moved st x)" "activations_owned (moved st x)" "operation_inv (moved st x)"
    using valid owned inv by (simp_all add: lanes_valid_def activations_owned_def reducer_inv_def operation_inv_def)
  ultimately have lanes: "lanes_valid st'"
    using local_step_valid [OF run _ refl, of ?lanes] covered ix by simp
  from graph obtain g where g: "collect (ss_header ?s) (mutations ?s) = Inr g"
    "is_ok (reduce_collected (io_blake3 io) (ss_header ?s) g)"
    by (auto simp: reduce_agent_graph_def reduce_agent_graph_prefix_def is_ok_and_then)
  note tracks = replay_graph_tracks [OF st g(1)]
  from local_graph_ext [OF tracks(1) tracks(2) [symmetric] st'] covered ix obtain g' where
    g': "collect_step g x = Inr g'" "graph_ext g g'" by auto
  from reduce_collected_ext [OF g'(2) g(2)] g(1) g'(1)
  have "is_ok (reduce_agent_graph_prefix (io_blake3 io) (ss_header ?s) (mutations ?s @ [x]))"
    by (simp add: reduce_agent_graph_prefix_def collect_def try_fold_append)
  moreover have "sv_seq x = sc_seq stored" using sealed(1) items by (simp add: sealed_def)
  ultimately have "validate_snapshot io (push_commit ?s stored) = Inr ()"
    using lanes st' reduce_step_sequence [OF st'] items
    by (simp add: validate_snapshot_ok [OF pushed(2)] pushed replay_snoc [OF st] reduce_agent_graph_def)
  then show ?thesis by (simp add: validate_push [OF ok sealed(1)])
qed

lemma fast_path_complete:
  assumes "tracked io s"
    and prepared: "prepare_commit io (ms_snapshot s) (ms_append_index s) c t = Inr stored"
    and full: "validate_snapshot_commit io (ms_snapshot s) stored = Inr ()"
  shows "is_ok (locally_validated (ms_append_index s) (sc_items stored))"
proof (cases "\<exists>x. sc_items stored = [x]")
  case True
  then obtain x where x: "sc_items stored = [x]" by blast
  let ?s = "ms_snapshot s"
  from assms(1) obtain st where ok: "snapshot_ok ?s"
    and st: "replay (io_codec io) (ss_header ?s) (mutations ?s) = Inr st"
    and ix: "ms_append_index s = index_of st (agent_lanes (mutations ?s))" by (auto simp: tracked_def)
  note sealed = prepare_commit_sealed [OF prepared]
  from full have "validate_snapshot io (push_commit ?s stored) = Inr ()"
    by (simp add: validate_push [OF ok sealed(1)])
  then obtain st' where "reduce_step (io_codec io) st x = Inr st'"
    unfolding validate_snapshot_ok [OF push_commit_ok(2) [OF ok sealed(1)]]
    by (auto simp: push_commit_ok [OF ok sealed(1)] x replay_snoc [OF st])
  then have "step_mutation (io_codec io) (moved st x) (rd_observed_item_index st) (sv_mutation x) = Inr st'"
    by (simp add: reduce_step_moved)
  from step_mutation_local_ok [OF this] x ix show ?thesis by (simp add: locally_validated_def)
qed (auto simp: locally_validated_def split: list.splits)

lemma fast_path_iff:
  assumes "session_valid io s" and "unreserved s c"
    and prepared: "prepare_commit io (ms_snapshot s) (ms_append_index s) c t = Inr stored"
  shows "is_ok (validate_prepared_commit io (ms_snapshot s) (ms_append_index s) stored) =
    is_ok (validate_snapshot_commit io (ms_snapshot s) stored)"
proof -
  have "tracked io s" using assms(1) by (simp add: session_valid_def)
  from fast_path_complete [OF this prepared] fast_path_sound [OF assms]
  show ?thesis
    by (cases "locally_validated (ms_append_index s) (sc_items stored)")
      (auto simp: validate_prepared_commit_def is_ok_unit dest!: covered_single)
qed

lemma commit_session_valid:
  assumes "session_valid io s" and "unreserved s c" and "commit io t c s = (Inr stored, s')"
  shows "session_valid io s'"
proof -
  from assms(1) have tracked: "tracked io s" by (simp add: session_valid_def)
  from assms(3) have prepared: "prepare_commit io (ms_snapshot s) (ms_append_index s) c t = Inr stored"
    and "validate_prepared_commit io (ms_snapshot s) (ms_append_index s) stored = Inr ()" by (auto simp: commit_ok)
  with fast_path_iff [OF assms(1,2) prepared] have "validate_snapshot_commit io (ms_snapshot s) stored = Inr ()"
    by (simp add: is_ok_unit)
  with validate_push [of "ms_snapshot s" stored io] commit_tracked [OF tracked assms(3)] tracked
  show ?thesis by (simp add: session_valid_def tracked_def)
qed

lemma prepare_commit_digest:
  assumes "prepare_commit io s ix c t = Inr stored"
  shows "calculate_commit_digest io (sh_session_id (ss_header s)) (sc_seq stored) (sc_timestamp_ms stored)
    (sc_prev_digest stored) (map sv_mutation (sc_items stored)) = Inr (sc_digest stored)"
  using assms by (auto simp: prepare_commit_def Let_def result_simps dest!: seal_commit_sealed)

end
