(* ===== verification/Store_Commits.thy ===== *)
theory Store_Commits
  imports Store_Invariants
begin

text \<open>
  What a commit stores, said on the commit and the timeline alone: every item as it was given, with the
  sequence number and the time of the commit, and every entry linked to the leaf its lane has at that
  point. And what becomes of a user entry that takes the identity reserved by a started tool.
\<close>

section \<open>Leaves\<close>

text \<open>The leaf of every lane: its last entry, or the entry it was created at.\<close>

fun leaf_after :: "(lane_id \<rightharpoonup> entry_id option) \<Rightarrow> session_mutation \<Rightarrow> (lane_id \<rightharpoonup> entry_id option)" where
  "leaf_after leaves (EntryM e) = leaves(se_lane_id e \<mapsto> Some (eh_id (se_header e)))"
| "leaf_after leaves (LaneM s) = (case sl_mutation s of Created lane base \<Rightarrow> leaves(lane \<mapsto> base))"
| "leaf_after leaves (RecordM _) = leaves"
| "leaf_after leaves (FactM _) = leaves"

definition lane_leaves :: "session_header \<Rightarrow> stored_mutation list \<Rightarrow> (lane_id \<rightharpoonup> entry_id option)" where
  "lane_leaves header ms = foldl leaf_after [sh_initial_lane header \<mapsto> None] (map sv_mutation ms)"

lemma step_leaves:
  assumes "step_mutation cx st n m = Inr st'"
  shows "map_of (rd_lane_leaves st') = leaf_after (map_of (rd_lane_leaves st)) m"
proof (cases m)
  case (EntryM e)
  with assms show ?thesis by (auto simp: step_mutation_def elim!: step_entry_ok)
next
  case (RecordM s)
  show ?thesis
  proof (cases "sr_record s")
    case (OperationStarted r)
    with assms RecordM show ?thesis
      by (auto simp: step_mutation_def elim!: step_operation_started_ok)
  qed (use assms RecordM in \<open>auto simp: step_mutation_def step_effects\<close>)
next
  case (LaneM s)
  with assms show ?thesis
    by (cases "sl_mutation s") (auto simp: step_mutation_def step_effects simp del: step_lane.simps)
next
  case (FactM s)
  with assms show ?thesis by (cases "sf_fact s") (auto simp: step_mutation_def step_effects)
qed

lemma replay_leaves: "replay cx header ms = Inr st \<Longrightarrow> map_of (rd_lane_leaves st) = lane_leaves header ms"
proof (induction ms arbitrary: st rule: rev_induct)
  case Nil
  then show ?case by (auto simp: replay_def lane_leaves_def initial_reducer_def)
next
  case (snoc m ms)
  then obtain u where u: "replay cx header ms = Inr u" "reduce_step cx u m = Inr st"
    by (auto simp: replay_def try_fold_append result_simps)
  with step_leaves [of cx "moved u m"] snoc.IH [OF u(1)] show ?case
    by (auto simp: reduce_step_moved lane_leaves_def)
qed

section \<open>Stored items\<close>

fun stored_item :: "sequence \<Rightarrow> u64 \<Rightarrow> (lane_id \<rightharpoonup> entry_id option) \<Rightarrow> session_commit_item \<Rightarrow> session_mutation" where
  "stored_item n t leaves (EntryItem lane p) =
     EntryM \<lparr>se_lane_id = lane,
       se_header = \<lparr>eh_id = pe_id p, eh_parent_id = the (leaves lane), eh_seq = n, eh_timestamp_ms = t\<rparr>,
       se_body = pe_body p\<rparr>"
| "stored_item n t leaves (RecordItem r) = RecordM \<lparr>sr_seq = n, sr_timestamp_ms = t, sr_record = r\<rparr>"
| "stored_item n t leaves (LaneItem m) = LaneM \<lparr>sl_seq = n, sl_timestamp_ms = t, sl_mutation = m\<rparr>"
| "stored_item n t leaves (FactItem f) = FactM \<lparr>sf_seq = n, sf_timestamp_ms = t, sf_fact = f\<rparr>"

fun stored_items :: "sequence \<Rightarrow> u64 \<Rightarrow> (lane_id \<rightharpoonup> entry_id option) \<Rightarrow> session_commit \<Rightarrow> session_mutation list" where
  "stored_items n t leaves [] = []"
| "stored_items n t leaves (item # c) =
     stored_item n t leaves item # stored_items n t (leaf_after leaves (stored_item n t leaves item)) c"

text \<open>The leaves a batch works with: those of the index, changed by the items before.\<close>

definition batch_leaves :: "session_append_index \<Rightarrow> batch \<Rightarrow> (lane_id \<rightharpoonup> entry_id option)" where
  "batch_leaves ix b = map_of (ix_lane_leaves ix) ++ map_of (ba_lane_leaves b)"

lemma batch_parent_leaf: "batch_parent ix b lane = Inr leaf \<Longrightarrow> batch_leaves ix b lane = Some leaf"
  by (auto simp: batch_parent_def index_lane_leaf_def batch_leaves_def map_add_def map_err_ok split: option.splits)

lemma prepare_item_stored:
  assumes "prepare_item ix n t b item = Inr b'"
  shows "ba_items b' = ba_items b @ [stored_item n t (batch_leaves ix b) item] \<and>
    batch_leaves ix b' = leaf_after (batch_leaves ix b) (stored_item n t (batch_leaves ix b) item)"
  using assms by (cases item)
    (auto simp: result_simps batch_leaves_def dest: batch_parent_leaf split: if_splits lane_mutation.splits)

lemma prepare_fold_stored:
  "try_fold (prepare_item ix n t) b c = Inr b' \<Longrightarrow> ba_items b' = ba_items b @ stored_items n t (batch_leaves ix b) c"
proof (induction c arbitrary: b)
  case (Cons item c)
  then obtain u where "prepare_item ix n t b item = Inr u" "try_fold (prepare_item ix n t) u c = Inr b'"
    by (auto simp: result_simps)
  with Cons.IH prepare_item_stored show ?case by fastforce
qed simp

lemma prepare_commit_stored:
  assumes "prepare_commit io s ix c t = Inr stored"
  shows "map sv_mutation (sc_items stored) = stored_items (sc_seq stored) t (map_of (ix_lane_leaves ix)) c"
    and "sc_timestamp_ms stored = t"
proof -
  from assms obtain b where b: "try_fold (prepare_item ix (next_sequence s) t) empty_batch c = Inr b"
    and seal: "seal_commit io s (next_sequence s) t (ba_items b) = Inr stored"
    by (auto simp: prepare_commit_def Let_def result_simps)
  from seal_commit_sealed [OF seal] prepare_fold_stored [OF b]
  show "map sv_mutation (sc_items stored) = stored_items (sc_seq stored) t (map_of (ix_lane_leaves ix)) c"
    "sc_timestamp_ms stored = t"
    by (simp_all add: empty_batch_def batch_leaves_def)
qed

lemma commit_stored:
  assumes "tracked io s" and "prepare_commit io (ms_snapshot s) (ms_append_index s) c t = Inr stored"
  shows "map sv_mutation (sc_items stored) =
    stored_items (sc_seq stored) t (lane_leaves (ss_header (ms_snapshot s)) (mutations (ms_snapshot s))) c"
proof -
  from assms(1) obtain st where
    "replay (io_codec io) (ss_header (ms_snapshot s)) (mutations (ms_snapshot s)) = Inr st"
    "ms_append_index s = index_of st (agent_lanes (mutations (ms_snapshot s)))" by (auto simp: tracked_def)
  with prepare_commit_stored(1) [OF assms(2)] replay_leaves show ?thesis by simp
qed

section \<open>A user entry with a reserved identity\<close>

lemma replay_tools:
  "replay cx header ms = Inr st \<Longrightarrow> snd ` set (rd_tool_starts st) = (\<Union>m \<in> set ms. set (started_tools (sv_mutation m)))"
proof (induction ms arbitrary: st rule: rev_induct)
  case Nil
  then show ?case by (auto simp: replay_def initial_reducer_def)
next
  case (snoc m ms)
  then obtain u where u: "replay cx header ms = Inr u" "reduce_step cx u m = Inr st"
    by (auto simp: replay_def try_fold_append result_simps)
  then have "map snd (rd_tool_starts st) = map snd (rd_tool_starts u) @ started_tools (sv_mutation m)"
    using step_promises [of cx "moved u m"] by (auto simp: reduce_step_moved)
  then have "snd ` set (rd_tool_starts st) = snd ` set (rd_tool_starts u) \<union> set (started_tools (sv_mutation m))"
    by (metis set_append set_map)
  with snoc.IH [OF u(1)] show ?case by auto
qed

lemma reserved_entry_invalid:
  assumes "step_entry cx st e = Inr st'" and "is_user_message (se_body e)"
    and "tool \<in> snd ` set (rd_tool_starts st)" and "ts_result_entry_id tool = eh_id (se_header e)"
  shows "\<not> lanes_valid st'"
proof
  assume "lanes_valid st'"
  then have checked: "check_all (check_started_result (rd_entries st')) (rd_tool_starts st') = Inr ()"
    by (auto simp: lanes_valid_def validate_tool_results_def result_simps)
  from assms(1) have st': "rd_tool_starts st' = rd_tool_starts st"
    "rd_entries st' = btree_insert (eh_id (se_header e)) e (rd_entries st)"
    by (auto elim!: step_entry_ok)
  from assms(3) obtain n where "(n, tool) \<in> set (rd_tool_starts st')" by (auto simp: st'(1))
  with checked have "check_started_result (rd_entries st') (n, tool) = Inr ()" by (auto simp: check_all_ok)
  with assms(2,4) show False
    by (auto simp: check_started_result_def st'(2) is_user_message_def split: session_entry.splits)
qed

lemma prepare_single_entry:
  assumes "prepare_commit io s ix [EntryItem lane p] t = Inr stored"
  obtains x e where "sc_items stored = [x]" "sv_mutation x = EntryM e" "eh_id (se_header e) = pe_id p" "se_body e = pe_body p"
  using prepare_commit_stored(1) [OF assms] by (auto simp: map_eq_Cons_conv intro: that)

lemma reserved_commit_invalid:
  assumes "tracked io s" and "is_user_message (pe_body p)"
    and tool: "m \<in> set (mutations (ms_snapshot s))" "tool \<in> set (started_tools (sv_mutation m))"
      "ts_result_entry_id tool = pe_id p"
    and prepared: "prepare_commit io (ms_snapshot s) (ms_append_index s) [EntryItem lane p] t = Inr stored"
  shows "validate_snapshot_commit io (ms_snapshot s) stored \<noteq> Inr ()"
proof
  let ?s = "ms_snapshot s"
  assume full: "validate_snapshot_commit io ?s stored = Inr ()"
  from assms(1) obtain st where ok: "snapshot_ok ?s"
    and st: "replay (io_codec io) (ss_header ?s) (mutations ?s) = Inr st" by (auto simp: tracked_def)
  obtain x e where x: "sc_items stored = [x]" "sv_mutation x = EntryM e" "eh_id (se_header e) = pe_id p"
    "se_body e = pe_body p" using prepared by (rule prepare_single_entry)
  note sealed = prepare_commit_sealed [OF prepared]
  from full have "validate_snapshot io (push_commit ?s stored) = Inr ()"
    by (simp add: validate_push [OF ok sealed(1)])
  then obtain st' where st': "reduce_step (io_codec io) st x = Inr st'" "lanes_valid st'"
    unfolding validate_snapshot_ok [OF push_commit_ok(2) [OF ok sealed(1)]]
    by (auto simp: push_commit_ok [OF ok sealed(1)] x(1) replay_snoc [OF st])
  have "tool \<in> snd ` set (rd_tool_starts st)" using tool(1,2) replay_tools [OF st] by blast
  with st' x tool(3) assms(2) reserved_entry_invalid [of "io_codec io" "moved st x" e st' tool] show False
    by (simp add: reduce_step_moved step_mutation_def)
qed

lemma user_entry_passes:
  assumes "tracked io s" and "is_user_message (pe_body p)"
    and "\<forall>q. btree_get (ix_provisioned_entries (ms_append_index s)) (pe_id p) = Some q \<longrightarrow> pe_body q = pe_body p"
    and prepared: "prepare_commit io (ms_snapshot s) (ms_append_index s) [EntryItem lane p] t = Inr stored"
  shows "validate_prepared_commit io (ms_snapshot s) (ms_append_index s) stored = Inr ()"
proof -
  obtain x e where x: "sc_items stored = [x]" "sv_mutation x = EntryM e" "eh_id (se_header e) = pe_id p"
    "se_body e = pe_body p" using prepared by (rule prepare_single_entry)
  have "ix_incremental_validation_ready (ms_append_index s)" using assms(1) by (auto simp: tracked_def)
  with x assms(2,3) have "locally_validated (ms_append_index s) (sc_items stored) = Inr True"
    by (auto simp: locally_validated_def is_locally_validated_mutation_def split: option.splits)
  then show ?thesis by (simp add: validate_prepared_commit_def)
qed

end
