(* ===== verification/Store_Example.thy ===== *)
theory Store_Example
  imports Store_Invariants Session_Example "HOL-Library.Code_Target_Nat"
begin

text \<open>
  A short run of the in-memory writer, evaluated: an operation is started, a second one on the busy
  lane is refused, its input and first epoch are written together, and a tool is started. The last
  commit takes the identity the tool has reserved.
\<close>

text \<open>
  The bytes to hash are evaluated only when the digest function asks for them; the example's
  digest function does not.
\<close>

definition digest_of :: "(u8 list \<Rightarrow> digest) \<Rightarrow> (unit \<Rightarrow> u8 list) \<Rightarrow> digest" where
  "digest_of blake3 bytes = blake3 (bytes ())"

lemma calculate_commit_digest_code [code]:
  "calculate_commit_digest io i n t d items =
     (case io_json io (encode_commit_payload items) of
        Inl _ \<Rightarrow> Inl (InvalidInput CommitEncoding)
      | Inr canonical \<Rightarrow> Inr (digest_of (io_blake3 io) (\<lambda>u. case u of () \<Rightarrow>
          hash_bytes ''canonical_mutation_payload'' (str_bytes canonical)
            (hash_bytes ''previous_digest'' d (hash_u64 ''timestamp_ms'' t (hash_u64 ''sequence'' n
            (hash_string ''session_id'' i (new_hash ''tea-session-commit-v1'' 1 1))))))))"
  unfolding calculate_commit_digest_def digest_of_def old.unit.case ..

lemma calculate_header_digest_code [code]:
  "calculate_header_digest io header =
     (case io_json io (encode_unsigned_header header) of
        Inl _ \<Rightarrow> Inl (InvalidInput HeaderEncoding)
      | Inr canonical \<Rightarrow> Inr (digest_of (io_blake3 io) (\<lambda>u. case u of () \<Rightarrow>
          hash_bytes ''canonical_unsigned_header'' (str_bytes canonical)
            (new_hash ''tea-session-header-v1'' 1 1))))"
  unfolding calculate_header_digest_def digest_of_def old.unit.case ..

text \<open>The example's printer tells commits from other values; nothing is parsed.\<close>

definition ex_io :: session_io where
  "ex_io = \<lparr>io_codec = \<lparr>cx_miniserde = (\<lambda>v. if get_member v ''seq'' = None then ''h'' else ''c''), cx_blake3 = (\<lambda>_. zero_digest)\<rparr>,
     io_from_str = (\<lambda>_. None)\<rparr>"

definition ex_session :: memory_session where
  "ex_session =
     (case create_with_clock ex_io ex_header of
        Inr s \<Rightarrow> s
      | Inl _ \<Rightarrow> \<lparr>ms_snapshot = empty_snapshot ex_header, ms_append_index = empty_index ex_header,
                  ms_fault = None\<rparr>)"

definition ex_start :: session_commit where
  "ex_start = [RecordItem (OperationStarted
     (new_operation_started ''op1'' main_lane None RunOp [ex_user] ''rev'' ''profile''))]"

definition ex_commits :: "(u64 \<times> session_commit) list" where
  "ex_commits =
     [(9, [RecordItem (OperationStarted
         (new_operation_started ''op2'' main_lane None RunOp [] ''rev'' ''profile''))]),
      (10, [EntryItem main_lane ex_user, RecordItem (EpochStarted ex_epoch)]),
      (11, [EntryItem main_lane (provisioned_assistant ''a1'' ''running'' [ex_call])]),
      (12, [RecordItem (ToolStarted ex_tool)])]"

definition ex_clash :: session_commit where
  "ex_clash = [EntryItem main_lane (provisioned_user ''r1'' ''again'')]"

definition ex_first :: memory_session where
  "ex_first = snd (commit ex_io 9 ex_start ex_session)"

definition ex_stored :: "stored_commit list" where
  "ex_stored = fst (put_all (\<lambda>(t, c). commit ex_io t c) ((9, ex_start) # ex_commits) ex_session)"

definition ex_after :: memory_session where
  "ex_after = snd (put_all (\<lambda>(t, c). commit ex_io t c) ((9, ex_start) # ex_commits) ex_session)"

text \<open>The run, evaluated once: what is stored, and that the last commit can be prepared.\<close>

lemma ex_created: "create_with_clock ex_io ex_header = Inr ex_session"
proof -
  have "is_ok (create_with_clock ex_io ex_header)" by code_simp
  then show ?thesis by (auto simp: ex_session_def is_ok_iff)
qed

lemma ex_run:
  "(case commit ex_io 9 ex_start ex_session of (r, s1) \<Rightarrow>
    case put_all (\<lambda>(t, c). commit ex_io t c) ex_commits s1 of (rs, s) \<Rightarrow>
      (is_ok r, map sc_seq rs, map (length \<circ> sc_items) rs,
       validate_snapshot ex_io (ms_snapshot s), ms_fault s,
       list_ex (\<lambda>m. list_ex (\<lambda>tool. ts_result_entry_id tool = ''r1'') (started_tools (sv_mutation m))) (mutations (ms_snapshot s)),
       btree_get (ix_provisioned_entries (ms_append_index s)) ''r1'',
       is_ok (prepare_commit ex_io (ms_snapshot s) (ms_append_index s) ex_clash 13))) =
   (True, [2, 3, 4], [2, 1, 1], Inr (), None, True, None, True)"
  by code_simp

lemma ex_after_run:
  "validate_snapshot ex_io (ms_snapshot ex_after) = Inr ()" "ms_fault ex_after = None"
  "list_ex (\<lambda>m. list_ex (\<lambda>tool. ts_result_entry_id tool = ''r1'') (started_tools (sv_mutation m))) (mutations (ms_snapshot ex_after))"
  "btree_get (ix_provisioned_entries (ms_append_index ex_after)) ''r1'' = None"
  "is_ok (prepare_commit ex_io (ms_snapshot ex_after) (ms_append_index ex_after) ex_clash 13)"
  using ex_run by (simp_all add: ex_after_def split: prod.splits sum.splits)

lemma ex_previews:
  "(is_ok (preview_session_commit ex_io (ms_snapshot ex_session) ex_start main_lane 9),
    is_ok (fst (append_entry ex_io 9 main_lane ex_user ex_session))) = (True, True)"
  by code_simp

lemma ex_first_commit:
  obtains stored where "commit ex_io 9 ex_start ex_session = (Inr stored, ex_first)"
proof -
  from ex_run have "is_ok (fst (commit ex_io 9 ex_start ex_session))" by (auto split: prod.splits)
  then obtain stored where "fst (commit ex_io 9 ex_start ex_session) = Inr stored" by (auto simp: is_ok_iff)
  then have "commit ex_io 9 ex_start ex_session = (Inr stored, ex_first)" by (simp add: ex_first_def prod_eq_iff)
  then show thesis by (rule that)
qed

lemma ex_unreserved: "unreserved s ex_start"
  by (simp add: unreserved_def ex_start_def)

end
