(* ===== verification/Store_Guarantees.thy ===== *)
theory Store_Guarantees
  imports Store_Commits Store_Example
begin

text \<open>
  What a client of the in-memory session can rely on: the log is exactly what was committed, in
  order and chained by digests; the append index is the one a reopened session would rebuild; the
  fast path decides what the full validation decides; and a preview shows what the commit will do.
\<close>

section \<open>Reachable sessions\<close>

text \<open>The states a session goes through when its callers respect reserved identities.\<close>

inductive session_reaches :: "session_io \<Rightarrow> memory_session \<Rightarrow> memory_session \<Rightarrow> bool" for io s0 where
  started: "session_reaches io s0 s0"
| committed: "session_reaches io s0 s \<Longrightarrow> unreserved s c \<Longrightarrow> commit io t c s = (r, s') \<Longrightarrow>
    session_reaches io s0 s'"

inductive_cases session_reachesE: "session_reaches io s0 s"

lemma reaches_valid: "session_reaches io s0 s \<Longrightarrow> session_valid io s0 \<Longrightarrow> session_valid io s"
proof (induction rule: session_reaches.induct)
  case (committed s c t r s')
  then show ?case by (cases r) (auto dest: commit_err intro: commit_session_valid)
qed

fun commit_chain :: "session_io \<Rightarrow> session_id \<Rightarrow> sequence \<Rightarrow> digest \<Rightarrow> stored_commit list \<Rightarrow> bool" where
  "commit_chain io i n d [] = True"
| "commit_chain io i n d (c # cs) \<longleftrightarrow>
     sc_seq c = saturating_add n 1 \<and> sc_prev_digest c = d \<and>
     calculate_commit_digest io i (sc_seq c) (sc_timestamp_ms c) d (map sv_mutation (sc_items c)) =
       Inr (sc_digest c) \<and>
     commit_chain io i (sc_seq c) (sc_digest c) cs"

lemma put_all_chain:
  assumes "tracked io s" and "put_all (\<lambda>(t, c). commit io t c) cs s = (stored, s')"
  shows "commit_chain io (sh_session_id (ss_header (ms_snapshot s))) (ss_last_sequence (ms_snapshot s))
    (ss_last_digest (ms_snapshot s)) stored"
  using assms
proof (induction cs arbitrary: s stored s')
  case (Cons p cs)
  obtain t c where p: "p = (t, c)" by (cases p)
  obtain r u where w: "commit io t c s = (r, u)" by fastforce
  obtain rs v where ws: "put_all (\<lambda>(t, c). commit io t c) cs u = (rs, v)" by fastforce
  have tracked: "tracked io u" using memory.put_keeps [OF Cons.prems(1), of "(t, c)" r u] w by simp
  note chain = Cons.IH [OF tracked ws]
  show ?case
  proof (cases r)
    case (Inl e)
    with w commit_err have u: "u = s" by blast
    with w ws Inl Cons.prems(2) have "rs = stored" by (simp add: p)
    with chain u show ?thesis by simp
  next
    case (Inr x)
    with w have prepared: "prepare_commit io (ms_snapshot s) (ms_append_index s) c t = Inr x" by (simp add: commit_ok)
    from w Inr have "commit io t c s = (Inr x, u)" by simp
    note u = commit_tracked [OF Cons.prems(1) this]
    have "snapshot_ok (ms_snapshot s)" using Cons.prems(1) by (simp add: tracked_def)
    from push_commit_ok [OF this u(3)] chain prepare_commit_sealed [OF prepared]
      prepare_commit_digest [OF prepared] Cons.prems(2)
    show ?thesis by (auto simp: p w ws Inr u(2) next_sequence_def)
  qed
qed simp

section \<open>The concrete session\<close>

lemma ex_put_all: "put_all (\<lambda>(t, c). commit ex_io t c) ((9, ex_start) # ex_commits) ex_session = (ex_stored, ex_after)"
  by (simp only: ex_stored_def ex_after_def prod.collapse)

lemma ex_stored_sequences: "map sc_seq ex_stored = [1, 2, 3, 4]"
proof (rule ex_first_commit)
  fix stored
  assume c: "commit ex_io 9 ex_start ex_session = (Inr stored, ex_first)"
  then have "sc_seq stored = next_sequence (ms_snapshot ex_session)"
    by (auto simp: commit_ok dest: prepare_commit_sealed(2))
  moreover have "ss_last_sequence (ms_snapshot ex_session) = 0" using create_fields [OF ex_created] by simp
  ultimately have "sc_seq stored = 1" by (simp add: next_sequence_def saturating_add_def)
  with ex_run c show ?thesis by (auto simp: ex_stored_def split: prod.splits)
qed

section \<open>Theorems\<close>

text \<open>
  C13: For any sequence of commits to a new session, the timeline of the snapshot is exactly the
  items of the commits that succeeded, in their order: a failed commit leaves no trace, and no
  commit changes or reorders what an earlier one wrote.
\<close>

theorem session_log_exact:
  assumes "create_with_clock io header = Inr s0"
    and "put_all (\<lambda>(t, c). commit io t c) cs s0 = (stored, s)"
  shows "mutations (ms_snapshot s) = concat (map sc_items stored)"
proof -
  have "mutations (ms_snapshot s0) = []" using create_fields [OF assms(1)] by simp
  with memory.put_all_log [OF create_tracked [OF assms(1)] assms(2)] show ?thesis by simp
qed

theorem session_log_exact_witness:
  "mutations (ms_snapshot ex_after) = concat (map sc_items ex_stored) \<and> length ex_stored = 4"
  using session_log_exact [OF ex_created ex_put_all] ex_stored_sequences
  by (auto dest: arg_cong [of _ _ length])

text \<open>
  C14: The stored commits form a hash chain from the header: the sequence numbers are consecutive,
  each commit names the digest of the one before it (the first one the header's), and its own
  digest is the canonical digest of the session, the sequence number, the time, that previous
  digest and its items.
\<close>

theorem commits_hash_chained:
  assumes "create_with_clock io header = Inr s0"
    and "put_all (\<lambda>(t, c). commit io t c) cs s0 = (stored, s)"
  shows "\<exists>d. calculate_header_digest io header = Inr d \<and> commit_chain io (sh_session_id header) 0 d stored"
proof -
  from assms(1) obtain d where d: "calculate_header_digest io header = Inr d"
    and "ms_snapshot s0 = empty_snapshot (header\<lparr>sh_digest := d\<rparr>)"
    by (auto simp: create_session_ok seal_header_def result_simps)
  with put_all_chain [OF create_tracked [OF assms(1)] assms(2)] show ?thesis
    by (auto simp: empty_snapshot_def)
qed

theorem commits_hash_chained_witness:
  "(\<exists>d. calculate_header_digest ex_io ex_header = Inr d \<and>
      commit_chain ex_io (sh_session_id ex_header) 0 d ex_stored) \<and> length ex_stored = 4"
  using commits_hash_chained [OF ex_created ex_put_all] ex_stored_sequences
  by (auto dest: arg_cong [of _ _ length])

text \<open>
  C12: The append index refines the timeline: after any commits the index the session has kept up
  incrementally is the index that reading the whole snapshot again would build, and the snapshot's
  timeline replays. So the session can be reopened at any point without changing its answers.
\<close>

theorem append_index_refines:
  assumes "create_with_clock io header = Inr s0"
    and "put_all (\<lambda>(t, c). commit io t c) cs s0 = (stored, s)"
  shows "from_snapshot (ms_snapshot s) = Some (ms_append_index s) \<and>
    is_ok (replay (io_codec io) (ss_header (ms_snapshot s)) (mutations (ms_snapshot s)))"
proof -
  have "tracked io s" using memory.put_all_inv [OF create_tracked [OF assms(1)] assms(2)] .
  then show ?thesis using from_snapshot_replay by (auto simp: tracked_def)
qed

theorem append_index_refines_witness:
  "from_snapshot (ms_snapshot ex_after) = Some (ms_append_index ex_after) \<and>
   is_ok (replay (io_codec ex_io) (ss_header (ms_snapshot ex_after)) (mutations (ms_snapshot ex_after)))"
  using append_index_refines [OF ex_created ex_put_all] by blast

text \<open>
  C10: The fast path of the writer decides what the full validation decides. On a session that the
  full validation accepts, a prepared commit passes the incremental check exactly when replaying
  the whole timeline with it, reducing every lane and reducing the agent graph succeeds, provided
  a single user entry does not take an identity reserved for a tool result or an activation.
\<close>

theorem fast_path_equivalent:
  assumes "session_valid io s" and "unreserved s c"
    and "prepare_commit io (ms_snapshot s) (ms_append_index s) c t = Inr stored"
  shows "is_ok (validate_prepared_commit io (ms_snapshot s) (ms_append_index s) stored) =
    is_ok (validate_snapshot_commit io (ms_snapshot s) stored)"
  using assms by (rule fast_path_iff)

theorem fast_path_equivalent_witness:
  "\<exists>stored. prepare_commit ex_io (ms_snapshot ex_session) (ms_append_index ex_session) ex_start 9 = Inr stored \<and>
     validate_snapshot_commit ex_io (ms_snapshot ex_session) stored = Inr ()"
proof (rule ex_first_commit)
  fix stored
  assume "commit ex_io 9 ex_start ex_session = (Inr stored, ex_first)"
  then have p: "prepare_commit ex_io (ms_snapshot ex_session) (ms_append_index ex_session) ex_start 9 = Inr stored"
    and v: "validate_prepared_commit ex_io (ms_snapshot ex_session) (ms_append_index ex_session) stored = Inr ()"
    by (simp_all add: commit_ok)
  from fast_path_equivalent [OF create_valid [OF ex_created] ex_unreserved p] v
  have "validate_snapshot_commit ex_io (ms_snapshot ex_session) stored = Inr ()" by (simp add: is_ok_unit)
  with p show ?thesis by blast
qed

text \<open>
  C17: Without that proviso the two differ on every session. When a tool was started that reserved an
  entry identity for its result, a commit of one user entry that takes this identity, and does not
  contradict an entry provisioned under it, passes the incremental check as soon as it can be
  prepared, and is written; but the full validation refuses it, and refuses the session afterwards.
\<close>

theorem fast_path_reserved_gap:
  assumes "session_valid io s" "ms_fault s = None" and "is_user_message (pe_body p)"
    and "m \<in> set (mutations (ms_snapshot s))" "tool \<in> set (started_tools (sv_mutation m))"
      "ts_result_entry_id tool = pe_id p"
    and "\<forall>q. btree_get (ix_provisioned_entries (ms_append_index s)) (pe_id p) = Some q \<longrightarrow> pe_body q = pe_body p"
    and "prepare_commit io (ms_snapshot s) (ms_append_index s) [EntryItem lane p] t = Inr stored"
  shows "validate_prepared_commit io (ms_snapshot s) (ms_append_index s) stored = Inr () \<and>
    validate_snapshot_commit io (ms_snapshot s) stored \<noteq> Inr () \<and>
    (\<exists>s'. commit io t [EntryItem lane p] s = (Inr stored, s') \<and> validate_snapshot io (ms_snapshot s') \<noteq> Inr ())"
proof -
  have tracked: "tracked io s" using assms(1) by (simp add: session_valid_def)
  note passes = user_entry_passes [OF tracked assms(3,7,8)]
  note refused = reserved_commit_invalid [OF tracked assms(3-6,8)]
  from apply_prepared_tracked [OF tracked assms(8) passes] obtain s' where
    s': "apply_prepared s stored = Inr s'" "ms_snapshot s' = push_commit (ms_snapshot s) stored" by blast
  have "commit io t [EntryItem lane p] s = (Inr stored, s')"
    using assms(2,8) passes s'(1) by (simp add: commit_ok)
  moreover have "validate_snapshot io (ms_snapshot s') = validate_snapshot_commit io (ms_snapshot s) stored"
    using validate_push [OF _ prepare_commit_sealed(1) [OF assms(8)]] tracked s'(2) by (simp add: tracked_def)
  ultimately show ?thesis using passes refused by auto
qed

theorem fast_path_reserved_gap_witness:
  "validate_snapshot ex_io (ms_snapshot ex_after) = Inr () \<and>
   (\<exists>stored s'. commit ex_io 13 ex_clash ex_after = (Inr stored, s') \<and>
      validate_snapshot ex_io (ms_snapshot s') \<noteq> Inr ())"
proof -
  have valid: "session_valid ex_io ex_after"
    using memory.put_all_inv [OF create_tracked [OF ex_created] ex_put_all] ex_after_run(1) by (simp add: session_valid_def)
  from ex_after_run(3) obtain m tool where m: "m \<in> set (mutations (ms_snapshot ex_after))"
    "tool \<in> set (started_tools (sv_mutation m))" "ts_result_entry_id tool = ''r1''"
    by (auto simp: list_ex_iff)
  obtain stored where p: "prepare_commit ex_io (ms_snapshot ex_after) (ms_append_index ex_after) ex_clash 13 = Inr stored"
    using ex_after_run(5) by (auto simp: is_ok_iff)
  have "ms_fault ex_after = None" "is_user_message (pe_body (provisioned_user ''r1'' ''again''))"
    "\<forall>q. btree_get (ix_provisioned_entries (ms_append_index ex_after)) (pe_id (provisioned_user ''r1'' ''again'')) = Some q \<longrightarrow>
       pe_body q = pe_body (provisioned_user ''r1'' ''again'')"
    using ex_after_run(2,4) by (simp_all add: provisioned_user_def is_user_message_def)
  moreover have "ts_result_entry_id tool = pe_id (provisioned_user ''r1'' ''again'')"
    using m(3) by (simp add: provisioned_user_def)
  ultimately show ?thesis
    using fast_path_reserved_gap [OF valid _ _ m(1,2), of "provisioned_user ''r1'' ''again''" main_lane 13 stored]
      p ex_after_run(1) unfolding ex_clash_def by blast
qed

text \<open>
  C11: A session stays valid: starting from a new session, whatever commits are tried, as long as no
  commit of a single user entry takes an identity reserved for a tool result or an activation, every
  lane and the agent graph of the snapshot reduce without corruption.
\<close>

theorem session_stays_valid:
  assumes "create_with_clock io header = Inr s0" and "session_reaches io s0 s"
  shows "validate_snapshot io (ms_snapshot s) = Inr ()"
  using reaches_valid [OF assms(2) create_valid [OF assms(1)]] by (simp add: session_valid_def)

theorem session_stays_valid_witness:
  "validate_snapshot ex_io (ms_snapshot ex_first) = Inr () \<and> ms_snapshot ex_first \<noteq> ms_snapshot ex_session"
proof (rule ex_first_commit)
  fix stored
  assume c: "commit ex_io 9 ex_start ex_session = (Inr stored, ex_first)"
  have "session_reaches ex_io ex_session ex_first"
    using session_reaches.committed [OF session_reaches.started ex_unreserved c] .
  from session_stays_valid [OF ex_created this] have "validate_snapshot ex_io (ms_snapshot ex_first) = Inr ()" .
  moreover have "mutations (ms_snapshot ex_first) = mutations (ms_snapshot ex_session) @ sc_items stored"
    and "sc_items stored \<noteq> []"
    using commit_tracked [OF create_tracked [OF ex_created] c] by (simp_all add: sealed_def)
  ultimately show ?thesis by auto
qed

text \<open>
  C15: A commit on a session reached from a new one either fails with an error other than a failing
  \<open>expect\<close> and leaves the session as it was, or appends exactly its items: each record, fact and lane as
  it was given and each entry with its identity and body, linked to the leaf its lane has at that
  point, all with the next sequence number and the time of the commit.
\<close>

theorem commit_all_or_nothing:
  assumes "create_with_clock io header = Inr s0"
    and "put_all (\<lambda>(t, c). commit io t c) cs s0 = (stored, s)" and "commit io t c s = (r, s')"
  shows "(\<exists>e. r = Inl e \<and> e \<noteq> IndexPanic \<and> s' = s) \<or>
    (\<exists>x. r = Inr x \<and> mutations (ms_snapshot s') = mutations (ms_snapshot s) @ sc_items x \<and>
       map sv_mutation (sc_items x) = stored_items (next_sequence (ms_snapshot s)) t
         (lane_leaves (ss_header (ms_snapshot s)) (mutations (ms_snapshot s))) c \<and>
       length (sc_items x) = length c \<and> sc_timestamp_ms x = t \<and> sc_seq x = next_sequence (ms_snapshot s) \<and>
       ss_last_sequence (ms_snapshot s') = sc_seq x \<and> ss_last_digest (ms_snapshot s') = sc_digest x)"
proof -
  have tracked: "tracked io s" using memory.put_all_inv [OF create_tracked [OF assms(1)] assms(2)] .
  show ?thesis
  proof (cases r)
    case (Inl e)
    with commit_no_panic [OF tracked] commit_err assms(3) show ?thesis by blast
  next
    case (Inr x)
    with assms(3) have c: "commit io t c s = (Inr x, s')" by simp
    note written = commit_tracked [OF tracked c]
    from c have prepared: "prepare_commit io (ms_snapshot s) (ms_append_index s) c t = Inr x" by (simp add: commit_ok)
    have ok: "snapshot_ok (ms_snapshot s)" using tracked by (simp add: tracked_def)
    show ?thesis
      using Inr written push_commit_ok [OF ok written(3)] prepare_commit_sealed [OF prepared]
        commit_stored [OF tracked prepared] prepare_commit_stored(2) [OF prepared] by simp
  qed
qed

theorem commit_all_or_nothing_witness:
  "\<exists>x. commit ex_io 9 ex_start ex_session = (Inr x, ex_first) \<and> sc_seq x = next_sequence (ms_snapshot ex_session) \<and>
     mutations (ms_snapshot ex_first) = mutations (ms_snapshot ex_session) @ sc_items x \<and>
     map (\<lambda>m. case sv_mutation m of RecordM r \<Rightarrow> Some (sr_record r) | _ \<Rightarrow> None) (sc_items x) =
       [Some (OperationStarted (new_operation_started ''op1'' main_lane None RunOp [ex_user] ''rev'' ''profile''))]"
proof (rule ex_first_commit)
  fix stored
  assume c: "commit ex_io 9 ex_start ex_session = (Inr stored, ex_first)"
  from commit_all_or_nothing [OF ex_created put_all.simps(1) c] have
    "sc_seq stored = next_sequence (ms_snapshot ex_session)"
    "mutations (ms_snapshot ex_first) = mutations (ms_snapshot ex_session) @ sc_items stored"
    and "\<exists>n leaves. map sv_mutation (sc_items stored) = stored_items n 9 leaves ex_start" by auto
  with c show ?thesis by (auto simp: ex_start_def)
qed

text \<open>
  C16: A preview is what the commit does: when previewing a commit on a valid session that accepts
  writes shows a lane reduction, the commit succeeds and reducing that lane of the new snapshot
  gives the same reduction.
\<close>

theorem preview_matches_commit:
  assumes "session_valid io s" and "ms_fault s = None"
    and "preview_session_commit io (ms_snapshot s) c lane t = Inr r"
  shows "\<exists>stored s'. commit io t c s = (Inr stored, s') \<and>
    reduce_lane_ref (io_codec io) (ms_snapshot s') lane = Inr r"
proof -
  have tracked: "tracked io s" using assms(1) by (simp add: session_valid_def)
  then have "from_snapshot (ms_snapshot s) = Some (ms_append_index s)" and ok: "snapshot_ok (ms_snapshot s)"
    using from_snapshot_replay by (auto simp: tracked_def)
  with assms(3) obtain stored where
    prepared: "prepare_commit io (ms_snapshot s) (ms_append_index s) c t = Inr stored"
    and full: "validate_snapshot_commit io (ms_snapshot s) stored = Inr ()"
    and r: "reduce_lane_ref_with_commit (io_codec io) (ms_snapshot s) stored lane = Inr r"
    by (auto simp: preview_session_commit_def result_simps)
  from fast_path_complete [OF tracked prepared full] full
  have "validate_prepared_commit io (ms_snapshot s) (ms_append_index s) stored = Inr ()"
    by (auto simp: validate_prepared_commit_def is_ok_iff)
  from apply_prepared_tracked [OF tracked prepared this] this prepared assms(2) obtain s' where
    "commit io t c s = (Inr stored, s')" "ms_snapshot s' = push_commit (ms_snapshot s) stored"
    by (auto simp: commit_ok)
  with r push_commit_ok [OF ok prepare_commit_sealed(1) [OF prepared]] show ?thesis
    by (auto simp: reduce_lane_ref_def reduce_lane_ref_with_commit_def)
qed

theorem preview_matches_commit_witness:
  "\<exists>r stored s'. commit ex_io 9 ex_start ex_session = (Inr stored, s') \<and>
     reduce_lane_ref (io_codec ex_io) (ms_snapshot s') main_lane = Inr r"
proof -
  from ex_previews obtain r where "preview_session_commit ex_io (ms_snapshot ex_session) ex_start main_lane 9 = Inr r"
    by (auto simp: is_ok_iff)
  moreover have "ms_fault ex_session = None" using create_fields [OF ex_created] by simp
  ultimately show ?thesis using preview_matches_commit [OF create_valid [OF ex_created]] by blast
qed

text \<open>
  Appending one entry returns that entry, never the error for a commit that came back with
  another item, linked to the leaf its lane had and carrying the next sequence number, and it
  becomes the leaf of the lane.
\<close>

theorem append_entry_links:
  assumes "tracked io s" and "append_entry io t lane p s = (r, s')"
  shows "case r of
      Inl e \<Rightarrow> e \<notin> {IndexPanic, ReturnedOtherItem} \<and> s' = s
    | Inr e \<Rightarrow> eh_id (se_header e) = pe_id p \<and> se_body e = pe_body p \<and> se_lane_id e = lane \<and>
        index_lane_leaf (ms_append_index s) lane = Inr (eh_parent_id (se_header e)) \<and>
        index_lane_leaf (ms_append_index s') lane = Inr (Some (pe_id p)) \<and>
        \<not> contains_entry (ms_append_index s) (pe_id p) \<and> contains_entry (ms_append_index s') (pe_id p)"
proof -
  obtain q u where c: "commit io t (one_commit (EntryItem lane p)) s = (q, u)" by fastforce
  with assms(2) have r: "r = and_then q (take_single first_entry)" and s': "s' = u" by (auto simp: append_entry_def)
  show ?thesis
  proof (cases q)
    case (Inl e)
    with c have "commit io t (one_commit (EntryItem lane p)) s = (Inl e, u)" by simp
    with commit_no_panic [OF assms(1)] commit_err r s' Inl show ?thesis by fastforce
  next
    case (Inr stored)
    with c have commit: "commit io t (one_commit (EntryItem lane p)) s = (Inr stored, u)" by simp
    then have prepared: "prepare_commit io (ms_snapshot s) (ms_append_index s) [EntryItem lane p] t = Inr stored"
      by (simp add: commit_ok one_commit_def)
    then obtain x e where item: "sc_items stored = [x]" "sv_mutation x = EntryM e"
      by (auto simp: prepare_commit_def Let_def result_simps empty_batch_def dest!: seal_commit_sealed
          split: if_splits)
    from prepare_commit_entry [OF prepared item] have fields: "eh_id (se_header e) = pe_id p" "se_body e = pe_body p"
      "se_lane_id e = lane" "pe_id p \<notin> ix_entry_ids (ms_append_index s)"
      "map_of (ix_lane_leaves (ms_append_index s)) lane = Some (eh_parent_id (se_header e))" by auto
    from commit obtain ix where ix: "advance_all (ms_append_index s) [x] = Some ix" "ms_append_index u = ix"
      by (auto simp: commit_ok apply_prepared_def item(1) split: option.splits)
    have "ix_incremental_validation_ready ix" "ix_incremental_validation_ready (ms_append_index s)"
      using commit_tracked(1) [OF assms(1) commit] assms(1) ix(2) by (auto simp: tracked_def)
    with ix(1) have "advance_mutation (ms_append_index s) (EntryM e) = Some ix"
      by (auto simp: advance_def item(2) split: if_splits)
    then have "ix = (ms_append_index s)\<lparr>ix_entry_ids := insert (pe_id p) (ix_entry_ids (ms_append_index s)),
        ix_lane_leaves := btree_insert lane (Some (pe_id p)) (ix_lane_leaves (ms_append_index s))\<rparr>"
      by (simp add: advance_mutation_def fields)
    with fields r s' Inr item ix(2) show ?thesis
      by (simp add: take_single_def contains_entry_def index_lane_leaf_def)
  qed
qed

theorem append_entry_links_witness:
  "\<exists>e s'. append_entry ex_io 9 main_lane ex_user ex_session = (Inr e, s') \<and>
     eh_id (se_header e) = ''u1'' \<and> contains_entry (ms_append_index s') ''u1''"
proof -
  from ex_previews obtain e s' where a: "append_entry ex_io 9 main_lane ex_user ex_session = (Inr e, s')"
    by (cases "append_entry ex_io 9 main_lane ex_user ex_session") (auto simp: is_ok_iff)
  from append_entry_links [OF create_tracked [OF ex_created] a] a show ?thesis
    by (auto simp: ex_user_def provisioned_user_def)
qed

end
