(* ===== verification/Data_Guarantees.thy ===== *)
theory Data_Guarantees
  imports Session_Usage
begin

text \<open>
  Guarantees of the session's leaf data: digests print and parse back, derived identities are
  valid identifiers and name their intents without collision of the hashed stream, accepted
  paths stay below their root, and usage adds exactly or saturates.
\<close>

text \<open>
  A 32-byte digest prints as 64 hexadecimal digits that parse back to the same digest, and two
  digests print alike only when they are equal.
\<close>

theorem digest_hex_roundtrip:
  assumes "length d = 32"
  shows "length (to_hex d) = 64 \<and> from_hex (to_hex d) = Inr d \<and> (\<forall>e. to_hex e = to_hex d \<longleftrightarrow> e = d)"
  using from_hex_to_hex [OF assms] assms by (simp add: to_hex_inject)

theorem digest_hex_roundtrip_witness:
  "length (to_hex zero_digest) = 64 \<and> from_hex (to_hex zero_digest) = Inr zero_digest"
  using digest_hex_roundtrip [of zero_digest] by (simp add: zero_digest_def)

text \<open>
  C34: Whatever the hash function does with the hashed bytes, as long as its digests have 32 bytes,
  the identities derived for agents, workspace leases, workspace deltas and child operations are
  accepted by the identifier check: the \<open>expect\<close> of each derivation cannot fail.
\<close>

theorem derived_ids_valid:
  assumes "\<And>bytes. length (blake3 bytes) = 32"
  shows "new_id (derive_agent_id blake3 session lane operation key) =
      Inr (derive_agent_id blake3 session lane operation key) \<and>
    new_id (derive_workspace_lease_id blake3 agent) = Inr (derive_workspace_lease_id blake3 agent) \<and>
    new_id (derive_workspace_delta_id blake3 lease base result) =
      Inr (derive_workspace_delta_id blake3 lease base result) \<and>
    new_id (derive_subagent_operation_id blake3 agent task) =
      Inr (derive_subagent_operation_id blake3 agent task)"
  unfolding derive_agent_id_def derive_workspace_lease_id_def derive_workspace_delta_id_def
    derive_subagent_operation_id_def
  by (intro conjI prefixed_digest_valid plain_prefixes assms)

theorem derived_ids_valid_witness:
  "new_id (derive_workspace_lease_id (\<lambda>_. zero_digest) ''agent'') =
     Inr (derive_workspace_lease_id (\<lambda>_. zero_digest) ''agent'')"
  using derived_ids_valid [of "\<lambda>_. zero_digest"] by (simp add: zero_digest_def)

text \<open>
  The bytes hashed for an agent identity determine the session, the parent lane, the parent
  operation and the idempotency key of the spawn: fields are framed, so no two distinct spawn
  intents are hashed from the same bytes.
\<close>

theorem agent_intents_framed:
  assumes "length session < 2 ^ 64" "length lane < 2 ^ 64" "length operation < 2 ^ 64" "length key < 2 ^ 64"
    and "length session' < 2 ^ 64" "length lane' < 2 ^ 64" "length operation' < 2 ^ 64" "length key' < 2 ^ 64"
  shows "agent_stream session lane operation key = agent_stream session' lane' operation' key' \<longleftrightarrow>
    session = session' \<and> lane = lane' \<and> operation = operation' \<and> key = key'"
  using agent_stream_inject [OF assms] by blast

theorem agent_intents_framed_witness:
  "agent_stream ''s'' ''ab'' ''c'' ''k'' \<noteq> agent_stream ''s'' ''a'' ''bc'' ''k''"
  by (subst agent_intents_framed) simp_all

text \<open>
  A path that normalization accepts is returned unchanged and is relative: it has no drive, no
  backslash and no null byte, none of its segments is empty or a traversal, and every byte of a
  segment is portable.
\<close>

theorem normalized_path_safe:
  assumes "normalized_path value = Inr p"
  shows "p = value \<and> hd p \<noteq> CHR ''/'' \<and> CHR 0x5C \<notin> set p \<and> CHR 0x00 \<notin> set p \<and>
    {[], ''.'', ''..''} \<inter> set (split_on CHR ''/'' p) = {} \<and>
    (\<Union>segment \<in> set (split_on CHR ''/'' p). set segment) \<subseteq> {c. path_byte_ok c}"
  using assms unfolding normalized_path_ok is_absolute_path_def list_all_iff by blast

theorem normalized_path_safe_witness:
  "normalized_path ''src/a.rs'' = Inr ''src/a.rs'' \<and> {[], ''.'', ''..''} \<inter> set (split_on CHR ''/'' ''src/a.rs'') = {}"
proof -
  have "normalized_path ''src/a.rs'' = Inr ''src/a.rs''" by code_simp
  with normalized_path_safe [OF this] show ?thesis by simp
qed

text \<open>
  Costs are added exactly: for plain decimals, the text the addition returns spells the
  rational sum of the two numbers, whatever their number of digits and decimal places.
\<close>

theorem cost_addition_exact:
  assumes "plain_decimal a" and "plain_decimal b"
  shows "decimal_value (decimal_add a b) = decimal_value a + decimal_value b"
  using assms by (rule decimal_add_exact)

theorem cost_addition_exact_witness:
  "decimal_value (decimal_add ''0.95'' ''12.1'') = decimal_value ''0.95'' + decimal_value ''12.1''"
proof -
  have "plain_decimal ''0.95''" "plain_decimal ''12.1''"
    by (simp_all add: plain_decimal_def split_point_def is_ascii_digit_def byte_of_def)
  then show ?thesis by (rule cost_addition_exact)
qed

text \<open>
  With an exponent the addition is not exact: a positive exponent is dropped, so a thousand
  and one, written with an exponent, add up to two.
\<close>

theorem cost_exponent_dropped: "decimal_add ''1e3'' ''1'' = ''2''"
  by code_simp

text \<open>
  Token counters never wrap: a category reported on both sides becomes the sum, or the largest
  counter value when the sum does not fit, and it is never smaller than either; a category
  reported on one side keeps that value, and an unreported one stays unreported.
\<close>

theorem token_counters_saturate:
  "case (us_total_tokens a, us_total_tokens b) of
     (Some m, Some n) \<Rightarrow> (\<exists>k. us_total_tokens (usage_add_assign a b) = Some k \<and>
        unat k = min (unat m + unat n) (2 ^ 64 - 1) \<and> m \<le> k \<and> n \<le> k)
   | (Some m, None) \<Rightarrow> us_total_tokens (usage_add_assign a b) = Some m
   | (None, n) \<Rightarrow> us_total_tokens (usage_add_assign a b) = n"
proof -
  have "n \<le> saturating_add m n" for m n :: u64
    using saturating_add_ge [of n m] by (simp add: saturating_add_comm)
  then show ?thesis
    by (cases "us_total_tokens a"; cases "us_total_tokens b")
      (simp_all add: usage_add_assign_def unat_saturating_add saturating_add_ge)
qed

end
