(* ===== verification/Session_File.thy ===== *)
theory Session_File
  imports Session_Store
begin

text \<open>
  The append-only session file of \<open>crates/tea-session/src/jsonl.rs\<close>: encoding and decoding of the
  header and commit lines, the bounded line reader, replay of a file, and the operations of
  \<open>JsonlSession\<close> (create, open, inspect, repair, commit).

  The contents of \<open>session.jsonl\<close> are a list of bytes; \<open>HEAD\<close> is its contents, when it exists. What
  the operating system does is an argument: \<open>buffers\<close> are the pieces in which a file is read, and a
  \<open>disk\<close> tells how each call of one append ends, with the number of bytes that reached the file when
  it fails. Directory layout, permissions and the creation of the temporary directory are not
  modelled. Offsets are natural numbers that saturate at the largest 64-bit value, as in the source.
\<close>

section \<open>UTF-8\<close>

definition continuation_byte :: "nat \<Rightarrow> bool" where
  "continuation_byte b \<longleftrightarrow> 128 \<le> b \<and> b < 192"

definition second_of_three :: "nat \<Rightarrow> nat \<Rightarrow> bool" where
  "second_of_three a b \<longleftrightarrow>
     a = 224 \<and> 160 \<le> b \<and> b < 192 \<or> 225 \<le> a \<and> a \<le> 236 \<and> continuation_byte b \<or>
     a = 237 \<and> 128 \<le> b \<and> b < 160 \<or> 238 \<le> a \<and> a \<le> 239 \<and> continuation_byte b"

definition second_of_four :: "nat \<Rightarrow> nat \<Rightarrow> bool" where
  "second_of_four a b \<longleftrightarrow>
     a = 240 \<and> 144 \<le> b \<and> b < 192 \<or> 241 \<le> a \<and> a \<le> 243 \<and> continuation_byte b \<or>
     a = 244 \<and> 128 \<le> b \<and> b < 144"

fun utf8_bytes :: "nat list \<Rightarrow> bool" where
  "utf8_bytes [] = True"
| "utf8_bytes [a] = (a < 128)"
| "utf8_bytes [a, b] =
     (if a < 128 then utf8_bytes [b] else 194 \<le> a \<and> a \<le> 223 \<and> continuation_byte b)"
| "utf8_bytes [a, b, c] =
     (if a < 128 then utf8_bytes [b, c]
      else if 194 \<le> a \<and> a \<le> 223 \<and> continuation_byte b then utf8_bytes [c]
      else second_of_three a b \<and> continuation_byte c)"
| "utf8_bytes (a # b # c # d # bs) =
     (if a < 128 then utf8_bytes (b # c # d # bs)
      else if 194 \<le> a \<and> a \<le> 223 \<and> continuation_byte b then utf8_bytes (c # d # bs)
      else if second_of_three a b \<and> continuation_byte c then utf8_bytes (d # bs)
      else second_of_four a b \<and> continuation_byte c \<and> continuation_byte d \<and> utf8_bytes bs)"

definition is_utf8 :: "string \<Rightarrow> bool" where
  "is_utf8 bytes = utf8_bytes (map byte_of bytes)"

section \<open>The header line\<close>

definition encode_header :: "session_header \<Rightarrow> json_value" where
  "encode_header header =
     (case encode_unsigned_header header of
        JObject obj \<Rightarrow> JObject (btree_insert ''digest'' (digest_value (sh_digest header)) obj)
      | v \<Rightarrow> v)"

definition decode_header_fields :: "json_value \<Rightarrow> (decode_error, session_header) result" where
  "decode_header_fields value =
     and_then (read_object value) (\<lambda>obj.
     and_then (require_exact_fields obj [''kind'', ''format'', ''version'', ''session_id'', ''created_at_ms'',
         ''workspace'', ''metadata'', ''initial_lane'', ''digest''] ''header'') (\<lambda>_.
     and_then (required_string obj ''kind'') (\<lambda>header_kind.
       if header_kind \<noteq> SESSION_HEADER_KIND then Err (HeaderMismatch ''kind'')
       else
     and_then (required_string obj ''format'') (\<lambda>format.
       if format \<noteq> SESSION_FORMAT_IDENTITY then Err (HeaderMismatch ''format'')
       else
     and_then (required_u64 obj ''version'') (\<lambda>version.
       if version \<noteq> ucast SESSION_FORMAT_VERSION then Err (HeaderMismatch ''version'')
       else
     and_then (required_digest obj ''digest'') (\<lambda>digest.
     and_then (required_id obj ''session_id'') (\<lambda>session_id.
     and_then (required_u64 obj ''created_at_ms'') (\<lambda>created_at_ms.
     and_then (required_string obj ''workspace'') (\<lambda>workspace.
     and_then (required_metadata obj ''metadata'') (\<lambda>metadata.
     and_then (required_id obj ''initial_lane'') (\<lambda>initial_lane.
       Ok \<lparr>sh_kind = SESSION_HEADER_KIND, sh_format = SESSION_FORMAT_IDENTITY,
           sh_version = SESSION_FORMAT_VERSION, sh_session_id = session_id,
           sh_created_at_ms = created_at_ms, sh_workspace = workspace, sh_metadata = metadata,
           sh_initial_lane = initial_lane, sh_digest = digest\<rparr>)))))))))))"

definition decode_header :: "session_io \<Rightarrow> json_value \<Rightarrow> (format_problem, session_header) result" where
  "decode_header io value =
     and_then (map_err Undecodable (decode_header_fields value)) (\<lambda>header.
     and_then (map_err (\<lambda>_. DigestEncoding) (calculate_header_digest io header)) (\<lambda>digest.
       if digest \<noteq> sh_digest header then Err HeaderDigestMismatch else Ok header))"

section \<open>Commit lines\<close>

definition encode_commit :: "stored_commit \<Rightarrow> json_value" where
  "encode_commit c =
     object [(''seq'', u64_value (sc_seq c)), (''timestamp_ms'', u64_value (sc_timestamp_ms c)),
       (''prev_digest'', digest_value (sc_prev_digest c)),
       (''mutation'', encode_commit_payload (map sv_mutation (sc_items c))),
       (''digest'', digest_value (sc_digest c))]"

definition decode_commit_payload ::
    "json_value \<Rightarrow> sequence \<Rightarrow> u64 \<Rightarrow> (decode_error, session_mutation list) result" where
  "decode_commit_payload value seq timestamp_ms =
     and_then (read_object value) (\<lambda>obj.
     and_then (require_exact_fields obj [''kind'', ''items''] ''commit mutation'') (\<lambda>_.
     and_then (required_string obj ''kind'') (\<lambda>tag.
       if tag \<noteq> ''commit'' then Err NotACommit
       else
     and_then (required_array obj ''items'') (\<lambda>items.
       if items = [] then Err EmptyItems
       else try_map (decode_session_mutation seq timestamp_ms) items))))"

definition decode_envelope ::
    "json_value \<Rightarrow> (decode_error, sequence \<times> u64 \<times> digest \<times> digest \<times> session_mutation list) result" where
  "decode_envelope value =
     and_then (read_object value) (\<lambda>obj.
     and_then (require_exact_fields obj [''seq'', ''timestamp_ms'', ''prev_digest'', ''mutation'', ''digest'']
         ''mutation envelope'') (\<lambda>_.
     and_then (required_u64 obj ''seq'') (\<lambda>seq.
     and_then (required_u64 obj ''timestamp_ms'') (\<lambda>timestamp_ms.
     and_then (required_digest obj ''prev_digest'') (\<lambda>prev_digest.
     and_then (required_digest obj ''digest'') (\<lambda>digest.
     and_then (required_value obj ''mutation'') (\<lambda>mutation.
     and_then (decode_commit_payload mutation seq timestamp_ms) (\<lambda>items.
       Ok (seq, timestamp_ms, prev_digest, digest, items)))))))))"

definition stored_of :: "sequence \<Rightarrow> u64 \<Rightarrow> digest \<Rightarrow> digest \<Rightarrow> session_mutation list \<Rightarrow> stored_commit" where
  "stored_of seq timestamp_ms prev_digest digest items =
     \<lparr>sc_seq = seq, sc_timestamp_ms = timestamp_ms, sc_prev_digest = prev_digest, sc_digest = digest,
      sc_items = map (\<lambda>m. \<lparr>sv_seq = seq, sv_timestamp_ms = timestamp_ms, sv_prev_digest = prev_digest,
        sv_digest = digest, sv_mutation = m\<rparr>) items\<rparr>"

text \<open>The error keeps the sequence once the envelope has been decoded.\<close>

definition decode_mutation ::
    "session_io \<Rightarrow> json_value \<Rightarrow> session_id \<Rightarrow> (sequence option \<times> format_problem, stored_commit) result" where
  "decode_mutation io value session_id =
     and_then (map_err (\<lambda>e. (None, Undecodable e)) (decode_envelope value))
       (\<lambda>(seq, timestamp_ms, prev_digest, digest, items).
     and_then (map_err (\<lambda>_. (None, DigestEncoding))
         (calculate_commit_digest io session_id seq timestamp_ms prev_digest items)) (\<lambda>calculated.
       if calculated \<noteq> digest then Err (Some seq, CommitDigestMismatch)
       else let stored = stored_of seq timestamp_ms prev_digest digest items in
         if encode_commit stored \<noteq> value then Err (Some seq, SchemaMismatch) else Ok stored))"

section \<open>Reading lines\<close>

definition MAX_SESSION_LINE_BYTES :: nat where
  "MAX_SESSION_LINE_BYTES = 2097152"

abbreviation newline :: char where
  "newline \<equiv> CHR 0x0A"

definition offset_add :: "nat \<Rightarrow> nat \<Rightarrow> nat" where
  "offset_add offset n = min (offset + n) (2 ^ 64 - 1)"

record complete_line =
  cl_line :: nat
  cl_offset :: nat
  cl_bytes :: string

datatype read_line = Complete complete_line | End | IncompleteTail nat

record line_reader =
  br_buffers :: "string list"
  br_next_line :: nat
  br_next_offset :: nat

definition new_reader :: "string list \<Rightarrow> line_reader" where
  "new_reader buffers = \<lparr>br_buffers = buffers, br_next_line = 1, br_next_offset = 0\<rparr>"

datatype scanned = ScanEnd | ScanTail | ScanLine string | ScanOversized

text \<open>\<open>iter().position\<close> of the newline, and the buffers left when part of the first is consumed.\<close>

fun newline_position :: "string \<Rightarrow> nat option" where
  "newline_position [] = None"
| "newline_position (b # bs) = (if b = newline then Some 0 else map_option Suc (newline_position bs))"

definition consume :: "nat \<Rightarrow> string \<Rightarrow> string list \<Rightarrow> string list" where
  "consume n buffer rest = (if drop n buffer = [] then rest else drop n buffer # rest)"

fun scan_line :: "string \<Rightarrow> bool \<Rightarrow> nat \<Rightarrow> string list \<Rightarrow> scanned \<times> nat \<times> string list" where
  "scan_line bytes oversized offset [] =
     (if bytes = [] \<and> \<not> oversized then ScanEnd else ScanTail, offset, [])"
| "scan_line bytes oversized offset (buffer # rest) =
     (let found = newline_position buffer;
          content_length = (case found of None \<Rightarrow> length buffer | Some p \<Rightarrow> p);
          oversized' = (oversized \<or> length bytes + content_length > MAX_SESSION_LINE_BYTES);
          bytes' = (if oversized then bytes else if oversized' then [] else bytes @ take content_length buffer);
          consumed = (case found of None \<Rightarrow> length buffer | Some p \<Rightarrow> p + 1);
          offset' = offset_add offset consumed
      in case found of
           None \<Rightarrow> scan_line bytes' oversized' offset' rest
         | Some _ \<Rightarrow> (if oversized' then ScanOversized else ScanLine bytes', offset',
                      consume consumed buffer rest))"

definition next_line :: "line_reader \<Rightarrow> (session_error, read_line) result \<times> line_reader" where
  "next_line r =
     (let line = br_next_line r; offset = br_next_offset r in
      case scan_line [] False offset (br_buffers r) of (found, offset', buffers) \<Rightarrow>
        let r' = r\<lparr>br_buffers := buffers, br_next_offset := offset'\<rparr> in
        (case found of
           ScanEnd \<Rightarrow> (Ok End, r')
         | ScanTail \<Rightarrow> (Ok (IncompleteTail offset), r')
         | ScanOversized \<Rightarrow> (Err (Format line offset None LineLimit), r'\<lparr>br_next_line := Suc line\<rparr>)
         | ScanLine bytes \<Rightarrow>
             (Ok (Complete \<lparr>cl_line = line, cl_offset = offset, cl_bytes = bytes\<rparr>),
              r'\<lparr>br_next_line := Suc line\<rparr>)))"

section \<open>Replaying a file\<close>

definition parse_canonical_line :: "session_io \<Rightarrow> complete_line \<Rightarrow> (session_error, json_value) result" where
  "parse_canonical_line io line =
     map_err (Format (cl_line line) (cl_offset line) None)
       (if \<not> is_utf8 (cl_bytes line) then Err NotUtf8
        else and_then (map_err Unparsable (parse_json (io_from_str io) (cl_bytes line))) (\<lambda>value.
          and_then (map_err Unencodable (io_json io value)) (\<lambda>canonical.
            if canonical \<noteq> cl_bytes line then Err NotCanonical else Ok value)))"

definition decode_commit_line ::
    "session_io \<Rightarrow> session_snapshot \<Rightarrow> complete_line \<Rightarrow> (session_error, stored_commit) result" where
  "decode_commit_line io snapshot line =
     (let fail = Format (cl_line line) (cl_offset line) in
      and_then (parse_canonical_line io line) (\<lambda>value.
      and_then (map_err (\<lambda>(seq, problem). fail seq problem)
          (decode_mutation io value (sh_session_id (ss_header snapshot)))) (\<lambda>commit.
        if sc_seq commit \<noteq> next_sequence snapshot
        then Err (fail (Some (sc_seq commit)) (NonConsecutive (sc_seq commit) (next_sequence snapshot)))
        else if sc_prev_digest commit \<noteq> ss_last_digest snapshot
        then Err (fail (Some (sc_seq commit)) PreviousDigestMismatch)
        else Ok commit)))"

lemma newline_position_length: "newline_position bs = Some p \<Longrightarrow> p < length bs"
  by (induction bs arbitrary: p) (auto split: if_splits)

lemma consume_length: "0 < n \<Longrightarrow> n \<le> length buffer \<Longrightarrow>
  length (concat (consume n buffer rest)) < length buffer + length (concat rest)"
  by (auto simp: consume_def)

lemma scan_line_shrinks:
  "scan_line bytes oversized offset buffers = (found, offset', buffers') \<Longrightarrow>
   found \<notin> {ScanEnd, ScanTail} \<Longrightarrow> length (concat buffers') < length (concat buffers)"
proof (induction bytes oversized offset buffers rule: scan_line.induct)
  case (2 bytes oversized offset buffer rest)
  show ?case
  proof (cases "newline_position buffer")
    case None
    with 2 show ?thesis by (fastforce simp: Let_def)
  next
    case (Some p)
    with 2(2) consume_length [of "Suc p" buffer rest] newline_position_length [OF Some]
    show ?thesis by (auto simp: Let_def)
  qed
qed (auto split: if_splits)

lemma next_line_shrinks:
  "next_line r = (Inr (Complete line), r') \<Longrightarrow> length (concat (br_buffers r')) < length (concat (br_buffers r))"
  by (auto simp: next_line_def Let_def split: prod.splits scanned.splits dest: scan_line_shrinks)

function decode_commits ::
    "session_io \<Rightarrow> line_reader \<Rightarrow> session_snapshot \<Rightarrow> session_append_index \<Rightarrow>
     (session_error, session_snapshot \<times> session_append_index \<times> nat option) result" where
  "decode_commits io r snapshot ix =
     (case next_line r of
        (Inl e, _) \<Rightarrow> Err e
      | (Inr End, _) \<Rightarrow> Ok (snapshot, ix, None)
      | (Inr (IncompleteTail offset), _) \<Rightarrow> Ok (snapshot, ix, Some offset)
      | (Inr (Complete line), r') \<Rightarrow>
          (case decode_commit_line io snapshot line of
             Inl e \<Rightarrow> Err e
           | Inr c \<Rightarrow>
               (case advance_all ix (sc_items c) of
                  None \<Rightarrow> Err IndexPanic
                | Some ix' \<Rightarrow> decode_commits io r' (push_commit snapshot c) ix')))"
  by pat_completeness auto

termination
  by (relation "measure (\<lambda>(io, r, _). length (concat (br_buffers r)))") (auto dest: next_line_shrinks [OF sym])

definition decode_snapshot_stream ::
    "session_io \<Rightarrow> string list \<Rightarrow>
     (session_error, session_snapshot \<times> session_append_index \<times> nat option) result" where
  "decode_snapshot_stream io buffers =
     (case next_line (new_reader buffers) of
        (Inl e, _) \<Rightarrow> Err e
      | (Inr (Complete header_line), r) \<Rightarrow>
          and_then (parse_canonical_line io header_line) (\<lambda>header_json.
          and_then (map_err (Format (cl_line header_line) (cl_offset header_line) None)
              (decode_header io header_json)) (\<lambda>header.
            decode_commits io r (empty_snapshot header) (empty_index header)))
      | (Inr _, _) \<Rightarrow> Err (Format 1 0 None NoHeaderLine))"

section \<open>The format boundary\<close>

definition read_first_complete_line :: "string \<Rightarrow> (session_error, string option) result" where
  "read_first_complete_line file =
     (case newline_position (take (Suc MAX_SESSION_LINE_BYTES) file) of
        None \<Rightarrow>
          if length file > MAX_SESSION_LINE_BYTES then Err (Format 1 0 None LineLimit) else Ok None
      | Some p \<Rightarrow>
          if is_utf8 (take p file) then Ok (Some (take p file)) else Err (Format 1 0 None NotUtf8))"

definition member_str :: "wire_fields \<Rightarrow> string \<Rightarrow> string option" where
  "member_str obj k = Option.bind (btree_get obj k) as_str"

definition unsupported_header :: "wire_fields \<Rightarrow> bool" where
  "unsupported_header obj \<longleftrightarrow>
     member_str obj ''kind'' \<noteq> Some SESSION_HEADER_KIND \<or>
     member_str obj ''format'' \<noteq> Some SESSION_FORMAT_IDENTITY \<or>
     (case Option.bind (btree_get obj ''version'') as_u64 of
        None \<Rightarrow> False | Some version \<Rightarrow> version \<noteq> ucast SESSION_FORMAT_VERSION)"

definition reject_unsupported_format :: "session_io \<Rightarrow> string \<Rightarrow> (session_error, unit) result" where
  "reject_unsupported_format io file =
     and_then (read_first_complete_line file) (\<lambda>header_line.
       (case header_line of
          None \<Rightarrow> Ok ()
        | Some line \<Rightarrow>
            (case parse_json (io_from_str io) line of
               Inr (JObject obj) \<Rightarrow>
                 if member_str obj ''kind'' = None then Ok ()
                 else if unsupported_header obj
                 then Err (UnsupportedFormat (Option.bind (btree_get obj ''version'') as_u64))
                 else Ok ()
             | _ \<Rightarrow> Ok ())))"

section \<open>Appending a line\<close>

datatype durability_mode = Strict | Development

text \<open>
  How the calls of one append end: \<open>write_all\<close> of the JSON text fails after some bytes, \<open>write_all\<close> of
  the newline, \<open>flush\<close> or \<open>sync_data\<close> fails, with the operating system's message; and how the
  replacement of \<open>HEAD\<close> ends: replaced, kept, or replaced but not synchronized.
\<close>

datatype head_outcome = HeadReplaced | HeadKept | HeadUnsynced

record disk =
  dk_json :: "nat option"
  dk_newline :: bool
  dk_flush :: bool
  dk_sync :: bool
  dk_message :: string
  dk_head :: head_outcome

definition ensure_complete_line_size :: "string \<Rightarrow> (session_error, unit) result" where
  "ensure_complete_line_size json =
     (if length json > MAX_SESSION_LINE_BYTES then Err (InvalidInput LineTooLong) else Ok ())"

definition write_complete_line ::
    "disk \<Rightarrow> durability_mode \<Rightarrow> string \<Rightarrow> string \<Rightarrow> (session_error, unit) result \<times> string" where
  "write_complete_line dk durability json file =
     (case ensure_complete_line_size json of
        Inl e \<Rightarrow> (Err e, file)
      | Inr _ \<Rightarrow>
          (case dk_json dk of
             Some n \<Rightarrow> (Err (IndeterminateWrite (dk_message dk)), file @ take n json)
           | None \<Rightarrow>
               if \<not> dk_newline dk then (Err (IndeterminateWrite (dk_message dk)), file @ json)
               else if \<not> dk_flush dk \<or> durability = Strict \<and> \<not> dk_sync dk
               then (Err (IndeterminateWrite (dk_message dk)), file @ json @ [newline])
               else (Ok (), file @ json @ [newline])))"

definition head_cache_contents :: "session_io \<Rightarrow> session_snapshot \<Rightarrow> (json_error, string) result" where
  "head_cache_contents io snapshot =
     io_json io (object
       [(''active_harness_revision'', optional_id (ss_main_harness_revision snapshot)),
        (''header_digest'', JString (to_hex (sh_digest (ss_header snapshot)))),
        (''session_id'', JString (sh_session_id (ss_header snapshot))),
        (''version'', JNumber (Unsigned 1))])"

text \<open>Whether the replacement is reported as failed, and the contents of \<open>HEAD\<close> after it.\<close>

definition write_head_cache ::
    "session_io \<Rightarrow> head_outcome \<Rightarrow> session_snapshot \<Rightarrow> durability_mode \<Rightarrow> string option \<Rightarrow>
     bool \<times> string option" where
  "write_head_cache io outcome snapshot durability head =
     (case head_cache_contents io snapshot of
        Inl _ \<Rightarrow> (True, head)
      | Inr contents \<Rightarrow>
          (case outcome of
             HeadReplaced \<Rightarrow> (False, Some (contents @ [newline]))
           | HeadKept \<Rightarrow> (True, head)
           | HeadUnsynced \<Rightarrow> (durability = Strict, Some (contents @ [newline]))))"

definition head_cache_matches :: "session_io \<Rightarrow> session_snapshot \<Rightarrow> string option \<Rightarrow> bool" where
  "head_cache_matches io snapshot head =
     (case (head, head_cache_contents io snapshot) of
        (Some contents, Inr expected) \<Rightarrow>
          length contents \<le> 16 * 1024 \<and> contents = expected @ [newline]
      | _ \<Rightarrow> False)"

definition selects_main_harness_revision :: "stored_mutation \<Rightarrow> bool" where
  "selects_main_harness_revision item =
     (case sv_mutation item of EntryM entry \<Rightarrow> selects_main_revision entry \<noteq> None | _ \<Rightarrow> False)"

section \<open>The session file\<close>

record jsonl_session =
  js_file :: string
  js_head :: "string option"
  js_snapshot :: session_snapshot
  js_append_index :: session_append_index
  js_durability :: durability_mode
  js_fault :: "string option"
  js_cache_warning :: bool

datatype creation_error = Refused session_error | HeadCacheFailed

definition jsonl_create ::
    "session_io \<Rightarrow> disk \<Rightarrow> durability_mode \<Rightarrow> session_header \<Rightarrow> (creation_error, jsonl_session) result" where
  "jsonl_create io dk durability header =
     (if sh_kind header \<noteq> SESSION_HEADER_KIND \<or> sh_format header \<noteq> SESSION_FORMAT_IDENTITY \<or>
         sh_version header \<noteq> SESSION_FORMAT_VERSION
      then Err (Refused (InvalidInput NotV1Header))
      else and_then (map_err Refused (seal_header io header)) (\<lambda>sealed.
        (case io_json io (encode_header sealed) of
           Inl _ \<Rightarrow> Err (Refused (InvalidInput HeaderEncoding))
         | Inr encoded \<Rightarrow>
             (case write_complete_line dk durability encoded [] of
                (Inl e, _) \<Rightarrow> Err (Refused e)
              | (Inr _, file) \<Rightarrow>
                  (case write_head_cache io (dk_head dk) (empty_snapshot sealed) durability None of
                     (True, _) \<Rightarrow> Err HeadCacheFailed
                   | (False, head) \<Rightarrow>
                       Ok \<lparr>js_file = file, js_head = head, js_snapshot = empty_snapshot sealed,
                           js_append_index = empty_index sealed, js_durability = durability,
                           js_fault = None, js_cache_warning = False\<rparr>)))))"

definition writable :: "jsonl_session \<Rightarrow> (session_error, unit) result" where
  "writable s = (case js_fault s of Some message \<Rightarrow> Err (FaultedError message) | None \<Rightarrow> Ok ())"

text \<open>What \<open>write_commit\<close> does before the file is touched: the stored commit and its line.\<close>

definition prepare_line ::
    "session_io \<Rightarrow> u64 \<Rightarrow> session_commit \<Rightarrow> jsonl_session \<Rightarrow> (session_error, stored_commit \<times> string) result" where
  "prepare_line io now_ms c s =
     and_then (writable s) (\<lambda>_.
     and_then (prepare_commit io (js_snapshot s) (js_append_index s) c now_ms) (\<lambda>stored.
     and_then (validate_prepared_commit io (js_snapshot s) (js_append_index s) stored) (\<lambda>_.
     and_then (map_err (\<lambda>_. InvalidInput CommitJson) (io_json io (encode_commit stored))) (\<lambda>encoded.
     and_then (ensure_complete_line_size encoded) (\<lambda>_. Ok (stored, encoded))))))"

definition write_commit ::
    "session_io \<Rightarrow> disk \<Rightarrow> u64 \<Rightarrow> session_commit \<Rightarrow> jsonl_session \<Rightarrow>
     (session_error, stored_commit) result \<times> jsonl_session" where
  "write_commit io dk now_ms c s =
     (case prepare_line io now_ms c s of
        Inl e \<Rightarrow> (Err e, s)
      | Inr (stored, encoded) \<Rightarrow>
          (case write_complete_line dk (js_durability s) encoded (js_file s) of
             (Inl (IndeterminateWrite message), file) \<Rightarrow>
               (Err (IndeterminateWrite message), s\<lparr>js_file := file, js_fault := Some message\<rparr>)
           | (Inl e, file) \<Rightarrow> (Err e, s\<lparr>js_file := file\<rparr>)
           | (Inr _, file) \<Rightarrow>
               (case advance_all (js_append_index s) (sc_items stored) of
                  None \<Rightarrow> (Err IndexPanic, s\<lparr>js_file := file\<rparr>)
                | Some ix \<Rightarrow>
                    let s' = s\<lparr>js_file := file, js_append_index := ix,
                               js_snapshot := push_commit (js_snapshot s) stored\<rparr>
                    in (Ok stored,
                        if list_ex selects_main_harness_revision (sc_items stored)
                        then (case write_head_cache io (dk_head dk) (js_snapshot s') (js_durability s) (js_head s) of
                                (warning, head) \<Rightarrow> s'\<lparr>js_cache_warning := warning, js_head := head\<rparr>)
                        else s'))))"

text \<open>
  \<open>open\<close>, \<open>inspect\<close> and \<open>repair_torn_tail\<close> of a directory whose file is read in the pieces \<open>buffers\<close>;
  \<open>busy\<close> says whether another writer holds the lock.
\<close>

definition replay_file ::
    "session_io \<Rightarrow> string list \<Rightarrow>
     (session_error, session_snapshot \<times> session_append_index \<times> nat option) result" where
  "replay_file io buffers =
     and_then (reject_unsupported_format io (concat buffers)) (\<lambda>_. decode_snapshot_stream io buffers)"

definition jsonl_open ::
    "session_io \<Rightarrow> head_outcome \<Rightarrow> durability_mode \<Rightarrow> bool \<Rightarrow> string list \<Rightarrow> string option \<Rightarrow>
     (session_error, jsonl_session) result" where
  "jsonl_open io outcome durability busy buffers head =
     (if busy then Err WriterBusy
      else and_then (replay_file io buffers) (\<lambda>(snapshot, ix, tail).
        (case tail of
           Some offset \<Rightarrow> Err (RecoveryRequired offset)
         | None \<Rightarrow>
             and_then (validate_snapshot io snapshot) (\<lambda>_.
               let (warning, head') =
                 (if head_cache_matches io snapshot head then (False, head)
                  else write_head_cache io outcome snapshot durability head)
               in Ok \<lparr>js_file = concat buffers, js_head = head', js_snapshot = snapshot,
                      js_append_index = ix, js_durability = durability, js_fault = None,
                      js_cache_warning = warning\<rparr>))))"

definition jsonl_inspect ::
    "session_io \<Rightarrow> string list \<Rightarrow> (session_error, session_snapshot \<times> nat option) result" where
  "jsonl_inspect io buffers =
     and_then (replay_file io buffers) (\<lambda>(snapshot, _, torn_tail_offset).
     and_then (validate_snapshot io snapshot) (\<lambda>_. Ok (snapshot, torn_tail_offset)))"

text \<open>How cutting the file ends: done, refused, or done but not synchronized.\<close>

datatype cut_outcome = CutDone | CutRefused string | CutUnsynced string

definition truncate_tail ::
    "cut_outcome \<Rightarrow> durability_mode \<Rightarrow> nat option \<Rightarrow> string \<Rightarrow> (session_error, unit) result \<times> string" where
  "truncate_tail cutting durability torn_tail_offset bytes =
     (case torn_tail_offset of
        None \<Rightarrow> (Ok (), bytes)
      | Some offset \<Rightarrow>
          (case cutting of
             CutRefused message \<Rightarrow> (Err (IoError message), bytes)
           | CutUnsynced message \<Rightarrow>
               (if durability = Strict then Err (IoError message) else Ok (), take offset bytes)
           | CutDone \<Rightarrow> (Ok (), take offset bytes)))"

text \<open>
  The contents of \<open>HEAD\<close>, the offset the file was cut at and whether refreshing \<open>HEAD\<close> failed; and the
  file after the repair.
\<close>

definition repair_torn_tail ::
    "session_io \<Rightarrow> cut_outcome \<Rightarrow> head_outcome \<Rightarrow> durability_mode \<Rightarrow> bool \<Rightarrow> string list \<Rightarrow> string option \<Rightarrow>
     (session_error, string option \<times> nat option \<times> bool) result \<times> string" where
  "repair_torn_tail io cutting outcome durability busy buffers head =
     (if busy then (Err WriterBusy, concat buffers)
      else (case and_then (replay_file io buffers) (\<lambda>(snapshot, _, torn_tail_offset).
                   and_then (validate_snapshot io snapshot) (\<lambda>_. Ok (snapshot, torn_tail_offset))) of
              Inl e \<Rightarrow> (Err e, concat buffers)
            | Inr (snapshot, torn_tail_offset) \<Rightarrow>
                (case truncate_tail cutting durability torn_tail_offset (concat buffers) of
                   (Inl e, bytes) \<Rightarrow> (Err e, bytes)
                 | (Inr _, bytes) \<Rightarrow>
                     let (warning, head') = write_head_cache io outcome snapshot durability head
                     in (Ok (head', torn_tail_offset, warning), bytes))))"

end
