(* ===== verification/File_Replay.thy ===== *)
theory File_Replay
  imports Session_File Store_Invariants
begin

text \<open>
  What replaying a session file gives. A header or commit line decodes to what was encoded; the
  reader finds the same lines however the file is cut into buffers; and a file that consists of the
  lines of a chain of commits, with or without an unterminated tail, replays to the snapshot and the
  index those commits build.
\<close>

section \<open>Exact fields\<close>

lemma fst_set_btree_of: "fst ` set (btree_of kvs) = fst ` set kvs"
  for kvs :: "('k::linorder \<times> 'v) list"
proof -
  have "fst ` set (fold (\<lambda>(k, v). btree_insert k v) kvs m) = fst ` set m \<union> fst ` set kvs"
    for m :: "('k, 'v) btree"
  proof (induction kvs arbitrary: m)
    case (Cons kv kvs)
    then show ?case by (cases kv) (simp add: fst_set_btree_insert)
  qed simp
  then show ?thesis by (simp add: btree_of_def)
qed

lemma require_exact_object:
  assumes "distinct (map fst kvs)" and "expected = map fst kvs"
  shows "require_exact_fields (btree_of kvs) expected context = Inr ()"
proof -
  have "length (btree_of kvs) = card (fst ` set (btree_of kvs))"
    using distinct_card [OF btree_ok_distinct [OF btree_ok_of]] by (metis length_map set_map)
  also have "\<dots> = length kvs"
    unfolding fst_set_btree_of using distinct_card [OF assms(1)] by simp
  finally have "length (btree_of kvs) = length expected" by (simp add: assms(2))
  moreover have "btree_contains (btree_of kvs) k" if "k \<in> set expected" for k
    using that assms(2) fst_set_btree_of [of kvs] by (simp add: btree_contains_def map_of_eq_None_iff)
  ultimately show ?thesis by (auto simp: require_exact_fields_def list_ex_iff)
qed

lemma btree_insert_of: "btree_insert k v (btree_of kvs) = btree_of (kvs @ [(k, v)])"
  by (simp add: btree_of_def)

section \<open>Lines decode to what was encoded\<close>

definition header_ok :: "session_header \<Rightarrow> bool" where
  "header_ok h \<longleftrightarrow> sh_kind h = SESSION_HEADER_KIND \<and> sh_format h = SESSION_FORMAT_IDENTITY \<and>
     sh_version h = SESSION_FORMAT_VERSION \<and> id_ok (sh_session_id h) \<and> id_ok (sh_initial_lane h) \<and>
     digest_ok (sh_digest h)"

lemma encode_header_object:
  "encode_header h = object
     [(''kind'', JString SESSION_HEADER_KIND), (''format'', JString SESSION_FORMAT_IDENTITY),
       (''version'', u64_value (ucast (sh_version h))), (''session_id'', JString (sh_session_id h)),
       (''created_at_ms'', u64_value (sh_created_at_ms h)), (''workspace'', JString (sh_workspace h)),
       (''metadata'', JObject (sh_metadata h)), (''initial_lane'', JString (sh_initial_lane h)),
       (''digest'', digest_value (sh_digest h))]"
  by (simp add: encode_header_def encode_unsigned_header_def object_def btree_insert_of u64_value_def)

lemma decode_header_fields_encode:
  assumes "header_ok h"
  shows "decode_header_fields (encode_header h) = Inr h"
proof -
  have v: "(ucast SESSION_FORMAT_VERSION :: u64) = ucast (sh_version h)"
    using assms by (simp add: header_ok_def)
  show ?thesis
    using assms
    by (simp add: encode_header_object decode_header_fields_def wire_simps require_exact_object header_ok_def)
qed

lemma calculate_header_digest_fields:
  "calculate_header_digest io (h\<lparr>sh_digest := d\<rparr>) = calculate_header_digest io h"
  by (simp add: calculate_header_digest_def encode_unsigned_header_def)

lemma decode_header_encode:
  assumes "header_ok h" and "calculate_header_digest io h = Inr (sh_digest h)"
  shows "decode_header io (encode_header h) = Inr h"
  using assms by (simp add: decode_header_def decode_header_fields_encode)

definition stored_ok :: "stored_commit \<Rightarrow> bool" where
  "stored_ok c \<longleftrightarrow> sealed c \<and> digest_ok (sc_prev_digest c) \<and> digest_ok (sc_digest c) \<and>
     list_all (\<lambda>x. mutation_ok (sc_seq c) (sc_timestamp_ms c) (sv_mutation x)) (sc_items c)"

lemma stored_of_sealed:
  "sealed c \<Longrightarrow> stored_of (sc_seq c) (sc_timestamp_ms c) (sc_prev_digest c) (sc_digest c)
     (map sv_mutation (sc_items c)) = c"
  unfolding sealed_def stored_of_def by (cases c) (auto intro!: map_idI)

lemma decode_commit_payload_encode:
  assumes "list_all (mutation_ok n t) ms" and "ms \<noteq> []"
  shows "decode_commit_payload (encode_commit_payload ms) n t = Inr ms"
  using assms
  by (simp add: encode_commit_payload_def decode_commit_payload_def wire_simps require_exact_object
      session_mutation.decode_list)

lemma decode_mutation_encode:
  assumes "stored_ok c"
    and "calculate_commit_digest io i (sc_seq c) (sc_timestamp_ms c) (sc_prev_digest c)
      (map sv_mutation (sc_items c)) = Inr (sc_digest c)"
  shows "decode_mutation io (encode_commit c) i = Inr c"
proof -
  have "list_all (mutation_ok (sc_seq c) (sc_timestamp_ms c)) (map sv_mutation (sc_items c))"
    and items: "map sv_mutation (sc_items c) \<noteq> []" and sealed: "sealed c"
    using assms(1) by (auto simp: stored_ok_def sealed_def list.pred_map comp_def)
  from decode_commit_payload_encode [OF this(1,2)]
  have "decode_envelope (encode_commit c) =
      Inr (sc_seq c, sc_timestamp_ms c, sc_prev_digest c, sc_digest c, map sv_mutation (sc_items c))"
    using assms(1)
    by (simp add: encode_commit_def decode_envelope_def wire_simps require_exact_object stored_ok_def)
  with assms(2) show ?thesis by (simp add: decode_mutation_def stored_of_sealed [OF sealed])
qed

section \<open>Lines of a file\<close>

lemma newline_position_None: "newline_position bs = None \<longleftrightarrow> newline \<notin> set bs"
  by (induction bs) auto

lemma newline_position_append:
  "newline \<notin> set content \<Longrightarrow> newline_position (content @ newline # rest) = Some (length content)"
  by (induction content) auto

lemma newline_position_Some:
  "newline_position bs = Some p \<Longrightarrow> bs = take p bs @ newline # drop (Suc p) bs \<and> newline \<notin> set (take p bs)"
  by (induction bs arbitrary: p) (auto split: if_splits)

lemma newline_split_unique:
  assumes "xs @ newline # ys = content @ newline # rest" and "newline \<notin> set xs" and "newline \<notin> set content"
  shows "xs = content \<and> ys = rest"
proof -
  have "length xs = length content"
    using newline_position_append [OF assms(2), of ys] newline_position_append [OF assms(3), of rest] assms(1)
    by simp
  with assms(1) show ?thesis by simp
qed

lemma offset_add_assoc: "offset_add (offset_add k m) n = offset_add k (m + n)"
  by (simp add: offset_add_def)

lemma offset_add_less: "offset_add k n < 2 ^ 64"
  by (simp add: offset_add_def min_less_iff_disj)

definition pieces :: "string list \<Rightarrow> bool" where
  "pieces bufs \<longleftrightarrow> [] \<notin> set bufs"

lemma pieces_consume: "pieces (buffer # rest) \<Longrightarrow> pieces (consume n buffer rest)"
  by (auto simp: pieces_def consume_def)

lemma concat_consume: "concat (consume n buffer rest) = drop n buffer @ concat rest"
  by (simp add: consume_def)

text \<open>The three ways a scan can end, in terms of the bytes that are left.\<close>

lemma scan_line_newline:
  assumes "concat bufs = content @ newline # rest" and "newline \<notin> set content" and "pieces bufs"
    and "oversized \<longrightarrow> bytes = []" and "length bytes \<le> MAX_SESSION_LINE_BYTES"
  shows "\<exists>bufs'. scan_line bytes oversized k bufs =
      (if oversized \<or> length bytes + length content > MAX_SESSION_LINE_BYTES then ScanOversized
       else ScanLine (bytes @ content), offset_add k (Suc (length content)), bufs') \<and>
    concat bufs' = rest \<and> pieces bufs'"
  using assms
proof (induction bufs arbitrary: bytes oversized k content)
  case (Cons b bs)
  show ?case
  proof (cases "newline_position b")
    case None
    then have no: "newline \<notin> set b" by (simp add: newline_position_None)
    from Cons.prems(1) have eq: "b @ concat bs = content @ newline # rest" by simp
    then have "length b \<le> length content"
    proof (rule contrapos_pp)
      assume "\<not> length b \<le> length content"
      then have "(b @ concat bs) ! length content = b ! length content" and "length content < length b"
        by (simp_all add: nth_append)
      with no show "b @ concat bs \<noteq> content @ newline # rest"
        by (metis nth_append_length nth_mem)
    qed
    with eq obtain content' where content: "content = b @ content'" and tail: "concat bs = content' @ newline # rest"
      by (auto simp: append_eq_append_conv2)
    define over where "over \<longleftrightarrow> oversized \<or> length bytes + length b > MAX_SESSION_LINE_BYTES"
    define kept where "kept = (if oversized then bytes else if over then [] else bytes @ b)"
    have step: "scan_line bytes oversized k (b # bs) = scan_line kept over (offset_add k (length b)) bs"
      using None by (simp add: Let_def over_def kept_def)
    have kept: "over \<longrightarrow> kept = []" "length kept \<le> MAX_SESSION_LINE_BYTES" "\<not> over \<longrightarrow> kept = bytes @ b"
      using Cons.prems(4,5) by (auto simp: over_def kept_def)
    have "newline \<notin> set content'" and "pieces bs" using Cons.prems(2,3) content by (auto simp: pieces_def)
    note rest = Cons.IH [OF tail this kept(1,2), of "offset_add k (length b)"]
    have found: "(if over \<or> length kept + length content' > MAX_SESSION_LINE_BYTES then ScanOversized
          else ScanLine (kept @ content')) =
        (if oversized \<or> length bytes + length content > MAX_SESSION_LINE_BYTES then ScanOversized
         else ScanLine (bytes @ content))"
      using kept(1,3) by (auto simp: content over_def)
    from rest show ?thesis unfolding step found by (simp add: content offset_add_assoc)
  next
    case (Some p)
    note first = newline_position_Some [OF Some]
    then have "take p b @ newline # (drop (Suc p) b @ concat bs) = b @ concat bs"
      by (metis append.assoc append_Cons)
    with Cons.prems(1) have "take p b @ newline # (drop (Suc p) b @ concat bs) = content @ newline # rest"
      by simp
    from newline_split_unique [OF this] first Cons.prems(2)
    have content: "take p b = content" and rest: "drop (Suc p) b @ concat bs = rest" by auto
    have "length content = p" using content newline_position_length [OF Some] by auto
    with Some content rest Cons.prems(3,4) pieces_consume show ?thesis
      by (auto simp: Let_def concat_consume)
  qed
qed simp

lemma scan_line_tail:
  assumes "newline \<notin> set (concat bufs)" and "pieces bufs" and "oversized \<longrightarrow> bytes = []"
  shows "fst (scan_line bytes oversized k bufs) =
    (if bytes = [] \<and> \<not> oversized \<and> concat bufs = [] then ScanEnd else ScanTail)"
  using assms
proof (induction bufs arbitrary: bytes oversized k)
  case (Cons b bs)
  then have "newline_position b = None" and "b \<noteq> []"
    by (auto simp: newline_position_None pieces_def)
  with Cons show ?case by (auto simp: Let_def pieces_def)
qed simp

definition at_file :: "line_reader \<Rightarrow> string \<Rightarrow> bool" where
  "at_file r file \<longleftrightarrow> concat (br_buffers r) = file \<and> pieces (br_buffers r)"

lemma next_line_complete:
  assumes "at_file r (content @ newline # rest)" and "newline \<notin> set content"
  shows "\<exists>r'. next_line r =
      (if length content > MAX_SESSION_LINE_BYTES
       then Inl (Format (br_next_line r) (br_next_offset r) None LineLimit)
       else Inr (Complete \<lparr>cl_line = br_next_line r, cl_offset = br_next_offset r, cl_bytes = content\<rparr>), r') \<and>
    at_file r' rest \<and> br_next_line r' = Suc (br_next_line r) \<and>
    br_next_offset r' = offset_add (br_next_offset r) (Suc (length content))"
proof -
  from assms have "concat (br_buffers r) = content @ newline # rest" "pieces (br_buffers r)"
    by (simp_all add: at_file_def)
  from scan_line_newline [OF this(1) assms(2) this(2), of False "[]" "br_next_offset r"]
  obtain bufs' where "scan_line [] False (br_next_offset r) (br_buffers r) =
      (if length content > MAX_SESSION_LINE_BYTES then ScanOversized else ScanLine content,
       offset_add (br_next_offset r) (Suc (length content)), bufs')" "concat bufs' = rest" "pieces bufs'"
    by auto
  then show ?thesis by (auto simp: next_line_def at_file_def Let_def)
qed

lemma next_line_tail:
  assumes "at_file r tail" and "newline \<notin> set tail"
  shows "fst (next_line r) = Inr (if tail = [] then End else IncompleteTail (br_next_offset r))"
proof -
  obtain found k bufs where scan: "scan_line [] False (br_next_offset r) (br_buffers r) = (found, k, bufs)"
    by (metis prod_cases3)
  have "concat (br_buffers r) = tail" "pieces (br_buffers r)" using assms(1) by (simp_all add: at_file_def)
  with scan_line_tail [of "br_buffers r" False "[]" "br_next_offset r"] assms(2) scan
  have "found = (if tail = [] then ScanEnd else ScanTail)" by (simp del: concat_eq_Nil_conv Nil_eq_concat_conv set_concat)
  with scan show ?thesis by (auto simp: next_line_def Let_def)
qed

lemma line_cases:
  obtains (line) content rest where "file = content @ newline # rest" "newline \<notin> set content"
  | (tail) "newline \<notin> set file"
  by (metis newline_position_None newline_position_Some not_None_eq)

section \<open>How the file is cut into buffers does not matter\<close>

definition same_place :: "line_reader \<Rightarrow> line_reader \<Rightarrow> bool" where
  "same_place r r' \<longleftrightarrow> (\<exists>file. at_file r file \<and> at_file r' file) \<and>
     br_next_line r = br_next_line r' \<and> br_next_offset r = br_next_offset r'"

lemma next_line_same:
  assumes "same_place r q"
  shows "fst (next_line r) = fst (next_line q) \<and>
    (\<forall>line. fst (next_line r) = Inr (Complete line) \<longrightarrow> same_place (snd (next_line r)) (snd (next_line q)))"
proof -
  from assms obtain bs where at: "at_file r bs" "at_file q bs" by (auto simp: same_place_def)
  have place: "br_next_line r = br_next_line q" "br_next_offset r = br_next_offset q"
    using assms by (auto simp: same_place_def)
  show ?thesis
  proof (cases rule: line_cases [of bs])
    case (line content rest)
    from next_line_complete [of r content rest] next_line_complete [of q content rest] at line place
    show ?thesis by (fastforce simp: same_place_def)
  next
    case tail
    from next_line_tail [OF at(1) tail] next_line_tail [OF at(2) tail] place show ?thesis by auto
  qed
qed

lemma decode_commits_same:
  "same_place r q \<Longrightarrow> decode_commits io r s ix = decode_commits io q s ix"
proof (induction io r s ix arbitrary: q rule: decode_commits.induct)
  case (1 io r s ix)
  obtain x r' where r: "next_line r = (x, r')" by fastforce
  obtain y q' where q: "next_line q = (y, q')" by fastforce
  from next_line_same [OF "1.prems"] r q have same: "y = x"
    and on: "\<And>line. x = Inr (Complete line) \<Longrightarrow> same_place r' q'" by auto
  show ?case
  proof (cases x)
    case (Inr l)
    show ?thesis
    proof (cases l)
      case (Complete line)
      have "decode_commits io r' (push_commit s c) ix' = decode_commits io q' (push_commit s c) ix'"
        if "decode_commit_line io s line = Inr c" and "advance_all ix (sc_items c) = Some ix'" for c ix'
        using "1.IH" [OF r [symmetric] Inr Complete that(1) that(2)] on Inr Complete by blast
      with r q same Inr Complete show ?thesis
        by (subst (1 2) decode_commits.simps) (simp split: sum.splits option.splits)
    qed (use r q same Inr in \<open>subst (1 2) decode_commits.simps, simp\<close>)+
  qed (use r q same in \<open>subst (1 2) decode_commits.simps, simp\<close>)
qed

lemma decode_snapshot_stream_same:
  assumes "pieces bufs" and "pieces bufs'" and "concat bufs = concat bufs'"
  shows "decode_snapshot_stream io bufs = decode_snapshot_stream io bufs'"
proof -
  have same: "same_place (new_reader bufs) (new_reader bufs')"
    using assms by (simp add: same_place_def new_reader_def at_file_def)
  obtain x r' where r: "next_line (new_reader bufs) = (x, r')" by fastforce
  obtain y q' where q: "next_line (new_reader bufs') = (y, q')" by fastforce
  from next_line_same [OF same] r q have y: "y = x"
    and on: "\<And>line. x = Inr (Complete line) \<Longrightarrow> same_place r' q'" by auto
  show ?thesis
  proof (cases x)
    case (Inr l)
    show ?thesis
    proof (cases l)
      case (Complete line)
      with r q y Inr decode_commits_same [OF on] show ?thesis
        by (simp add: decode_snapshot_stream_def)
    qed (use r q y Inr in \<open>simp_all add: decode_snapshot_stream_def\<close>)
  qed (use r q y in \<open>simp add: decode_snapshot_stream_def\<close>)
qed

section \<open>Replaying the lines of a chain of commits\<close>

text \<open>
  What a line relies on of the JSON package: the printed value is UTF-8 text without a line break
  that fits into a line and that the parser reads back.
\<close>

definition readable :: "session_io \<Rightarrow> json_value \<Rightarrow> string \<Rightarrow> bool" where
  "readable io v str \<longleftrightarrow> io_json io v = Inr str \<and> io_from_str io str = Some v \<and> is_utf8 str \<and>
     newline \<notin> set str \<and> length str \<le> MAX_SESSION_LINE_BYTES"

lemma readable_parse: "readable io v str \<Longrightarrow> parse_json (io_from_str io) str = Inr v"
  by (auto simp: readable_def parse_json_def to_json_string_def split: if_splits)

lemma parse_canonical_line_readable:
  "readable io v (cl_bytes line) \<Longrightarrow> parse_canonical_line io line = Inr v"
  using readable_parse [of io v "cl_bytes line"] by (auto simp: parse_canonical_line_def readable_def)

fun append_commits ::
    "session_io \<Rightarrow> session_snapshot \<Rightarrow> session_append_index \<Rightarrow> stored_commit list \<Rightarrow>
     (session_snapshot \<times> session_append_index) option" where
  "append_commits io s ix [] = Some (s, ix)"
| "append_commits io s ix (c # cs) =
     (if sc_seq c = next_sequence s \<and> sc_prev_digest c = ss_last_digest s \<and>
         calculate_commit_digest io (sh_session_id (ss_header s)) (sc_seq c) (sc_timestamp_ms c)
           (sc_prev_digest c) (map sv_mutation (sc_items c)) = Inr (sc_digest c)
      then Option.bind (advance_all ix (sc_items c)) (\<lambda>ix'. append_commits io (push_commit s c) ix' cs)
      else None)"

lemma append_commits_append:
  "append_commits io s ix (cs @ ds) =
     Option.bind (append_commits io s ix cs) (\<lambda>(s', ix'). append_commits io s' ix' ds)"
  by (induction cs arbitrary: s ix) (auto simp: Option.bind_assoc)

definition lines_of :: "string list \<Rightarrow> string" where
  "lines_of txts = concat (map (\<lambda>t. t @ [newline]) txts)"

definition commit_text :: "session_io \<Rightarrow> stored_commit \<Rightarrow> string \<Rightarrow> bool" where
  "commit_text io c str \<longleftrightarrow> stored_ok c \<and> readable io (encode_commit c) str"

lemma decode_commit_line_text:
  assumes "commit_text io c (cl_bytes line)" and "append_commits io s ix [c] \<noteq> None"
  shows "decode_commit_line io s line = Inr c"
  using assms
  by (auto simp: decode_commit_line_def commit_text_def Let_def parse_canonical_line_readable
      decode_mutation_encode split: if_splits)

lemma decode_commits_prefix:
  assumes "list_all2 (commit_text io) cs texts" and "append_commits io s ix cs = Some (s', ix')"
    and "at_file r (lines_of texts @ rest)" and "br_next_offset r < 2 ^ 64"
  shows "\<exists>r'. decode_commits io r s ix = decode_commits io r' s' ix' \<and> at_file r' rest \<and>
    br_next_line r' = br_next_line r + length cs \<and>
    br_next_offset r' = offset_add (br_next_offset r) (length (lines_of texts))"
  using assms
proof (induction cs arbitrary: texts s ix r)
  case Nil
  then have "br_next_offset r = offset_add (br_next_offset r) 0" by (simp add: offset_add_def)
  with Nil show ?case by (auto simp: lines_of_def)
next
  case (Cons c cs)
  then obtain str more where texts: "texts = str # more" "commit_text io c str" "list_all2 (commit_text io) cs more"
    by (auto simp: list_all2_Cons1)
  have short: "newline \<notin> set str" "length str \<le> MAX_SESSION_LINE_BYTES"
    using texts(2) by (auto simp: commit_text_def readable_def)
  from Cons.prems(2) obtain ix1 where ix1: "advance_all ix (sc_items c) = Some ix1"
    and chain: "append_commits io (push_commit s c) ix1 cs = Some (s', ix')"
    by (auto split: if_splits bind_splits)
  have "at_file r (str @ newline # (lines_of more @ rest))"
    using Cons.prems(3) by (simp add: texts lines_of_def)
  from next_line_complete [OF this short(1)] short(2) obtain r1 where
    read: "next_line r = (Inr (Complete \<lparr>cl_line = br_next_line r, cl_offset = br_next_offset r, cl_bytes = str\<rparr>), r1)"
    and r1: "at_file r1 (lines_of more @ rest)" "br_next_line r1 = Suc (br_next_line r)"
      "br_next_offset r1 = offset_add (br_next_offset r) (Suc (length str))"
    by auto
  have "append_commits io s ix [c] \<noteq> None" using Cons.prems(2) ix1 by (auto split: if_splits)
  with texts(2) have "decode_commit_line io s \<lparr>cl_line = br_next_line r, cl_offset = br_next_offset r, cl_bytes = str\<rparr> = Inr c"
    by (intro decode_commit_line_text) simp_all
  with read ix1 have "decode_commits io r s ix = decode_commits io r1 (push_commit s c) ix1"
    by (subst decode_commits.simps) simp
  with Cons.IH [OF texts(3) chain r1(1)] r1(2,3) offset_add_less show ?case
    by (fastforce simp: texts lines_of_def offset_add_assoc)
qed

lemma decode_commits_tail:
  assumes "at_file r tail" and "newline \<notin> set tail"
  shows "decode_commits io r s ix = Inr (s, ix, if tail = [] then None else Some (br_next_offset r))"
proof -
  obtain x r' where "next_line r = (x, r')" by fastforce
  with next_line_tail [OF assms] show ?thesis by (subst decode_commits.simps) auto
qed

end
