(* ===== verification/File_Writer.thy ===== *)
theory File_Writer
  imports File_Replay
begin

text \<open>
  The file writer against the in-memory one. Forgetting the file, a commit to a \<open>JsonlSession\<close> is a
  commit to the \<open>MemorySession\<close> with the same snapshot and index; and the file is always the lines
  of the commits that succeeded, so that replaying it gives the session back.
\<close>

definition as_memory :: "jsonl_session \<Rightarrow> memory_session" where
  "as_memory s = \<lparr>ms_snapshot = js_snapshot s, ms_append_index = js_append_index s, ms_fault = js_fault s\<rparr>"

lemma prepare_line_ok:
  "prepare_line io t c s = Inr (stored, str) \<longleftrightarrow>
     js_fault s = None \<and> prepare_commit io (js_snapshot s) (js_append_index s) c t = Inr stored \<and>
     validate_prepared_commit io (js_snapshot s) (js_append_index s) stored = Inr () \<and>
     io_json io (encode_commit stored) = Inr str \<and> length str \<le> MAX_SESSION_LINE_BYTES"
  by (auto simp: prepare_line_def writable_def ensure_complete_line_size_def result_simps split: option.splits if_splits)

lemma write_complete_line_ok:
  "write_complete_line dk d str file = (Inr u, file') \<Longrightarrow> file' = file @ str @ [newline]"
  by (auto simp: write_complete_line_def split: sum.splits option.splits if_splits)

lemma write_complete_line_err:
  assumes "write_complete_line dk d str file = (Inl e, file')" and "length str \<le> MAX_SESSION_LINE_BYTES"
  shows "e = IndeterminateWrite (dk_message dk) \<and> (\<exists>n. file' = file @ take n (str @ [newline]))"
proof (cases "dk_json dk")
  case (Some n)
  with assms have "e = IndeterminateWrite (dk_message dk)" "file' = file @ take (min n (length str)) (str @ [newline])"
    by (auto simp: write_complete_line_def ensure_complete_line_size_def min_def)
  then show ?thesis by blast
next
  case None
  with assms have "e = IndeterminateWrite (dk_message dk)"
    and "file' = file @ take (if dk_newline dk then Suc (length str) else length str) (str @ [newline])"
    by (simp_all add: write_complete_line_def ensure_complete_line_size_def split: if_splits)
  then show ?thesis by blast
qed

text \<open>Every outcome of a commit to the file.\<close>

lemma write_commit_cases:
  assumes "session_valid io (as_memory s)" and "write_commit io dk t c s = (r, s')"
  obtains (refused) e where "r = Inl e" "prepare_line io t c s = Inl e" "s' = s"
  | (torn) stored str n where "r = Inl (IndeterminateWrite (dk_message dk))"
      "prepare_line io t c s = Inr (stored, str)"
      "s' = s\<lparr>js_file := js_file s @ take n (str @ [newline]), js_fault := Some (dk_message dk)\<rparr>"
  | (written) stored str where "r = Inr stored" "prepare_line io t c s = Inr (stored, str)"
      "js_file s' = js_file s @ str @ [newline]"
      "commit io t c (as_memory s) = (Inr stored, as_memory s')"
proof (cases "prepare_line io t c s")
  case (Inl e)
  with assms(2) have "r = Inl e" "s' = s" by (simp_all add: write_commit_def)
  with Inl refused show thesis by blast
next
  case (Inr p)
  then obtain stored str where p: "prepare_line io t c s = Inr (stored, str)" by (cases p) auto
  note prepared = p [unfolded prepare_line_ok]
  obtain q bs where w: "write_complete_line dk (js_durability s) str (js_file s) = (q, bs)" by fastforce
  show thesis
  proof (cases q)
    case (Inl e)
    with write_complete_line_err w prepared obtain n where
      "e = IndeterminateWrite (dk_message dk)" "bs = js_file s @ take n (str @ [newline])" by blast
    with w Inl p assms(2) have "r = Inl (IndeterminateWrite (dk_message dk))"
      "s' = s\<lparr>js_file := js_file s @ take n (str @ [newline]), js_fault := Some (dk_message dk)\<rparr>"
      by (simp_all add: write_commit_def)
    with p torn show thesis by blast
  next
    case (Inr u)
    have "tracked io (as_memory s)" using assms(1) by (simp add: session_valid_def)
    from apply_prepared_tracked [OF this, of c t stored] prepared obtain m where
      m: "apply_prepared (as_memory s) stored = Inr m" by (auto simp: as_memory_def)
    then obtain ix where ix: "advance_all (js_append_index s) (sc_items stored) = Some ix"
      and m_eq: "m = (as_memory s)\<lparr>ms_append_index := ix, ms_snapshot := push_commit (js_snapshot s) stored\<rparr>"
      by (auto simp: apply_prepared_def as_memory_def split: option.splits)
    have commit: "commit io t c (as_memory s) = (Inr stored, m)"
      using prepared m by (simp add: commit_ok as_memory_def)
    have "bs = js_file s @ str @ [newline]" using write_complete_line_ok w Inr by blast
    with assms(2) p w Inr ix have "r = Inr stored" "js_file s' = js_file s @ str @ [newline]"
      "as_memory s' = m"
      by (auto simp: write_commit_def Let_def m_eq as_memory_def split: prod.splits if_splits)
    with written [OF _ p] commit show thesis by simp
  qed
qed

section \<open>Files of a session\<close>

definition commit_line :: "session_io \<Rightarrow> stored_commit \<Rightarrow> string" where
  "commit_line io c = (case io_json io (encode_commit c) of Inr str \<Rightarrow> str | Inl _ \<Rightarrow> [])"

definition header_line :: "session_io \<Rightarrow> session_header \<Rightarrow> string" where
  "header_line io h = (case io_json io (encode_header h) of Inr str \<Rightarrow> str | Inl _ \<Rightarrow> [])"

definition legible :: "session_io \<Rightarrow> stored_commit \<Rightarrow> bool" where
  "legible io c \<longleftrightarrow> commit_text io c (commit_line io c)"

definition header_legible :: "session_io \<Rightarrow> session_header \<Rightarrow> bool" where
  "header_legible io h \<longleftrightarrow> header_ok h \<and> readable io (encode_header h) (header_line io h)"

text \<open>
  The states of a file writer from its creation: commits that succeed are written, refused ones
  change nothing, and the first torn append ends the run.
\<close>

inductive file_reaches :: "session_io \<Rightarrow> jsonl_session \<Rightarrow> stored_commit list \<Rightarrow> jsonl_session \<Rightarrow> bool"
  for io s0 where
  opened: "file_reaches io s0 [] s0"
| wrote: "file_reaches io s0 cs s \<Longrightarrow> unreserved (as_memory s) c \<Longrightarrow> write_commit io dk t c s = (Inr stored, s') \<Longrightarrow>
    file_reaches io s0 (cs @ [stored]) s'"
| refused: "file_reaches io s0 cs s \<Longrightarrow> write_commit io dk t c s = (Inl e, s') \<Longrightarrow> js_fault s' = None \<Longrightarrow>
    file_reaches io s0 cs s'"

lemma jsonl_create_ok:
  assumes "jsonl_create io dk d header = Inr s"
  shows "\<exists>h. seal_header io header = Inr h \<and> js_snapshot s = empty_snapshot h \<and>
    js_append_index s = empty_index h \<and> js_file s = header_line io h @ [newline] \<and> js_fault s = None"
proof -
  from assms obtain h where "seal_header io header = Inr h"
    by (cases "seal_header io header") (auto simp: jsonl_create_def split: if_splits)
  moreover from this assms obtain str where "io_json io (encode_header h) = Inr str"
    by (cases "io_json io (encode_header h)") (auto simp: jsonl_create_def split: if_splits)
  ultimately have h: "seal_header io header = Inr h" "io_json io (encode_header h) = Inr str" by blast+
  obtain q bs where w: "write_complete_line dk d str [] = (q, bs)" by fastforce
  obtain warning head where cache: "write_head_cache io (dk_head dk) (empty_snapshot h) d None = (warning, head)"
    by fastforce
  from assms h w cache show ?thesis
    using write_complete_line_ok [of dk d str "[]"]
    by (cases q; cases warning) (auto simp: jsonl_create_def header_line_def split: if_splits)
qed

lemma jsonl_create_valid:
  "jsonl_create io dk d header = Inr s \<Longrightarrow> session_valid io (as_memory s) \<and> js_fault s = None"
  using jsonl_create_ok [of io dk d header s] new_session_valid [of io] by (auto simp: as_memory_def new_session_def)

lemma file_reaches_inv:
  assumes "file_reaches io s0 cs s" and "session_valid io (as_memory s0)" and "js_fault s0 = None"
  shows "session_valid io (as_memory s) \<and> js_fault s = None \<and>
    append_commits io (js_snapshot s0) (js_append_index s0) cs = Some (js_snapshot s, js_append_index s) \<and>
    js_file s = js_file s0 @ lines_of (map (commit_line io) cs)"
  using assms
proof (induction rule: file_reaches.induct)
  case opened
  then show ?case by (simp add: lines_of_def)
next
  case (wrote cs s c dk t stored s')
  then have valid: "session_valid io (as_memory s)" by blast
  from valid wrote(3) show ?case
  proof (cases rule: write_commit_cases)
    case (written stored' str)
    then have commit: "commit io t c (as_memory s) = (Inr stored, as_memory s')" by simp
    note prepared = written(2) [unfolded prepare_line_ok]
    from commit have applied: "apply_prepared (as_memory s) stored = Inr (as_memory s')" by (simp add: commit_ok)
    from prepared written(1) have p: "prepare_commit io (js_snapshot s) (js_append_index s) c t = Inr stored" by simp
    from applied have step: "advance_all (js_append_index s) (sc_items stored) = Some (js_append_index s')"
      "js_snapshot s' = push_commit (js_snapshot s) stored" "js_fault s' = js_fault s"
      by (auto simp: apply_prepared_def as_memory_def split: option.splits)
    have "append_commits io (js_snapshot s) (js_append_index s) [stored] = Some (js_snapshot s', js_append_index s')"
      using prepare_commit_sealed [OF p] prepare_commit_digest [OF p] step
      by (simp add: next_sequence_def)
    with wrote prepared written step commit_session_valid [OF valid wrote(2) commit] show ?thesis
      by (simp add: append_commits_append commit_line_def lines_of_def)
  qed (simp_all add: wrote)
next
  case (refused cs s dk t c e s')
  then have "session_valid io (as_memory s)" by blast
  from this refused(2) show ?case
    by (cases rule: write_commit_cases) (use refused in auto)
qed

section \<open>Replaying the file of a session\<close>

lemma reject_unsupported_legible:
  assumes "header_legible io h"
  shows "reject_unsupported_format io (header_line io h @ newline # rest) = Inr ()"
proof -
  let ?str = "header_line io h"
  from assms have ok: "header_ok h" and r: "readable io (encode_header h) ?str"
    by (simp_all add: header_legible_def)
  then have str: "newline \<notin> set ?str" "length ?str \<le> MAX_SESSION_LINE_BYTES" "is_utf8 ?str"
    by (simp_all add: readable_def)
  then have "take (Suc MAX_SESSION_LINE_BYTES) (?str @ newline # rest) =
      ?str @ newline # take (MAX_SESSION_LINE_BYTES - length ?str) rest"
    by (simp add: Suc_diff_le)
  with str have "read_first_complete_line (?str @ newline # rest) = Inr (Some ?str)"
    by (simp add: read_first_complete_line_def newline_position_append)
  then show ?thesis
    using ok
    by (simp add: reject_unsupported_format_def readable_parse [OF r] encode_header_object object_def
        member_str_def unsupported_header_def btree_get_of header_ok_def u64_value_def)
qed

lemma replay_file_prefix:
  assumes head: "header_legible io h" "calculate_header_digest io h = Inr (sh_digest h)"
    and cs: "list_all (legible io) cs" "append_commits io (empty_snapshot h) (empty_index h) cs = Some (s, ix)"
    and bufs: "pieces bufs" "concat bufs = header_line io h @ [newline] @ lines_of (map (commit_line io) cs) @ rest"
  shows "\<exists>r. replay_file io bufs = decode_commits io r s ix \<and> at_file r rest \<and>
    br_next_line r = length cs + 2 \<and>
    br_next_offset r = offset_add 0 (length (header_line io h @ [newline] @ lines_of (map (commit_line io) cs)))"
proof -
  let ?str = "header_line io h" and ?rest = "lines_of (map (commit_line io) cs) @ rest"
  from head have ok: "header_ok h" and r: "readable io (encode_header h) ?str" by (simp_all add: header_legible_def)
  then have str: "newline \<notin> set ?str" "length ?str \<le> MAX_SESSION_LINE_BYTES" by (simp_all add: readable_def)
  have whole: "concat bufs = ?str @ newline # ?rest" using bufs(2) by simp
  then have "at_file (new_reader bufs) (?str @ newline # ?rest)"
    using bufs(1) by (simp add: at_file_def new_reader_def)
  from next_line_complete [OF this str(1)] str(2) obtain r' where
    read: "next_line (new_reader bufs) = (Inr (Complete \<lparr>cl_line = 1, cl_offset = 0, cl_bytes = ?str\<rparr>), r')"
    and r': "at_file r' ?rest" "br_next_line r' = 2" "br_next_offset r' = offset_add 0 (Suc (length ?str))"
    by (auto simp: new_reader_def)
  have texts: "list_all2 (commit_text io) cs (map (commit_line io) cs)"
    using cs(1) by (simp add: list_all2_conv_all_nth list_all_length legible_def)
  have "br_next_offset r' < 2 ^ 64" using r'(3) offset_add_less by simp
  note more = decode_commits_prefix [OF texts cs(2) r'(1) this]
  have "parse_canonical_line io \<lparr>cl_line = 1, cl_offset = 0, cl_bytes = ?str\<rparr> = Inr (encode_header h)"
    using r by (intro parse_canonical_line_readable) simp
  with read decode_header_encode [OF ok head(2)]
  have "replay_file io bufs = decode_commits io r' (empty_snapshot h) (empty_index h)"
    by (simp add: replay_file_def decode_snapshot_stream_def whole reject_unsupported_legible [OF head(1)])
  with more r'(2,3) show ?thesis by (auto simp: offset_add_assoc)
qed

text \<open>The file of a session the writer reached, with an unterminated tail or none.\<close>

lemma replay_file_reaches:
  assumes created: "jsonl_create io dk d header = Inr s0" and reached: "file_reaches io s0 cs s"
    and legible: "header_legible io (ss_header (js_snapshot s0))" "list_all (legible io) cs"
    and bufs: "pieces bufs" "concat bufs = js_file s @ rest" and size: "length (js_file s) < 2 ^ 64"
  shows "\<exists>r. replay_file io bufs = decode_commits io r (js_snapshot s) (js_append_index s) \<and>
    at_file r rest \<and> br_next_line r = length cs + 2 \<and> br_next_offset r = length (js_file s)"
proof -
  from jsonl_create_ok [OF created] obtain h where h: "seal_header io header = Inr h"
    and s0: "js_snapshot s0 = empty_snapshot h" "js_append_index s0 = empty_index h"
      "js_file s0 = header_line io h @ [newline]" "js_fault s0 = None" by blast
  have head: "header_legible io h" using legible(1) by (simp add: s0(1) empty_snapshot_def)
  from h have digest: "calculate_header_digest io h = Inr (sh_digest h)"
    by (auto simp: seal_header_def result_simps calculate_header_digest_fields)
  have inv: "append_commits io (empty_snapshot h) (empty_index h) cs = Some (js_snapshot s, js_append_index s)"
    "js_file s = header_line io h @ [newline] @ lines_of (map (commit_line io) cs)"
    using file_reaches_inv [OF reached] jsonl_create_valid [OF created] by (simp_all add: s0)
  have "concat bufs = header_line io h @ [newline] @ lines_of (map (commit_line io) cs) @ rest"
    using bufs(2) inv(2) by simp
  note replayed = replay_file_prefix [OF head digest legible(2) inv(1) bufs(1) this, folded inv(2)]
  have "offset_add 0 (length (js_file s)) = length (js_file s)"
    using size by (simp add: offset_add_def)
  with replayed show ?thesis by simp
qed

lemma replay_file_reached:
  assumes "jsonl_create io dk d header = Inr s0" and "file_reaches io s0 cs s"
    and "header_legible io (ss_header (js_snapshot s0))" "list_all (legible io) cs"
    and "pieces bufs" "concat bufs = js_file s @ tail" and tail: "newline \<notin> set tail"
    and "length (js_file s) < 2 ^ 64"
  shows "replay_file io bufs =
    Inr (js_snapshot s, js_append_index s, if tail = [] then None else Some (length (js_file s)))"
  using replay_file_reaches [OF assms(1-6,8)] decode_commits_tail [OF _ tail] by fastforce

section \<open>Inspecting, repairing and opening\<close>

lemma reached_operations:
  assumes created: "jsonl_create io dk d header = Inr s0" and reached: "file_reaches io s0 cs s"
    and legible: "header_legible io (ss_header (js_snapshot s0))" "list_all (legible io) cs"
    and bufs: "pieces bufs" "concat bufs = js_file s @ tail" and tail: "newline \<notin> set tail"
    and size: "length (js_file s) < 2 ^ 64"
  shows "jsonl_inspect io bufs = Inr (js_snapshot s, if tail = [] then None else Some (length (js_file s)))"
    and "\<exists>head' warning. repair_torn_tail io CutDone outcome d' False bufs head =
      (Inr (head', if tail = [] then None else Some (length (js_file s)), warning), js_file s)"
    and "snd (repair_torn_tail io cutting outcome d' False bufs head) \<in> {concat bufs, js_file s}"
    and "tail = [] \<Longrightarrow> \<exists>s'. jsonl_open io outcome d' False bufs head = Inr s' \<and>
      as_memory s' = as_memory s \<and> js_file s' = js_file s"
    and "tail \<noteq> [] \<Longrightarrow> jsonl_open io outcome d' False bufs head = Inl (RecoveryRequired (length (js_file s)))"
proof -
  note replayed = replay_file_reached [OF assms]
  have inv: "session_valid io (as_memory s)" "js_fault s = None"
    using file_reaches_inv [OF reached] jsonl_create_valid [OF created] by auto
  then have valid: "validate_snapshot io (js_snapshot s) = Inr ()"
    by (simp add: session_valid_def as_memory_def)
  show "jsonl_inspect io bufs = Inr (js_snapshot s, if tail = [] then None else Some (length (js_file s)))"
    by (simp add: jsonl_inspect_def replayed valid)
  show "\<exists>head' warning. repair_torn_tail io CutDone outcome d' False bufs head =
      (Inr (head', if tail = [] then None else Some (length (js_file s)), warning), js_file s)"
    by (cases "write_head_cache io outcome (js_snapshot s) d' head")
      (simp add: repair_torn_tail_def truncate_tail_def replayed valid bufs(2))
  show "snd (repair_torn_tail io cutting outcome d' False bufs head) \<in> {concat bufs, js_file s}"
    by (cases cutting; cases "write_head_cache io outcome (js_snapshot s) d' head")
      (simp_all add: repair_torn_tail_def truncate_tail_def replayed valid bufs(2))
  show "\<exists>s'. jsonl_open io outcome d' False bufs head = Inr s' \<and> as_memory s' = as_memory s \<and> js_file s' = js_file s"
    if "tail = []"
    using that inv(2)
    by (simp add: jsonl_open_def replayed valid bufs(2) as_memory_def split: prod.splits)
  show "jsonl_open io outcome d' False bufs head = Inl (RecoveryRequired (length (js_file s)))" if "tail \<noteq> []"
    using that by (simp add: jsonl_open_def replayed)
qed

lemma reached_recovers:
  assumes created: "jsonl_create io dk d header = Inr s0" and reached: "file_reaches io s0 cs s"
    and legible: "header_legible io (ss_header (js_snapshot s0))" "list_all (legible io) cs"
    and bufs: "pieces bufs" "concat bufs = js_file s @ tail" and tail: "newline \<notin> set tail"
    and size: "length (js_file s) < 2 ^ 64"
  shows "\<exists>torn head' warning s'. jsonl_inspect io bufs = Inr (js_snapshot s, torn) \<and>
    repair_torn_tail io CutDone outcome d' False bufs head = (Inr (head', torn, warning), js_file s) \<and>
    snd (repair_torn_tail io cutting outcome d' False bufs head) \<in> {concat bufs, js_file s} \<and>
    jsonl_open io outcome d' False [js_file s] head' = Inr s' \<and> as_memory s' = as_memory s \<and>
    js_file s' = js_file s"
proof -
  have "js_file s \<noteq> []"
    using file_reaches_inv [OF reached] jsonl_create_valid [OF created] jsonl_create_ok [OF created] by auto
  then have whole: "pieces [js_file s]" "concat [js_file s] = js_file s @ []" by (simp_all add: pieces_def)
  note ops = reached_operations [OF created reached legible]
  from ops(2) [OF bufs tail size, of outcome d' head] obtain head' warning where
    "repair_torn_tail io CutDone outcome d' False bufs head =
      (Inr (head', if tail = [] then None else Some (length (js_file s)), warning), js_file s)" by blast
  moreover from ops(4) [OF whole _ size, of outcome d' head'] obtain s' where
    "jsonl_open io outcome d' False [js_file s] head' = Inr s'" "as_memory s' = as_memory s" "js_file s' = js_file s"
    by auto
  ultimately show ?thesis using ops(1) [OF bufs tail size] ops(3) [OF bufs tail size, of cutting outcome d' head] by blast
qed

text \<open>An operating system whose calls all succeed.\<close>

definition good_disk :: disk where
  "good_disk = \<lparr>dk_json = None, dk_newline = True, dk_flush = True, dk_sync = True, dk_message = [],
     dk_head = HeadReplaced\<rparr>"

lemma write_commit_good:
  assumes "session_valid io (as_memory s)" and "prepare_line io t c s = Inr (stored, str)"
  shows "\<exists>s'. write_commit io good_disk t c s = (Inr stored, s') \<and> js_file s' = js_file s @ str @ [newline] \<and>
    js_snapshot s' = push_commit (js_snapshot s) stored"
proof -
  obtain r s' where w: "write_commit io good_disk t c s = (r, s')" by fastforce
  from assms(1) w show ?thesis
  proof (cases rule: write_commit_cases)
    case (torn stored' str' n)
    have "write_complete_line good_disk (js_durability s) str (js_file s) = (Inr (), js_file s @ str @ [newline])"
      using assms(2)
      by (simp add: prepare_line_ok write_complete_line_def ensure_complete_line_size_def good_disk_def)
    with w torn(1) assms(2) show ?thesis
      by (auto simp: write_commit_def Let_def split: option.splits)
  next
    case (written stored' str')
    then have "commit io t c (as_memory s) = (Inr stored, as_memory s')" using assms(2) by simp
    from commit_tracked(2) [OF _ this] assms(1) have "js_snapshot s' = push_commit (js_snapshot s) stored"
      by (simp add: as_memory_def session_valid_def)
    with written w assms(2) show ?thesis by simp
  qed (use assms in simp)
qed

end
