(* ===== verification/File_Example.thy ===== *)
theory File_Example
  imports File_Writer Store_Example
begin

text \<open>
  A session file of one commit. The example's parser knows the two lines of the file; the printer
  and the digest function are those of the in-memory example.
\<close>

definition ex_sealed :: session_header where
  "ex_sealed = ex_header\<lparr>sh_digest := zero_digest\<rparr>"

definition file_io :: "stored_commit \<Rightarrow> session_io" where
  "file_io c = ex_io\<lparr>io_from_str := (\<lambda>str.
     if str = ''h'' then Some (encode_header ex_sealed)
     else if str = ''c'' then Some (encode_commit c) else None)\<rparr>"

definition ex_file :: jsonl_session where
  "ex_file = \<lparr>js_file = ''h'' @ [newline], js_head = Some (''h'' @ [newline]),
     js_snapshot = empty_snapshot ex_sealed, js_append_index = empty_index ex_sealed,
     js_durability = Strict, js_fault = None, js_cache_warning = False\<rparr>"

text \<open>A reply whose opaque context is empty, which the decoder refuses.\<close>

definition ex_reply :: assistant_message_entry where
  "ex_reply = \<lparr>am_content = [Text ''hello''], am_tool_calls = [], am_stop_reason = None,
     am_error_message = None,
     am_opaque_context = [\<lparr>op_provider = ''p'', op_kind = ''k'', op_item_id = None, op_payload = []\<rparr>],
     am_origin = None, am_metadata = []\<rparr>"

definition ex_opaque :: session_commit where
  "ex_opaque = [EntryItem main_lane \<lparr>pe_id = ''a1'', pe_body = AssistantMessage ex_reply\<rparr>]"

lemma file_io_fields [simp]:
  "io_codec (file_io c) = io_codec ex_io" "cx_blake3 (io_codec ex_io) bs = zero_digest"
  by (simp_all add: file_io_def ex_io_def)

lemma ex_print:
  "io_json ex_io v = (if encodable v then Inr (if get_member v ''seq'' = None then ''h'' else ''c'')
     else Inl InvalidNumber)"
  by (simp add: ex_io_def to_json_string_def)

lemma encode_header_encodable: "encodable (encode_header ex_sealed)"
  unfolding encode_header_object
  by (rule object_encodable)
    (auto simp: u64_value_def digest_value_def ex_sealed_def ex_header_def new_header_at_def)

lemma ex_seal: "seal_header (file_io c) ex_header = Inr ex_sealed"
proof -
  have "encodable (encode_unsigned_header ex_header)"
    unfolding encode_unsigned_header_def
    by (rule object_encodable) (auto simp: ex_header_def new_header_at_def)
  then show ?thesis
    by (simp add: seal_header_def calculate_header_digest_def ex_print ex_sealed_def)
qed

lemma ex_header_text: "io_json ex_io (encode_header ex_sealed) = Inr ''h''"
  by (simp add: ex_print encode_header_encodable)
    (simp add: encode_header_object object_def btree_get_of)

lemma ex_head_cache: "head_cache_contents (file_io c) (empty_snapshot ex_sealed) = Inr ''h''"
proof -
  let ?kvs = "[(''active_harness_revision'', optional_id None), (''header_digest'', JString (to_hex zero_digest)),
    (''session_id'', JString (sh_session_id ex_sealed)), (''version'', JNumber (Unsigned 1))]"
  have "encodable (object ?kvs)" by (rule object_encodable) (auto simp: optional_id_def)
  moreover have "get_member (object ?kvs) ''seq'' = None" by (simp add: object_def btree_get_of)
  ultimately show ?thesis
    by (simp add: head_cache_contents_def ex_print empty_snapshot_def ex_sealed_def)
qed

lemma ex_file_created: "jsonl_create (file_io c) good_disk Strict ex_header = Inr ex_file"
proof -
  have "sh_kind ex_header = SESSION_HEADER_KIND" "sh_format ex_header = SESSION_FORMAT_IDENTITY"
    "sh_version ex_header = SESSION_FORMAT_VERSION"
    by (simp_all add: ex_header_def new_header_at_def)
  then show ?thesis
    by (simp add: jsonl_create_def ex_seal ex_header_text write_complete_line_def ensure_complete_line_size_def
        good_disk_def MAX_SESSION_LINE_BYTES_def write_head_cache_def ex_head_cache ex_file_def)
qed

lemma ex_file_memory: "as_memory ex_file = ex_session"
proof -
  have "create_with_clock ex_io ex_header = Inr ex_session" by (rule ex_created)
  moreover have "seal_header ex_io ex_header = Inr ex_sealed"
    using ex_seal unfolding seal_header_def calculate_header_digest_def file_io_fields .
  ultimately show ?thesis by (auto simp: create_session_ok as_memory_def ex_file_def)
qed

lemma ex_session_snapshot: "ms_snapshot ex_session = empty_snapshot ex_sealed"
  by (simp add: as_memory_def ex_file_def flip: ex_file_memory)

lemma ids_ok: "id_ok ''session''" "id_ok ''main''" "id_ok ''op1''" "id_ok ''u1''" "id_ok ''rev''" "id_ok ''profile''"
  "id_ok ''a1''"
  by code_simp+

lemma ex_header_legible: "header_legible (file_io c) (ss_header (js_snapshot ex_file))"
proof -
  have "header_ok ex_sealed"
    by (simp add: header_ok_def ex_sealed_def ex_header_def new_header_at_def ids_ok main_lane_def
        digest_ok_def zero_digest_def)
  moreover have "is_utf8 ''h''" by (simp add: is_utf8_def byte_of_def)
  ultimately show ?thesis
    by (simp add: header_legible_def readable_def header_line_def ex_file_def empty_snapshot_def ex_header_text
        file_io_def MAX_SESSION_LINE_BYTES_def)
qed

text \<open>The lines of the in-memory example's commits.\<close>

lemma file_io_prepare: "prepare_commit (file_io c) s ix cs t = prepare_commit ex_io s ix cs t"
  unfolding prepare_commit_def seal_commit_def calculate_commit_digest_def file_io_fields ..

lemma file_io_validate: "validate_prepared_commit (file_io c) s ix stored = validate_prepared_commit ex_io s ix stored"
  unfolding validate_prepared_commit_def validate_snapshot_commit_def file_io_fields ..

lemma ex_commit_text:
  assumes "commit ex_io t c ex_session = (Inr stored, s')"
  shows "io_json ex_io (encode_commit stored) = Inr ''c''"
proof -
  from assms have p: "prepare_commit ex_io (ms_snapshot ex_session) (ms_append_index ex_session) c t = Inr stored"
    by (simp add: commit_ok)
  from prepare_commit_digest [OF this] have "encodable (encode_commit_payload (map sv_mutation (sc_items stored)))"
    by (auto simp: calculate_commit_digest_def ex_print split: if_splits)
  then have "encodable (encode_commit stored)"
    unfolding encode_commit_def by (intro object_encodable) (auto simp: u64_value_def digest_value_def)
  moreover have "get_member (encode_commit stored) ''seq'' \<noteq> None"
    by (simp add: encode_commit_def object_def btree_get_of)
  ultimately show ?thesis by (simp add: ex_print)
qed

lemma ex_line:
  assumes "commit ex_io t c ex_session = (Inr stored, s')"
  shows "prepare_line (file_io stored) t c ex_file = Inr (stored, ''c'')"
    and "readable (file_io stored) (encode_commit stored) (commit_line (file_io stored) stored)"
proof -
  have "ms_snapshot ex_session = js_snapshot ex_file" "ms_append_index ex_session = js_append_index ex_file"
    "js_fault ex_file = None"
    by (simp_all add: as_memory_def ex_file_def flip: ex_file_memory)
  with assms show "prepare_line (file_io stored) t c ex_file = Inr (stored, ''c'')"
    by (simp add: prepare_line_ok commit_ok file_io_prepare file_io_validate ex_commit_text [OF assms]
        MAX_SESSION_LINE_BYTES_def)
  have "is_utf8 ''c''" by (simp add: is_utf8_def byte_of_def)
  then show "readable (file_io stored) (encode_commit stored) (commit_line (file_io stored) stored)"
    by (simp add: readable_def commit_line_def ex_commit_text [OF assms] MAX_SESSION_LINE_BYTES_def)
      (simp add: file_io_def)
qed

lemma ex_start_legible:
  assumes "commit ex_io 9 ex_start ex_session = (Inr stored, s')"
  shows "legible (file_io stored) stored"
proof -
  from assms have p: "prepare_commit ex_io (ms_snapshot ex_session) (ms_append_index ex_session) ex_start 9 = Inr stored"
    by (simp add: commit_ok)
  then have d: "sc_digest stored = zero_digest"
    using prepare_commit_digest [OF p] by (auto simp: calculate_commit_digest_def split: sum.splits)
  have items: "map sv_mutation (sc_items stored) = [RecordM \<lparr>sr_seq = sc_seq stored,
      sr_timestamp_ms = sc_timestamp_ms stored, sr_record = OperationStarted
        (new_operation_started ''op1'' main_lane None RunOp [ex_user] ''rev'' ''profile'')\<rparr>]"
    using p by (auto simp: prepare_commit_def Let_def result_simps ex_start_def empty_batch_def dest!: seal_commit_sealed)
  have prev: "sc_prev_digest stored = zero_digest"
    using prepare_commit_sealed [OF p] by (simp add: ex_session_snapshot empty_snapshot_def ex_sealed_def)
  have "list_all (mutation_ok (sc_seq stored) (sc_timestamp_ms stored)) (map sv_mutation (sc_items stored))"
    by (simp add: items new_operation_started_def ids_ok main_lane_def provisioned_ok_def ex_user_def
        provisioned_user_def hook_data_ok_def)
  with prepare_commit_sealed(1) [OF p] ex_line(2) [OF assms] show ?thesis
    by (simp add: legible_def commit_text_def stored_ok_def d prev digest_ok_def zero_digest_def list.pred_map comp_def)
qed

lemma ex_opaque_commit: "is_ok (fst (commit ex_io 9 ex_opaque ex_session))"
  by code_simp

end
