(* ===== verification/File_Guarantees.thy ===== *)
theory File_Guarantees
  imports File_Example
begin

text \<open>
  What a user of session files can rely on: every committed line decodes to the commit, however the
  file is read; a commit to the file is a commit to the in-memory session; and a crash at any byte
  of an append loses at most the commit that was being written.
\<close>

section \<open>Refused contexts\<close>

lemma decode_opaque_ok: "decode_opaque_provider_context (encode_opaque_provider_context c) = Inr x \<Longrightarrow> opaque_ok c"
  by (auto simp: encode_opaque_provider_context_def decode_opaque_provider_context_def wire_simps opaque_ok_def
      result_simps is_ok_unit)

lemma try_map_opaque_ok:
  "try_map decode_opaque_provider_context (map encode_opaque_provider_context cs) = Inr xs \<Longrightarrow> list_all opaque_ok cs"
  by (induction cs arbitrary: xs) (auto simp: result_simps dest: decode_opaque_ok)

lemma encoded_contexts:
  assumes "read_object (encode_assistant_message m) = Inr obj"
  shows "btree_get obj ''opaque_context'' = Some (JArray (map encode_opaque_provider_context (am_opaque_context m)))"
    and "btree_get obj ''type'' = Some (JString ''assistant_message'')"
  using assms
  by (auto simp: encode_assistant_message_def read_object_object btree_get_of split: option.splits if_splits)

lemma decode_reply_contexts:
  assumes "decode_entry (encode_entry (AssistantMessage m)) = Inr x"
  shows "list_all opaque_ok (am_opaque_context m)"
proof -
  obtain obj where obj: "read_object (encode_assistant_message m) = Inr obj"
    by (simp add: encode_assistant_message_def read_object_object)
  note written = encoded_contexts [OF obj]
  from assms have "is_ok (decode_assistant_message obj)"
    by (auto simp: decode_entry_def obj required_string_get [OF written(2)] map_ok_def result_simps is_ok_iff)
  then obtain xs where "decode_opaque_contexts obj = Inr xs"
    by (auto simp: decode_assistant_message_def result_simps is_ok_iff)
  with written(1) show ?thesis
    by (auto simp: decode_opaque_contexts_def optional_value_of_def dest: try_map_opaque_ok)
qed

lemma try_map_member: "try_map f xs = Inr ys \<Longrightarrow> x \<in> set xs \<Longrightarrow> is_ok (f x)"
  by (induction xs arbitrary: ys) (auto simp: result_simps is_ok_iff)

lemma decode_commit_contexts:
  assumes "decode_envelope (encode_commit c) = Inr p" and "item \<in> set (sc_items c)"
    and "sv_mutation item = EntryM e" and "se_body e = AssistantMessage m"
  shows "list_all opaque_ok (am_opaque_context m)"
proof -
  let ?ms = "map sv_mutation (sc_items c)"
  from assms(1) obtain n t ms where "decode_commit_payload (encode_commit_payload ?ms) n t = Inr ms"
    by (auto simp: decode_envelope_def encode_commit_def wire_simps require_exact_object result_simps)
  then have "try_map (decode_session_mutation n t) (map encode_mutation_payload ?ms) = Inr ms"
    by (simp add: decode_commit_payload_def encode_commit_payload_def wire_simps require_exact_object
        result_simps split: if_splits)
  from try_map_member [OF this, of "encode_mutation_payload (EntryM e)"] assms(2,3)
  have "is_ok (decode_session_mutation n t (encode_mutation_payload (EntryM e)))" by force
  then obtain x where "decode_entry (encode_entry (se_body e)) = Inr x"
    by (auto simp: decode_session_mutation_def decode_stored_entry_def wire_simps exact_kind_payload map_ok_def
        result_simps is_ok_iff)
  with assms(4) decode_reply_contexts show ?thesis by metis
qed

section \<open>Theorems\<close>

text \<open>
  C1: A crash loses at most the commit that was being written. Take a session file reached by commits
  of which none is a single user entry with an identity reserved for a tool result or an activation,
  and whose lines are all legible, and let the append of one more such commit stop after any number of
  bytes. Inspecting the file then shows exactly the committed session, or that session with the new commit when its whole line
  with the line break had been written; repairing cuts the file back to those lines (a
  repair that fails leaves the file as it was, or already cut); and opening the repaired file gives a
  valid session with that snapshot. A line is legible when
  identifiers and digests are well-formed, opaque provider contexts are within the bounds of the
  decoder, no reply consists of one empty text block, and the JSON package reads back from the printed
  line the value it printed, in UTF-8, without a line break and within the line limit. The writer does
  not check this; a commit it accepts without it can make the file unreadable.
\<close>

theorem crash_recovery:
  assumes created: "jsonl_create io dk d header = Inr s0" and reached: "file_reaches io s0 cs s"
    and legible: "header_legible io (ss_header (js_snapshot s0))" "list_all (legible io) (cs @ [stored])"
    and line: "unreserved (as_memory s) c" "prepare_line io t c s = Inr (stored, str)"
    and bufs: "pieces bufs" "concat bufs = js_file s @ take n (str @ [newline])"
    and size: "length (js_file s @ str @ [newline]) < 2 ^ 64"
  shows "\<exists>snapshot torn bytes head' warning s'.
    (snapshot, bytes) = (if n \<le> length str then (js_snapshot s, js_file s)
       else (push_commit (js_snapshot s) stored, js_file s @ str @ [newline])) \<and>
    jsonl_inspect io bufs = Inr (snapshot, torn) \<and>
    repair_torn_tail io CutDone outcome d' False bufs head = (Inr (head', torn, warning), bytes) \<and>
    snd (repair_torn_tail io cutting outcome d' False bufs head) \<in> {concat bufs, bytes} \<and>
    jsonl_open io outcome d' False [bytes] head' = Inr s' \<and> js_snapshot s' = snapshot \<and>
    js_file s' = bytes \<and> session_valid io (as_memory s')"
proof -
  have inv: "session_valid io (as_memory s)" "js_fault s = None"
    using file_reaches_inv [OF reached] jsonl_create_valid [OF created] by auto
  have str: "newline \<notin> set str"
    using legible(2) line(2) by (auto simp: legible_def commit_text_def readable_def prepare_line_ok commit_line_def)
  show ?thesis
  proof (cases "n \<le> length str")
    case True
    let ?tail = "take n str"
    have tail: "newline \<notin> set ?tail" using str set_take_subset [of n str] by blast
    have whole: "concat bufs = js_file s @ ?tail" using bufs(2) True by simp
    have l: "list_all (legible io) cs" "length (js_file s) < 2 ^ 64" using legible(2) size by simp_all
    from reached_recovers [OF created reached legible(1) l(1) bufs(1) whole tail l(2), of outcome d' head cutting] inv(1) True
    show ?thesis by (fastforce simp: as_memory_def)
  next
    case False
    from write_commit_good [OF inv(1) line(2)] obtain u where
      u: "write_commit io good_disk t c s = (Inr stored, u)" "js_file u = js_file s @ str @ [newline]"
        "js_snapshot u = push_commit (js_snapshot s) stored" by blast
    have reach: "file_reaches io s0 (cs @ [stored]) u" using file_reaches.wrote [OF reached line(1) u(1)] .
    have valid: "session_valid io (as_memory u)"
      using file_reaches_inv [OF reach] jsonl_create_valid [OF created] by auto
    have whole: "concat bufs = js_file u @ []" using bufs(2) u(2) False by simp
    have "newline \<notin> set []" "length (js_file u) < 2 ^ 64" using size u(2) by simp_all
    from reached_recovers [OF created reach legible bufs(1) whole this, of outcome d' head cutting] valid False u(2,3)
    show ?thesis by (fastforce simp: as_memory_def)
  qed
qed

theorem crash_recovery_witness:
  "\<exists>io stored torn head' warning s'. prepare_line io 9 ex_start ex_file = Inr (stored, ''c'') \<and>
     jsonl_inspect io [js_file ex_file @ ''c''] = Inr (js_snapshot ex_file, torn) \<and>
     repair_torn_tail io CutDone HeadReplaced Strict False [js_file ex_file @ ''c''] None =
       (Inr (head', torn, warning), js_file ex_file) \<and>
     jsonl_open io HeadReplaced Strict False [js_file ex_file] head' = Inr s' \<and>
     js_snapshot s' = js_snapshot ex_file"
proof (rule ex_first_commit)
  fix stored
  assume c: "commit ex_io 9 ex_start ex_session = (Inr stored, ex_first)"
  let ?io = "file_io stored"
  have bufs: "pieces [js_file ex_file @ ''c'']" "concat [js_file ex_file @ ''c''] = js_file ex_file @ take 1 (''c'' @ [newline])"
    and size: "length (js_file ex_file @ ''c'' @ [newline]) < 2 ^ 64"
    by (simp_all add: pieces_def ex_file_def)
  have "list_all (legible ?io) ([] @ [stored])" using ex_start_legible [OF c] by simp
  from crash_recovery [OF ex_file_created file_reaches.opened ex_header_legible this ex_unreserved
      ex_line(1) [OF c] bufs size, of HeadReplaced Strict None CutDone]
  show ?thesis using ex_line(1) [OF c] by simp blast
qed

text \<open>
  C20: Replaying a file does not depend on the pieces in which the operating system returns it: the
  bounded reader, with its running line, its limit and its offsets, finds the same header, commits
  and unterminated tail, or fails with the same error at the same line.
\<close>

theorem buffers_irrelevant:
  assumes "pieces bufs" and "pieces bufs'" and "concat bufs = concat bufs'"
  shows "decode_snapshot_stream io bufs = decode_snapshot_stream io bufs'"
  using assms by (rule decode_snapshot_stream_same)

theorem buffers_irrelevant_witness:
  "decode_snapshot_stream ex_io [''h'', newline # ''c''] = decode_snapshot_stream ex_io [''h'' @ [newline], ''c'']"
  by (rule buffers_irrelevant) (simp_all add: pieces_def)

text \<open>
  C19: A commit line decodes to the commit that was encoded, whatever entries, records, lane
  mutations and facts it holds, when its identifiers, digests and opaque contexts are well-formed and
  its digest is the calculated one.
\<close>

theorem commit_line_roundtrip:
  assumes "stored_ok c"
    and "calculate_commit_digest io i (sc_seq c) (sc_timestamp_ms c) (sc_prev_digest c)
      (map sv_mutation (sc_items c)) = Inr (sc_digest c)"
  shows "decode_mutation io (encode_commit c) i = Inr c"
  using assms by (rule decode_mutation_encode)

theorem commit_line_roundtrip_witness:
  "\<exists>c. sc_seq c = 1 \<and> decode_mutation ex_io (encode_commit c) ''session'' = Inr c"
proof (rule ex_first_commit)
  fix stored
  assume c: "commit ex_io 9 ex_start ex_session = (Inr stored, ex_first)"
  then have p: "prepare_commit ex_io (ms_snapshot ex_session) (ms_append_index ex_session) ex_start 9 = Inr stored"
    by (simp add: commit_ok)
  have header: "sh_session_id (ss_header (ms_snapshot ex_session)) = ''session''"
    "next_sequence (ms_snapshot ex_session) = 1"
    by (simp_all add: ex_session_snapshot empty_snapshot_def ex_sealed_def ex_header_def new_header_at_def
        next_sequence_def saturating_add_def)
  have "stored_ok stored" using ex_start_legible [OF c] by (simp add: legible_def commit_text_def)
  from commit_line_roundtrip [OF this prepare_commit_digest [OF p]] prepare_commit_sealed [OF p] header
  show ?thesis by auto
qed

text \<open>
  C18: A commit to the file is a commit to the in-memory session with the same snapshot and index,
  and its line is appended to the file. A commit that fails leaves the snapshot and the index as they
  were; either nothing else changed, or bytes of the line may have reached the file, and then the
  session refuses every later commit without touching the file again.
\<close>

theorem file_writer_refines:
  assumes "jsonl_create io dk d header = Inr s0" and "file_reaches io s0 cs s"
    and "write_commit io dk' t c s = (r, s')"
  shows "case r of
      Inr stored \<Rightarrow> commit io t c (as_memory s) = (Inr stored, as_memory s') \<and>
        js_file s' = js_file s @ commit_line io stored @ [newline]
    | Inl e \<Rightarrow> js_snapshot s' = js_snapshot s \<and> js_append_index s' = js_append_index s \<and>
        (s' = s \<or> (\<exists>str n m. e = IndeterminateWrite m \<and> js_file s' = js_file s @ take n (str @ [newline]) \<and>
           (\<forall>dk2 t2 c2. write_commit io dk2 t2 c2 s' = (Inl (FaultedError m), s'))))"
proof -
  have valid: "session_valid io (as_memory s)"
    using file_reaches_inv [OF assms(2)] jsonl_create_valid [OF assms(1)] by auto
  from valid assms(3) show ?thesis
  proof (cases rule: write_commit_cases)
    case (torn stored str n)
    have "write_commit io dk2 t2 c2 s' = (Inl (FaultedError (dk_message dk')), s')" for dk2 t2 c2
      by (simp add: write_commit_def prepare_line_def writable_def torn(3))
    with torn show ?thesis by auto
  next
    case (written stored str)
    then have "commit_line io stored = str" by (simp add: prepare_line_ok commit_line_def)
    with written show ?thesis by simp
  qed simp
qed

theorem file_writer_refines_witness:
  "\<exists>io stored s'. write_commit io good_disk 9 ex_start ex_file = (Inr stored, s') \<and>
     commit io 9 ex_start ex_session = (Inr stored, as_memory s') \<and>
     js_file s' = js_file ex_file @ commit_line io stored @ [newline]"
proof (rule ex_first_commit)
  fix stored
  assume c: "commit ex_io 9 ex_start ex_session = (Inr stored, ex_first)"
  have valid: "session_valid (file_io stored) (as_memory ex_file)"
    using jsonl_create_valid [OF ex_file_created] by blast
  from write_commit_good [OF valid ex_line(1) [OF c]] obtain s' where
    w: "write_commit (file_io stored) good_disk 9 ex_start ex_file = (Inr stored, s')" by blast
  from file_writer_refines [OF ex_file_created file_reaches.opened w] w ex_file_memory show ?thesis by auto
qed

text \<open>
  C21: The writer accepts replies that the decoder refuses: when a commit holds an assistant reply
  with an opaque provider context outside the decoder's bounds (an empty payload, say), the commit
  succeeds, and afterwards the file can be neither opened nor inspected nor repaired: the line is
  reported as malformed.
\<close>

theorem unreadable_context:
  assumes created: "jsonl_create io dk d header = Inr s0" and reached: "file_reaches io s0 cs s"
    and legible: "header_legible io (ss_header (js_snapshot s0))" "list_all (legible io) cs"
    and stored: "write_commit io dk' t c s = (Inr stored, s')"
    and item: "item \<in> set (sc_items stored)" "sv_mutation item = EntryM e" "se_body e = AssistantMessage m"
    and bad: "\<not> list_all opaque_ok (am_opaque_context m)"
    and printed: "readable io (encode_commit stored) (commit_line io stored)"
    and bufs: "pieces bufs" "concat bufs = js_file s'" and size: "length (js_file s') < 2 ^ 64"
  shows "\<exists>e. jsonl_open io outcome d' False bufs head =
      Inl (Format (length cs + 2) (length (js_file s)) None (Undecodable e)) \<and>
    jsonl_inspect io bufs = Inl (Format (length cs + 2) (length (js_file s)) None (Undecodable e)) \<and>
    repair_torn_tail io cutting outcome d' False bufs head =
      (Inl (Format (length cs + 2) (length (js_file s)) None (Undecodable e)), js_file s')"
proof -
  have "session_valid io (as_memory s)"
    using file_reaches_inv [OF reached] jsonl_create_valid [OF created] by auto
  from this stored have line: "js_file s' = js_file s @ commit_line io stored @ [newline]"
    by (cases rule: write_commit_cases) (simp_all add: prepare_line_ok commit_line_def)
  let ?line = "\<lparr>cl_line = length cs + 2, cl_offset = length (js_file s), cl_bytes = commit_line io stored\<rparr>"
  have short: "newline \<notin> set (commit_line io stored)" "length (commit_line io stored) \<le> MAX_SESSION_LINE_BYTES"
    using printed by (simp_all add: readable_def)
  have "concat bufs = js_file s @ commit_line io stored @ [newline]" "length (js_file s) < 2 ^ 64"
    using bufs(2) size line by simp_all
  from replay_file_reaches [OF created reached legible bufs(1) this] obtain r where
    replay: "replay_file io bufs = decode_commits io r (js_snapshot s) (js_append_index s)"
    and r: "at_file r (commit_line io stored @ newline # [])" "br_next_line r = length cs + 2"
      "br_next_offset r = length (js_file s)" by auto
  from next_line_complete [OF r(1) short(1)] short(2) r(2,3) obtain r' where
    read: "next_line r = (Inr (Complete ?line), r')" by auto
  obtain e where "decode_envelope (encode_commit stored) = Inl e"
    using decode_commit_contexts [OF _ item] bad by (cases "decode_envelope (encode_commit stored)") auto
  then have "decode_commit_line io (js_snapshot s) ?line =
      Inl (Format (length cs + 2) (length (js_file s)) None (Undecodable e))"
    using printed
    by (simp add: decode_commit_line_def parse_canonical_line_readable decode_mutation_def Let_def)
  with read have "replay_file io bufs = Inl (Format (length cs + 2) (length (js_file s)) None (Undecodable e))"
    unfolding replay by (subst decode_commits.simps) simp
  then show ?thesis by (simp add: jsonl_open_def jsonl_inspect_def repair_torn_tail_def bufs(2))
qed

theorem unreadable_context_witness:
  "\<exists>io stored s' e. write_commit io good_disk 9 ex_opaque ex_file = (Inr stored, s') \<and>
     jsonl_open io HeadReplaced Strict False [js_file s'] None = Inl (Format 2 2 None (Undecodable e))"
proof -
  obtain stored m where c: "commit ex_io 9 ex_opaque ex_session = (Inr stored, m)"
    using ex_opaque_commit by (cases "commit ex_io 9 ex_opaque ex_session") (auto simp: is_ok_iff)
  let ?io = "file_io stored"
  have valid: "session_valid ?io (as_memory ex_file)" using jsonl_create_valid [OF ex_file_created] by blast
  from write_commit_good [OF valid ex_line(1) [OF c]] obtain s' where
    w: "write_commit ?io good_disk 9 ex_opaque ex_file = (Inr stored, s')" "js_file s' = js_file ex_file @ ''c'' @ [newline]"
    by blast
  from c have "prepare_commit ex_io (ms_snapshot ex_session) (ms_append_index ex_session) ex_opaque 9 = Inr stored"
    by (simp add: commit_ok)
  then obtain e where "map sv_mutation (sc_items stored) = [EntryM e]" and body: "se_body e = AssistantMessage ex_reply"
    by (auto simp: prepare_commit_def Let_def result_simps ex_opaque_def empty_batch_def dest!: seal_commit_sealed
        split: if_splits)
  then obtain item where item: "item \<in> set (sc_items stored)" "sv_mutation item = EntryM e" by auto
  have bad: "\<not> list_all opaque_ok (am_opaque_context ex_reply)"
    by (simp add: ex_reply_def opaque_ok_def check_context_payload_def)
  have bufs: "pieces [js_file s']" "concat [js_file s'] = js_file s'" "length (js_file s') < 2 ^ 64"
    using w(2) by (simp_all add: pieces_def ex_file_def)
  have "list_all (legible ?io) []" by simp
  from unreadable_context [OF ex_file_created file_reaches.opened ex_header_legible this w(1) item body bad
      ex_line(2) [OF c] bufs, of HeadReplaced Strict None CutDone]
  obtain e' where "jsonl_open ?io HeadReplaced Strict False [js_file s'] None = Inl (Format 2 2 None (Undecodable e'))"
    by (auto simp: ex_file_def)
  with w(1) show ?thesis by blast
qed

end
