(* ===== verification/Artifact_Store.thy ===== *)
theory Artifact_Store
  imports Tea_Ids "HOL-Library.AList"
begin

text \<open>
  The immutable artifact stores of \<open>artifact.rs\<close>: a content-addressed map from BLAKE3 identities to
  bytes, in memory and in a directory tree \<open>blake3/<2 digits>/<64 digits>\<close>. The hash function is the
  parameter \<open>blake3\<close>.

  Lengths and offsets of bytes in memory or in a file are \<open>nat\<close>; the source adds them with saturation
  and clamps the sum to the length, which is the sum on \<open>nat\<close> clamped to the length.
\<close>

section \<open>Descriptors, pages and errors\<close>

definition MAX_PAGE_BYTES :: nat where
  "MAX_PAGE_BYTES = 1048576"

datatype unsafe_path = ObjectNotRegular | RootNotDirectory | BucketNotDirectory | BucketName | NotADigest | PathMismatch

datatype artifact_request =
    InlineLimit
  | PageLimit
  | MediaType
  | PageBound
  | QueryBound
  | SearchBounds
  | FaultedWriter string

datatype artifact_error =
    NotFound artifact_id
  | UnsafePath unsafe_path
  | ArtifactCorruption artifact_id
  | InvalidRequest artifact_request
  | ArtifactIo string

record artifact_policy =
  ap_policy_id :: string
  ap_model_readable :: bool
  ap_redact_before_persist :: bool
  ap_maximum_inline_bytes :: nat
  ap_maximum_page_bytes :: nat

definition default_policy :: artifact_policy where
  "default_policy =
     \<lparr>ap_policy_id = ''tea-recoverable-v1'', ap_model_readable = True, ap_redact_before_persist = False,
      ap_maximum_inline_bytes = 8192, ap_maximum_page_bytes = 4096\<rparr>"

definition validate_policy_bounds :: "artifact_policy \<Rightarrow> (artifact_error, unit) result" where
  "validate_policy_bounds policy =
     (if ap_maximum_inline_bytes policy = 0 then Err (InvalidRequest InlineLimit)
      else if ap_maximum_page_bytes policy = 0 \<or> ap_maximum_page_bytes policy > MAX_PAGE_BYTES
      then Err (InvalidRequest PageLimit)
      else Ok ())"

record artifact_descriptor =
  ad_artifact_id :: artifact_id
  ad_byte_len :: u64
  ad_media_type :: string

record artifact_inventory_item =
  ai_artifact_id :: artifact_id
  ai_byte_len :: u64

record artifact_page =
  pg_offset :: nat
  pg_bytes :: "u8 list"
  pg_eof :: bool

record artifact_match =
  mt_offset :: nat
  mt_context :: "u8 list"

abbreviation len_u64 :: "u8 list \<Rightarrow> u64" where
  "len_u64 bytes \<equiv> of_nat (length bytes)"

definition validate_media_type :: "string \<Rightarrow> (artifact_error, unit) result" where
  "validate_media_type media_type =
     (if media_type = [] \<or> length media_type > 200 \<or> has_control media_type
      then Err (InvalidRequest MediaType) else Ok ())"

definition validate_bound :: "nat \<Rightarrow> (artifact_error, unit) result" where
  "validate_bound maximum_bytes =
     (if maximum_bytes = 0 \<or> maximum_bytes > MAX_PAGE_BYTES then Err (InvalidRequest PageBound) else Ok ())"

definition validate_search_bounds :: "u8 list \<Rightarrow> nat \<Rightarrow> nat \<Rightarrow> (artifact_error, unit) result" where
  "validate_search_bounds query maximum_results context_bytes =
     (if query = [] \<or> length query > MAX_PAGE_BYTES then Err (InvalidRequest QueryBound)
      else if maximum_results = 0 \<or> maximum_results > 1000 \<or> context_bytes > MAX_PAGE_BYTES
      then Err (InvalidRequest SearchBounds)
      else Ok ())"

section \<open>The default methods of a store\<close>

text \<open>\<open>read_page\<close> and \<open>search_literal\<close> of the trait, on the bytes \<open>get\<close> returned.\<close>

definition read_page ::
    "(artifact_error, u8 list) result \<Rightarrow> nat \<Rightarrow> nat \<Rightarrow> (artifact_error, artifact_page) result" where
  "read_page got offset maximum_bytes =
     and_then (validate_bound maximum_bytes) (\<lambda>_.
     and_then got (\<lambda>bytes.
       let offset = min offset (length bytes);
           stop = min (offset + maximum_bytes) (length bytes)
       in Ok \<lparr>pg_offset = offset, pg_bytes = take (stop - offset) (drop offset bytes),
              pg_eof = (stop = length bytes)\<rparr>))"

text \<open>\<open>windows(query.len()).position(|window| window == query)\<close>.\<close>

fun window_position :: "u8 list \<Rightarrow> u8 list \<Rightarrow> nat option" where
  "window_position query [] = (if query = [] then Some 0 else None)"
| "window_position query (b # bs) =
     (if take (length query) (b # bs) = query then Some 0
      else map_option Suc (window_position query bs))"

text \<open>
  The loop over the matches in \<open>bytes\<close> from \<open>cursor\<close> on, while fewer than \<open>maximum_results\<close> are found:
  both stores run it, one over the whole object, the other over the bytes it holds at a time.
\<close>

fun match_starts :: "nat \<Rightarrow> u8 list \<Rightarrow> u8 list \<Rightarrow> nat \<Rightarrow> nat list" where
  "match_starts 0 query bytes cursor = []"
| "match_starts (Suc n) query bytes cursor =
     (if cursor + length query \<le> length bytes
      then (case window_position query (drop cursor bytes) of
              None \<Rightarrow> []
            | Some relative \<Rightarrow>
                (cursor + relative) # match_starts n query bytes (cursor + relative + length query))
      else [])"

definition match_at :: "u8 list \<Rightarrow> u8 list \<Rightarrow> nat \<Rightarrow> nat \<Rightarrow> artifact_match" where
  "match_at bytes query context_bytes offset =
     (let start = offset - context_bytes;
          stop = min (offset + length query + context_bytes) (length bytes)
      in \<lparr>mt_offset = offset, mt_context = take (stop - start) (drop start bytes)\<rparr>)"

definition search_literal ::
    "(artifact_error, u8 list) result \<Rightarrow> u8 list \<Rightarrow> nat \<Rightarrow> nat \<Rightarrow>
     (artifact_error, artifact_match list) result" where
  "search_literal got query maximum_results context_bytes =
     and_then (validate_search_bounds query maximum_results context_bytes) (\<lambda>_.
     and_then got (\<lambda>bytes.
       Ok (map (match_at bytes query context_bytes) (match_starts maximum_results query bytes 0))))"

section \<open>The store in memory\<close>

type_synonym memory_artifact_store = "(artifact_id, u8 list) btree"

definition memory_put ::
    "(u8 list \<Rightarrow> digest) \<Rightarrow> u8 list \<Rightarrow> string \<Rightarrow> memory_artifact_store \<Rightarrow>
     (artifact_error, artifact_descriptor) result \<times> memory_artifact_store" where
  "memory_put blake3 bytes media_type objects =
     (let artifact_id = blake3 bytes;
          descriptor = \<lparr>ad_artifact_id = artifact_id, ad_byte_len = len_u64 bytes, ad_media_type = media_type\<rparr>
      in case validate_media_type media_type of
           Inl e \<Rightarrow> (Err e, objects)
         | Inr _ \<Rightarrow>
             (case btree_get objects artifact_id of
                Some existing \<Rightarrow>
                  (if existing \<noteq> bytes then Err (ArtifactCorruption artifact_id) else Ok descriptor, objects)
              | None \<Rightarrow> (Ok descriptor, btree_insert artifact_id bytes objects)))"

definition memory_get :: "memory_artifact_store \<Rightarrow> artifact_id \<Rightarrow> (artifact_error, u8 list) result" where
  "memory_get objects artifact_id =
     (case btree_get objects artifact_id of None \<Rightarrow> Err (NotFound artifact_id) | Some bytes \<Rightarrow> Ok bytes)"

definition memory_verify_object ::
    "(u8 list \<Rightarrow> digest) \<Rightarrow> memory_artifact_store \<Rightarrow> artifact_id \<Rightarrow> (artifact_error, u64) result" where
  "memory_verify_object blake3 objects artifact_id =
     and_then (memory_get objects artifact_id) (\<lambda>bytes.
       if blake3 bytes \<noteq> artifact_id then Err (ArtifactCorruption artifact_id) else Ok (len_u64 bytes))"

definition memory_inventory :: "memory_artifact_store \<Rightarrow> (artifact_error, artifact_inventory_item list) result" where
  "memory_inventory objects =
     Ok (map (\<lambda>(artifact_id, bytes). \<lparr>ai_artifact_id = artifact_id, ai_byte_len = len_u64 bytes\<rparr>) objects)"

definition memory_remove ::
    "artifact_id \<Rightarrow> memory_artifact_store \<Rightarrow> (artifact_error, unit) result \<times> memory_artifact_store" where
  "memory_remove artifact_id objects =
     (if btree_contains objects artifact_id then (Ok (), btree_remove artifact_id objects)
      else (Err (NotFound artifact_id), objects))"

section \<open>The store in a directory\<close>

text \<open>
  The tree below \<open>blake3/\<close>, in the order \<open>read_dir\<close> lists it: directories of files, and entries that are
  no directories. A file that is not a regular file, a symbolic link say, is \<open>Irregular\<close>. Failures of
  reading calls, which change nothing, are not represented.
\<close>

datatype object_file = Regular "u8 list" | Irregular

datatype tree_entry = Directory "(string \<times> object_file) list" | OtherEntry

type_synonym object_tree = "(string \<times> tree_entry) list"

definition object_path :: "artifact_id \<Rightarrow> string \<times> string" where
  "object_path artifact_id = (take 2 (to_hex artifact_id), to_hex artifact_id)"

text \<open>\<open>symlink_metadata\<close> of the object's path, the check of its type and the bytes that are read.\<close>

definition read_object_file :: "object_tree \<Rightarrow> artifact_id \<Rightarrow> (artifact_error, u8 list) result" where
  "read_object_file tree artifact_id =
     (case map_of tree (fst (object_path artifact_id)) of
        None \<Rightarrow> Err (NotFound artifact_id)
      | Some OtherEntry \<Rightarrow> Err (ArtifactIo ''Not a directory'')
      | Some (Directory files) \<Rightarrow>
          (case map_of files (snd (object_path artifact_id)) of
             None \<Rightarrow> Err (NotFound artifact_id)
           | Some Irregular \<Rightarrow> Err (UnsafePath ObjectNotRegular)
           | Some (Regular bytes) \<Rightarrow> Ok bytes))"

definition file_get ::
    "(u8 list \<Rightarrow> digest) \<Rightarrow> object_tree \<Rightarrow> artifact_id \<Rightarrow> (artifact_error, u8 list) result" where
  "file_get blake3 tree artifact_id =
     and_then (read_object_file tree artifact_id) (\<lambda>bytes.
       if blake3 bytes \<noteq> artifact_id then Err (ArtifactCorruption artifact_id) else Ok bytes)"

definition verify_existing_identity ::
    "(u8 list \<Rightarrow> digest) \<Rightarrow> object_tree \<Rightarrow> artifact_id \<Rightarrow> (artifact_error, u64) result" where
  "verify_existing_identity blake3 tree artifact_id =
     and_then (read_object_file tree artifact_id) (\<lambda>bytes.
       if blake3 bytes \<noteq> artifact_id then Err (ArtifactCorruption artifact_id) else Ok (len_u64 bytes))"

subsection \<open>Publishing an object\<close>

text \<open>\<open>std::process::id()\<close> and the nonce name the private temporary file.\<close>

definition temporary_name :: "nat \<Rightarrow> u64 \<Rightarrow> string" where
  "temporary_name process_id nonce =
     ''.'' @ decimal process_id @ ''-'' @ to_hex (u64_be_bytes nonce) @ ''.artifact.tmp''"

text \<open>
  How a publication ends for the operating system: a call before the directory of the object is made
  fails, the hard link itself fails, a call after it fails (removing the temporary file or
  synchronizing the directories), or none; and whether the temporary file stays behind.
\<close>

datatype publish_failure = BeforeLink string | AtLink string | AfterLink string

record publication =
  pb_failure :: "publish_failure option"
  pb_left :: "(nat \<times> u64) option"

definition leave_temporary :: "publication \<Rightarrow> object_tree \<Rightarrow> object_tree" where
  "leave_temporary os tree =
     (case pb_left os of
        None \<Rightarrow> tree
      | Some (process_id, nonce) \<Rightarrow> AList.update (temporary_name process_id nonce) OtherEntry tree)"

text \<open>\<open>ensure_directory\<close> of the bucket, and \<open>hard_link\<close>, which refuses a name that exists.\<close>

definition ensure_bucket :: "string \<Rightarrow> object_tree \<Rightarrow> (artifact_error, object_tree) result" where
  "ensure_bucket bucket tree =
     (case map_of tree bucket of
        None \<Rightarrow> Ok (AList.update bucket (Directory []) tree)
      | Some (Directory _) \<Rightarrow> Ok tree
      | Some OtherEntry \<Rightarrow> Err (UnsafePath BucketNotDirectory))"

definition link_object ::
    "(u8 list \<Rightarrow> digest) \<Rightarrow> artifact_id \<Rightarrow> u8 list \<Rightarrow> object_tree \<Rightarrow>
     (artifact_error, object_tree) result" where
  "link_object blake3 artifact_id bytes tree =
     (let (bucket, name) = object_path artifact_id in
      case map_of tree bucket of
        Some (Directory files) \<Rightarrow>
          (case map_of files name of
             None \<Rightarrow> Ok (AList.update bucket (Directory (AList.update name (Regular bytes) files)) tree)
           | Some _ \<Rightarrow> and_then (verify_existing_identity blake3 tree artifact_id) (\<lambda>_. Ok tree))
      | _ \<Rightarrow> Err (ArtifactIo ''No such directory''))"

definition put_reader ::
    "(u8 list \<Rightarrow> digest) \<Rightarrow> publication \<Rightarrow> u8 list list \<Rightarrow> string \<Rightarrow> object_tree \<Rightarrow>
     (artifact_error, artifact_descriptor) result \<times> object_tree" where
  "put_reader blake3 os chunks media_type tree =
     (case validate_media_type media_type of
        Inl e \<Rightarrow> (Err e, tree)
      | Inr _ \<Rightarrow>
          let bytes = concat chunks; artifact_id = blake3 bytes in
          (case pb_failure os of
             Some (BeforeLink message) \<Rightarrow> (Err (ArtifactIo message), leave_temporary os tree)
           | failure \<Rightarrow>
               (case ensure_bucket (fst (object_path artifact_id)) tree of
                  Inl e \<Rightarrow> (Err e, leave_temporary os tree)
                | Inr tree1 \<Rightarrow>
                    (case failure of
                       Some (AtLink message) \<Rightarrow> (Err (ArtifactIo message), leave_temporary os tree1)
                     | _ \<Rightarrow>
                         (case link_object blake3 artifact_id bytes tree1 of
                            Inl e \<Rightarrow> (Err e, leave_temporary os tree1)
                          | Inr tree2 \<Rightarrow>
                              (case failure of
                                 Some (AfterLink message) \<Rightarrow> (Err (ArtifactIo message), leave_temporary os tree2)
                               | _ \<Rightarrow>
                                   (and_then (verify_existing_identity blake3 tree2 artifact_id) (\<lambda>_.
                                      Ok \<lparr>ad_artifact_id = artifact_id, ad_byte_len = len_u64 bytes,
                                          ad_media_type = media_type\<rparr>), tree2)))))))"

definition file_put ::
    "(u8 list \<Rightarrow> digest) \<Rightarrow> publication \<Rightarrow> u8 list \<Rightarrow> string \<Rightarrow> object_tree \<Rightarrow>
     (artifact_error, artifact_descriptor) result \<times> object_tree" where
  "file_put blake3 os bytes media_type tree = put_reader blake3 os [bytes] media_type tree"

subsection \<open>Listing and removing objects\<close>

definition is_ascii_hexdigit :: "char \<Rightarrow> bool" where
  "is_ascii_hexdigit c = (is_hex_digit c \<or> (65 \<le> byte_of c \<and> byte_of c \<le> 70))"

definition strip_suffix :: "string \<Rightarrow> string \<Rightarrow> string option" where
  "strip_suffix suffix name =
     (if length suffix \<le> length name \<and> drop (length name - length suffix) name = suffix
      then Some (take (length name - length suffix) name) else None)"

definition is_private_artifact_temporary_name :: "string \<Rightarrow> bool" where
  "is_private_artifact_temporary_name name =
     (case name of
        [] \<Rightarrow> False
      | c # rest \<Rightarrow>
          c = CHR ''.'' \<and>
          (case strip_suffix ''.artifact.tmp'' rest of
             None \<Rightarrow> False
           | Some stem \<Rightarrow>
               let process_id = takeWhile (\<lambda>c. c \<noteq> CHR ''-'') stem;
                   nonce = drop (Suc (length process_id)) stem
               in length process_id < length stem \<and> process_id \<noteq> [] \<and>
                  list_all is_ascii_digit process_id \<and> length nonce = 16 \<and> list_all is_ascii_hexdigit nonce))"

definition inventory_file :: "string \<Rightarrow> string \<times> object_file \<Rightarrow> (artifact_error, artifact_inventory_item) result" where
  "inventory_file bucket entry =
     (case from_hex (fst entry) of
        Inl _ \<Rightarrow> Err (UnsafePath NotADigest)
      | Inr artifact_id \<Rightarrow>
          if take 2 (to_hex artifact_id) \<noteq> bucket \<or> object_path artifact_id \<noteq> (bucket, fst entry)
          then Err (UnsafePath PathMismatch)
          else (case snd entry of
                  Irregular \<Rightarrow> Err (UnsafePath ObjectNotRegular)
                | Regular bytes \<Rightarrow> Ok \<lparr>ai_artifact_id = artifact_id, ai_byte_len = len_u64 bytes\<rparr>))"

definition inventory_bucket :: "string \<times> tree_entry \<Rightarrow> (artifact_error, artifact_inventory_item list) result" where
  "inventory_bucket bucket =
     (if is_private_artifact_temporary_name (fst bucket) then Ok []
      else (case snd bucket of
              OtherEntry \<Rightarrow> Err (UnsafePath BucketNotDirectory)
            | Directory files \<Rightarrow>
                if length (fst bucket) \<noteq> 2 \<or> \<not> list_all is_ascii_hexdigit (fst bucket)
                then Err (UnsafePath BucketName)
                else try_map (inventory_file (fst bucket)) files))"

definition file_inventory :: "object_tree \<Rightarrow> (artifact_error, artifact_inventory_item list) result" where
  "file_inventory tree =
     and_then (try_map inventory_bucket tree) (\<lambda>items. Ok (sort_key ai_artifact_id (concat items)))"

text \<open>How deleting a file ends: done, refused, or done but the directory is not synchronized.\<close>

datatype removal = Removed | NotRemoved string | RemovedUnsynced string

definition unlink_object :: "artifact_id \<Rightarrow> object_tree \<Rightarrow> object_tree" where
  "unlink_object artifact_id tree =
     (let (bucket, name) = object_path artifact_id in
      case map_of tree bucket of
        Some (Directory files) \<Rightarrow> AList.update bucket (Directory (AList.delete name files)) tree
      | _ \<Rightarrow> tree)"

definition file_remove ::
    "(u8 list \<Rightarrow> digest) \<Rightarrow> (artifact_id \<Rightarrow> removal) \<Rightarrow> artifact_id \<Rightarrow> object_tree \<Rightarrow>
     (artifact_error, unit) result \<times> object_tree" where
  "file_remove blake3 os artifact_id tree =
     (case verify_existing_identity blake3 tree artifact_id of
        Inl e \<Rightarrow> (Err e, tree)
      | Inr _ \<Rightarrow>
          (case os artifact_id of
             NotRemoved message \<Rightarrow> (Err (ArtifactIo message), tree)
           | RemovedUnsynced message \<Rightarrow> (Err (ArtifactIo message), unlink_object artifact_id tree)
           | Removed \<Rightarrow> (Ok (), unlink_object artifact_id tree)))"

subsection \<open>Reading pages and searching a stream\<close>

definition file_read_page ::
    "(u8 list \<Rightarrow> digest) \<Rightarrow> object_tree \<Rightarrow> artifact_id \<Rightarrow> nat \<Rightarrow> nat \<Rightarrow>
     (artifact_error, artifact_page) result" where
  "file_read_page blake3 tree artifact_id offset maximum_bytes =
     and_then (validate_bound maximum_bytes) (\<lambda>_.
     and_then (verify_existing_identity blake3 tree artifact_id) (\<lambda>_.
     and_then (read_object_file tree artifact_id) (\<lambda>bytes.
       let offset = min offset (length bytes);
           available = length bytes - offset;
           count = min available maximum_bytes
       in Ok \<lparr>pg_offset = offset, pg_bytes = take count (drop offset bytes), pg_eof = (count = available)\<rparr>)))"

text \<open>
  The search over the buffers a file is read in: the bytes of the last buffer that could begin a
  match are carried over to the next one. The offsets of the matches are collected here; the context
  of each is read from the file as in \<open>match_at\<close>.
\<close>

fun stream_starts :: "nat \<Rightarrow> u8 list \<Rightarrow> u8 list \<Rightarrow> nat \<Rightarrow> u8 list list \<Rightarrow> nat list" where
  "stream_starts remaining query carry consumed [] = []"
| "stream_starts remaining query carry consumed (buffer # buffers) =
     (if remaining = 0 then []
      else
        let scan = carry @ buffer;
            base_offset = consumed - length carry;
            first_new_start = length carry - (length query - 1);
            starts = match_starts remaining query scan first_new_start;
            keep = min (length query - 1) (length scan);
            carry' = drop (length scan - keep) scan
        in map (\<lambda>start. base_offset + start) starts @
           stream_starts (remaining - length starts) query carry' (consumed + length buffer) buffers)"

definition file_search_literal ::
    "(u8 list \<Rightarrow> digest) \<Rightarrow> object_tree \<Rightarrow> artifact_id \<Rightarrow> u8 list list \<Rightarrow> u8 list \<Rightarrow> nat \<Rightarrow> nat \<Rightarrow>
     (artifact_error, artifact_match list) result" where
  "file_search_literal blake3 tree artifact_id buffers query maximum_results context_bytes =
     and_then (validate_search_bounds query maximum_results context_bytes) (\<lambda>_.
     and_then (verify_existing_identity blake3 tree artifact_id) (\<lambda>_.
     and_then (read_object_file tree artifact_id) (\<lambda>bytes.
       Ok (map (match_at bytes query context_bytes) (stream_starts maximum_results query [] 0 buffers)))))"

section \<open>The interface the collector and the verifier use\<close>

text \<open>The methods of \<open>dyn ArtifactStore\<close> that they call, as a record of functions over the store's state.\<close>

record 's artifact_ops =
  ao_inventory :: "'s \<Rightarrow> (artifact_error, artifact_inventory_item list) result"
  ao_remove :: "artifact_id \<Rightarrow> 's \<Rightarrow> (artifact_error, unit) result \<times> 's"
  ao_verify_object :: "'s \<Rightarrow> artifact_id \<Rightarrow> (artifact_error, u64) result"

definition memory_ops :: "(u8 list \<Rightarrow> digest) \<Rightarrow> memory_artifact_store artifact_ops" where
  "memory_ops blake3 =
     \<lparr>ao_inventory = memory_inventory, ao_remove = memory_remove, ao_verify_object = memory_verify_object blake3\<rparr>"

definition file_ops :: "(u8 list \<Rightarrow> digest) \<Rightarrow> (artifact_id \<Rightarrow> removal) \<Rightarrow> object_tree artifact_ops" where
  "file_ops blake3 os =
     \<lparr>ao_inventory = file_inventory, ao_remove = file_remove blake3 os,
      ao_verify_object = verify_existing_identity blake3\<rparr>"

end
