(* ===== verification/Artifact_Gc.thy ===== *)
theory Artifact_Gc
  imports Artifact_Store Session_File
begin

text \<open>
  Garbage collection of artifacts (\<open>gc.rs\<close>) and the read-only verification of a session with its
  artifacts (\<open>verification.rs\<close>), over any artifact store given by its \<open>artifact_ops\<close>, and the
  collection a session file starts on its own directory of objects (\<open>jsonl.rs\<close>).

  A \<open>BTreeSet\<close> of identities that is iterated is the strictly increasing list of its elements.
\<close>

section \<open>Collection\<close>

record artifact_quota =
  aq_maximum_objects :: "nat option"
  aq_maximum_bytes :: "u64 option"

record artifact_quota_status =
  qs_object_count :: nat
  qs_byte_count :: u64
  qs_objects_within_limit :: bool
  qs_bytes_within_limit :: bool

definition is_within_limit :: "artifact_quota_status \<Rightarrow> bool" where
  "is_within_limit status \<longleftrightarrow> qs_objects_within_limit status \<and> qs_bytes_within_limit status"

record artifact_gc_plan =
  gp_reachable :: "artifact_id list"
  gp_unreferenced :: "artifact_inventory_item list"
  gp_quota_status :: artifact_quota_status

record artifact_gc_report =
  gr_removed :: "artifact_inventory_item list"
  gr_quota_status :: artifact_quota_status

abbreviation identity_set :: "artifact_id list \<Rightarrow> artifact_id list" where
  "identity_set ids \<equiv> sorted_list_of_set (set ids)"

fun settled_artifact :: "lane_record \<Rightarrow> artifact_id list" where
  "settled_artifact (ProviderRequestSettled settled) =
     (case st_response_artifact settled of None \<Rightarrow> [] | Some artifact \<Rightarrow> [artifact])"
| "settled_artifact _ = []"

definition session_artifact_roots :: "session_snapshot \<Rightarrow> artifact_id list" where
  "session_artifact_roots snapshot =
     identity_set
       (concat (map (\<lambda>entry. entry_artifact_references (se_body entry)) (ss_entries snapshot)) @
        concat (map (\<lambda>record. settled_artifact (sr_record record)) (ss_records snapshot)) @
        concat (map (\<lambda>fact. fact_artifact_references (sf_fact fact)) (ss_facts snapshot)))"

definition quota_status :: "artifact_inventory_item list \<Rightarrow> artifact_quota \<Rightarrow> artifact_quota_status" where
  "quota_status inventory quota =
     (let object_count = length inventory;
          byte_count = fold (\<lambda>item total. saturating_add total (ai_byte_len item)) inventory 0
      in \<lparr>qs_object_count = object_count, qs_byte_count = byte_count,
          qs_objects_within_limit =
            (case aq_maximum_objects quota of None \<Rightarrow> True | Some limit \<Rightarrow> object_count \<le> limit),
          qs_bytes_within_limit =
            (case aq_maximum_bytes quota of None \<Rightarrow> True | Some limit \<Rightarrow> byte_count \<le> limit)\<rparr>)"

abbreviation by_id :: "artifact_inventory_item list \<Rightarrow> (artifact_id, artifact_inventory_item) btree" where
  "by_id inventory \<equiv> btree_of (map (\<lambda>item. (ai_artifact_id item, item)) inventory)"

definition check_present ::
    "artifact_inventory_item list \<Rightarrow> artifact_id list \<Rightarrow> (artifact_error, unit) result" where
  "check_present inventory reachable =
     check_all (\<lambda>artifact_id.
       if btree_contains (by_id inventory) artifact_id then Ok () else Err (NotFound artifact_id)) reachable"

definition plan_artifact_gc ::
    "'s artifact_ops \<Rightarrow> 's \<Rightarrow> session_snapshot \<Rightarrow> artifact_id list \<Rightarrow> artifact_quota \<Rightarrow>
     (artifact_error, artifact_gc_plan) result" where
  "plan_artifact_gc ops store snapshot additional_roots quota =
     (let reachable = identity_set (session_artifact_roots snapshot @ additional_roots) in
      and_then (ao_inventory ops store) (\<lambda>inventory.
      and_then (check_present inventory reachable) (\<lambda>_.
        Ok \<lparr>gp_reachable = reachable,
            gp_unreferenced = filter (\<lambda>item. ai_artifact_id item \<notin> set reachable) inventory,
            gp_quota_status = quota_status inventory quota\<rparr>)))"

text \<open>The loop over the planned objects: the removed ones, or the first failure, and the store.\<close>

fun remove_planned ::
    "'s artifact_ops \<Rightarrow> artifact_inventory_item list \<Rightarrow> artifact_inventory_item list \<Rightarrow> 's \<Rightarrow>
     (artifact_error, artifact_inventory_item list) result \<times> 's" where
  "remove_planned ops current [] store = (Ok [], store)"
| "remove_planned ops current (planned # rest) store =
     (case btree_get (by_id current) (ai_artifact_id planned) of
        None \<Rightarrow> (Err (NotFound (ai_artifact_id planned)), store)
      | Some current_item \<Rightarrow>
          if ai_byte_len current_item \<noteq> ai_byte_len planned
          then (Err (ArtifactCorruption (ai_artifact_id planned)), store)
          else (case ao_remove ops (ai_artifact_id planned) store of
                  (Inl e, store') \<Rightarrow> (Err e, store')
                | (Inr _, store') \<Rightarrow>
                    (case remove_planned ops current rest store' of
                       (Inl e, store'') \<Rightarrow> (Err e, store'')
                     | (Inr removed, store'') \<Rightarrow> (Ok (planned # removed), store''))))"

definition apply_artifact_gc ::
    "'s artifact_ops \<Rightarrow> artifact_gc_plan \<Rightarrow> artifact_quota \<Rightarrow> 's \<Rightarrow>
     (artifact_error, artifact_gc_report) result \<times> 's" where
  "apply_artifact_gc ops plan quota store =
     (case and_then (ao_inventory ops store) (\<lambda>current.
             and_then (check_present current (gp_reachable plan)) (\<lambda>_. Ok current)) of
        Inl e \<Rightarrow> (Err e, store)
      | Inr current \<Rightarrow>
          (case remove_planned ops current (gp_unreferenced plan) store of
             (Inl e, store') \<Rightarrow> (Err e, store')
           | (Inr removed, store') \<Rightarrow>
               (and_then (ao_inventory ops store') (\<lambda>after.
                  Ok \<lparr>gr_removed = removed, gr_quota_status = quota_status after quota\<rparr>), store')))"

text \<open>\<open>JsonlSession::collect_unreferenced_artifacts\<close>, on the tree of objects beside the file.\<close>

definition collect_unreferenced_artifacts ::
    "(u8 list \<Rightarrow> digest) \<Rightarrow> (artifact_id \<Rightarrow> removal) \<Rightarrow> jsonl_session \<Rightarrow> artifact_id list \<Rightarrow>
     artifact_quota \<Rightarrow> object_tree \<Rightarrow> (artifact_error, artifact_gc_report) result \<times> object_tree" where
  "collect_unreferenced_artifacts blake3 os session additional_roots quota tree =
     (case js_fault session of
        Some message \<Rightarrow> (Err (InvalidRequest (FaultedWriter message)), tree)
      | None \<Rightarrow>
          (case plan_artifact_gc (file_ops blake3 os) tree (js_snapshot session) additional_roots quota of
             Inl e \<Rightarrow> (Err e, tree)
           | Inr plan \<Rightarrow> apply_artifact_gc (file_ops blake3 os) plan quota tree))"

section \<open>Verification\<close>

datatype session_verification_error =
    VerificationCorruption session_error
  | VerificationArtifact artifact_error
  | LengthMismatch artifact_id u64 u64
  | ConflictingLength artifact_id u64 u64

record session_verification =
  sn_session_id :: session_id
  sn_last_sequence :: sequence
  sn_last_digest :: digest
  sn_artifact_roots :: "artifact_id list"
  sn_artifact_count :: nat
  sn_artifact_bytes :: u64
  sn_orphaned_artifacts :: "artifact_inventory_item list"

type_synonym length_table = "(artifact_id, u64) btree"

definition record_length ::
    "artifact_id \<Rightarrow> u64 \<Rightarrow> length_table \<Rightarrow> (session_verification_error, length_table) result" where
  "record_length artifact_id byte_len expected =
     (case btree_get expected artifact_id of
        Some first \<Rightarrow>
          if first \<noteq> byte_len then Err (ConflictingLength artifact_id first byte_len)
          else Ok (btree_insert artifact_id byte_len expected)
      | None \<Rightarrow> Ok (btree_insert artifact_id byte_len expected))"

fun record_payload_length ::
    "payload_ref \<Rightarrow> length_table \<Rightarrow> (session_verification_error, length_table) result" where
  "record_payload_length (Artifact artifact_id byte_len _) expected = record_length artifact_id byte_len expected"
| "record_payload_length (Inline _) expected = Ok expected"

fun record_entry_length ::
    "length_table \<Rightarrow> session_entry \<Rightarrow> (session_verification_error, length_table) result" where
  "record_entry_length expected (ToolResult entry) = record_payload_length (tr_full_result entry) expected"
| "record_entry_length expected (PluginMemory entry) = record_payload_length (pm_content entry) expected"
| "record_entry_length expected (CustomEntry entry) = record_payload_length (cu_payload entry) expected"
| "record_entry_length expected (Compaction entry) = record_payload_length (ce_replacement entry) expected"
| "record_entry_length expected _ = Ok expected"

fun record_fact_length ::
    "length_table \<Rightarrow> session_fact \<Rightarrow> (session_verification_error, length_table) result" where
  "record_fact_length expected (WorkspaceDelta delta) = record_payload_length (wf_patch delta) expected"
| "record_fact_length expected (AgentTaskFinished result) = record_payload_length (at_report result) expected"
| "record_fact_length expected (HarnessCatalog catalog) = record_length (hc_artifact_id catalog) (hc_byte_len catalog) expected"
| "record_fact_length expected (ToolSchemaDeviation deviation) = record_payload_length (sd_raw_arguments deviation) expected"
| "record_fact_length expected (TraceArtifact trace) = record_length (ta_artifact_id trace) (ta_byte_len trace) expected"
| "record_fact_length expected (ProviderRequestMaterial material) = record_payload_length (mf_request material) expected"
| "record_fact_length expected _ = Ok expected"

definition expected_artifact_lengths :: "session_snapshot \<Rightarrow> (session_verification_error, length_table) result" where
  "expected_artifact_lengths snapshot =
     and_then (try_fold record_entry_length [] (map se_body (ss_entries snapshot))) (\<lambda>expected.
       try_fold record_fact_length expected (map sf_fact (ss_facts snapshot)))"

definition verify_root ::
    "'s artifact_ops \<Rightarrow> 's \<Rightarrow> length_table \<Rightarrow> u64 \<Rightarrow> artifact_id \<Rightarrow> (session_verification_error, u64) result" where
  "verify_root ops store expected artifact_bytes artifact_id =
     and_then (map_err VerificationArtifact (ao_verify_object ops store artifact_id)) (\<lambda>actual.
       (case btree_get expected artifact_id of
          Some len \<Rightarrow>
            if len \<noteq> actual then Err (LengthMismatch artifact_id len actual)
            else Ok (saturating_add artifact_bytes actual)
        | None \<Rightarrow> Ok (saturating_add artifact_bytes actual)))"

definition verify_session ::
    "session_io \<Rightarrow> 's artifact_ops \<Rightarrow> 's \<Rightarrow> session_snapshot \<Rightarrow> artifact_id list \<Rightarrow>
     (session_verification_error, session_verification) result" where
  "verify_session io ops store snapshot additional_roots =
     and_then (map_err VerificationCorruption (validate_snapshot io snapshot)) (\<lambda>_.
     and_then (expected_artifact_lengths snapshot) (\<lambda>expected.
       let artifact_roots = identity_set (session_artifact_roots snapshot @ additional_roots) in
       and_then (try_fold (verify_root ops store expected) 0 artifact_roots) (\<lambda>artifact_bytes.
       and_then (map_err VerificationArtifact (ao_inventory ops store)) (\<lambda>inventory.
         Ok \<lparr>sn_session_id = sh_session_id (ss_header snapshot), sn_last_sequence = ss_last_sequence snapshot,
             sn_last_digest = ss_last_digest snapshot, sn_artifact_roots = artifact_roots,
             sn_artifact_count = length artifact_roots, sn_artifact_bytes = artifact_bytes,
             sn_orphaned_artifacts = filter (\<lambda>item. ai_artifact_id item \<notin> set artifact_roots) inventory\<rparr>))))"

end
