(* ===== verification/Artifact_Contract.thy ===== *)
theory Artifact_Contract
  imports Artifact_Gc
begin

text \<open>
  What the collector and the verifier rely on of an artifact store, stated once as a locale over the
  store's operations, with the guarantees of collection and verification proved inside; and the two
  stores as its interpretations.
\<close>

section \<open>Lists of identities\<close>

lemma is_ok_try_map: "is_ok (try_map f xs) \<longleftrightarrow> (\<forall>x \<in> set xs. is_ok (f x))"
  by (induction xs) (auto simp: is_ok_iff result_simps)

lemma map_of_by_id:
  assumes "distinct (map ai_artifact_id items)"
  shows "btree_get (by_id items) i = Some item \<longleftrightarrow> item \<in> set items \<and> ai_artifact_id item = i"
proof -
  let ?ps = "rev (map (\<lambda>item. (ai_artifact_id item, item)) items)"
  have "distinct (map fst ?ps)" using assms by (simp add: comp_def rev_map [symmetric])
  then show ?thesis by (auto simp: btree_get_of map_of_eq_Some_iff)
qed

lemma check_present_ok:
  assumes "distinct (map ai_artifact_id items)"
  shows "check_present items ids = Inr () \<longleftrightarrow> set ids \<subseteq> ai_artifact_id ` set items"
proof -
  have "btree_contains (by_id items) i \<longleftrightarrow> i \<in> ai_artifact_id ` set items" for i
    using map_of_by_id [OF assms] by (auto simp: btree_contains_def)
  then show ?thesis by (auto simp: check_present_def check_all_ok)
qed

section \<open>The contract\<close>

locale artifact_contract =
  fixes ops :: "'s artifact_ops"
    and objects :: "'s \<Rightarrow> artifact_id \<Rightarrow> u8 list option"
    and ok :: "'s \<Rightarrow> bool"
    and hash :: "u8 list \<Rightarrow> digest"
    and willing :: "artifact_id \<Rightarrow> bool"
  assumes inventory_sorted: "ok s \<Longrightarrow> ao_inventory ops s = Inr items \<Longrightarrow> sorted_wrt (<) (map ai_artifact_id items)"
    and inventory_items: "ok s \<Longrightarrow> ao_inventory ops s = Inr items \<Longrightarrow>
      item \<in> set items \<longleftrightarrow> (\<exists>b. objects s (ai_artifact_id item) = Some b \<and> ai_byte_len item = len_u64 b)"
    and remove_objects: "ok s \<Longrightarrow> ao_remove ops i s = (r, s') \<Longrightarrow>
      ok s' \<and> (objects s' = objects s \<and> r \<noteq> Inr () \<or> objects s' = (objects s)(i := None))"
    and remove_inventory: "ok s \<Longrightarrow> ao_remove ops i s = (r, s') \<Longrightarrow> is_ok (ao_inventory ops s) \<Longrightarrow>
      is_ok (ao_inventory ops s')"
    and remove_succeeds: "ok s \<Longrightarrow> objects s i = Some b \<Longrightarrow> hash b = i \<Longrightarrow> willing i \<Longrightarrow>
      fst (ao_remove ops i s) = Inr ()"
    and verify_object: "ok s \<Longrightarrow> ao_verify_object ops s i = Inr n \<longleftrightarrow>
      (\<exists>b. objects s i = Some b \<and> hash b = i \<and> n = len_u64 b)"
begin

lemma inventory_distinct: "ok s \<Longrightarrow> ao_inventory ops s = Inr items \<Longrightarrow> distinct (map ai_artifact_id items)"
  using inventory_sorted strict_sorted_iff by blast

lemma inventory_ids: "ok s \<Longrightarrow> ao_inventory ops s = Inr items \<Longrightarrow> ai_artifact_id ` set items = dom (objects s)"
proof -
  assume inv: "ok s" "ao_inventory ops s = Inr items"
  have "\<lparr>ai_artifact_id = i, ai_byte_len = len_u64 b\<rparr> \<in> set items" if "objects s i = Some b" for i b
    using that inventory_items [OF inv] by simp
  then have "dom (objects s) \<subseteq> ai_artifact_id ` set items" by (force simp: image_iff)
  moreover have "ai_artifact_id item \<in> dom (objects s)" if "item \<in> set items" for item
    using that inventory_items [OF inv] by blast
  ultimately show ?thesis by blast
qed

text \<open>What a plan says, and that every reachable object exists.\<close>

lemma plan_facts:
  assumes "ok s" and "plan_artifact_gc ops s snapshot additional quota = Inr plan"
  shows "set (gp_reachable plan) = set (session_artifact_roots snapshot) \<union> set additional"
    and "set (gp_reachable plan) \<subseteq> dom (objects s)"
    and "ai_artifact_id ` set (gp_unreferenced plan) = dom (objects s) - set (gp_reachable plan)"
    and "\<exists>items. ao_inventory ops s = Inr items \<and> set (gp_unreferenced plan) \<subseteq> set items"
proof -
  from assms(2) obtain items where items: "ao_inventory ops s = Inr items"
    and present: "check_present items (gp_reachable plan) = Inr ()"
    and plan: "gp_reachable plan = identity_set (session_artifact_roots snapshot @ additional)"
      "gp_unreferenced plan = filter (\<lambda>item. ai_artifact_id item \<notin> set (gp_reachable plan)) items"
    by (auto simp: plan_artifact_gc_def Let_def result_simps)
  note ids = inventory_ids [OF assms(1) items]
  show "set (gp_reachable plan) = set (session_artifact_roots snapshot) \<union> set additional" using plan(1) by simp
  show "set (gp_reachable plan) \<subseteq> dom (objects s)"
    using present check_present_ok [OF inventory_distinct [OF assms(1) items]] ids by simp
  show "ai_artifact_id ` set (gp_unreferenced plan) = dom (objects s) - set (gp_reachable plan)"
    unfolding plan(2) ids [symmetric] by auto
  show "\<exists>items. ao_inventory ops s = Inr items \<and> set (gp_unreferenced plan) \<subseteq> set items"
    using items plan(2) by auto
qed

lemma unreferenced_apart:
  "ok s \<Longrightarrow> plan_artifact_gc ops s snapshot additional quota = Inr plan \<Longrightarrow>
   i \<in> set (gp_reachable plan) \<Longrightarrow> i \<notin> ai_artifact_id ` set (gp_unreferenced plan)"
  using plan_facts(3) by blast

text \<open>Removing planned objects touches no other object, whether it ends well or not.\<close>

lemma remove_planned_objects:
  assumes "ok s" and "remove_planned ops current planned s = (r, s')"
  shows "ok s' \<and> (\<forall>i. i \<notin> ai_artifact_id ` set planned \<longrightarrow> objects s' i = objects s i) \<and>
    (is_ok (ao_inventory ops s) \<longrightarrow> is_ok (ao_inventory ops s')) \<and> dom (objects s') \<subseteq> dom (objects s) \<and>
    (\<forall>removed. r = Inr removed \<longrightarrow> removed = planned \<and> ai_artifact_id ` set planned \<inter> dom (objects s') = {})"
  using assms
proof (induction planned arbitrary: s r s')
  case (Cons p planned)
  show ?case
  proof (cases "\<exists>c. btree_get (by_id current) (ai_artifact_id p) = Some c \<and> ai_byte_len c = ai_byte_len p")
    case True
    obtain e t where t: "ao_remove ops (ai_artifact_id p) s = (e, t)" by fastforce
    note step = remove_objects [OF Cons.prems(1) t] remove_inventory [OF Cons.prems(1) t]
    show ?thesis
    proof (cases e)
      case (Inl x)
      with True t Cons.prems(2) have "s' = t" "r = Inl x" by auto
      with step show ?thesis by (auto split: if_splits)
    next
      case (Inr u)
      obtain r' t' where rest: "remove_planned ops current planned t = (r', t')" by fastforce
      with True t Inr Cons.prems(2) have final: "s' = t'"
        "r = (case r' of Inl x \<Rightarrow> Inl x | Inr removed \<Rightarrow> Inr (p # removed))"
        by (auto split: sum.splits)
      from step(1) Inr have "ok t" "objects t = (objects s)(ai_artifact_id p := None)" by auto
      with Cons.IH [OF _ rest] step(2) final show ?thesis
        by (cases r') (auto split: if_splits)
    qed
  next
    case False
    with Cons.prems(2) have "s' = s" "\<exists>x. r = Inl x" by (auto split: option.splits if_splits)
    with Cons.prems(1) show ?thesis by auto
  qed
qed auto

text \<open>A plan protects its roots: also when the store changed since it was made.\<close>

lemma apply_keeps_reachable:
  assumes "ok s0" "plan_artifact_gc ops s0 snapshot additional quota = Inr plan"
    and "ok s" "apply_artifact_gc ops plan quota' s = (r, s')" "i \<in> set (gp_reachable plan)"
  shows "objects s' i = objects s i"
proof -
  have "s' = s \<or> (\<exists>current r'. remove_planned ops current (gp_unreferenced plan) s = (r', s'))"
    using assms(4) by (auto simp: apply_artifact_gc_def split: sum.splits prod.splits)
  with remove_planned_objects [OF assms(3)] unreferenced_apart [OF assms(1,2,5)] show ?thesis by metis
qed

lemma apply_exact:
  assumes "ok s" "plan_artifact_gc ops s snapshot additional quota = Inr plan"
    and "apply_artifact_gc ops plan quota' s = (Inr report, s')"
  shows "ok s'" "objects s' = objects s |` set (gp_reachable plan)" "gr_removed report = gp_unreferenced plan"
    "is_ok (ao_inventory ops s')"
proof -
  from assms(3) obtain current removed where
    removed: "remove_planned ops current (gp_unreferenced plan) s = (Inr removed, s')"
    and report: "gr_removed report = removed" and after: "is_ok (ao_inventory ops s')"
    by (auto simp: apply_artifact_gc_def result_simps is_ok_iff split: sum.splits prod.splits)
  note r = remove_planned_objects [OF assms(1) removed]
  then show "ok s'" "gr_removed report = gp_unreferenced plan" using report by auto
  show "is_ok (ao_inventory ops s')" using after .
  show "objects s' = objects s |` set (gp_reachable plan)"
    using r plan_facts(3) [OF assms(1,2)] by (force simp: restrict_map_def fun_eq_iff dom_def)
qed

text \<open>A collection with a fresh plan succeeds when the objects to remove can be removed.\<close>

lemma remove_planned_succeeds:
  assumes "ok s" "distinct (map ai_artifact_id current)" "distinct (map ai_artifact_id planned)"
    and "set planned \<subseteq> set current"
    and "\<And>i. i \<in> ai_artifact_id ` set planned \<Longrightarrow> willing i \<and> (\<exists>b. objects s i = Some b \<and> hash b = i)"
  shows "is_ok (fst (remove_planned ops current planned s))"
  using assms(1,3-5)
proof (induction planned arbitrary: s)
  case (Cons p planned)
  have get: "btree_get (by_id current) (ai_artifact_id p) = Some p"
    using Cons.prems(3) map_of_by_id [OF assms(2)] by auto
  obtain e t where t: "ao_remove ops (ai_artifact_id p) s = (e, t)" by fastforce
  have "e = Inr ()"
    using Cons.prems(4) [of "ai_artifact_id p"] remove_succeeds [OF Cons.prems(1), of "ai_artifact_id p"] t by auto
  with remove_objects [OF Cons.prems(1) t] have "ok t" "objects t = (objects s)(ai_artifact_id p := None)" by auto
  moreover have "willing i \<and> (\<exists>b. objects t i = Some b \<and> hash b = i)" if "i \<in> ai_artifact_id ` set planned" for i
  proof -
    have "i \<noteq> ai_artifact_id p" using that Cons.prems(2) by (metis distinct.simps(2) list.simps(9) set_map)
    with that calculation(2) Cons.prems(4) [of i] show ?thesis by simp
  qed
  ultimately have "is_ok (fst (remove_planned ops current planned t))"
    using Cons.IH [of t] Cons.prems(2,3) by simp
  with get t \<open>e = Inr ()\<close> show ?case by (auto simp: is_ok_iff split: prod.splits)
qed simp

lemma apply_succeeds:
  assumes "ok s" "plan_artifact_gc ops s snapshot additional quota = Inr plan"
    and removable: "\<And>i b. objects s i = Some b \<Longrightarrow> i \<notin> set (gp_reachable plan) \<Longrightarrow> willing i \<and> hash b = i"
  shows "is_ok (fst (apply_artifact_gc ops plan quota' s))"
proof -
  note facts = plan_facts [OF assms(1,2)]
  from facts(4) obtain items where items: "ao_inventory ops s = Inr items"
    and unref: "gp_unreferenced plan = filter (\<lambda>item. ai_artifact_id item \<notin> set (gp_reachable plan)) items"
    using assms(2) by (auto simp: plan_artifact_gc_def Let_def result_simps)
  note dist = inventory_distinct [OF assms(1) items]
  have "check_present items (gp_reachable plan) = Inr ()"
    using check_present_ok [OF dist] inventory_ids [OF assms(1) items] facts(2) by simp
  moreover obtain r s' where r: "remove_planned ops items (gp_unreferenced plan) s = (r, s')" by fastforce
  have "is_ok (fst (remove_planned ops items (gp_unreferenced plan) s))"
  proof (rule remove_planned_succeeds [OF assms(1) dist])
    show "distinct (map ai_artifact_id (gp_unreferenced plan))"
      using dist by (simp add: unref distinct_map_filter)
    show "set (gp_unreferenced plan) \<subseteq> set items" by (auto simp: unref)
    fix i assume "i \<in> ai_artifact_id ` set (gp_unreferenced plan)"
    then have "i \<in> dom (objects s)" "i \<notin> set (gp_reachable plan)" using facts(3) by auto
    with removable show "willing i \<and> (\<exists>b. objects s i = Some b \<and> hash b = i)" by auto
  qed
  moreover have "is_ok (ao_inventory ops s')"
    using remove_planned_objects [OF assms(1) r] items by (simp add: is_ok_iff)
  ultimately show ?thesis
    using r items by (auto simp: apply_artifact_gc_def is_ok_iff result_simps)
qed

text \<open>A verified root exists, hashes to its identity and has the recorded length.\<close>

lemma verify_roots_ok:
  assumes "ok s" and "try_fold (verify_root ops s expected) start ids = Inr n" and "i \<in> set ids"
  shows "\<exists>b. objects s i = Some b \<and> hash b = i \<and> (\<forall>len. btree_get expected i = Some len \<longrightarrow> len = len_u64 b)"
  using assms(2,3)
proof (induction ids arbitrary: start)
  case (Cons j ids)
  then obtain m where m: "verify_root ops s expected start j = Inr m"
    and rest: "try_fold (verify_root ops s expected) m ids = Inr n" by (auto simp: result_simps)
  from m obtain a where a: "ao_verify_object ops s j = Inr a"
    and len: "\<forall>len. btree_get expected j = Some len \<longrightarrow> len = a"
    by (auto simp: verify_root_def result_simps split: option.splits if_splits)
  show ?case
  proof (cases "i = j")
    case True
    with a len verify_object [OF assms(1)] show ?thesis by metis
  qed (use Cons.IH [OF rest] Cons.prems(2) in simp)
qed simp

lemma verify_roots_same:
  assumes "ok s" "ok s'" and "try_fold (verify_root ops s expected) start ids = Inr n"
    and "\<And>i. i \<in> set ids \<Longrightarrow> objects s' i = objects s i"
  shows "try_fold (verify_root ops s' expected) start ids = Inr n"
  using assms(3,4)
proof (induction ids arbitrary: start)
  case (Cons j ids)
  then obtain m where m: "verify_root ops s expected start j = Inr m"
    and rest: "try_fold (verify_root ops s expected) m ids = Inr n" by (auto simp: result_simps)
  from m obtain a where a: "ao_verify_object ops s j = Inr a" by (auto simp: verify_root_def result_simps)
  then have "ao_verify_object ops s' j = Inr a"
    using verify_object [OF assms(1)] verify_object [OF assms(2)] Cons.prems(2) [of j] by simp
  with a m have "verify_root ops s' expected start j = Inr m" by (simp add: verify_root_def)
  with Cons.IH [OF rest] Cons.prems(2) show ?case by simp
qed simp

text \<open>Collection keeps a verified session verified and leaves no orphans.\<close>

lemma verify_after_collection:
  assumes "ok s" and verified: "verify_session io ops s snapshot additional = Inr v"
    and plan: "plan_artifact_gc ops s snapshot additional quota = Inr plan"
    and applied: "apply_artifact_gc ops plan quota' s = (Inr report, s')"
  shows "verify_session io ops s' snapshot additional = Inr (v\<lparr>sn_orphaned_artifacts := []\<rparr>)"
proof -
  note exact = apply_exact [OF assms(1) plan applied]
  let ?roots = "sorted_list_of_set (set (session_artifact_roots snapshot) \<union> set additional)"
  from plan have reachable: "gp_reachable plan = ?roots"
    by (auto simp: plan_artifact_gc_def Let_def result_simps)
  from exact(4) obtain items where items: "ao_inventory ops s' = Inr items" by (auto simp: is_ok_iff)
  have orphans: "filter (\<lambda>item. ai_artifact_id item \<notin> set ?roots) items = []"
    using inventory_ids [OF exact(1) items] exact(2) reachable by (auto simp: filter_empty_conv restrict_map_def split: if_splits)
  have "objects s' i = objects s i" if "i \<in> set ?roots" for i
    using that exact(2) reachable by (simp add: restrict_map_def)
  then have same: "try_fold (verify_root ops s' expected) 0 ?roots = Inr n"
    if "try_fold (verify_root ops s expected) 0 ?roots = Inr n" for expected n
    using verify_roots_same [OF assms(1) exact(1) that] by blast
  from verified items same orphans show ?thesis
    by (auto simp: verify_session_def Let_def result_simps)
qed

end

section \<open>The store in memory\<close>

lemma memory_inventory_items:
  assumes "btree_ok m" and "memory_inventory m = Inr items"
  shows "sorted_wrt (<) (map ai_artifact_id items)"
    and "item \<in> set items \<longleftrightarrow> (\<exists>b. btree_get m (ai_artifact_id item) = Some b \<and> ai_byte_len item = len_u64 b)"
proof -
  have items: "items = map (\<lambda>(i, b). \<lparr>ai_artifact_id = i, ai_byte_len = len_u64 b\<rparr>) m"
    using assms(2) by (simp add: memory_inventory_def)
  have "map ai_artifact_id items = map fst m" by (simp add: items case_prod_beta comp_def)
  with assms(1) show "sorted_wrt (<) (map ai_artifact_id items)" by (simp add: btree_ok_def)
  show "item \<in> set items \<longleftrightarrow> (\<exists>b. btree_get m (ai_artifact_id item) = Some b \<and> ai_byte_len item = len_u64 b)"
    unfolding items btree_mem_iff [OF assms(1), symmetric] by (cases item) (force simp: image_iff)
qed

interpretation memory_store: artifact_contract "memory_ops blake3" btree_get btree_ok blake3 "\<lambda>_. True"
  for blake3
proof
  fix m :: memory_artifact_store and i r m'
  assume ok: "btree_ok m" and removed: "ao_remove (memory_ops blake3) i m = (r, m')"
  then show "btree_ok m' \<and> (btree_get m' = btree_get m \<and> r \<noteq> Inr () \<or> btree_get m' = (btree_get m)(i := None))"
    by (auto simp: memory_ops_def memory_remove_def split: if_splits)
qed (auto simp: memory_ops_def memory_inventory_items memory_remove_def memory_verify_object_def memory_get_def
    memory_inventory_def btree_contains_def result_simps split: option.splits if_splits)

end
