(* ===== verification/Artifact_Search.thy ===== *)
theory Artifact_Search
  imports Artifact_Store
begin

text \<open>
  Reading an artifact: the streaming search and the page reader of the directory store against the
  trait's default methods on the whole object.
\<close>

section \<open>Occurrences\<close>

definition occurs_at :: "'a list \<Rightarrow> 'a list \<Rightarrow> nat \<Rightarrow> bool" where
  "occurs_at q bs i \<longleftrightarrow> take (length q) (drop i bs) = q"

definition occurrences :: "'a list \<Rightarrow> 'a list \<Rightarrow> nat \<Rightarrow> nat list" where
  "occurrences q bs c = filter (occurs_at q bs) [c..<length bs]"

text \<open>No proper prefix of the query is also its suffix, so two occurrences cannot overlap.\<close>

definition border_free :: "'a list \<Rightarrow> bool" where
  "border_free q \<longleftrightarrow> list_all (\<lambda>k. take k q \<noteq> drop (length q - k) q) [1..<length q]"

lemma occurs_at_bound:
  assumes "q \<noteq> []" "occurs_at q bs i"
  shows "i + length q \<le> length bs"
proof -
  have "length (take (length q) (drop i bs)) = length q" using assms(2) by (simp only: occurs_at_def)
  moreover have "0 < length q" using assms(1) by simp
  ultimately show ?thesis unfolding length_take length_drop by linarith
qed

lemma occurs_at_apart:
  assumes "border_free q" "occurs_at q bs i" "occurs_at q bs j" "i < j"
  shows "i + length q \<le> j"
proof (rule ccontr)
  assume "\<not> i + length q \<le> j"
  then obtain k where k: "k = i + length q - j" "0 < k" "k < length q" using assms(4) by auto
  have "take k q = take k (drop j bs)"
    using assms(3) k(3) unfolding occurs_at_def by (metis less_imp_le min.absorb1 take_take)
  also have "\<dots> = drop (j - i) (take (length q) (drop i bs))"
    using k assms(4) by (simp add: drop_take add.commute)
  also have "\<dots> = drop (length q - k) q"
    using assms(2,4) k unfolding occurs_at_def by simp
  finally have "take k q = drop (length q - k) q" .
  moreover have "k \<in> set [1..<length q]" using k(2,3) by simp
  ultimately show False using assms(1) unfolding border_free_def list_all_iff by blast
qed

lemma window_position_Some:
  "window_position q bs = Some i \<Longrightarrow> occurs_at q bs i \<and> (\<forall>j<i. \<not> occurs_at q bs j)"
proof (induction bs arbitrary: i)
  case (Cons b bs)
  then show ?case
    by (auto simp: occurs_at_def less_Suc_eq_0_disj split: if_splits)
qed (auto simp: occurs_at_def split: if_splits)

lemma window_position_None: "window_position q bs = None \<Longrightarrow> \<not> occurs_at q bs j"
proof (induction bs arbitrary: j)
  case (Cons b bs)
  then show ?case
    by (cases j) (auto simp: occurs_at_def split: if_splits)
qed (auto simp: occurs_at_def split: if_splits)

section \<open>The loop over the matches\<close>

lemma occurrences_short: "q \<noteq> [] \<Longrightarrow> length bs < c + length q \<Longrightarrow> occurrences q bs c = []"
  by (force simp: occurrences_def filter_empty_conv dest: occurs_at_bound)

lemma occurrences_split: "c \<le> d \<Longrightarrow> d \<le> length bs \<Longrightarrow>
  occurrences q bs c = filter (occurs_at q bs) [c..<d] @ occurrences q bs d"
  by (simp add: occurrences_def flip: filter_append upt_add_eq_append)
    (metis le_add_diff_inverse filter_append upt_add_eq_append)

lemma occurrences_none: "(\<And>j. c \<le> j \<Longrightarrow> \<not> occurs_at q bs j) \<Longrightarrow> occurrences q bs c = []"
  by (simp add: occurrences_def filter_empty_conv)

lemma occurrences_first:
  assumes "q \<noteq> []" "border_free q" "c \<le> i" "occurs_at q bs i" "\<And>j. c \<le> j \<Longrightarrow> j < i \<Longrightarrow> \<not> occurs_at q bs j"
  shows "occurrences q bs c = i # occurrences q bs (i + length q)"
proof -
  have bound: "i + length q \<le> length bs" using assms(1,4) by (rule occurs_at_bound)
  have "filter (occurs_at q bs) [c..<i] = []"
    using assms(5) by (simp add: filter_empty_conv)
  moreover have "filter (occurs_at q bs) [Suc i..<i + length q] = []"
    using occurs_at_apart [OF assms(2,4)] by (force simp: filter_empty_conv)
  then have "filter (occurs_at q bs) [i..<i + length q] = [i]"
    using assms(1,4) by (simp add: upt_rec [of i])
  ultimately show ?thesis
    using occurrences_split [of c i bs q] occurrences_split [of i "i + length q" bs q] assms(3) bound by simp
qed

lemma match_starts_occurrences:
  assumes "q \<noteq> []" "border_free q"
  shows "match_starts n q bs c = take n (occurrences q bs c)"
proof (induction n arbitrary: c)
  case (Suc n)
  show ?case
  proof (cases "c + length q \<le> length bs")
    case True
    show ?thesis
    proof (cases "window_position q (drop c bs)")
      case None
      then have "\<not> occurs_at q bs (c + j)" for j
        using window_position_None [OF None, of j] by (simp add: occurs_at_def add.commute)
      then have "occurrences q bs c = []"
        by (intro occurrences_none) (metis le_add_diff_inverse)
      with True None show ?thesis by simp
    next
      case (Some r)
      from window_position_Some [OF this] have r: "occurs_at q bs (c + r)" "\<And>j. j < r \<Longrightarrow> \<not> occurs_at q bs (c + j)"
        by (simp_all add: occurs_at_def add.commute)
      have "\<not> occurs_at q bs j" if "c \<le> j" "j < c + r" for j
        using r(2) [of "j - c"] that by simp
      with occurrences_first [OF assms _ r(1)] True Some Suc.IH show ?thesis by simp
    qed
  qed (use occurrences_short [OF assms(1)] in simp)
qed simp

section \<open>The search over buffers\<close>

text \<open>What is carried over: the last bytes that can begin a match.\<close>

definition tail_of :: "nat \<Rightarrow> 'a list \<Rightarrow> 'a list" where
  "tail_of k bs = drop (length bs - k) bs"

lemma length_tail_of [simp]: "length (tail_of k bs) = min k (length bs)"
  by (auto simp: tail_of_def)

lemma tail_of_tail_of: "tail_of k (tail_of k bs @ cs) = tail_of k (bs @ cs)"
  by (cases "length bs \<le> k") (simp_all add: tail_of_def add.commute)

lemma tail_of_keep: "drop (length bs - min k (length bs)) bs = tail_of k bs"
  by (simp add: tail_of_def min_def)

lemma occurs_at_shift:
  assumes "q \<noteq> []" "i + length q \<le> length (tail_of k bs @ cs)"
  shows "occurs_at q (bs @ cs @ ds) (length bs - min k (length bs) + i) = occurs_at q (tail_of k bs @ cs) i"
proof -
  have "drop (length bs - min k (length bs) + i) (bs @ cs @ ds) = drop i (tail_of k bs @ cs) @ ds"
  proof -
    have "bs @ cs @ ds = take (length bs - min k (length bs)) bs @ (tail_of k bs @ cs) @ ds"
      by (simp add: tail_of_keep [symmetric])
    moreover have "length (take (length bs - min k (length bs)) bs) = length bs - min k (length bs)" by simp
    moreover have "i \<le> length (tail_of k bs @ cs)" using assms(2) by linarith
    ultimately show ?thesis
      by (metis (no_types, lifting) add.commute append_eq_conv_conj drop_append drop_drop diff_is_0_eq' drop0)
  qed
  with assms(2) show ?thesis by (simp add: occurs_at_def)
qed

lemma filter_upt_shift: "filter P [b..<b + m] = map (\<lambda>i. b + i) (filter (\<lambda>i. P (b + i)) [0..<m])"
proof -
  have "[b..<b + m] = map (\<lambda>i. b + i) [0..<m]"
    using map_add_upt [of b m] by (simp add: add.commute)
  then show ?thesis by (simp add: filter_map comp_def)
qed

lemma scanned_occurrences:
  assumes "q \<noteq> []" and k: "k = length q - 1"
  shows "map (\<lambda>i. length bs - min k (length bs) + i) (occurrences q (tail_of k bs @ cs) 0) =
    filter (occurs_at q (bs @ cs @ ds)) [length bs - min k (length bs)..<length (bs @ cs) - min k (length (bs @ cs))]"
proof -
  let ?scan = "tail_of k bs @ cs" and ?base = "length bs - min k (length bs)"
  let ?m = "length ?scan - min k (length ?scan)"
  have top: "length (bs @ cs) - min k (length (bs @ cs)) = ?base + ?m" by auto
  have "occurrences q ?scan 0 = filter (occurs_at q ?scan) [0..<?m]"
    using occurrences_split [of 0 ?m ?scan q] occurrences_short [OF assms(1), of ?scan ?m] assms(1) k
    by (cases q) auto
  also have "\<dots> = filter (\<lambda>i. occurs_at q (bs @ cs @ ds) (?base + i)) [0..<?m]"
    using occurs_at_shift [OF assms(1), of _ k bs cs ds] assms(1) k
    by (intro filter_cong) (cases q; auto)+
  finally show ?thesis
    unfolding top filter_upt_shift by simp
qed

lemma stream_starts_occurrences:
  assumes "q \<noteq> []" "border_free q" and k: "k = length q - 1"
  shows "stream_starts n q (tail_of k bs) (length bs) buffers =
    take n (occurrences q (bs @ concat buffers) (length bs - min k (length bs)))"
proof (induction buffers arbitrary: n bs)
  case Nil
  have "length bs < length bs - min k (length bs) + length q" using assms(1) k by (cases q) auto
  then show ?case using occurrences_short [OF assms(1)] by simp
next
  case (Cons b buffers)
  let ?scan = "tail_of k bs @ b" and ?base = "length bs - min k (length bs)"
  let ?next = "length (bs @ b) - min k (length (bs @ b))" and ?whole = "bs @ b @ concat buffers"
  have carry: "drop (length ?scan - min k (length ?scan)) ?scan = tail_of k (bs @ b)"
    by (simp only: tail_of_keep tail_of_tail_of)
  have starts: "match_starts n q ?scan (length (tail_of k bs) - k) = take n (occurrences q ?scan 0)"
    using match_starts_occurrences [OF assms(1,2)] by simp
  have split: "occurrences q ?whole ?base =
      map (\<lambda>i. ?base + i) (occurrences q ?scan 0) @ occurrences q ?whole ?next"
    using occurrences_split [of ?base ?next ?whole q] scanned_occurrences [OF assms(1) k, of bs b "concat buffers"]
    by auto
  have "stream_starts n q (tail_of k bs) (length bs) (b # buffers) =
    (if n = 0 then []
     else map (\<lambda>i. length bs - length (tail_of k bs) + i) (take n (occurrences q ?scan 0)) @
       stream_starts (n - length (take n (occurrences q ?scan 0))) q (tail_of k (bs @ b)) (length (bs @ b)) buffers)"
    by (simp only: stream_starts.simps Let_def k [symmetric] starts carry length_append [of bs b])
  also have "\<dots> = take n (occurrences q ?whole ?base)"
    unfolding Cons.IH split length_tail_of by (simp add: take_map min_def)
  finally show ?case by simp
qed

lemma stream_starts_whole:
  assumes "q \<noteq> []" "border_free q"
  shows "stream_starts n q [] 0 buffers = match_starts n q (concat buffers) 0"
  using stream_starts_occurrences [OF assms refl, of n "[]" buffers] match_starts_occurrences [OF assms]
  by (simp add: tail_of_def)

end
