(* ===== verification/Artifact_Tree.thy ===== *)
theory Artifact_Tree
  imports Artifact_Contract Artifact_Search
begin

text \<open>
  The directory store: the tree of files as a map from identities to bytes, its listing, removal and
  publication, and the store as an interpretation of the contract.
\<close>

section \<open>The objects of a tree\<close>

definition tree_objects :: "object_tree \<Rightarrow> artifact_id \<Rightarrow> u8 list option" where
  "tree_objects tree i = (case read_object_file tree i of Inl _ \<Rightarrow> None | Inr b \<Rightarrow> Some b)"

text \<open>Names in a directory are distinct.\<close>

definition tree_ok :: "object_tree \<Rightarrow> bool" where
  "tree_ok tree \<longleftrightarrow> distinct (map fst tree) \<and>
     (\<forall>n files. map_of tree n = Some (Directory files) \<longrightarrow> distinct (map fst files))"

lemma tree_objects_Some:
  "tree_objects tree i = Some b \<longleftrightarrow>
   (\<exists>files. map_of tree (take 2 (to_hex i)) = Some (Directory files) \<and> map_of files (to_hex i) = Some (Regular b))"
  by (auto simp: tree_objects_def read_object_file_def object_path_def split: option.splits tree_entry.splits object_file.splits)

lemma verify_existing_iff:
  "verify_existing_identity blake3 tree i = Inr n \<longleftrightarrow>
   (\<exists>b. tree_objects tree i = Some b \<and> blake3 b = i \<and> n = len_u64 b)"
  by (auto simp: verify_existing_identity_def tree_objects_def result_simps split: sum.splits if_splits)

lemma file_get_iff:
  "file_get blake3 tree i = Inr b \<longleftrightarrow> tree_objects tree i = Some b \<and> blake3 b = i"
  by (auto simp: file_get_def tree_objects_def result_simps split: sum.splits if_splits)

section \<open>Listing\<close>

lemma inventory_file_ok:
  "inventory_file bucket (name, file) = Inr item \<longleftrightarrow>
   (\<exists>b. file = Regular b \<and> from_hex name = Inr (ai_artifact_id item) \<and>
      object_path (ai_artifact_id item) = (bucket, name) \<and> ai_byte_len item = len_u64 b)"
  by (cases item) (auto simp: inventory_file_def object_path_def split: sum.splits object_file.splits if_splits)

fun files_of :: "string \<times> tree_entry \<Rightarrow> (string \<times> object_file) list" where
  "files_of (n, Directory files) = (if is_private_artifact_temporary_name n then [] else files)"
| "files_of (n, OtherEntry) = []"

lemma files_of_iff:
  "f \<in> set (files_of e) \<longleftrightarrow> (\<exists>files. snd e = Directory files \<and> f \<in> set files \<and> \<not> is_private_artifact_temporary_name (fst e))"
  by (cases e; cases "snd e") auto

lemma inventory_bucket_files:
  "inventory_bucket e = Inr items \<Longrightarrow> list_all2 (\<lambda>f item. inventory_file (fst e) f = Inr item) (files_of e) items"
  by (cases e; cases "snd e") (auto simp: inventory_bucket_def try_map_ok split: if_splits)

lemma inventory_paths:
  assumes "list_all2 (\<lambda>e items. inventory_bucket e = Inr items) tree itemss"
  shows "map (\<lambda>item. object_path (ai_artifact_id item)) (concat itemss) =
    concat (map (\<lambda>e. map (\<lambda>f. (fst e, fst f)) (files_of e)) tree)"
  using assms
proof (induction tree itemss)
  case (Cons e tree items itemss)
  have "map (\<lambda>item. object_path (ai_artifact_id item)) items = map (\<lambda>f. (fst e, fst f)) (files_of e)"
    using inventory_bucket_files [OF Cons.hyps(1)]
    by (induction rule: list_all2_induct) (auto simp: inventory_file_ok)
  with Cons.IH show ?case by simp
qed simp

lemma distinct_tree_paths:
  "distinct (map fst tree) \<Longrightarrow> (\<And>e. e \<in> set tree \<Longrightarrow> distinct (map fst (files_of e))) \<Longrightarrow>
   distinct (concat (map (\<lambda>e. map (\<lambda>f. (fst e, fst f)) (files_of e)) tree))"
  by (induction tree) (auto simp: distinct_map inj_on_def image_iff)

lemma tree_ok_files: "tree_ok tree \<Longrightarrow> e \<in> set tree \<Longrightarrow> distinct (map fst (files_of e))"
  by (cases e; cases "snd e") (auto simp: tree_ok_def)

lemma hex_not_private: "\<not> is_private_artifact_temporary_name (take 2 (to_hex i))"
proof (cases "take 2 (to_hex i)")
  case (Cons c cs)
  then have "c \<in> set (to_hex i)" by (metis list.set_intros(1) set_take_subset subsetD)
  then have "is_hex_digit c" by (rule to_hex_digits)
  then have "c \<noteq> CHR ''.''" by (auto simp: is_hex_digit_def byte_of_def)
  with Cons show ?thesis by (simp add: is_private_artifact_temporary_name_def)
qed (simp add: is_private_artifact_temporary_name_def)

lemma file_inventory_items:
  assumes ok: "tree_ok tree" and listed: "file_inventory tree = Inr items"
  shows "sorted_wrt (<) (map ai_artifact_id items)"
    and "item \<in> set items \<longleftrightarrow>
      (\<exists>b. tree_objects tree (ai_artifact_id item) = Some b \<and> ai_byte_len item = len_u64 b)"
proof -
  from listed obtain itemss where all: "list_all2 (\<lambda>e items. inventory_bucket e = Inr items) tree itemss"
    and items: "items = sort_key ai_artifact_id (concat itemss)"
    by (auto simp: file_inventory_def result_simps try_map_ok)
  have "distinct (map (\<lambda>item. object_path (ai_artifact_id item)) (concat itemss))"
    unfolding inventory_paths [OF all] using ok tree_ok_files [OF ok]
    by (intro distinct_tree_paths) (auto simp: tree_ok_def)
  then have "distinct (map ai_artifact_id (concat itemss))"
    by (auto simp: distinct_map inj_on_def)
  then have "distinct (map ai_artifact_id items)" by (simp add: items distinct_map)
  then show "sorted_wrt (<) (map ai_artifact_id items)" by (simp add: items strict_sorted_iff)
  have member: "item \<in> set items \<longleftrightarrow> (\<exists>e \<in> set tree. \<exists>f \<in> set (files_of e). inventory_file (fst e) f = Inr item)"
  proof -
    have "item \<in> set items \<longleftrightarrow> (\<exists>its \<in> set itemss. item \<in> set its)" by (simp add: items)
    also have "\<dots> \<longleftrightarrow> (\<exists>e \<in> set tree. \<exists>its. inventory_bucket e = Inr its \<and> item \<in> set its)"
      using all by (induction rule: list_all2_induct) auto
    also have "\<dots> \<longleftrightarrow> (\<exists>e \<in> set tree. \<exists>f \<in> set (files_of e). inventory_file (fst e) f = Inr item)"
    proof -
      have "item \<in> set its \<longleftrightarrow> (\<exists>f \<in> set (files_of e). inventory_file (fst e) f = Inr item)"
        if "inventory_bucket e = Inr its" for e its
        using inventory_bucket_files [OF that] by (induction rule: list_all2_induct) auto
      moreover have "\<exists>its. inventory_bucket e = Inr its" if "e \<in> set tree" for e
        using all that by (induction rule: list_all2_induct) auto
      ultimately show ?thesis by blast
    qed
    finally show ?thesis .
  qed
  show "item \<in> set items \<longleftrightarrow>
      (\<exists>b. tree_objects tree (ai_artifact_id item) = Some b \<and> ai_byte_len item = len_u64 b)"
  proof
    assume "item \<in> set items"
    then obtain e name fl where e: "e \<in> set tree" "(name, fl) \<in> set (files_of e)"
      "inventory_file (fst e) (name, fl) = Inr item" unfolding member by auto
    then obtain b where b: "fl = Regular b" "object_path (ai_artifact_id item) = (fst e, name)"
      "ai_byte_len item = len_u64 b" by (auto simp: inventory_file_ok)
    from e obtain files where "snd e = Directory files" "(name, Regular b) \<in> set files"
      by (auto simp: b(1) files_of_iff)
    with e(1) ok have "map_of tree (fst e) = Some (Directory files)" "map_of files name = Some (Regular b)"
      by (auto simp: tree_ok_def) (metis map_of_is_SomeI prod.collapse)+
    with b show "\<exists>b. tree_objects tree (ai_artifact_id item) = Some b \<and> ai_byte_len item = len_u64 b"
      by (auto simp: tree_objects_Some object_path_def)
  next
    assume "\<exists>b. tree_objects tree (ai_artifact_id item) = Some b \<and> ai_byte_len item = len_u64 b"
    then obtain b files where len: "ai_byte_len item = len_u64 b"
      and dir: "map_of tree (take 2 (to_hex (ai_artifact_id item))) = Some (Directory files)"
      and content: "map_of files (to_hex (ai_artifact_id item)) = Some (Regular b)"
      by (auto simp: tree_objects_Some)
    let ?e = "(take 2 (to_hex (ai_artifact_id item)), Directory files)"
    let ?f = "(to_hex (ai_artifact_id item), Regular b)"
    have mem: "?e \<in> set tree" "?f \<in> set (files_of ?e)"
      using map_of_SomeD [OF dir] map_of_SomeD [OF content] hex_not_private by auto
    obtain its where "inventory_bucket ?e = Inr its"
      using all mem(1) by (induction rule: list_all2_induct) auto
    from inventory_bucket_files [OF this] mem(2) obtain item' where
      found: "inventory_file (fst ?e) ?f = Inr item'" by (fastforce simp: list_all2_conv_all_nth in_set_conv_nth)
    then have "ai_artifact_id item' = ai_artifact_id item" "ai_byte_len item' = ai_byte_len item"
      using len by (simp_all add: inventory_file_ok object_path_def to_hex_inject)
    then have "item' = item" by simp
    with found mem show "item \<in> set items" unfolding member by blast
  qed
qed

section \<open>Removing\<close>

lemma take_hex_inject: "take 2 (to_hex i) = take 2 (to_hex j) \<Longrightarrow> to_hex i = to_hex j \<Longrightarrow> i = j"
  by (simp add: to_hex_inject)

lemma unlink_objects: "tree_objects (unlink_object i tree) = (tree_objects tree)(i := None)"
proof
  fix j
  have "tree_objects (unlink_object i tree) j = Some b \<longleftrightarrow> ((tree_objects tree)(i := None)) j = Some b" for b
    by (auto simp: tree_objects_Some unlink_object_def object_path_def AList.update_conv' AList.delete_conv'
        to_hex_inject split: option.splits tree_entry.splits if_splits)
  then show "tree_objects (unlink_object i tree) j = ((tree_objects tree)(i := None)) j"
    by (metis not_None_eq)
qed

lemma tree_ok_update:
  "tree_ok tree \<Longrightarrow> (\<And>files. e = Directory files \<Longrightarrow> distinct (map fst files)) \<Longrightarrow> tree_ok (AList.update n e tree)"
  by (auto simp: tree_ok_def AList.update_conv' AList.distinct_update split: if_splits)

lemma tree_ok_unlink: "tree_ok tree \<Longrightarrow> tree_ok (unlink_object i tree)"
  by (auto simp: unlink_object_def object_path_def split: option.splits tree_entry.splits
      intro!: tree_ok_update AList.distinct_delete) (auto simp: tree_ok_def)

lemma is_ok_file_inventory: "is_ok (file_inventory tree) \<longleftrightarrow> (\<forall>e \<in> set tree. is_ok (inventory_bucket e))"
  unfolding file_inventory_def is_ok_try_map [symmetric] by (cases "try_map inventory_bucket tree") simp_all

lemma set_update:
  assumes "distinct (map fst al)"
  shows "set (AList.update k v al) \<subseteq> insert (k, v) (set al)"
proof
  fix p assume "p \<in> set (AList.update k v al)"
  then have "map_of (AList.update k v al) (fst p) = Some (snd p)"
    using AList.distinct_update [OF assms] by (metis map_of_is_SomeI prod.collapse)
  then show "p \<in> insert (k, v) (set al)"
    by (cases p) (auto simp: AList.update_conv' dest: map_of_SomeD split: if_splits)
qed

lemma inventory_update:
  assumes "tree_ok tree" "is_ok (file_inventory tree)" "is_ok (inventory_bucket (n, e))"
  shows "is_ok (file_inventory (AList.update n e tree))"
  using assms set_update [of tree n e] by (auto simp: is_ok_file_inventory tree_ok_def)

lemma inventory_unlink:
  assumes "tree_ok tree" "is_ok (file_inventory tree)"
  shows "is_ok (file_inventory (unlink_object i tree))"
proof -
  have "is_ok (inventory_bucket (n, Directory (AList.delete k files)))" if "map_of tree n = Some (Directory files)" for n k files
  proof -
    from assms(2) map_of_SomeD [OF that] have "is_ok (inventory_bucket (n, Directory files))"
      by (auto simp: is_ok_file_inventory)
    moreover have "set (AList.delete k files) \<subseteq> set files" by (auto simp: AList.delete_eq)
    ultimately show ?thesis by (auto simp: inventory_bucket_def is_ok_try_map split: if_splits)
  qed
  with assms show ?thesis
    by (auto simp: unlink_object_def object_path_def split: option.splits tree_entry.splits intro: inventory_update)
qed

interpretation file_store: artifact_contract "file_ops blake3 os" tree_objects tree_ok blake3 "\<lambda>i. os i = Removed"
  for blake3 os
proof
  fix s i r s'
  assume ok: "tree_ok s" and removed: "ao_remove (file_ops blake3 os) i s = (r, s')"
  then show "tree_ok s' \<and> (tree_objects s' = tree_objects s \<and> r \<noteq> Inr () \<or> tree_objects s' = (tree_objects s)(i := None))"
    by (auto simp: file_ops_def file_remove_def unlink_objects tree_ok_unlink split: sum.splits removal.splits)
  assume "is_ok (ao_inventory (file_ops blake3 os) s)"
  with ok removed show "is_ok (ao_inventory (file_ops blake3 os) s')"
    by (auto simp: file_ops_def file_remove_def inventory_unlink split: sum.splits removal.splits)
next
  fix s i b
  assume "tree_ok s" "tree_objects s i = Some b" "blake3 b = i" "os i = Removed"
  then have "verify_existing_identity blake3 s i = Inr (len_u64 b)" by (auto simp: verify_existing_iff)
  then show "fst (ao_remove (file_ops blake3 os) i s) = Inr ()"
    using \<open>os i = Removed\<close> by (simp add: file_ops_def file_remove_def)
qed (auto simp: file_ops_def file_inventory_items verify_existing_iff)

end
