(* ===== verification/Artifact_Publication.thy ===== *)
theory Artifact_Publication
  imports Artifact_Tree
begin

text \<open>
  Publishing an object in the directory store: whatever call fails, no other object changes, the
  store can still be listed, and a temporary file left behind is not mistaken for an object.
\<close>

section \<open>Temporary names\<close>

lemma decimal_digit_ascii: "n < 10 \<Longrightarrow> is_ascii_digit (char_of (48 + n :: nat))"
  by (simp add: is_ascii_digit_def byte_of_char_of)

lemma decimal_digits: "decimal n \<noteq> [] \<and> list_all is_ascii_digit (decimal n)"
proof (induction n rule: decimal.induct)
  case (1 n)
  then show ?case
    by (cases "n < 10") (simp_all add: decimal.simps [of n] decimal_digit_ascii)
qed

lemma digit_not_dash: "is_ascii_digit c \<Longrightarrow> c \<noteq> CHR ''-''"
  by (auto simp: is_ascii_digit_def byte_of_def)

lemma temporary_private: "is_private_artifact_temporary_name (temporary_name process_id nonce)"
proof -
  let ?d = "decimal process_id" and ?h = "to_hex (u64_be_bytes nonce)" and ?suffix = "''.artifact.tmp''"
  let ?stem = "?d @ ''-'' @ ?h"
  have strip: "strip_suffix ?suffix (?stem @ ?suffix) = Some ?stem"
    by (simp add: strip_suffix_def)
  have digits: "?d \<noteq> []" "list_all is_ascii_digit ?d" using decimal_digits by auto
  have "takeWhile (\<lambda>c. c \<noteq> CHR ''-'') ?stem = ?d"
    using digits(2) digit_not_dash by (subst takeWhile_append2) (auto simp: list_all_iff)
  moreover have "list_all is_ascii_hexdigit ?h"
    using to_hex_digits by (auto simp: list_all_iff is_ascii_hexdigit_def)
  moreover have "length ?h = 16" by (simp add: length_to_hex)
  moreover have "temporary_name process_id nonce = CHR ''.'' # ?stem @ ?suffix" by (simp add: temporary_name_def)
  ultimately show ?thesis
    using digits strip by (simp add: is_private_artifact_temporary_name_def Let_def)
qed

lemma leave_temporary_keeps:
  assumes "tree_ok tree"
  shows "tree_ok (leave_temporary os tree)" "tree_objects (leave_temporary os tree) = tree_objects tree"
    "is_ok (file_inventory tree) \<Longrightarrow> is_ok (file_inventory (leave_temporary os tree))"
proof -
  have neq: "take 2 (to_hex i) \<noteq> temporary_name p n" for i p n
    using hex_not_private [of i] temporary_private by metis
  show "tree_ok (leave_temporary os tree)"
    using assms by (auto simp: leave_temporary_def split: option.splits intro: tree_ok_update)
  have "tree_objects (leave_temporary os tree) i = Some b \<longleftrightarrow> tree_objects tree i = Some b" for i b
    by (simp add: tree_objects_Some leave_temporary_def AList.update_conv' neq split: option.splits)
  then show "tree_objects (leave_temporary os tree) = tree_objects tree" by (metis ext not_None_eq)
  show "is_ok (file_inventory (leave_temporary os tree))" if "is_ok (file_inventory tree)"
    using assms that
    by (auto simp: leave_temporary_def split: option.splits
        intro!: inventory_update simp: inventory_bucket_def temporary_private)
qed

section \<open>Linking\<close>

lemma ensure_bucket_keeps:
  assumes "tree_ok tree" "ensure_bucket (take 2 (to_hex i)) tree = Inr tree'" "length i = 32"
  shows "tree_ok tree'" "tree_objects tree' = tree_objects tree"
    "\<exists>files. map_of tree' (take 2 (to_hex i)) = Some (Directory files)"
    "is_ok (file_inventory tree) \<Longrightarrow> is_ok (file_inventory tree')"
proof -
  have cases: "tree' = tree \<or>
      map_of tree (take 2 (to_hex i)) = None \<and> tree' = AList.update (take 2 (to_hex i)) (Directory []) tree"
    using assms(2) by (auto simp: ensure_bucket_def split: option.splits tree_entry.splits)
  then show "tree_ok tree'" using assms(1) by (auto intro: tree_ok_update)
  have "tree_objects tree' j = Some b \<longleftrightarrow> tree_objects tree j = Some b" for j b
    using cases by (auto simp: tree_objects_Some AList.update_conv' split: if_splits)
  then show "tree_objects tree' = tree_objects tree" by (metis ext not_None_eq)
  show "\<exists>files. map_of tree' (take 2 (to_hex i)) = Some (Directory files)"
    using assms(2) by (auto simp: ensure_bucket_def AList.update_conv' split: option.splits tree_entry.splits)
  have "list_all is_ascii_hexdigit (take 2 (to_hex i))"
    using to_hex_digits [of _ i] set_take_subset [of 2 "to_hex i"] by (auto simp: list_all_iff is_ascii_hexdigit_def)
  then have "is_ok (inventory_bucket (take 2 (to_hex i), Directory []))"
    using assms(3) by (simp add: inventory_bucket_def length_to_hex)
  then show "is_ok (file_inventory tree')" if "is_ok (file_inventory tree)"
    using cases that assms(1) inventory_update by metis
qed

lemma link_object_effect:
  assumes "tree_ok tree" "link_object blake3 i b tree = Inr tree'" "length i = 32"
  shows "tree_ok tree'" "tree' = tree \<and> (\<exists>x. verify_existing_identity blake3 tree i = Inr x) \<or>
      tree_objects tree i = None \<and> tree_objects tree' = (tree_objects tree)(i \<mapsto> b)"
    "is_ok (file_inventory tree) \<Longrightarrow> is_ok (file_inventory tree')"
proof -
  let ?n = "take 2 (to_hex i)" and ?new = "\<lambda>files. AList.update (to_hex i) (Regular b) files"
  have cases: "tree' = tree \<and> (\<exists>x. verify_existing_identity blake3 tree i = Inr x) \<or>
      (\<exists>files. map_of tree ?n = Some (Directory files) \<and> map_of files (to_hex i) = None \<and>
         tree' = AList.update ?n (Directory (?new files)) tree)"
    using assms(2) by (auto simp: link_object_def object_path_def result_simps split: option.splits tree_entry.splits)
  then show "tree_ok tree'"
    using assms(1) by (auto intro!: tree_ok_update AList.distinct_update) (auto simp: tree_ok_def)
  show "tree' = tree \<and> (\<exists>x. verify_existing_identity blake3 tree i = Inr x) \<or>
      tree_objects tree i = None \<and> tree_objects tree' = (tree_objects tree)(i \<mapsto> b)"
    using cases
  proof (elim disjE exE conjE)
    fix files
    assume new: "map_of tree ?n = Some (Directory files)" "map_of files (to_hex i) = None"
      "tree' = AList.update ?n (Directory (?new files)) tree"
    have "tree_objects tree' j = Some c \<longleftrightarrow> ((tree_objects tree)(i \<mapsto> b)) j = Some c" for j c
      using new by (auto simp: tree_objects_Some AList.update_conv' to_hex_inject)
    then have "tree_objects tree' = (tree_objects tree)(i \<mapsto> b)" by (metis ext not_None_eq)
    moreover have "tree_objects tree i = None" using new by (simp add: tree_objects_def read_object_file_def object_path_def)
    ultimately show ?thesis by blast
  qed blast
  show "is_ok (file_inventory tree')" if inv: "is_ok (file_inventory tree)"
    using cases
  proof (elim disjE exE conjE)
    fix files
    assume new: "map_of tree ?n = Some (Directory files)" "tree' = AList.update ?n (Directory (?new files)) tree"
    have "is_ok (inventory_bucket (?n, Directory files))"
      using inv map_of_SomeD [OF new(1)] by (auto simp: is_ok_file_inventory)
    moreover have "is_ok (inventory_file ?n (to_hex i, Regular b))"
      using assms(3) by (simp add: inventory_file_def from_hex_to_hex object_path_def)
    moreover have "distinct (map fst files)" using assms(1) new(1) by (auto simp: tree_ok_def)
    ultimately have "is_ok (inventory_bucket (?n, Directory (?new files)))"
      using set_update [of files "to_hex i" "Regular b"]
      by (auto simp: inventory_bucket_def is_ok_try_map split: if_splits)
    with inv assms(1) new(2) show ?thesis by (simp add: inventory_update)
  qed (use inv in simp)
qed

section \<open>Publishing\<close>

lemma put_reader_effect:
  assumes ok: "tree_ok tree" and put: "put_reader blake3 os chunks media_type tree = (r, tree')"
    and hash: "length (blake3 (concat chunks)) = 32"
  shows "tree_ok tree' \<and> (is_ok (file_inventory tree) \<longrightarrow> is_ok (file_inventory tree')) \<and>
    (tree_objects tree' = tree_objects tree \<or>
     tree_objects tree (blake3 (concat chunks)) = None \<and>
     tree_objects tree' = (tree_objects tree)(blake3 (concat chunks) \<mapsto> concat chunks)) \<and>
    (\<forall>d. r = Inr d \<longrightarrow> ad_artifact_id d = blake3 (concat chunks) \<and> ad_byte_len d = len_u64 (concat chunks) \<and>
       (\<exists>x. verify_existing_identity blake3 tree' (blake3 (concat chunks)) = Inr x))"
proof -
  let ?b = "concat chunks" let ?i = "blake3 ?b"
  define kept where "kept t \<longleftrightarrow> tree_ok t \<and> (is_ok (file_inventory tree) \<longrightarrow> is_ok (file_inventory t)) \<and>
    (tree_objects t = tree_objects tree \<or>
     tree_objects tree ?i = None \<and> tree_objects t = (tree_objects tree)(?i \<mapsto> ?b))" for t
  have start: "kept tree" using ok by (simp add: kept_def)
  have left: "kept (leave_temporary os t)" if "kept t" for t
    using that leave_temporary_keeps [of t os] by (simp add: kept_def)
  have bucket: "kept t" if "ensure_bucket (fst (object_path ?i)) tree = Inr t" for t
    using ensure_bucket_keeps [OF ok _ hash, of t] that by (simp add: kept_def object_path_def)
  have linked: "kept t'"
    if "ensure_bucket (fst (object_path ?i)) tree = Inr t" "link_object blake3 ?i ?b t = Inr t'" for t t'
    using ensure_bucket_keeps [OF ok _ hash, of t] link_object_effect [OF _ that(2) hash] that(1)
    by (auto simp: kept_def object_path_def)
  have "tree' = tree \<or> tree' = leave_temporary os tree \<or>
    (\<exists>t. ensure_bucket (fst (object_path ?i)) tree = Inr t \<and>
      (tree' = leave_temporary os t \<or>
       (\<exists>t'. link_object blake3 ?i ?b t = Inr t' \<and> (tree' = t' \<or> tree' = leave_temporary os t'))))"
    using put by (auto simp: put_reader_def Let_def split: sum.splits option.splits publish_failure.splits)
  then have "kept tree'" using start left bucket linked by blast
  moreover have "ad_artifact_id d = ?i \<and> ad_byte_len d = len_u64 ?b \<and>
      (\<exists>x. verify_existing_identity blake3 tree' ?i = Inr x)" if "r = Inr d" for d
    using put that
    by (auto simp: put_reader_def Let_def result_simps split: sum.splits option.splits publish_failure.splits)
  ultimately show ?thesis unfolding kept_def by blast
qed

end
