(* ===== verification/Artifact_Roots.thy ===== *)
theory Artifact_Roots
  imports Artifact_Publication
begin

text \<open>
  The identities and lengths a snapshot records, and what the collection and the verification of a
  session do with them in the directory store.
\<close>

section \<open>Recorded lengths\<close>

text \<open>The identities with the lengths that entries and facts of a snapshot record for them.\<close>

fun payload_lengths :: "payload_ref \<Rightarrow> (artifact_id \<times> u64) list" where
  "payload_lengths (Artifact i n _) = [(i, n)]"
| "payload_lengths (Inline _) = []"

fun entry_lengths :: "session_entry \<Rightarrow> (artifact_id \<times> u64) list" where
  "entry_lengths (ToolResult e) = payload_lengths (tr_full_result e)"
| "entry_lengths (PluginMemory e) = payload_lengths (pm_content e)"
| "entry_lengths (CustomEntry e) = payload_lengths (cu_payload e)"
| "entry_lengths (Compaction e) = payload_lengths (ce_replacement e)"
| "entry_lengths _ = []"

fun fact_lengths :: "session_fact \<Rightarrow> (artifact_id \<times> u64) list" where
  "fact_lengths (WorkspaceDelta f) = payload_lengths (wf_patch f)"
| "fact_lengths (AgentTaskFinished f) = payload_lengths (at_report f)"
| "fact_lengths (HarnessCatalog f) = [(hc_artifact_id f, hc_byte_len f)]"
| "fact_lengths (ToolSchemaDeviation f) = payload_lengths (sd_raw_arguments f)"
| "fact_lengths (TraceArtifact f) = [(ta_artifact_id f, ta_byte_len f)]"
| "fact_lengths (ProviderRequestMaterial f) = payload_lengths (mf_request f)"
| "fact_lengths _ = []"

definition recorded_lengths :: "session_snapshot \<Rightarrow> (artifact_id \<times> u64) set" where
  "recorded_lengths snapshot =
     (\<Union>e \<in> set (ss_entries snapshot). set (entry_lengths (se_body e))) \<union>
     (\<Union>f \<in> set (ss_facts snapshot). set (fact_lengths (sf_fact f)))"

definition extends_lengths :: "(artifact_id \<times> u64) list \<Rightarrow> length_table \<Rightarrow> length_table \<Rightarrow> bool" where
  "extends_lengths ps t t' \<longleftrightarrow> map_of t \<subseteq>\<^sub>m map_of t' \<and> (\<forall>(i, n) \<in> set ps. btree_get t' i = Some n)"

lemma extends_lengths_Nil [simp]: "extends_lengths [] t t"
  by (simp add: extends_lengths_def)

lemma record_length_extends: "record_length i n t = Inr t' \<Longrightarrow> extends_lengths [(i, n)] t t'"
  by (auto simp: record_length_def extends_lengths_def map_le_def split: option.splits if_splits)

lemma record_payload_extends: "record_payload_length p t = Inr t' \<Longrightarrow> extends_lengths (payload_lengths p) t t'"
  by (cases p) (auto simp: record_length_extends)

lemma record_entry_extends: "record_entry_length t e = Inr t' \<Longrightarrow> extends_lengths (entry_lengths e) t t'"
  by (cases e) (auto intro: record_payload_extends)

lemma record_fact_extends: "record_fact_length t f = Inr t' \<Longrightarrow> extends_lengths (fact_lengths f) t t'"
  by (cases f) (auto intro: record_payload_extends record_length_extends)

lemma fold_extends:
  assumes "\<And>t x t'. step t x = Inr t' \<Longrightarrow> extends_lengths (lens x) t t'"
  shows "try_fold step t xs = Inr t' \<Longrightarrow> extends_lengths (concat (map lens xs)) t t'"
proof (induction xs arbitrary: t)
  case (Cons x xs)
  then obtain u where "step t x = Inr u" "try_fold step u xs = Inr t'" by (auto simp: result_simps)
  with assms Cons.IH show ?case
    by (fastforce simp: extends_lengths_def map_le_def dom_def split: prod.splits)
qed simp

lemma expected_lengths_recorded:
  assumes "expected_artifact_lengths snapshot = Inr t" and "(i, n) \<in> recorded_lengths snapshot"
  shows "btree_get t i = Some n"
proof -
  from assms(1) obtain u where u: "try_fold record_entry_length [] (map se_body (ss_entries snapshot)) = Inr u"
    "try_fold record_fact_length u (map sf_fact (ss_facts snapshot)) = Inr t"
    by (auto simp: expected_artifact_lengths_def result_simps)
  from fold_extends [OF record_entry_extends u(1)] fold_extends [OF record_fact_extends u(2)] assms(2) show ?thesis
    by (fastforce simp: recorded_lengths_def extends_lengths_def map_le_def dom_def)
qed

lemma payload_lengths_refs: "(i, n) \<in> set (payload_lengths p) \<Longrightarrow> payload_artifact_id p = Some i \<and> i \<in> set (payload_references p)"
  by (cases p) auto

lemma recorded_roots: "(i, n) \<in> recorded_lengths snapshot \<Longrightarrow> i \<in> set (session_artifact_roots snapshot)"
proof -
  have "i \<in> set (entry_artifact_references e)" if "(i, n) \<in> set (entry_lengths e)" for e
    using that by (cases e) (auto dest: payload_lengths_refs)
  moreover have "i \<in> set (fact_artifact_references f)" if "(i, n) \<in> set (fact_lengths f)" for f
    using that by (cases f) (auto dest: payload_lengths_refs)
  ultimately show "(i, n) \<in> recorded_lengths snapshot \<Longrightarrow> i \<in> set (session_artifact_roots snapshot)"
    by (fastforce simp: recorded_lengths_def session_artifact_roots_def)
qed

section \<open>References\<close>

text \<open>
  The objects a session refers to, case by case on its data: the payload of a written entry or of a
  fact that is kept as an object, the recovery index of a compaction, the stored response of a settled
  request, and the catalogs and traces that facts name. Entries that a record only holds for later
  are not written.
\<close>

inductive refers_to :: "session_snapshot \<Rightarrow> artifact_id \<Rightarrow> bool" for snapshot where
  refers_tool_result: "e \<in> set (ss_entries snapshot) \<Longrightarrow> se_body e = ToolResult x \<Longrightarrow>
    tr_full_result x = Artifact i n m \<Longrightarrow> refers_to snapshot i"
| refers_recovery_index: "e \<in> set (ss_entries snapshot) \<Longrightarrow> se_body e = Compaction c \<Longrightarrow>
    ce_recovery_index_artifact c = Some i \<Longrightarrow> refers_to snapshot i"
| refers_replacement: "e \<in> set (ss_entries snapshot) \<Longrightarrow> se_body e = Compaction c \<Longrightarrow>
    ce_replacement c = Artifact i n m \<Longrightarrow> refers_to snapshot i"
| refers_memory: "e \<in> set (ss_entries snapshot) \<Longrightarrow> se_body e = PluginMemory p \<Longrightarrow>
    pm_content p = Artifact i n m \<Longrightarrow> refers_to snapshot i"
| refers_custom: "e \<in> set (ss_entries snapshot) \<Longrightarrow> se_body e = CustomEntry u \<Longrightarrow>
    cu_payload u = Artifact i n m \<Longrightarrow> refers_to snapshot i"
| refers_response: "r \<in> set (ss_records snapshot) \<Longrightarrow> sr_record r = ProviderRequestSettled t \<Longrightarrow>
    st_response_artifact t = Some i \<Longrightarrow> refers_to snapshot i"
| refers_patch: "f \<in> set (ss_facts snapshot) \<Longrightarrow> sf_fact f = WorkspaceDelta d \<Longrightarrow>
    wf_patch d = Artifact i n m \<Longrightarrow> refers_to snapshot i"
| refers_report: "f \<in> set (ss_facts snapshot) \<Longrightarrow> sf_fact f = AgentTaskFinished a \<Longrightarrow>
    at_report a = Artifact i n m \<Longrightarrow> refers_to snapshot i"
| refers_catalog: "f \<in> set (ss_facts snapshot) \<Longrightarrow> sf_fact f = HarnessCatalog h \<Longrightarrow>
    hc_artifact_id h = i \<Longrightarrow> refers_to snapshot i"
| refers_deviation: "f \<in> set (ss_facts snapshot) \<Longrightarrow> sf_fact f = ToolSchemaDeviation v \<Longrightarrow>
    sd_raw_arguments v = Artifact i n m \<Longrightarrow> refers_to snapshot i"
| refers_trace: "f \<in> set (ss_facts snapshot) \<Longrightarrow> sf_fact f = TraceArtifact ta \<Longrightarrow>
    ta_artifact_id ta = i \<Longrightarrow> refers_to snapshot i"
| refers_material: "f \<in> set (ss_facts snapshot) \<Longrightarrow> sf_fact f = ProviderRequestMaterial q \<Longrightarrow>
    mf_request q = Artifact i n m \<Longrightarrow> refers_to snapshot i"

lemma payload_artifact_iff:
  "payload_artifact_id p = Some i \<longleftrightarrow> (\<exists>n m. p = Artifact i n m)"
  "Some i = payload_artifact_id p \<longleftrightarrow> (\<exists>n m. p = Artifact i n m)"
  by (cases p; auto)+

lemma payload_references_iff: "i \<in> set (payload_references p) \<longleftrightarrow> (\<exists>n m. p = Artifact i n m)"
  by (cases p) auto

lemma option_list_iff: "i \<in> set (case x of None \<Rightarrow> [] | Some j \<Rightarrow> [j]) \<longleftrightarrow> x = Some i"
  by (cases x) auto

lemmas reference_iffs = payload_artifact_iff payload_references_iff option_list_iff

lemma root_refers:
  assumes "i \<in> set (session_artifact_roots snapshot)"
  shows "refers_to snapshot i"
proof -
  consider (entry) e where "e \<in> set (ss_entries snapshot)" "i \<in> set (entry_artifact_references (se_body e))"
    | (settled) r where "r \<in> set (ss_records snapshot)" "i \<in> set (settled_artifact (sr_record r))"
    | (fact) f where "f \<in> set (ss_facts snapshot)" "i \<in> set (fact_artifact_references (sf_fact f))"
    using assms by (auto simp: session_artifact_roots_def)
  then show ?thesis
  proof cases
    case entry
    then show ?thesis by (cases "se_body e") (auto simp: reference_iffs intro: refers_to.intros)
  next
    case settled
    then show ?thesis by (cases "sr_record r") (auto simp: reference_iffs intro: refers_to.intros)
  next
    case fact
    then show ?thesis by (cases "sf_fact f") (auto simp: reference_iffs intro: refers_to.intros)
  qed
qed

lemma entry_root:
  "e \<in> set (ss_entries snapshot) \<Longrightarrow> i \<in> set (entry_artifact_references (se_body e)) \<Longrightarrow> i \<in> set (session_artifact_roots snapshot)"
  by (auto simp: session_artifact_roots_def)

lemma settled_root:
  "r \<in> set (ss_records snapshot) \<Longrightarrow> i \<in> set (settled_artifact (sr_record r)) \<Longrightarrow> i \<in> set (session_artifact_roots snapshot)"
  by (auto simp: session_artifact_roots_def)

lemma fact_root:
  "f \<in> set (ss_facts snapshot) \<Longrightarrow> i \<in> set (fact_artifact_references (sf_fact f)) \<Longrightarrow> i \<in> set (session_artifact_roots snapshot)"
  by (auto simp: session_artifact_roots_def)

lemma refers_root: "refers_to snapshot i \<Longrightarrow> i \<in> set (session_artifact_roots snapshot)"
  by (induction rule: refers_to.induct)
    (erule entry_root settled_root fact_root; simp add: reference_iffs)+

section \<open>Collections of a session\<close>

definition session_roots :: "session_snapshot \<Rightarrow> artifact_id list \<Rightarrow> artifact_id set" where
  "session_roots snapshot additional = {i. refers_to snapshot i} \<union> set additional"

lemma session_roots_eq: "session_roots snapshot additional = set (session_artifact_roots snapshot) \<union> set additional"
  by (auto simp: session_roots_def root_refers refers_root)

lemma file_plan_facts:
  assumes "tree_ok tree" "plan_artifact_gc (file_ops blake3 os) tree snapshot additional quota = Inr plan"
  shows "set (gp_reachable plan) = session_roots snapshot additional"
  using file_store.plan_facts(1) [OF assms] by (simp add: session_roots_eq)

lemma collect_cases:
  assumes "collect_unreferenced_artifacts blake3 os s additional quota tree = (r, tree')"
  obtains (refused) "tree' = tree" "\<not> is_ok r"
  | (planned) plan where "plan_artifact_gc (file_ops blake3 os) tree (js_snapshot s) additional quota = Inr plan"
      "apply_artifact_gc (file_ops blake3 os) plan quota tree = (r, tree')"
  using assms by (auto simp: collect_unreferenced_artifacts_def split: option.splits sum.splits)

text \<open>An object that was no root when the plan was made is gone, and a session that refers to it is not verified.\<close>

lemma planned_object_gone:
  assumes "tree_ok tree" "plan_artifact_gc (file_ops blake3 os) tree snapshot additional quota = Inr plan"
    and "apply_artifact_gc (file_ops blake3 os) plan quota' tree = (Inr report, tree')"
    and "i \<notin> session_roots snapshot additional"
  shows "tree_objects tree' i = None"
    and "i \<in> session_roots snapshot' additional' \<Longrightarrow>
      \<not> is_ok (verify_session io (file_ops blake3 os) tree' snapshot' additional')"
proof -
  note exact = file_store.apply_exact [OF assms(1-3)]
  show gone: "tree_objects tree' i = None"
    using exact(2) assms(4) file_plan_facts [OF assms(1,2)] by (simp add: restrict_map_def)
  show "\<not> is_ok (verify_session io (file_ops blake3 os) tree' snapshot' additional')"
    if "i \<in> session_roots snapshot' additional'"
  proof
    assume "is_ok (verify_session io (file_ops blake3 os) tree' snapshot' additional')"
    then obtain expected n where
      "try_fold (verify_root (file_ops blake3 os) tree' expected) 0
         (identity_set (session_artifact_roots snapshot' @ additional')) = Inr n"
      by (auto simp: verify_session_def Let_def is_ok_iff result_simps)
    from file_store.verify_roots_ok [OF exact(1) this, of i] that gone show False
      by (auto simp: session_roots_eq)
  qed
qed

lemma is_ok_pair: "is_ok (fst p) \<Longrightarrow> \<exists>a s. p = (Inr a, s)"
  by (cases p) (auto simp: is_ok_iff)

lemma collect_keeps:
  assumes "tree_ok tree" "collect_unreferenced_artifacts blake3 os s additional quota tree = (r, tree')"
    and "i \<in> session_roots (js_snapshot s) additional"
  shows "tree_objects tree' i = tree_objects tree i"
  using assms(2)
proof (cases rule: collect_cases)
  case (planned plan)
  from file_store.apply_keeps_reachable [OF assms(1) planned(1) assms(1) planned(2)] assms(3)
    file_plan_facts [OF assms(1) planned(1)] show ?thesis by simp
qed simp

lemma collect_exact:
  assumes "tree_ok tree" "collect_unreferenced_artifacts blake3 os s additional quota tree = (Inr report, tree')"
  shows "tree_objects tree' = tree_objects tree |` session_roots (js_snapshot s) additional \<and>
    ai_artifact_id ` set (gr_removed report) = dom (tree_objects tree) - session_roots (js_snapshot s) additional"
  using assms(2)
proof (cases rule: collect_cases)
  case (planned plan)
  from file_store.apply_exact [OF assms(1) planned] file_store.plan_facts(3) [OF assms(1) planned(1)]
    file_plan_facts [OF assms(1) planned(1)] show ?thesis by simp
qed simp

lemma collect_succeeds:
  assumes "tree_ok tree" "is_ok (file_inventory tree)" "js_fault s = None"
    and present: "session_roots (js_snapshot s) additional \<subseteq> dom (tree_objects tree)"
    and removable: "\<And>i b. tree_objects tree i = Some b \<Longrightarrow> i \<notin> session_roots (js_snapshot s) additional \<Longrightarrow>
      os i = Removed \<and> blake3 b = i"
  shows "is_ok (fst (collect_unreferenced_artifacts blake3 os s additional quota tree))"
proof -
  let ?ops = "file_ops blake3 os"
  from assms(2) obtain items where items: "ao_inventory ?ops tree = Inr items"
    by (auto simp: file_ops_def is_ok_iff)
  have "check_present items (identity_set (session_artifact_roots (js_snapshot s) @ additional)) = Inr ()"
    using check_present_ok [OF file_store.inventory_distinct [OF assms(1) items]]
      file_store.inventory_ids [OF assms(1) items] present
    by (simp add: session_roots_eq)
  then obtain plan where plan: "plan_artifact_gc ?ops tree (js_snapshot s) additional quota = Inr plan"
    using items by (auto simp: plan_artifact_gc_def Let_def)
  from file_store.apply_succeeds [OF assms(1) plan] removable file_plan_facts [OF assms(1) plan]
  show ?thesis using plan assms(3) by (simp add: collect_unreferenced_artifacts_def)
qed

lemma collected_object_gone:
  assumes "tree_ok tree" "collect_unreferenced_artifacts blake3 os s additional quota tree = (Inr report, tree')"
    and "i \<notin> session_roots (js_snapshot s) additional"
  shows "tree_objects tree' i = None \<and> (i \<in> session_roots snapshot' additional' \<longrightarrow>
    \<not> is_ok (verify_session io (file_ops blake3 os) tree' snapshot' additional'))"
  using assms(2)
proof (cases rule: collect_cases)
  case (planned plan)
  from planned_object_gone [OF assms(1) planned assms(3)] show ?thesis by blast
qed simp

lemma entry_reference_root:
  "e \<in> set (ss_entries snapshot) \<Longrightarrow> i \<in> set (entry_artifact_references (se_body e)) \<Longrightarrow>
   i \<in> session_roots snapshot additional"
  by (auto simp: session_roots_eq session_artifact_roots_def)

lemma verified_object:
  assumes "tree_ok tree" "verify_session io (file_ops blake3 os) tree snapshot additional = Inr v"
    and "i \<in> session_roots snapshot additional"
  shows "\<exists>b. file_get blake3 tree i = Inr b \<and> (\<forall>n. (i, n) \<in> recorded_lengths snapshot \<longrightarrow> n = len_u64 b)"
proof -
  from assms(2) obtain expected n where expected: "expected_artifact_lengths snapshot = Inr expected"
    and roots: "try_fold (verify_root (file_ops blake3 os) tree expected) 0
      (identity_set (session_artifact_roots snapshot @ additional)) = Inr n"
    by (auto simp: verify_session_def Let_def result_simps)
  from file_store.verify_roots_ok [OF assms(1) roots, of i] assms(3) expected_lengths_recorded [OF expected]
  show ?thesis by (fastforce simp: session_roots_eq file_get_iff)
qed

section \<open>Pages\<close>

lemma file_read_page_same: "file_read_page blake3 tree i offset m = read_page (file_get blake3 tree i) offset m"
proof -
  have "min (length bs - min offset (length bs)) m = min (min offset (length bs) + m) (length bs) - min offset (length bs)"
    for bs :: "u8 list" by linarith
  moreover have "(min (length bs - min offset (length bs)) m = length bs - min offset (length bs)) \<longleftrightarrow>
      (min (min offset (length bs) + m) (length bs) = length bs)" for bs :: "u8 list" by linarith
  ultimately show ?thesis
    by (cases "validate_bound m"; cases "read_object_file tree i")
      (simp_all add: file_read_page_def read_page_def file_get_def verify_existing_identity_def Let_def)
qed

lemma pages_take: "concat (map (\<lambda>k. take m (drop (k * m) bs)) [0..<n]) = take (n * m) bs"
  by (induction n) (simp_all add: take_add add.commute [of m])

lemma read_page_bytes:
  assumes "validate_bound m = Inr ()"
  shows "read_page (Inr bs) offset m =
    Inr \<lparr>pg_offset = min offset (length bs), pg_bytes = take m (drop offset bs), pg_eof = (length bs \<le> offset + m)\<rparr>"
proof (cases "offset \<le> length bs")
  case True
  then show ?thesis using assms by (auto simp: read_page_def Let_def min_def)
next
  case False
  then show ?thesis using assms by (simp add: read_page_def Let_def)
qed

end
