(* ===== verification/Artifact_Example.thy ===== *)
theory Artifact_Example
  imports Artifact_Roots File_Example
begin

text \<open>
  One object beside the session file of the example, a session that refers to it by an entry and one
  that only defers the write of such an entry, evaluated.
\<close>

text \<open>One object beside the file of the example session, whose digest is always zero.\<close>

definition ex_hash :: "u8 list \<Rightarrow> digest" where
  "ex_hash bytes = zero_digest"

definition ex_tree :: object_tree where
  "ex_tree = [(take 2 (to_hex zero_digest), Directory [(to_hex zero_digest, Regular [1, 2, 3])])]"

definition no_quota :: artifact_quota where
  "no_quota = \<lparr>aq_maximum_objects = None, aq_maximum_bytes = None\<rparr>"

abbreviation removing :: "artifact_id \<Rightarrow> removal" where
  "removing \<equiv> \<lambda>_. Removed"

definition ex_artifact :: payload_ref where
  "ex_artifact = Artifact zero_digest 3 ''text/plain''"

definition ex_custom :: custom_entry where
  "ex_custom = \<lparr>cu_type_name = ''notes'', cu_payload = ex_artifact, cu_model_visible = False\<rparr>"

definition ex_note :: session_commit where
  "ex_note = [EntryItem main_lane \<lparr>pe_id = ''n1'', pe_body = CustomEntry ex_custom\<rparr>]"

definition ex_deferred :: session_commit where
  "ex_deferred = [RecordItem (WriteDeferred
     \<lparr>wd_operation_id = ''op1'', wd_entry = \<lparr>pe_id = ''n1'', pe_body = CustomEntry ex_custom\<rparr>\<rparr>)]"

text \<open>The example file after the entry was committed, and while its write is deferred.\<close>

definition ex_noted :: jsonl_session where
  "ex_noted = ex_file\<lparr>js_snapshot := ms_snapshot (snd (commit ex_io 9 ex_note ex_session))\<rparr>"

definition ex_waiting :: jsonl_session where
  "ex_waiting = ex_file\<lparr>js_snapshot :=
     ms_snapshot (snd (commit ex_io 10 ex_deferred (snd (commit ex_io 9 ex_start ex_session))))\<rparr>"

abbreviation ex_ops :: "object_tree artifact_ops" where
  "ex_ops \<equiv> file_ops ex_hash removing"

lemma ex_noted_roots: "session_artifact_roots (js_snapshot ex_noted) = [zero_digest]"
  by code_simp

lemma ex_waiting_roots: "session_artifact_roots (js_snapshot ex_waiting) = []"
  by code_simp

fun deferred_references :: "lane_record \<Rightarrow> artifact_id list" where
  "deferred_references (WriteDeferred w) = entry_artifact_references (pe_body (wd_entry w))"
| "deferred_references _ = []"

lemma ex_waiting_deferred:
  "list_ex (\<lambda>r. deferred_references (sr_record r) = [zero_digest]) (ss_records (js_snapshot ex_waiting))"
  by code_simp

lemma ex_listed: "is_ok (file_inventory ex_tree)"
  by code_simp

lemma ex_verified: "is_ok (verify_session ex_io ex_ops ex_tree (js_snapshot ex_noted) [])"
  by code_simp

lemma ex_tree_ok: "tree_ok ex_tree"
  by (simp add: tree_ok_def ex_tree_def)

lemma ex_object: "tree_objects ex_tree zero_digest = Some [1, 2, 3]"
  by (simp add: tree_objects_Some ex_tree_def)

lemma ex_only_object: "tree_objects ex_tree i = Some b \<Longrightarrow> i = zero_digest \<and> ex_hash b = i"
  by (auto simp: tree_objects_Some ex_tree_def to_hex_inject ex_hash_def split: if_splits)

lemma ex_noted_collects:
  "\<exists>report tree'. collect_unreferenced_artifacts ex_hash removing ex_noted [] no_quota ex_tree = (Inr report, tree')"
proof -
  have "is_ok (fst (collect_unreferenced_artifacts ex_hash removing ex_noted [] no_quota ex_tree))"
  proof (rule collect_succeeds [OF ex_tree_ok ex_listed])
    show "js_fault ex_noted = None" by (simp add: ex_noted_def ex_file_def)
    show "session_roots (js_snapshot ex_noted) [] \<subseteq> dom (tree_objects ex_tree)"
      by (simp add: session_roots_eq ex_noted_roots dom_def ex_object)
  qed (use ex_only_object in blast)
  then show ?thesis by (rule is_ok_pair)
qed

lemma ex_waiting_collectable:
  "js_fault ex_waiting = None" "session_roots (js_snapshot ex_waiting) [] \<subseteq> dom (tree_objects ex_tree)"
  by (simp_all add: ex_waiting_def [THEN arg_cong, of js_fault] ex_file_def session_roots_eq ex_waiting_roots)

lemma ex_waiting_collects:
  "\<exists>report tree'. collect_unreferenced_artifacts ex_hash removing ex_waiting [] no_quota ex_tree = (Inr report, tree')"
proof -
  have "is_ok (fst (collect_unreferenced_artifacts ex_hash removing ex_waiting [] no_quota ex_tree))"
    by (rule collect_succeeds [OF ex_tree_ok ex_listed ex_waiting_collectable]) (use ex_only_object in blast)
  then show ?thesis by (rule is_ok_pair)
qed

lemma ex_waiting_record:
  obtains rec w where "rec \<in> set (ss_records (js_snapshot ex_waiting))" "sr_record rec = WriteDeferred w"
    "zero_digest \<in> set (entry_artifact_references (pe_body (wd_entry w)))"
proof -
  from ex_waiting_deferred obtain r where r: "r \<in> set (ss_records (js_snapshot ex_waiting))"
    "deferred_references (sr_record r) = [zero_digest]" by (auto simp: list_ex_iff)
  from r(2) obtain w where "sr_record r = WriteDeferred w" by (cases "sr_record r") auto
  with r that show thesis by simp
qed

end
