(* ===== verification/Artifact_Guarantees.thy ===== *)
theory Artifact_Guarantees
  imports Artifact_Example
begin

text \<open>
  What a session can rely on for its artifacts: publication, reading, collection and verification of
  the directory store; and the two ways in which a collection deletes what a session still needs.
\<close>

text \<open>
  C22: A collection never touches an object that a written entry, a settled request or a fact of the
  session refers to, or that the caller names, whether it succeeds or fails half-way; and when it
  succeeds, exactly the other objects are gone and reported. A reference that a record only holds for
  an entry to be written later does not count.
\<close>

theorem collection_keeps_roots:
  assumes "tree_ok tree" and "collect_unreferenced_artifacts blake3 os s additional quota tree = (r, tree')"
  shows "(\<forall>i \<in> session_roots (js_snapshot s) additional. tree_objects tree' i = tree_objects tree i) \<and>
    (\<forall>report. r = Inr report \<longrightarrow>
       tree_objects tree' = tree_objects tree |` session_roots (js_snapshot s) additional \<and>
       ai_artifact_id ` set (gr_removed report) =
         dom (tree_objects tree) - session_roots (js_snapshot s) additional)"
  using collect_keeps [OF assms] collect_exact [OF assms(1)] assms(2) by blast

theorem collection_keeps_roots_witness:
  "\<exists>r tree'. collect_unreferenced_artifacts ex_hash removing ex_noted [] no_quota ex_tree = (r, tree') \<and>
     tree_objects tree' zero_digest = Some [1, 2, 3]"
proof -
  obtain r tree' where c: "collect_unreferenced_artifacts ex_hash removing ex_noted [] no_quota ex_tree = (r, tree')"
    by fastforce
  from collection_keeps_roots [OF ex_tree_ok c] have "tree_objects tree' zero_digest = tree_objects ex_tree zero_digest"
    by (simp add: session_roots_eq ex_noted_roots)
  with c show ?thesis by (simp add: ex_object)
qed

text \<open>
  C23: A collection completes: when the session's writer has no fault, the store can be listed, every
  root is present, the objects to remove are intact and the operating system removes them, the
  session's collector returns a report.
\<close>

theorem collection_completes:
  assumes "tree_ok tree" "is_ok (file_inventory tree)" "js_fault s = None"
    and "session_roots (js_snapshot s) additional \<subseteq> dom (tree_objects tree)"
    and "\<And>i b. tree_objects tree i = Some b \<Longrightarrow> i \<notin> session_roots (js_snapshot s) additional \<Longrightarrow>
      os i = Removed \<and> blake3 b = i"
  shows "\<exists>report tree'. collect_unreferenced_artifacts blake3 os s additional quota tree = (Inr report, tree')"
  by (rule is_ok_pair [OF collect_succeeds [OF assms]])

theorem collection_completes_witness:
  "\<exists>report tree'. collect_unreferenced_artifacts ex_hash removing ex_waiting [] no_quota ex_tree = (Inr report, tree')"
proof (rule collection_completes [OF ex_tree_ok ex_listed ex_waiting_collectable])
  fix i b
  assume "tree_objects ex_tree i = Some b"
  then show "Removed = Removed \<and> ex_hash b = i" using ex_only_object by simp
qed

text \<open>
  C24: A verified session finds its artifacts: every object an entry, a settled request, a fact or the
  caller refers to is read back from the store with bytes that hash to its identity, and their number
  is the length recorded with every reference to it.
\<close>

theorem verified_artifacts_intact:
  assumes "tree_ok tree" and "verify_session io (file_ops blake3 os) tree snapshot additional = Inr v"
    and "i \<in> session_roots snapshot additional"
  shows "\<exists>b. file_get blake3 tree i = Inr b \<and> blake3 b = i \<and>
    (\<forall>n. (i, n) \<in> recorded_lengths snapshot \<longrightarrow> n = len_u64 b)"
  using verified_object [OF assms] by (auto simp: file_get_iff)

theorem verified_artifacts_intact_witness:
  "\<exists>v b. verify_session ex_io ex_ops ex_tree (js_snapshot ex_noted) [] = Inr v \<and>
     file_get ex_hash ex_tree zero_digest = Inr b"
proof -
  from ex_verified obtain v where v: "verify_session ex_io ex_ops ex_tree (js_snapshot ex_noted) [] = Inr v"
    by (auto simp: is_ok_iff)
  have "zero_digest \<in> session_roots (js_snapshot ex_noted) []" by (simp add: session_roots_eq ex_noted_roots)
  from verified_artifacts_intact [OF ex_tree_ok v this] v show ?thesis by blast
qed

text \<open>
  C25: Collecting keeps a verified session verified, with the same roots and bytes, and leaves no
  orphaned object.
\<close>

theorem verification_survives_collection:
  assumes "tree_ok tree" and "verify_session io (file_ops blake3 os) tree (js_snapshot s) additional = Inr v"
    and "collect_unreferenced_artifacts blake3 os s additional quota tree = (Inr report, tree')"
  shows "verify_session io (file_ops blake3 os) tree' (js_snapshot s) additional = Inr (v\<lparr>sn_orphaned_artifacts := []\<rparr>)"
  using assms(3)
proof (cases rule: collect_cases)
  case (planned plan)
  then show ?thesis by (rule file_store.verify_after_collection [OF assms(1,2)])
qed simp

theorem verification_survives_collection_witness:
  "\<exists>v report tree'. collect_unreferenced_artifacts ex_hash removing ex_noted [] no_quota ex_tree = (Inr report, tree') \<and>
     verify_session ex_io ex_ops tree' (js_snapshot ex_noted) [] = Inr (v\<lparr>sn_orphaned_artifacts := []\<rparr>)"
proof -
  from ex_noted_collects obtain report tree' where
    c: "collect_unreferenced_artifacts ex_hash removing ex_noted [] no_quota ex_tree = (Inr report, tree')" by blast
  from ex_verified obtain v where v: "verify_session ex_io ex_ops ex_tree (js_snapshot ex_noted) [] = Inr v"
    by (auto simp: is_ok_iff)
  from verification_survives_collection [OF ex_tree_ok v c] c show ?thesis by blast
qed

text \<open>
  C28: A collection deletes the artifact of a deferred write. When a record defers the write of an
  entry that refers to an object, and no written entry, settled request or fact refers to it and the
  caller does not name it, a collection that succeeds removes the object and reports it; and no
  session in which the entry has been written can be verified against the store afterwards.
\<close>

theorem deferred_artifact_collected:
  assumes "tree_ok tree" and "collect_unreferenced_artifacts blake3 os s additional quota tree = (Inr report, tree')"
    and "record \<in> set (ss_records (js_snapshot s))" "sr_record record = WriteDeferred w"
    and "i \<in> set (entry_artifact_references (pe_body (wd_entry w)))" "tree_objects tree i = Some bytes"
    and "\<not> refers_to (js_snapshot s) i" "i \<notin> set additional"
  shows "tree_objects tree' i = None \<and> i \<in> ai_artifact_id ` set (gr_removed report) \<and>
    (\<forall>io snapshot' e additional'. e \<in> set (ss_entries snapshot') \<and> se_body e = pe_body (wd_entry w) \<longrightarrow>
       \<not> is_ok (verify_session io (file_ops blake3 os) tree' snapshot' additional'))"
proof -
  have root: "i \<notin> session_roots (js_snapshot s) additional"
    using assms(7,8) by (simp add: session_roots_def)
  with collect_exact [OF assms(1,2)] assms(6) have "i \<in> ai_artifact_id ` set (gr_removed report)"
    by (simp add: domI)
  with collected_object_gone [OF assms(1,2) root] assms(5) show ?thesis by (metis entry_reference_root)
qed

theorem deferred_artifact_collected_witness:
  "\<exists>report tree'. collect_unreferenced_artifacts ex_hash removing ex_waiting [] no_quota ex_tree = (Inr report, tree') \<and>
     tree_objects ex_tree zero_digest = Some [1, 2, 3] \<and> tree_objects tree' zero_digest = None"
proof -
  obtain rec w where r: "rec \<in> set (ss_records (js_snapshot ex_waiting))"
    "sr_record rec = WriteDeferred w" "zero_digest \<in> set (entry_artifact_references (pe_body (wd_entry w)))"
    by (rule ex_waiting_record)
  from ex_waiting_collects obtain report tree' where
    c: "collect_unreferenced_artifacts ex_hash removing ex_waiting [] no_quota ex_tree = (Inr report, tree')" by blast
  have "\<not> refers_to (js_snapshot ex_waiting) zero_digest" "zero_digest \<notin> set []"
    using refers_root [of "js_snapshot ex_waiting" zero_digest] by (auto simp: ex_waiting_roots)
  from deferred_artifact_collected [OF ex_tree_ok c r ex_object this] c show ?thesis by (simp add: ex_object)
qed

text \<open>
  C29: A stale plan deletes an object that became reachable after planning: the roots are not
  recomputed when a plan is applied, so a session that refers to the object by then is not verified
  afterwards.
\<close>

theorem stale_plan_deletes:
  assumes "tree_ok tree" and "plan_artifact_gc (file_ops blake3 os) tree snapshot additional quota = Inr plan"
    and "i \<notin> session_roots snapshot additional" and "i \<in> session_roots snapshot' additional"
    and "apply_artifact_gc (file_ops blake3 os) plan quota tree = (Inr report, tree')"
  shows "tree_objects tree' i = None \<and> \<not> is_ok (verify_session io (file_ops blake3 os) tree' snapshot' additional)"
  using planned_object_gone [OF assms(1,2,5,3)] assms(4) by blast

theorem stale_plan_deletes_witness:
  "\<exists>plan report tree'. plan_artifact_gc ex_ops ex_tree (js_snapshot ex_waiting) [] no_quota = Inr plan \<and>
     is_ok (verify_session ex_io ex_ops ex_tree (js_snapshot ex_noted) []) \<and>
     apply_artifact_gc ex_ops plan no_quota ex_tree = (Inr report, tree') \<and>
     \<not> is_ok (verify_session ex_io ex_ops tree' (js_snapshot ex_noted) [])"
proof -
  from ex_waiting_collects obtain report tree' where
    c: "collect_unreferenced_artifacts ex_hash removing ex_waiting [] no_quota ex_tree = (Inr report, tree')" by blast
  then obtain plan where p: "plan_artifact_gc ex_ops ex_tree (js_snapshot ex_waiting) [] no_quota = Inr plan"
    and a: "apply_artifact_gc ex_ops plan no_quota ex_tree = (Inr report, tree')"
    by (cases rule: collect_cases) auto
  have "zero_digest \<notin> session_roots (js_snapshot ex_waiting) []" "zero_digest \<in> session_roots (js_snapshot ex_noted) []"
    by (simp_all add: session_roots_eq ex_waiting_roots ex_noted_roots)
  from stale_plan_deletes [OF ex_tree_ok p this a] p a ex_verified show ?thesis by blast
qed

text \<open>
  C26: Publishing an object is safe at every failing call: the tree stays well-formed and can still be
  listed, a temporary file left behind is not taken for an object, no other object changes, and the
  object itself is as before or the published bytes. When publication succeeds, the object can be
  verified under the identity and length that are returned.
\<close>

theorem publication_safe:
  assumes "tree_ok tree" and "put_reader blake3 os chunks media_type tree = (r, tree')"
    and "length (blake3 (concat chunks)) = 32"
  shows "tree_ok tree' \<and> (is_ok (file_inventory tree) \<longrightarrow> is_ok (file_inventory tree')) \<and>
    (tree_objects tree' = tree_objects tree \<or>
     tree_objects tree (blake3 (concat chunks)) = None \<and>
     tree_objects tree' = (tree_objects tree)(blake3 (concat chunks) \<mapsto> concat chunks)) \<and>
    (\<forall>d. r = Inr d \<longrightarrow> ad_artifact_id d = blake3 (concat chunks) \<and> ad_byte_len d = len_u64 (concat chunks) \<and>
       (\<exists>x. verify_existing_identity blake3 tree' (blake3 (concat chunks)) = Inr x))"
  using assms by (rule put_reader_effect)

theorem publication_safe_witness:
  "\<exists>r tree'. put_reader ex_hash \<lparr>pb_failure = Some (AfterLink ''EIO''), pb_left = Some (7, 1)\<rparr> [[1], [2, 3]]
     ''text/plain'' [] = (r, tree') \<and> tree_ok tree'"
proof -
  obtain r tree' where p: "put_reader ex_hash \<lparr>pb_failure = Some (AfterLink ''EIO''), pb_left = Some (7, 1)\<rparr>
     [[1], [2, 3]] ''text/plain'' [] = (r, tree')" by fastforce
  have "tree_ok []" "length (ex_hash (concat [[1], [2, 3]])) = 32"
    by (simp_all add: tree_ok_def ex_hash_def zero_digest_def)
  from publication_safe [OF this(1) p this(2)] p show ?thesis by blast
qed

text \<open>
  The directory store reads pages exactly as the reference method on the whole object does, and
  the pages at successive offsets put together are the object, with the end reported at the last.
\<close>

theorem pages_reassemble:
  assumes "file_get blake3 tree i = Inr b" and "validate_bound m = Inr ()" and "length b \<le> n * m"
  shows "file_read_page blake3 tree i offset m = read_page (file_get blake3 tree i) offset m \<and>
    (\<exists>pages. map (\<lambda>k. file_read_page blake3 tree i (k * m) m) [0..<n] = map Inr pages \<and>
       concat (map pg_bytes pages) = b \<and> map pg_eof pages = map (\<lambda>k. length b \<le> k * m + m) [0..<n])"
proof -
  let ?page = "\<lambda>k. \<lparr>pg_offset = min (k * m) (length b), pg_bytes = take m (drop (k * m) b), pg_eof = (length b \<le> k * m + m)\<rparr>"
  have "map (\<lambda>k. file_read_page blake3 tree i (k * m) m) [0..<n] = map Inr (map ?page [0..<n])"
    by (simp add: file_read_page_same assms(1) read_page_bytes [OF assms(2)])
  moreover have "concat (map pg_bytes (map ?page [0..<n])) = b"
    using pages_take [of m b n] assms(3) by (simp add: comp_def)
  moreover have "map pg_eof (map ?page [0..<n]) = map (\<lambda>k. length b \<le> k * m + m) [0..<n]" by simp
  ultimately show ?thesis by (intro conjI exI [of _ "map ?page [0..<n]"] file_read_page_same)
qed

theorem pages_reassemble_witness:
  "\<exists>pages. map (\<lambda>k. file_read_page ex_hash ex_tree zero_digest (k * 2) 2) [0..<2] = map Inr pages \<and>
     concat (map pg_bytes pages) = [1, 2, 3]"
proof -
  have "file_get ex_hash ex_tree zero_digest = Inr [1, 2, 3]" "validate_bound 2 = Inr ()" "length [1, 2, 3 :: u8] \<le> 2 * 2"
    by (simp_all add: file_get_iff ex_object ex_hash_def validate_bound_def MAX_PAGE_BYTES_def)
  from pages_reassemble [OF this, of 0] show ?thesis by blast
qed

text \<open>
  C27: For a query without a border, a proper prefix that is also its suffix, the search over the
  buffers of a file finds what the reference method finds in the whole object, however the file is
  cut into buffers.
\<close>

theorem file_search_agrees:
  assumes "border_free query" and "read_object_file tree i = Inr (concat buffers)"
  shows "file_search_literal blake3 tree i buffers query maximum_results context_bytes =
    search_literal (file_get blake3 tree i) query maximum_results context_bytes"
proof (cases "query = []")
  case True
  then show ?thesis by (simp add: file_search_literal_def search_literal_def validate_search_bounds_def)
next
  case False
  then show ?thesis
    using assms stream_starts_whole [OF False assms(1)]
    by (cases "validate_search_bounds query maximum_results context_bytes")
      (simp_all add: file_search_literal_def search_literal_def verify_existing_identity_def file_get_def)
qed

theorem file_search_agrees_witness:
  "file_search_literal ex_hash ex_tree zero_digest [[1], [2, 3]] [1, 2] 5 1 =
   search_literal (file_get ex_hash ex_tree zero_digest) [1, 2] 5 1"
proof (rule file_search_agrees)
  show "border_free [1, 2 :: u8]" by (simp add: border_free_def)
  show "read_object_file ex_tree zero_digest = Inr (concat [[1], [2, 3]])"
    by (simp add: read_object_file_def ex_tree_def object_path_def)
qed

text \<open>
  A query with a border is searched differently by the two stores: where a match ends at the end
  of a buffer, the directory store also reports an overlapping match that starts before it, which the
  reference method skips.
\<close>

theorem file_search_overlaps:
  "map mt_offset (projr (search_literal (Inr [97, 97, 97]) [97, 97] 10 0)) = [0] \<and>
   stream_starts 10 [97, 97] [] 0 [[97, 97], [97]] = [0, 1]"
  by code_simp

end
