(* ===== verification/Schema_Validation.thy ===== *)
theory Schema_Validation
  imports Tea_Json
begin

text \<open>
  The validator of tool arguments, \<open>crates/tea-core/src/schema_validation.rs\<close>: a schema is checked
  against the supported vocabulary, then the parsed arguments are checked against the schema and all
  failures are collected with their paths. The indented printer of \<open>json.rs\<close> renders the arguments in
  the error.

  An \<open>expect\<close> of the validator that fails is the result \<open>None\<close>. Messages are constructors that carry
  what is rendered.
\<close>

section \<open>Numbers and characters\<close>

text \<open>An integer \<open>as f64\<close>: rounded to 53 significant bits, ties to even.\<close>

fun bit_count :: "nat \<Rightarrow> nat" where
  "bit_count n = (if n = 0 then 0 else Suc (bit_count (n div 2)))"

declare bit_count.simps [simp del]

definition round_f64 :: "nat \<Rightarrow> nat" where
  "round_f64 m =
     (let e = bit_count m - 53; q = m div 2 ^ e; r = m mod 2 ^ e; half = 2 ^ (e - 1)
      in if e = 0 then m
         else (if half < r \<or> half = r \<and> odd q then Suc q else q) * 2 ^ e)"

fun as_f64 :: "json_value \<Rightarrow> f64 option" where
  "as_f64 (JNumber (Signed v)) =
     Some (Finite (if sint v < 0 then - of_nat (round_f64 (nat (- sint v))) else of_nat (round_f64 (nat (sint v)))))"
| "as_f64 (JNumber (Unsigned v)) = Some (Finite (of_nat (round_f64 (unat v))))"
| "as_f64 (JNumber (Float v)) = Some v"
| "as_f64 _ = None"

text \<open>The order of floats; \<open>Infinite True\<close> is the positive infinity, and nothing compares with NaN.\<close>

fun f64_less :: "f64 \<Rightarrow> f64 \<Rightarrow> bool" where
  "f64_less (Finite a) (Finite b) = (a < b)"
| "f64_less (Finite a) (Infinite s) = s"
| "f64_less (Infinite s) (Finite b) = (\<not> s)"
| "f64_less (Infinite s) (Infinite t) = (\<not> s \<and> t)"
| "f64_less _ _ = False"

fun f64_le :: "f64 \<Rightarrow> f64 \<Rightarrow> bool" where
  "f64_le NaN _ = False"
| "f64_le _ NaN = False"
| "f64_le a b = (f64_less a b \<or> a = b)"

text \<open>\<open>chars().count()\<close>: every byte of UTF-8 but the continuation bytes begins a character.\<close>

definition char_count :: "string \<Rightarrow> nat" where
  "char_count s = length (filter (\<lambda>c. \<not> (128 \<le> byte_of c \<and> byte_of c < 192)) s)"

section \<open>Checking a schema\<close>

type_synonym schema_fields = "(string, json_value) btree"

datatype schema_problem =
    SchemaNotObject
  | UnsupportedKeyword string
  | BadType
  | PropertiesNotObject
  | InProperty string schema_problem
  | BadRequired
  | DuplicateRequired string
  | BadAdditional
  | ItemsNotSchema
  | NotSchemaArray string
  | EnumNotArray
  | NotACount string
  | NotANumber string
  | UniqueNotBool

definition allowed_keywords :: "string list" where
  "allowed_keywords =
     [''$comment'', ''$id'', ''$schema'', ''additionalProperties'', ''allOf'', ''anyOf'', ''const'', ''default'',
      ''deprecated'', ''description'', ''enum'', ''examples'', ''exclusiveMaximum'', ''exclusiveMinimum'',
      ''items'', ''maxItems'', ''maxLength'', ''maximum'', ''minItems'', ''minLength'', ''minimum'', ''not'',
      ''oneOf'', ''properties'', ''required'', ''title'', ''type'', ''uniqueItems'']"

definition supported_type :: "string \<Rightarrow> bool" where
  "supported_type type_name \<longleftrightarrow>
     type_name \<in> {''null'', ''boolean'', ''integer'', ''number'', ''string'', ''array'', ''object''}"

text \<open>\<open>if let Some(value) = object.get(keyword)\<close>.\<close>

definition when_present ::
    "schema_fields \<Rightarrow> string \<Rightarrow> (json_value \<Rightarrow> (schema_problem, unit) result) \<Rightarrow> (schema_problem, unit) result" where
  "when_present obj keyword f = (case btree_get obj keyword of None \<Rightarrow> Ok () | Some value \<Rightarrow> f value)"

fun check_type :: "json_value \<Rightarrow> (schema_problem, unit) result" where
  "check_type (JString type_name) = (if supported_type type_name then Ok () else Err BadType)"
| "check_type (JArray types) =
     (if types \<noteq> [] \<and> list_all (\<lambda>value. case as_str value of None \<Rightarrow> False | Some t \<Rightarrow> supported_type t) types
      then Ok () else Err BadType)"
| "check_type _ = Err BadType"

definition check_required_name :: "string list \<Rightarrow> json_value \<Rightarrow> (schema_problem, string list) result" where
  "check_required_name names property =
     (case as_str property of
        None \<Rightarrow> Err BadRequired
      | Some name \<Rightarrow> if name \<in> set names then Err (DuplicateRequired name) else Ok (name # names))"

definition check_required :: "json_value \<Rightarrow> (schema_problem, unit) result" where
  "check_required required =
     (case as_array required of
        None \<Rightarrow> Err BadRequired
      | Some properties \<Rightarrow> and_then (try_fold check_required_name [] properties) (\<lambda>_. Ok ()))"

definition check_with :: "(json_value \<Rightarrow> bool) \<Rightarrow> schema_problem \<Rightarrow> json_value \<Rightarrow> (schema_problem, unit) result" where
  "check_with good problem value = (if good value then Ok () else Err problem)"

lemma and_then_cong [fundef_cong]:
  "r = r' \<Longrightarrow> (\<And>a. r' = Inr a \<Longrightarrow> f a = f' a) \<Longrightarrow> and_then r f = and_then r' f'"
  by (cases r') auto

lemma check_all_cong [fundef_cong]:
  "xs = ys \<Longrightarrow> (\<And>x. x \<in> set ys \<Longrightarrow> f x = g x) \<Longrightarrow> check_all f xs = check_all g ys"
  by (induction ys arbitrary: xs) auto

lemma try_map_cong [fundef_cong]:
  "xs = ys \<Longrightarrow> (\<And>x. x \<in> set ys \<Longrightarrow> f x = g x) \<Longrightarrow> try_map f xs = try_map g ys"
  by (induction ys arbitrary: xs) auto

lemma when_present_cong [fundef_cong]:
  "obj = obj' \<Longrightarrow> keyword = keyword' \<Longrightarrow> (\<And>value. btree_get obj' keyword' = Some value \<Longrightarrow> f value = g value) \<Longrightarrow>
   when_present obj keyword f = when_present obj' keyword' g"
  by (auto simp: when_present_def split: option.splits)

lemma size_member: "(k, v) \<in> set obj \<Longrightarrow> size v < size (JObject obj)"
  by (induction obj) auto

lemma size_get: "btree_get obj k = Some v \<Longrightarrow> size v < size (JObject obj)"
  by (rule size_member) (rule map_of_SomeD)

lemma size_item: "v \<in> set vs \<Longrightarrow> size v < size (JArray vs)"
  by (induction vs) auto

function validate_schema :: "json_value \<Rightarrow> (schema_problem, unit) result" where
  "validate_schema schema =
     (case schema of
        JObject obj \<Rightarrow>
          and_then (check_all (\<lambda>keyword.
            if keyword \<in> set allowed_keywords then Ok () else Err (UnsupportedKeyword keyword)) (map fst obj)) (\<lambda>_.
          and_then (when_present obj ''type'' check_type) (\<lambda>_.
          and_then (when_present obj ''properties'' (\<lambda>properties.
            case properties of
              JObject props \<Rightarrow>
                check_all (\<lambda>(name, property_schema). map_err (InProperty name) (validate_schema property_schema)) props
            | _ \<Rightarrow> Err PropertiesNotObject)) (\<lambda>_.
          and_then (when_present obj ''required'' check_required) (\<lambda>_.
          and_then (when_present obj ''additionalProperties'' (\<lambda>additional.
            case additional of
              JBool _ \<Rightarrow> Ok ()
            | JObject _ \<Rightarrow> validate_schema additional
            | _ \<Rightarrow> Err BadAdditional)) (\<lambda>_.
          and_then (when_present obj ''items'' (\<lambda>items.
            if is_object items then validate_schema items else Err ItemsNotSchema)) (\<lambda>_.
          and_then (check_all (\<lambda>keyword. when_present obj keyword (\<lambda>value.
            case value of
              JArray schemas \<Rightarrow> check_all validate_schema schemas
            | _ \<Rightarrow> Err (NotSchemaArray keyword))) [''allOf'', ''anyOf'', ''oneOf'']) (\<lambda>_.
          and_then (when_present obj ''not'' validate_schema) (\<lambda>_.
          and_then (when_present obj ''enum'' (check_with (\<lambda>v. as_array v \<noteq> None) EnumNotArray)) (\<lambda>_.
          and_then (check_all (\<lambda>keyword. when_present obj keyword (check_with (\<lambda>v. as_u64 v \<noteq> None) (NotACount keyword)))
            [''minItems'', ''maxItems'', ''minLength'', ''maxLength'']) (\<lambda>_.
          and_then (check_all (\<lambda>keyword. when_present obj keyword (check_with (\<lambda>v. as_f64 v \<noteq> None) (NotANumber keyword)))
            [''minimum'', ''maximum'', ''exclusiveMinimum'', ''exclusiveMaximum'']) (\<lambda>_.
            when_present obj ''uniqueItems'' (check_with (\<lambda>v. as_bool v \<noteq> None) UniqueNotBool))))))))))))
      | _ \<Rightarrow> Err SchemaNotObject)"
  by pat_completeness auto

termination validate_schema
  by (relation "measure size")
    (auto dest!: size_get size_member size_item intro: less_trans)

section \<open>Checking a value\<close>

datatype failure_message =
    MustBeType json_value
  | NotEnumerated
  | NotConstant
  | NoneMatches
  | NotExactlyOne
  | MatchesNegated
  | MissingProperty string
  | AdditionalProperty
  | NotUnique
  | OutOfCount string u64
  | OutOfBound string f64

record validation_failure =
  vf_path :: string
  vf_message :: failure_message

definition child_path :: "string \<Rightarrow> string \<Rightarrow> string" where
  "child_path path child = (if path = [] then child else path @ ''.'' @ child)"

definition display_path :: "string \<Rightarrow> string" where
  "display_path path = (if path = [] then ''root'' else path)"

abbreviation failed :: "string \<Rightarrow> failure_message \<Rightarrow> validation_failure" where
  "failed path message \<equiv> \<lparr>vf_path = path, vf_message = message\<rparr>"

definition type_matches :: "string \<Rightarrow> json_value \<Rightarrow> bool" where
  "type_matches type_name value =
     (if type_name = ''null'' then is_null value
      else if type_name = ''boolean'' then (case value of JBool _ \<Rightarrow> True | _ \<Rightarrow> False)
      else if type_name = ''integer'' then
        (case value of JNumber (Signed _) \<Rightarrow> True | JNumber (Unsigned _) \<Rightarrow> True | _ \<Rightarrow> False)
      else if type_name = ''number'' then (case value of JNumber _ \<Rightarrow> True | _ \<Rightarrow> False)
      else if type_name = ''string'' then (case value of JString _ \<Rightarrow> True | _ \<Rightarrow> False)
      else if type_name = ''array'' then (case value of JArray _ \<Rightarrow> True | _ \<Rightarrow> False)
      else if type_name = ''object'' then is_object value
      else False)"

fun type_allows :: "json_value \<Rightarrow> json_value \<Rightarrow> bool" where
  "type_allows (JString type_name) value = type_matches type_name value"
| "type_allows (JArray types) value = list_ex (\<lambda>t. case as_str t of None \<Rightarrow> False | Some n \<Rightarrow> type_matches n value) types"
| "type_allows _ value = False"

definition check_count :: "schema_fields \<Rightarrow> string \<Rightarrow> nat \<Rightarrow> string \<Rightarrow> validation_failure list" where
  "check_count obj keyword actual path =
     (case Option.bind (btree_get obj keyword) as_u64 of
        None \<Rightarrow> []
      | Some bound \<Rightarrow>
          if (if take 3 keyword = ''min'' then bound \<le> of_nat actual else of_nat actual \<le> bound) then []
          else [failed (display_path path) (OutOfCount keyword bound)])"

definition validate_string :: "schema_fields \<Rightarrow> string \<Rightarrow> string \<Rightarrow> validation_failure list" where
  "validate_string obj value path =
     check_count obj ''minLength'' (char_count value) path @ check_count obj ''maxLength'' (char_count value) path"

definition bound_holds :: "string \<Rightarrow> f64 \<Rightarrow> f64 \<Rightarrow> bool" where
  "bound_holds keyword value bound =
     (if keyword = ''minimum'' then f64_le bound value
      else if keyword = ''maximum'' then f64_le value bound
      else if keyword = ''exclusiveMinimum'' then f64_less bound value
      else f64_less value bound)"

definition validate_number :: "schema_fields \<Rightarrow> f64 option \<Rightarrow> string \<Rightarrow> validation_failure list" where
  "validate_number obj value path =
     (case value of
        None \<Rightarrow> []
      | Some actual \<Rightarrow>
          concat (map (\<lambda>keyword.
            case Option.bind (btree_get obj keyword) as_f64 of
              None \<Rightarrow> []
            | Some bound \<Rightarrow>
                if bound_holds keyword actual bound then [] else [failed (display_path path) (OutOfBound keyword bound)])
            [''minimum'', ''maximum'', ''exclusiveMinimum'', ''exclusiveMaximum'']))"

definition has_duplicate :: "json_value list \<Rightarrow> bool" where
  "has_duplicate items \<longleftrightarrow> list_ex (\<lambda>i. items ! i \<in> set (take i items)) [0..<length items]"

definition enum_failures :: "schema_fields \<Rightarrow> json_value \<Rightarrow> string \<Rightarrow> validation_failure list" where
  "enum_failures obj value path =
     (case Option.bind (btree_get obj ''enum'') as_array of
        None \<Rightarrow> []
      | Some candidates \<Rightarrow> if value \<in> set candidates then [] else [failed (display_path path) NotEnumerated])"

definition const_failures :: "schema_fields \<Rightarrow> json_value \<Rightarrow> string \<Rightarrow> validation_failure list" where
  "const_failures obj value path =
     (case btree_get obj ''const'' of
        None \<Rightarrow> []
      | Some constant \<Rightarrow> if constant = value then [] else [failed (display_path path) NotConstant])"

definition required_failures :: "schema_fields \<Rightarrow> (string, json_value) btree \<Rightarrow> string \<Rightarrow> validation_failure list" where
  "required_failures obj value path =
     (case Option.bind (btree_get obj ''required'') as_array of
        None \<Rightarrow> []
      | Some names \<Rightarrow>
          concat (map (\<lambda>n. case as_str n of
              None \<Rightarrow> []
            | Some property \<Rightarrow>
                if btree_contains value property then [] else [failed (child_path path property) (MissingProperty property)])
            names))"

definition schema_properties :: "schema_fields \<Rightarrow> (string, json_value) btree" where
  "schema_properties obj = (case Option.bind (btree_get obj ''properties'') as_object of None \<Rightarrow> [] | Some props \<Rightarrow> props)"

definition schema_list :: "schema_fields \<Rightarrow> string \<Rightarrow> json_value list option" where
  "schema_list obj keyword = Option.bind (btree_get obj keyword) as_array"

text \<open>Failures of parts, in order; a part that panics ends the whole.\<close>

definition join_failures :: "validation_failure list option list \<Rightarrow> validation_failure list option" where
  "join_failures parts = (if None \<in> set parts then None else Some (concat (map the parts)))"

text \<open>\<open>any(|schema| is_valid(schema, value))\<close> stops at the first match; \<open>filter(..).count()\<close> does not.\<close>

fun any_valid :: "validation_failure list option list \<Rightarrow> bool option" where
  "any_valid [] = Some False"
| "any_valid (None # parts) = None"
| "any_valid (Some [] # parts) = Some True"
| "any_valid (Some (_ # _) # parts) = any_valid parts"

definition count_valid :: "validation_failure list option list \<Rightarrow> nat option" where
  "count_valid parts = (if None \<in> set parts then None else Some (length (filter (\<lambda>p. p = Some []) parts)))"

definition fail_unless :: "bool option \<Rightarrow> string \<Rightarrow> failure_message \<Rightarrow> validation_failure list option" where
  "fail_unless holds path message =
     map_option (\<lambda>h. if h then [] else [failed (display_path path) message]) holds"

text \<open>
  \<open>validate_object\<close> and \<open>validate_array\<close> call back into \<open>validate_value\<close>, which is their first argument;
  the congruence rules say on which schemas they call it.
\<close>

type_synonym value_validator = "json_value \<Rightarrow> json_value \<Rightarrow> string \<Rightarrow> validation_failure list option"

definition validate_object ::
    "value_validator \<Rightarrow> schema_fields \<Rightarrow> (string, json_value) btree \<Rightarrow> string \<Rightarrow> validation_failure list option" where
  "validate_object validate_value schema value path = join_failures
     ([Some (required_failures schema value path)] @
      map (\<lambda>(property, property_schema).
        case btree_get value property of
          None \<Rightarrow> Some []
        | Some property_value \<Rightarrow> validate_value property_schema property_value (child_path path property))
        (schema_properties schema) @
      map (\<lambda>(property, property_value).
        if btree_contains (schema_properties schema) property then Some []
        else (case btree_get schema ''additionalProperties'' of
                Some (JBool False) \<Rightarrow> Some [failed (child_path path property) AdditionalProperty]
              | Some (JObject property_schema) \<Rightarrow>
                  validate_value (JObject property_schema) property_value (child_path path property)
              | _ \<Rightarrow> Some [])) value)"

definition validate_array ::
    "value_validator \<Rightarrow> schema_fields \<Rightarrow> json_value list \<Rightarrow> string \<Rightarrow> validation_failure list option" where
  "validate_array validate_value schema value path = join_failures
     ((case btree_get schema ''items'' of
         None \<Rightarrow> []
       | Some item_schema \<Rightarrow>
           map (\<lambda>(index, item). validate_value item_schema item (child_path path (decimal index))) (enumerate 0 value)) @
      [Some (if Option.bind (btree_get schema ''uniqueItems'') as_bool = Some True \<and> has_duplicate value
             then [failed (display_path path) NotUnique] else []),
       Some (check_count schema ''minItems'' (length value) path),
       Some (check_count schema ''maxItems'' (length value) path)])"

lemma validate_object_cong [fundef_cong]:
  assumes "obj = obj'" "members = members'" "path = path'"
    and "\<And>p s v q. (p, s) \<in> set (schema_properties obj') \<Longrightarrow> rec s v q = rec' s v q"
    and "\<And>s v q. btree_get obj' ''additionalProperties'' = Some (JObject s) \<Longrightarrow> rec (JObject s) v q = rec' (JObject s) v q"
  shows "validate_object rec obj members path = validate_object rec' obj' members' path'"
  unfolding validate_object_def assms(1-3)
  by (intro arg_cong [of _ _ join_failures] arg_cong2 [of _ _ _ _ append] refl map_cong)
    (auto simp: assms(4,5) split: option.splits json_value.splits bool.splits)

lemma validate_array_cong [fundef_cong]:
  assumes "obj = obj'" "items = items'" "path = path'"
    and "\<And>s v q. btree_get obj' ''items'' = Some s \<Longrightarrow> rec s v q = rec' s v q"
  shows "validate_array rec obj items path = validate_array rec' obj' items' path'"
  unfolding validate_array_def assms(1-3) by (auto simp: assms(4) split: option.splits)

function validate_value :: "json_value \<Rightarrow> json_value \<Rightarrow> string \<Rightarrow> validation_failure list option" where
  "validate_value schema value path =
     (case schema of
        JObject obj \<Rightarrow>
          if (case btree_get obj ''type'' of None \<Rightarrow> False | Some t \<Rightarrow> \<not> type_allows t value)
          then Some [failed (display_path path) (MustBeType (the (btree_get obj ''type'')))]
          else join_failures
            ([Some (enum_failures obj value path), Some (const_failures obj value path)] @
             (case schema_list obj ''allOf'' of None \<Rightarrow> [] | Some schemas \<Rightarrow> map (\<lambda>s. validate_value s value path) schemas) @
             [case schema_list obj ''anyOf'' of
                None \<Rightarrow> Some []
              | Some schemas \<Rightarrow> fail_unless (any_valid (map (\<lambda>s. validate_value s value []) schemas)) path NoneMatches,
              case schema_list obj ''oneOf'' of
                None \<Rightarrow> Some []
              | Some schemas \<Rightarrow>
                  fail_unless (map_option (\<lambda>n. n = 1) (count_valid (map (\<lambda>s. validate_value s value []) schemas)))
                    path NotExactlyOne,
              case btree_get obj ''not'' of
                None \<Rightarrow> Some []
              | Some s \<Rightarrow> fail_unless (map_option (\<lambda>fs. fs \<noteq> []) (validate_value s value [])) path MatchesNegated] @
             [case value of
                JObject members \<Rightarrow> validate_object (\<lambda>s v p. validate_value s v p) obj members path
              | JArray items \<Rightarrow> validate_array (\<lambda>s v p. validate_value s v p) obj items path
              | JString text \<Rightarrow> Some (validate_string obj text path)
              | JNumber n \<Rightarrow> Some (validate_number obj (as_f64 (JNumber n)) path)
              | _ \<Rightarrow> Some []])
      | _ \<Rightarrow> None)"
  by pat_completeness auto

lemma schema_list_iff: "schema_list obj keyword = Some schemas \<longleftrightarrow> btree_get obj keyword = Some (JArray schemas)"
  by (auto simp: schema_list_def bind_eq_Some_conv elim: as_array.elims)

lemma schema_properties_member:
  assumes "(property, s) \<in> set (schema_properties obj)"
  obtains props where "btree_get obj ''properties'' = Some (JObject props)" "schema_properties obj = props"
proof -
  from assms obtain v where v: "btree_get obj ''properties'' = Some v"
    by (cases "btree_get obj ''properties''") (auto simp: schema_properties_def)
  with assms that show thesis by (cases v) (auto simp: schema_properties_def)
qed

lemma size_schema_list: "schema_list obj keyword = Some schemas \<Longrightarrow> s \<in> set schemas \<Longrightarrow> size s < size (JObject obj)"
  using size_get [of obj keyword "JArray schemas"] size_item [of s schemas] by (simp add: schema_list_iff)

lemma size_schema_property:
  assumes s: "(property, s) \<in> set (schema_properties obj)"
  shows "size s < size (JObject obj)"
proof -
  obtain props where "btree_get obj ''properties'' = Some (JObject props)" "schema_properties obj = props"
    using s by (rule schema_properties_member)
  with size_get [of obj _ "JObject props"] size_member [OF s] show ?thesis by fastforce
qed

termination validate_value
  by (relation "measure (\<lambda>(schema, _). size schema)")
    (auto dest: size_schema_list size_schema_property size_get simp del: json_value.size)

section \<open>The indented printer\<close>

definition indent :: "nat \<Rightarrow> string" where
  "indent depth = concat (replicate depth ''  '')"

abbreviation line_break :: string where
  "line_break \<equiv> [char_of (10 :: nat)]"

text \<open>The separators of \<open>write_pretty\<close>: a comma after every part but the last.\<close>

fun comma_lines :: "nat \<Rightarrow> string list \<Rightarrow> string" where
  "comma_lines depth [] = []"
| "comma_lines depth [part] = line_break @ indent depth @ part"
| "comma_lines depth (part # parts) = line_break @ indent depth @ part @ '','' @ comma_lines depth parts"

function write_pretty :: "(json_value \<Rightarrow> string) \<Rightarrow> json_value \<Rightarrow> nat \<Rightarrow> (json_error, string) result" where
  "write_pretty miniserde value depth =
     (case value of
        JNull \<Rightarrow> Ok ''null''
      | JBool b \<Rightarrow> Ok (if b then ''true'' else ''false'')
      | JNumber _ \<Rightarrow> to_json_string miniserde value
      | JString _ \<Rightarrow> to_json_string miniserde value
      | JArray values \<Rightarrow>
          if values = [] then Ok ''[]''
          else and_then (try_map (\<lambda>v. write_pretty miniserde v (Suc depth)) values) (\<lambda>parts.
            Ok (''['' @ comma_lines (Suc depth) parts @ line_break @ indent depth @ '']''))
      | JObject members \<Rightarrow>
          if members = [] then Ok ''{}''
          else and_then (try_map (\<lambda>(key, v).
              and_then (to_json_string miniserde (JString key)) (\<lambda>k.
              and_then (write_pretty miniserde v (Suc depth)) (\<lambda>t. Ok (k @ '': '' @ t)))) members) (\<lambda>parts.
            Ok (''{'' @ comma_lines (Suc depth) parts @ line_break @ indent depth @ ''}'')))"
  by pat_completeness auto

termination write_pretty
  by (relation "measure (\<lambda>(_, value, _). size value)")
    (auto dest: size_item size_member simp del: json_value.size)

definition to_json_string_pretty :: "(json_value \<Rightarrow> string) \<Rightarrow> json_value \<Rightarrow> (json_error, string) result" where
  "to_json_string_pretty miniserde value = write_pretty miniserde value 0"

section \<open>Tool arguments\<close>

datatype tool_argument_error =
    InvalidSchema schema_problem
  | ArgumentsNotJson
  | Unrenderable json_error
  | ValidationFailed "validation_failure list" string
  | ValidatorPanic

definition validate_tool_arguments ::
    "(string \<Rightarrow> json_value option) \<Rightarrow> (json_value \<Rightarrow> string) \<Rightarrow> json_value \<Rightarrow> string \<Rightarrow>
     (tool_argument_error, unit) result" where
  "validate_tool_arguments from_str miniserde schema arguments =
     and_then (map_err InvalidSchema (validate_schema schema)) (\<lambda>_.
     and_then (map_err (\<lambda>_. ArgumentsNotJson) (parse_json from_str arguments)) (\<lambda>value.
       (case validate_value schema value [] of
          None \<Rightarrow> Err ValidatorPanic
        | Some [] \<Rightarrow> Ok ()
        | Some errors \<Rightarrow>
            and_then (map_err Unrenderable (to_json_string_pretty miniserde value)) (\<lambda>received.
              Err (ValidationFailed errors received)))))"

end
