(* ===== verification/Schema_Guarantees.thy ===== *)
theory Schema_Guarantees
  imports Schema_Validation
begin

text \<open>
  What a JSON value must satisfy to conform to a schema, keyword by keyword, stated on the data alone
  and not with the checks of the validator; and that the validator decides it, without panicking, for
  every accepted schema. Lengths are compared as 64-bit numbers and bounds as 64-bit floats, as the
  language does it.
\<close>

section \<open>Conformance\<close>

text \<open>The names of the types of a value; an integer is also a number.\<close>

fun type_names :: "json_value \<Rightarrow> string set" where
  "type_names JNull = {''null''}"
| "type_names (JBool _) = {''boolean''}"
| "type_names (JNumber (Float _)) = {''number''}"
| "type_names (JNumber _) = {''integer'', ''number''}"
| "type_names (JString _) = {''string''}"
| "type_names (JArray _) = {''array''}"
| "type_names (JObject _) = {''object''}"

definition type_conforms :: "schema_fields \<Rightarrow> json_value \<Rightarrow> bool" where
  "type_conforms obj value \<longleftrightarrow> (\<forall>t. btree_get obj ''type'' = Some t \<longrightarrow>
     (\<exists>name \<in> type_names value. t = JString name \<or> (\<exists>names. t = JArray names \<and> JString name \<in> set names)))"

definition enum_conforms :: "schema_fields \<Rightarrow> json_value \<Rightarrow> bool" where
  "enum_conforms obj value \<longleftrightarrow> (\<forall>values. btree_get obj ''enum'' = Some (JArray values) \<longrightarrow> value \<in> set values)"

definition const_conforms :: "schema_fields \<Rightarrow> json_value \<Rightarrow> bool" where
  "const_conforms obj value \<longleftrightarrow> (\<forall>constant. btree_get obj ''const'' = Some constant \<longrightarrow> value = constant)"

definition count_conforms :: "string \<Rightarrow> string \<Rightarrow> schema_fields \<Rightarrow> nat \<Rightarrow> bool" where
  "count_conforms least most obj n \<longleftrightarrow>
     (\<forall>bound. btree_get obj least = Some (JNumber (Unsigned bound)) \<longrightarrow> bound \<le> of_nat n) \<and>
     (\<forall>bound. btree_get obj most = Some (JNumber (Unsigned bound)) \<longrightarrow> of_nat n \<le> bound)"

definition number_bound :: "schema_fields \<Rightarrow> string \<Rightarrow> f64 \<Rightarrow> bool" where
  "number_bound obj keyword bound \<longleftrightarrow> (\<exists>n. btree_get obj keyword = Some (JNumber n) \<and> as_f64 (JNumber n) = Some bound)"

definition number_conforms :: "schema_fields \<Rightarrow> json_number \<Rightarrow> bool" where
  "number_conforms obj n \<longleftrightarrow> (\<forall>x bound. as_f64 (JNumber n) = Some x \<longrightarrow>
     (number_bound obj ''minimum'' bound \<longrightarrow> f64_le bound x) \<and>
     (number_bound obj ''maximum'' bound \<longrightarrow> f64_le x bound) \<and>
     (number_bound obj ''exclusiveMinimum'' bound \<longrightarrow> f64_less bound x) \<and>
     (number_bound obj ''exclusiveMaximum'' bound \<longrightarrow> f64_less x bound))"

definition required_conforms :: "schema_fields \<Rightarrow> (string, json_value) btree \<Rightarrow> bool" where
  "required_conforms obj members \<longleftrightarrow> (\<forall>names name. btree_get obj ''required'' = Some (JArray names) \<longrightarrow>
     JString name \<in> set names \<longrightarrow> name \<in> fst ` set members)"

definition unique_conforms :: "schema_fields \<Rightarrow> json_value list \<Rightarrow> bool" where
  "unique_conforms obj items \<longleftrightarrow> (btree_get obj ''uniqueItems'' = Some (JBool True) \<longrightarrow> distinct items)"

function conforms :: "json_value \<Rightarrow> json_value \<Rightarrow> bool" where
  "conforms schema value =
     (case schema of
        JObject obj \<Rightarrow>
          type_conforms obj value \<and> enum_conforms obj value \<and> const_conforms obj value \<and>
          (case schema_list obj ''allOf'' of None \<Rightarrow> True | Some ss \<Rightarrow> list_all (\<lambda>s. conforms s value) ss) \<and>
          (case schema_list obj ''anyOf'' of None \<Rightarrow> True | Some ss \<Rightarrow> list_ex (\<lambda>s. conforms s value) ss) \<and>
          (case schema_list obj ''oneOf'' of None \<Rightarrow> True | Some ss \<Rightarrow> length (filter (\<lambda>s. conforms s value) ss) = 1) \<and>
          (case btree_get obj ''not'' of None \<Rightarrow> True | Some s \<Rightarrow> \<not> conforms s value) \<and>
          (case value of
             JObject members \<Rightarrow>
               required_conforms obj members \<and>
               list_all (\<lambda>(p, s). case btree_get members p of None \<Rightarrow> True | Some v \<Rightarrow> conforms s v) (schema_properties obj) \<and>
               list_all (\<lambda>(p, v). btree_contains (schema_properties obj) p \<or>
                 (case btree_get obj ''additionalProperties'' of
                    Some (JBool False) \<Rightarrow> False
                  | Some (JObject s) \<Rightarrow> conforms (JObject s) v
                  | _ \<Rightarrow> True)) members
           | JArray items \<Rightarrow>
               (case btree_get obj ''items'' of None \<Rightarrow> True | Some s \<Rightarrow> list_all (\<lambda>v. conforms s v) items) \<and>
               unique_conforms obj items \<and> count_conforms ''minItems'' ''maxItems'' obj (length items)
           | JString text \<Rightarrow> count_conforms ''minLength'' ''maxLength'' obj (char_count text)
           | JNumber n \<Rightarrow> number_conforms obj n
           | _ \<Rightarrow> True)
      | _ \<Rightarrow> False)"
  by pat_completeness auto

termination conforms
  by (relation "measure (\<lambda>(schema, _). size schema)")
    (auto dest: size_schema_list size_schema_property size_get simp del: json_value.size)

declare validate_value.simps [simp del] validate_schema.simps [simp del] conforms.simps [simp del] write_pretty.simps [simp del]

section \<open>Accepted schemas\<close>

lemma when_present_ok: "when_present obj k f = Inr () \<longleftrightarrow> (\<forall>v. btree_get obj k = Some v \<longrightarrow> f v = Inr ())"
  by (auto simp: when_present_def split: option.splits)

lemma and_then_unit_ok: "and_then r f = Inr b \<longleftrightarrow> r = Inr () \<and> f () = Inr b"
  by (cases r) auto

lemma validate_schema_parts:
  assumes "validate_schema (JObject obj) = Inr ()"
  shows schema_branch_ok: "\<And>k ss s. k \<in> {''allOf'', ''anyOf'', ''oneOf''} \<Longrightarrow> schema_list obj k = Some ss \<Longrightarrow> s \<in> set ss \<Longrightarrow> validate_schema s = Inr ()"
    and schema_not_ok: "\<And>s. btree_get obj ''not'' = Some s \<Longrightarrow> validate_schema s = Inr ()"
    and schema_items_ok: "\<And>s. btree_get obj ''items'' = Some s \<Longrightarrow> validate_schema s = Inr ()"
    and schema_additional_ok: "\<And>s. btree_get obj ''additionalProperties'' = Some (JObject s) \<Longrightarrow> validate_schema (JObject s) = Inr ()"
    and schema_property_ok: "\<And>p s. (p, s) \<in> set (schema_properties obj) \<Longrightarrow> validate_schema s = Inr ()"
proof -
  note parts = assms [unfolded validate_schema.simps [of "JObject obj"] json_value.case and_then_unit_ok
      when_present_ok check_all_ok]
  have branches: "\<forall>k \<in> {''allOf'', ''anyOf'', ''oneOf''}. \<forall>v. btree_get obj k = Some v \<longrightarrow>
      (case v of JArray ss \<Rightarrow> check_all validate_schema ss | _ \<Rightarrow> Err (NotSchemaArray k)) = Inr ()"
    using parts by simp
  show "validate_schema s = Inr ()" if k: "k \<in> {''allOf'', ''anyOf'', ''oneOf''}" "schema_list obj k = Some ss" "s \<in> set ss" for k ss s
  proof -
    have "check_all validate_schema ss = Inr ()"
      using bspec [OF branches k(1)] k(2) by (auto simp: schema_list_iff)
    with k(3) show ?thesis by (auto simp: check_all_ok)
  qed
  show "validate_schema s = Inr ()" if "btree_get obj ''not'' = Some s" for s
    using parts that by simp
  show "validate_schema s = Inr ()" if "btree_get obj ''items'' = Some s" for s
    using parts that by (simp split: if_splits)
  show "validate_schema (JObject s) = Inr ()" if "btree_get obj ''additionalProperties'' = Some (JObject s)" for s
    using parts that by simp
  show "validate_schema s = Inr ()" if m: "(p, s) \<in> set (schema_properties obj)" for p s
  proof -
    obtain props where props: "btree_get obj ''properties'' = Some (JObject props)" "schema_properties obj = props"
      using m by (rule schema_properties_member)
    have "check_all (\<lambda>(name, s). map_err (InProperty name) (validate_schema s)) props = Inr ()"
      using parts props(1) by simp
    with m props(2) show ?thesis by (auto simp: check_all_ok map_err_ok)
  qed
qed

section \<open>The validator decides conformance\<close>

text \<open>A schema on which the validator does not panic and finds failures exactly in values that do not conform.\<close>

definition decides :: "json_value \<Rightarrow> bool" where
  "decides schema \<longleftrightarrow> (\<forall>value path. \<exists>fs. validate_value schema value path = Some fs \<and> (fs = [] \<longleftrightarrow> conforms schema value))"

lemma decidesD: "decides s \<Longrightarrow> \<exists>fs. validate_value s v path = Some fs"
  "decides s \<Longrightarrow> validate_value s v path = Some [] \<longleftrightarrow> conforms s v"
  unfolding decides_def by (metis option.inject)+

lemma decides_not_None: "decides s \<Longrightarrow> validate_value s v path \<noteq> None"
  using decidesD(1) by fastforce

text \<open>Parts that all return, and whether they are all without failure.\<close>

definition settles :: "validation_failure list option list \<Rightarrow> bool \<Rightarrow> bool" where
  "settles parts holds \<longleftrightarrow> None \<notin> set parts \<and> ((\<forall>p \<in> set parts. p = Some []) \<longleftrightarrow> holds)"

lemma settles_append: "settles xs a \<Longrightarrow> settles ys b \<Longrightarrow> settles (xs @ ys) (a \<and> b)"
  by (auto simp: settles_def)

lemma settles_Nil: "settles [] True"
  by (simp add: settles_def)

lemma settles_one: "p = Some fs \<Longrightarrow> (fs = []) = a \<Longrightarrow> settles [p] a"
  by (auto simp: settles_def)

lemma settles_map:
  assumes f: "\<And>x. x \<in> set xs \<Longrightarrow> \<exists>fs. f x = Some fs \<and> (fs = [] \<longleftrightarrow> P x)"
  shows "settles (map f xs) (list_all P xs)"
  using f
proof (induction xs)
  case (Cons x xs)
  from Cons.prems [of x] obtain fs where "f x = Some fs" "fs = [] \<longleftrightarrow> P x" by auto
  with Cons show ?case by (auto simp: settles_def)
qed (simp add: settles_Nil)

lemma settles_join:
  assumes "settles parts a"
  shows "\<exists>fs. join_failures parts = Some fs \<and> (fs = [] \<longleftrightarrow> a)"
proof -
  have none: "None \<notin> set parts" and holds: "(\<forall>p \<in> set parts. p = Some []) \<longleftrightarrow> a"
    using assms by (auto simp: settles_def)
  have "(\<forall>p \<in> set parts. the p = []) \<longleftrightarrow> (\<forall>p \<in> set parts. p = Some [])"
    using none by (intro ball_cong refl) (case_tac p, auto)
  with holds none show ?thesis by (simp add: join_failures_def)
qed

lemma any_valid_decides:
  "(\<And>s. s \<in> set ss \<Longrightarrow> decides s) \<Longrightarrow>
   any_valid (map (\<lambda>s. validate_value s v path) ss) = Some (list_ex (\<lambda>s. conforms s v) ss)"
proof (induction ss)
  case (Cons s ss)
  from Cons.prems [of s] obtain fs where fs: "validate_value s v path = Some fs" "fs = [] \<longleftrightarrow> conforms s v"
    by (auto simp: decides_def)
  with Cons show ?case by (cases fs) auto
qed simp

lemma count_valid_decides:
  assumes "\<And>s. s \<in> set ss \<Longrightarrow> decides s"
  shows "count_valid (map (\<lambda>s. validate_value s v path) ss) = Some (length (filter (\<lambda>s. conforms s v) ss))"
proof -
  have "None \<notin> set (map (\<lambda>s. validate_value s v path) ss)"
    using assms decides_not_None [of _ v path] by force
  moreover have "filter (\<lambda>s. validate_value s v path = Some []) ss = filter (\<lambda>s. conforms s v) ss"
    by (intro filter_cong refl decidesD(2) assms)
  ultimately show ?thesis by (simp add: count_valid_def filter_map comp_def)
qed

text \<open>The leaf checks of the validator find no failure exactly when the keyword is satisfied.\<close>

lemma type_matches_iff: "type_matches n v \<longleftrightarrow> n \<in> type_names v"
  by (cases v rule: type_names.cases) (auto simp: type_matches_def is_null_def is_object_def)

lemma as_str_iff: "as_str t = Some n \<longleftrightarrow> t = JString n"
  by (cases t) auto

lemma type_allows_iff:
  "type_allows t v \<longleftrightarrow> (\<exists>n \<in> type_names v. t = JString n \<or> (\<exists>ts. t = JArray ts \<and> JString n \<in> set ts))"
proof (cases t)
  case (JArray ts)
  have "(case as_str x of None \<Rightarrow> False | Some n \<Rightarrow> type_matches n v) \<longleftrightarrow> (\<exists>n \<in> type_names v. x = JString n)" for x
    by (auto simp: type_matches_iff as_str_iff split: option.splits)
  then show ?thesis by (auto simp: JArray list_ex_iff)
qed (auto simp: type_matches_iff)

lemma type_conforms_iff:
  "(case btree_get obj ''type'' of None \<Rightarrow> True | Some t \<Rightarrow> type_allows t v) \<longleftrightarrow> type_conforms obj v"
  by (simp add: type_conforms_def type_allows_iff split: option.split)

lemma bind_array_iff: "Option.bind x as_array = Some vs \<longleftrightarrow> x = Some (JArray vs)"
  by (auto simp: bind_eq_Some_conv elim: as_array.elims)

lemma enum_failures_iff: "enum_failures obj v path = [] \<longleftrightarrow> enum_conforms obj v"
  by (auto simp: enum_failures_def enum_conforms_def bind_array_iff split: option.split)

lemma const_failures_iff: "const_failures obj v path = [] \<longleftrightarrow> const_conforms obj v"
  by (auto simp: const_failures_def const_conforms_def split: option.split)

lemma bind_u64_iff: "Option.bind x as_u64 = Some b \<longleftrightarrow> x = Some (JNumber (Unsigned b))"
  by (auto simp: bind_eq_Some_conv elim: as_u64.elims)

lemma check_count_iff:
  assumes "take 3 least = ''min''" "take 3 most \<noteq> ''min''"
  shows "check_count obj least n path = [] \<and> check_count obj most n path = [] \<longleftrightarrow> count_conforms least most obj n"
  using assms by (auto simp: check_count_def count_conforms_def bind_u64_iff split: option.split)

lemma validate_string_iff:
  "validate_string obj t path = [] \<longleftrightarrow> count_conforms ''minLength'' ''maxLength'' obj (char_count t)"
  using check_count_iff [of "''minLength''" "''maxLength''"] by (simp add: validate_string_def)

lemma bind_f64_iff: "Option.bind (btree_get obj k) as_f64 = Some b \<longleftrightarrow> number_bound obj k b"
proof -
  have number: "\<exists>n. v = JNumber n" if "as_f64 v = Some b" for v
    using that by (cases v) simp_all
  show ?thesis
  proof (cases "btree_get obj k")
    case (Some v)
    then show ?thesis using number [of v] by (auto simp: number_bound_def simp del: as_f64.simps)
  qed (simp add: number_bound_def)
qed

lemma validate_number_iff: "validate_number obj (as_f64 (JNumber n)) path = [] \<longleftrightarrow> number_conforms obj n"
proof -
  have bound: "(case Option.bind (btree_get obj k) as_f64 of None \<Rightarrow> []
      | Some b \<Rightarrow> if bound_holds k x b then [] else [failed (display_path path) (OutOfBound k b)]) = [] \<longleftrightarrow>
    (\<forall>b. number_bound obj k b \<longrightarrow> bound_holds k x b)" for k x
    by (simp add: bind_f64_iff [symmetric] split: option.split)
  show ?thesis
  proof (cases "as_f64 (JNumber n)")
    case (Some x)
    show ?thesis
      unfolding validate_number_def number_conforms_def Some option.case
      by (simp add: bound bound_holds_def) blast
  qed (simp add: validate_number_def number_conforms_def)
qed

lemma required_failures_iff: "required_failures obj members path = [] \<longleftrightarrow> required_conforms obj members"
proof -
  have name: "(case as_str x of None \<Rightarrow> []
      | Some p \<Rightarrow> if btree_contains members p then [] else [failed (child_path path p) (MissingProperty p)]) = [] \<longleftrightarrow>
    (\<forall>p. x = JString p \<longrightarrow> p \<in> fst ` set members)" for x
    by (cases x) (simp_all add: btree_contains_iff dom_map_of_conv_image_fst)
  show ?thesis
  proof (cases "Option.bind (btree_get obj ''required'') as_array")
    case (Some names)
    then have "btree_get obj ''required'' = Some (JArray names)" by (simp add: bind_array_iff)
    then show ?thesis by (auto simp: required_failures_def required_conforms_def Some name)
  next
    case None
    then have "btree_get obj ''required'' \<noteq> Some (JArray names)" for names by auto
    with None show ?thesis by (simp add: required_failures_def required_conforms_def)
  qed
qed

lemma has_duplicate_iff: "has_duplicate items \<longleftrightarrow> \<not> distinct items"
proof
  assume "has_duplicate items"
  then obtain i where i: "i < length items" "items ! i \<in> set (take i items)"
    by (auto simp: has_duplicate_def list_ex_iff)
  then obtain j where "j < i" "items ! j = items ! i"
    by (auto simp: in_set_conv_nth)
  with i(1) show "\<not> distinct items"
    by (auto simp: distinct_conv_nth) (metis less_trans nat_neq_iff)
next
  assume "\<not> distinct items"
  then obtain i j where "i < length items" "j < length items" "j < i" "items ! j = items ! i"
    by (auto simp: distinct_conv_nth) (metis linorder_neqE_nat)
  then show "has_duplicate items"
    by (auto simp: has_duplicate_def list_ex_iff in_set_conv_nth intro!: exI [of _ i] exI [of _ j])
qed

lemma unique_iff:
  "(if Option.bind (btree_get obj ''uniqueItems'') as_bool = Some True \<and> has_duplicate items then [f] else []) = [] \<longleftrightarrow>
   unique_conforms obj items"
proof -
  have "Option.bind x as_bool = Some True \<longleftrightarrow> x = Some (JBool True)" for x
    by (auto simp: bind_eq_Some_conv elim: as_bool.elims)
  then show ?thesis by (simp add: unique_conforms_def has_duplicate_iff)
qed

definition object_conforms :: "schema_fields \<Rightarrow> (string, json_value) btree \<Rightarrow> bool" where
  "object_conforms obj members \<longleftrightarrow>
     required_conforms obj members \<and>
     list_all (\<lambda>(p, s). case btree_get members p of None \<Rightarrow> True | Some v \<Rightarrow> conforms s v) (schema_properties obj) \<and>
     list_all (\<lambda>(p, v). btree_contains (schema_properties obj) p \<or>
       (case btree_get obj ''additionalProperties'' of
          Some (JBool False) \<Rightarrow> False
        | Some (JObject s) \<Rightarrow> conforms (JObject s) v
        | _ \<Rightarrow> True)) members"

definition array_conforms :: "schema_fields \<Rightarrow> json_value list \<Rightarrow> bool" where
  "array_conforms obj items \<longleftrightarrow>
     (case btree_get obj ''items'' of None \<Rightarrow> True | Some s \<Rightarrow> list_all (\<lambda>v. conforms s v) items) \<and>
     unique_conforms obj items \<and> count_conforms ''minItems'' ''maxItems'' obj (length items)"

lemma validate_object_decides:
  assumes properties: "\<And>p s. (p, s) \<in> set (schema_properties obj) \<Longrightarrow> decides s"
    and additional: "\<And>s. btree_get obj ''additionalProperties'' = Some (JObject s) \<Longrightarrow> decides (JObject s)"
  shows "\<exists>fs. validate_object validate_value obj members path = Some fs \<and> (fs = [] \<longleftrightarrow> object_conforms obj members)"
  unfolding validate_object_def object_conforms_def
proof (intro settles_join settles_append settles_map settles_one [OF refl required_failures_iff])
  fix x assume "x \<in> set (schema_properties obj)"
  with properties [of "fst x" "snd x"] have "decides (snd x)" by simp
  then show "\<exists>fs. (case x of (property, s) \<Rightarrow>
        case btree_get members property of None \<Rightarrow> Some [] | Some v \<Rightarrow> validate_value s v (child_path path property)) = Some fs \<and>
      (fs = [] \<longleftrightarrow> (case x of (p, s) \<Rightarrow> case btree_get members p of None \<Rightarrow> True | Some v \<Rightarrow> conforms s v))"
    by (auto simp: decides_def split: prod.split option.split)
next
  fix x assume "x \<in> set members"
  obtain p v where x: "x = (p, v)" by (cases x)
  show "\<exists>fs. (case x of (property, v) \<Rightarrow>
        if btree_contains (schema_properties obj) property then Some []
        else (case btree_get obj ''additionalProperties'' of
                Some (JBool False) \<Rightarrow> Some [failed (child_path path property) AdditionalProperty]
              | Some (JObject s) \<Rightarrow> validate_value (JObject s) v (child_path path property)
              | _ \<Rightarrow> Some [])) = Some fs \<and>
      (fs = [] \<longleftrightarrow> (case x of (p, v) \<Rightarrow> btree_contains (schema_properties obj) p \<or>
        (case btree_get obj ''additionalProperties'' of
           Some (JBool False) \<Rightarrow> False
         | Some (JObject s) \<Rightarrow> conforms (JObject s) v
         | _ \<Rightarrow> True)))"
  proof (cases "\<exists>s. btree_get obj ''additionalProperties'' = Some (JObject s)")
    case True
    with additional show ?thesis by (auto simp: x decides_def)
  next
    case False
    then show ?thesis by (auto simp: x split: option.split json_value.split bool.split)
  qed
qed

lemma validate_array_decides:
  assumes items: "\<And>s. btree_get obj ''items'' = Some s \<Longrightarrow> decides s"
  shows "\<exists>fs. validate_array validate_value obj xs path = Some fs \<and> (fs = [] \<longleftrightarrow> array_conforms obj xs)"
proof -
  have "settles (case btree_get obj ''items'' of None \<Rightarrow> []
      | Some s \<Rightarrow> map (\<lambda>(i, x). validate_value s x (child_path path (decimal i))) (enumerate 0 xs))
    (case btree_get obj ''items'' of None \<Rightarrow> True | Some s \<Rightarrow> list_all (\<lambda>v. conforms s v) xs)"
  proof (cases "btree_get obj ''items''")
    case (Some s)
    have "settles (map (\<lambda>(i, x). validate_value s x (child_path path (decimal i))) (enumerate 0 xs))
      (list_all (\<lambda>(i, x). conforms s x) (enumerate 0 xs))"
      using items [OF Some] by (intro settles_map) (auto simp: decides_def)
    moreover have "list_all (\<lambda>(i, x). conforms s x) (enumerate 0 xs) \<longleftrightarrow> list_all (\<lambda>v. conforms s v) xs"
      by (simp add: enumerate_eq_zip list_all_length)
    ultimately show ?thesis by (simp add: Some)
  qed (simp add: settles_Nil)
  moreover have "settles
      [Some (if Option.bind (btree_get obj ''uniqueItems'') as_bool = Some True \<and> has_duplicate xs
             then [failed (display_path path) NotUnique] else []),
       Some (check_count obj ''minItems'' (length xs) path), Some (check_count obj ''maxItems'' (length xs) path)]
    (unique_conforms obj xs \<and> count_conforms ''minItems'' ''maxItems'' obj (length xs))"
    using unique_iff [of obj xs "failed (display_path path) NotUnique"]
      check_count_iff [of "''minItems''" "''maxItems''" obj "length xs" path]
    by (simp add: settles_def)
  ultimately show ?thesis
    unfolding validate_array_def array_conforms_def by (intro settles_join settles_append)
qed

definition kind_conforms :: "schema_fields \<Rightarrow> json_value \<Rightarrow> bool" where
  "kind_conforms obj v =
     (case v of
        JObject members \<Rightarrow> object_conforms obj members
      | JArray items \<Rightarrow> array_conforms obj items
      | JString t \<Rightarrow> count_conforms ''minLength'' ''maxLength'' obj (char_count t)
      | JNumber n \<Rightarrow> number_conforms obj n
      | _ \<Rightarrow> True)"

lemma conforms_object:
  "conforms (JObject obj) v \<longleftrightarrow>
     type_conforms obj v \<and> (enum_conforms obj v \<and> const_conforms obj v) \<and>
     (case schema_list obj ''allOf'' of None \<Rightarrow> True | Some ss \<Rightarrow> list_all (\<lambda>s. conforms s v) ss) \<and>
     ((case schema_list obj ''anyOf'' of None \<Rightarrow> True | Some ss \<Rightarrow> list_ex (\<lambda>s. conforms s v) ss) \<and>
      (case schema_list obj ''oneOf'' of None \<Rightarrow> True | Some ss \<Rightarrow> length (filter (\<lambda>s. conforms s v) ss) = 1) \<and>
      (case btree_get obj ''not'' of None \<Rightarrow> True | Some s \<Rightarrow> \<not> conforms s v)) \<and>
     kind_conforms obj v"
  by (subst conforms.simps)
    (simp only: json_value.case kind_conforms_def object_conforms_def array_conforms_def conj_assoc)

lemma fail_unless_settles: "holds = Some h \<Longrightarrow> settles [fail_unless holds path m] h"
  by (simp add: settles_def fail_unless_def)

lemma settles_three: "settles [p] a \<Longrightarrow> settles [q] b \<Longrightarrow> settles [r] c \<Longrightarrow> settles [p, q, r] (a \<and> b \<and> c)"
  by (auto simp: settles_def)

text \<open>The schemas that a schema object contains are decided.\<close>

definition parts_decide :: "schema_fields \<Rightarrow> bool" where
  "parts_decide obj \<longleftrightarrow>
     (\<forall>k \<in> {''allOf'', ''anyOf'', ''oneOf''}. \<forall>ss. schema_list obj k = Some ss \<longrightarrow> (\<forall>s \<in> set ss. decides s)) \<and>
     (\<forall>s. btree_get obj ''not'' = Some s \<longrightarrow> decides s) \<and>
     (\<forall>s. btree_get obj ''items'' = Some s \<longrightarrow> decides s) \<and>
     (\<forall>s. btree_get obj ''additionalProperties'' = Some (JObject s) \<longrightarrow> decides (JObject s)) \<and>
     (\<forall>(p, s) \<in> set (schema_properties obj). decides s)"

lemma kind_settles:
  assumes "parts_decide obj"
  shows "settles [case v of
      JObject members \<Rightarrow> validate_object validate_value obj members path
    | JArray items \<Rightarrow> validate_array validate_value obj items path
    | JString t \<Rightarrow> Some (validate_string obj t path)
    | JNumber n \<Rightarrow> Some (validate_number obj (as_f64 (JNumber n)) path)
    | _ \<Rightarrow> Some []] (kind_conforms obj v)"
proof (cases v)
  case (JObject members)
  have "\<exists>fs. validate_object validate_value obj members path = Some fs \<and> (fs = [] \<longleftrightarrow> object_conforms obj members)"
    using assms by (intro validate_object_decides) (auto simp: parts_decide_def)
  then show ?thesis by (auto simp: JObject kind_conforms_def settles_def)
next
  case (JArray xs)
  have "\<exists>fs. validate_array validate_value obj xs path = Some fs \<and> (fs = [] \<longleftrightarrow> array_conforms obj xs)"
    using assms by (intro validate_array_decides) (auto simp: parts_decide_def)
  then show ?thesis by (auto simp: JArray kind_conforms_def settles_def)
qed (simp_all add: kind_conforms_def settles_def validate_string_iff validate_number_iff del: as_f64.simps)

lemma all_settles:
  assumes "parts_decide obj"
  shows "settles (case schema_list obj ''allOf'' of None \<Rightarrow> [] | Some ss \<Rightarrow> map (\<lambda>s. validate_value s v path) ss)
    (case schema_list obj ''allOf'' of None \<Rightarrow> True | Some ss \<Rightarrow> list_all (\<lambda>s. conforms s v) ss)"
proof (cases "schema_list obj ''allOf''")
  case (Some ss)
  with assms have "\<forall>s \<in> set ss. decides s" by (auto simp: parts_decide_def)
  then have "settles (map (\<lambda>s. validate_value s v path) ss) (list_all (\<lambda>s. conforms s v) ss)"
    by (intro settles_map) (simp add: decides_def)
  then show ?thesis by (simp add: Some)
qed (simp add: settles_Nil)

lemma any_settles:
  assumes "parts_decide obj"
  shows "settles [case schema_list obj ''anyOf'' of
      None \<Rightarrow> Some []
    | Some ss \<Rightarrow> fail_unless (any_valid (map (\<lambda>s. validate_value s v []) ss)) path m]
    (case schema_list obj ''anyOf'' of None \<Rightarrow> True | Some ss \<Rightarrow> list_ex (\<lambda>s. conforms s v) ss)"
proof (cases "schema_list obj ''anyOf''")
  case (Some ss)
  with assms have "\<forall>s \<in> set ss. decides s" by (auto simp: parts_decide_def)
  then show ?thesis by (simp add: Some fail_unless_settles any_valid_decides)
qed (simp add: settles_def)

lemma one_settles:
  assumes "parts_decide obj"
  shows "settles [case schema_list obj ''oneOf'' of
      None \<Rightarrow> Some []
    | Some ss \<Rightarrow> fail_unless (map_option (\<lambda>n. n = 1) (count_valid (map (\<lambda>s. validate_value s v []) ss))) path m]
    (case schema_list obj ''oneOf'' of None \<Rightarrow> True | Some ss \<Rightarrow> length (filter (\<lambda>s. conforms s v) ss) = 1)"
proof (cases "schema_list obj ''oneOf''")
  case (Some ss)
  with assms have "\<forall>s \<in> set ss. decides s" by (auto simp: parts_decide_def)
  then have "count_valid (map (\<lambda>s. validate_value s v []) ss) = Some (length (filter (\<lambda>s. conforms s v) ss))"
    by (intro count_valid_decides) simp
  then show ?thesis by (simp add: Some fail_unless_settles)
qed (simp add: settles_def)

lemma not_settles:
  assumes "parts_decide obj"
  shows "settles [case btree_get obj ''not'' of
      None \<Rightarrow> Some []
    | Some s \<Rightarrow> fail_unless (map_option (\<lambda>fs. fs \<noteq> []) (validate_value s v [])) path m]
    (case btree_get obj ''not'' of None \<Rightarrow> True | Some s \<Rightarrow> \<not> conforms s v)"
proof (cases "btree_get obj ''not''")
  case (Some s)
  with assms have "decides s" by (simp add: parts_decide_def)
  then obtain fs where "validate_value s v [] = Some fs" "fs = [] \<longleftrightarrow> conforms s v" by (auto simp: decides_def)
  then show ?thesis by (auto simp: Some intro: fail_unless_settles)
qed (simp add: settles_def)

lemma parts_decide_object:
  assumes parts: "parts_decide obj"
  shows "decides (JObject obj)"
proof -
  have "\<exists>fs. validate_value (JObject obj) v path = Some fs \<and> (fs = [] \<longleftrightarrow> conforms (JObject obj) v)" for v path
  proof (cases "case btree_get obj ''type'' of None \<Rightarrow> False | Some t \<Rightarrow> \<not> type_allows t v")
    case True
    then show ?thesis
      by (subst validate_value.simps) (auto simp: conforms_object type_conforms_iff [symmetric] split: option.splits)
  next
    case False
    then have type_ok: "type_conforms obj v"
      by (auto simp: type_conforms_iff [symmetric] split: option.splits)
    have first: "settles [Some (enum_failures obj v path), Some (const_failures obj v path)]
        (enum_conforms obj v \<and> const_conforms obj v)"
      by (simp add: settles_def enum_failures_iff const_failures_iff)
    note settled = settles_join [OF settles_append [OF first settles_append [OF all_settles [OF parts]
        settles_append [OF settles_three [OF any_settles [OF parts] one_settles [OF parts] not_settles [OF parts]]
          kind_settles [OF parts]]]]]
    show ?thesis
      unfolding conforms_object
      by (subst validate_value.simps) (simp only: json_value.case False type_ok if_False simp_thms settled)
  qed
  then show ?thesis by (simp add: decides_def)
qed

theorem accepted_decides: "validate_schema s = Inr () \<Longrightarrow> decides s"
proof (induction s rule: measure_induct_rule [of size])
  case (less s)
  show ?case
  proof (cases s)
    case (JObject obj)
    note ok = less.prems [unfolded JObject]
    have "parts_decide obj"
      unfolding parts_decide_def
    proof (intro conjI ballI allI impI, goal_cases)
      case (1 k ss s')
      with schema_branch_ok [OF ok 1(1,2)] size_schema_list [of obj k ss s'] less.IH [of s'] show ?case
        by (simp add: JObject)
    next
      case (2 s')
      with schema_not_ok [OF ok 2] size_get [of obj _ s'] less.IH [of s'] show ?case by (simp add: JObject)
    next
      case (3 s')
      with schema_items_ok [OF ok 3] size_get [of obj _ s'] less.IH [of s'] show ?case by (simp add: JObject)
    next
      case (4 s')
      with schema_additional_ok [OF ok 4] size_get [of obj _ "JObject s'"] less.IH [of "JObject s'"] show ?case
        by (simp add: JObject)
    next
      case (5 x)
      obtain p s' where "x = (p, s')" by (metis surj_pair)
      with 5 have x: "x = (p, s')" "(p, s') \<in> set (schema_properties obj)" by simp_all
      with schema_property_ok [OF ok x(2)] size_schema_property [OF x(2)] less.IH [of s'] show ?case
        by (simp add: JObject)
    qed
    then show ?thesis by (simp add: JObject parts_decide_object)
  qed (use less.prems in \<open>simp_all add: validate_schema.simps\<close>)
qed

section \<open>Rendering\<close>

lemma try_map_defined: "(\<And>x. x \<in> set xs \<Longrightarrow> \<exists>y. f x = Inr y) \<Longrightarrow> \<exists>ys. try_map f xs = Inr ys"
proof (induction xs)
  case (Cons x xs)
  then obtain y ys where "f x = Inr y" "try_map f xs = Inr ys" by fastforce
  then show ?case by simp
qed simp

text \<open>A value whose numbers are finite is rendered.\<close>

lemma pretty_defined: "encodable v \<Longrightarrow> \<exists>t. write_pretty miniserde v depth = Inr t"
proof (induction v arbitrary: depth rule: measure_induct_rule [of size])
  case (less v)
  show ?case
  proof (cases v)
    case (JArray vs)
    have "\<exists>ts. try_map (\<lambda>v. write_pretty miniserde v (Suc depth)) vs = Inr ts"
      using less size_item [of _ vs] by (intro try_map_defined) (simp add: JArray)
    then show ?thesis by (subst write_pretty.simps) (auto simp: JArray)
  next
    case (JObject members)
    have "\<exists>ts. try_map (\<lambda>(key, v). and_then (to_json_string miniserde (JString key)) (\<lambda>k.
        and_then (write_pretty miniserde v (Suc depth)) (\<lambda>t. Ok (k @ '': '' @ t)))) members = Inr ts"
    proof (rule try_map_defined)
      fix x assume x: "x \<in> set members"
      have "encodable (snd x)" "size (snd x) < size v"
        using less.prems x size_member [of "fst x" "snd x" members] by (simp_all add: JObject)
      then obtain t where "write_pretty miniserde (snd x) (Suc depth) = Inr t" using less.IH by blast
      then show "\<exists>y. (case x of (key, v) \<Rightarrow> and_then (to_json_string miniserde (JString key)) (\<lambda>k.
          and_then (write_pretty miniserde v (Suc depth)) (\<lambda>t. Ok (k @ '': '' @ t)))) = Inr y"
        by (cases x) (simp add: to_json_string_def)
    qed
    then show ?thesis by (subst write_pretty.simps) (auto simp: JObject)
  qed (use less.prems in \<open>auto simp: write_pretty.simps to_json_string_def\<close>)
qed

section \<open>Properties\<close>

text \<open>
  C30: Tool arguments are accepted exactly when the schema lies in the supported vocabulary, the
  arguments are JSON and the value conforms to the schema in the sense of \<open>conforms\<close>, whatever the
  JSON package is; and when they are refused the reason is one of three: the schema, the text or a
  report of failures that is not empty. Neither the \<open>expect\<close> of the validator nor the rendering of the
  refused arguments ever fails.
\<close>

theorem tool_arguments_checked:
  "(validate_tool_arguments from_str miniserde schema arguments = Ok () \<longleftrightarrow>
      validate_schema schema = Ok () \<and> (\<exists>v. parse_json from_str arguments = Ok v \<and> conforms schema v)) \<and>
   validate_tool_arguments from_str miniserde schema arguments \<in>
     insert (Ok ()) (insert (Err ArgumentsNotJson)
       (Err ` (range InvalidSchema \<union> {ValidationFailed fs t | fs t. fs \<noteq> []})))"
proof (cases "validate_schema schema")
  case (Inr u)
  then have decided: "decides schema" using accepted_decides by (cases u) simp
  show ?thesis
  proof (cases "parse_json from_str arguments")
    case parsed: (Inr v)
    obtain fs where fs: "validate_value schema v [] = Some fs" "fs = [] \<longleftrightarrow> conforms schema v"
      using decided by (auto simp: decides_def)
    have "encodable v" using parsed by (auto simp: parse_json_def split: option.splits if_splits)
    then obtain t where "to_json_string_pretty miniserde v = Inr t"
      using pretty_defined [of v miniserde 0] by (auto simp: to_json_string_pretty_def)
    with fs show ?thesis by (cases fs) (auto simp: validate_tool_arguments_def Inr parsed)
  qed (simp add: validate_tool_arguments_def Inr)
qed (simp add: validate_tool_arguments_def)

section \<open>Bounds and rounding\<close>

lemma bit_count_upper: "n < 2 ^ bit_count n"
proof (induction n rule: bit_count.induct)
  case (1 n)
  then show ?case by (cases "n = 0") (auto simp: bit_count.simps [of n])
qed

lemma bit_count_lower: "0 < n \<Longrightarrow> 2 ^ (bit_count n - 1) \<le> n"
proof (induction n rule: bit_count.induct)
  case (1 n)
  have unfolded: "bit_count n = Suc (bit_count (n div 2))"
    using 1(2) by (subst bit_count.simps) simp
  show ?case
  proof (cases "n div 2 = 0")
    case True
    then have "bit_count (n div 2) = 0" by (subst bit_count.simps) simp
    with 1(2) unfolded show ?thesis by simp
  next
    case False
    then have "0 < bit_count (n div 2)" by (subst bit_count.simps) simp
    then obtain k where k: "bit_count (n div 2) = Suc k" by (cases "bit_count (n div 2)") auto
    with 1 False have "2 ^ k \<le> n div 2" by simp
    with unfolded k show ?thesis by simp
  qed
qed

lemma bit_count_eqI: "2 ^ k \<le> n \<Longrightarrow> n < 2 ^ Suc k \<Longrightarrow> bit_count n = Suc k"
proof -
  assume n: "2 ^ k \<le> n" "n < 2 ^ Suc k"
  then have pos: "0 < n" by (metis gr0I not_le zero_less_numeral zero_less_power)
  have "2 ^ k < (2 :: nat) ^ bit_count n" using n(1) bit_count_upper [of n] by linarith
  moreover have "2 ^ (bit_count n - 1) < (2 :: nat) ^ Suc k" using n(2) bit_count_lower [OF pos] by linarith
  ultimately have "k < bit_count n" "bit_count n - 1 < Suc k" by (simp_all only: power_strict_increasing_iff one_less_numeral_iff semiring_norm)
  then show ?thesis by simp
qed

lemma bit_count_mono: "m \<le> n \<Longrightarrow> bit_count m \<le> bit_count n"
proof (rule ccontr)
  assume mn: "m \<le> n" and "\<not> bit_count m \<le> bit_count n"
  then have less: "bit_count n \<le> bit_count m - 1" and "bit_count m \<noteq> 0" by auto
  then have "0 < m" by (cases m) (auto simp: bit_count.simps)
  have "(2 :: nat) ^ bit_count n \<le> 2 ^ (bit_count m - 1)" using less by (rule power_increasing) simp
  with bit_count_lower [OF \<open>0 < m\<close>] bit_count_upper [of n] mn show False by linarith
qed

lemma round_f64_exact: "bit_count m \<le> 53 \<Longrightarrow> round_f64 m = m"
  by (simp add: round_f64_def)

lemma round_f64_small:
  assumes "m \<le> 2 ^ 53"
  shows "round_f64 m = m"
proof (cases "m = 2 ^ 53")
  case True
  have "bit_count m = Suc 53" by (rule bit_count_eqI) (simp_all add: True)
  with True show ?thesis by (simp add: round_f64_def)
next
  case False
  with assms have "m < 2 ^ 53" by simp
  then have "bit_count m \<le> 53"
    using bit_count_mono [of m "2 ^ 53 - 1"] bit_count_eqI [of 52 "2 ^ 53 - 1"] by simp
  then show ?thesis by (rule round_f64_exact)
qed

text \<open>A number above the exact range: its leading 53 bits and the rest, rounded to a neighbour.\<close>

definition round_up :: "nat \<Rightarrow> nat \<Rightarrow> nat \<Rightarrow> nat" where
  "round_up e q r = (if 2 ^ (e - 1) < r \<or> 2 ^ (e - 1) = r \<and> odd q then Suc q else q)"

lemma round_f64_split:
  "bit_count m = 53 + e \<Longrightarrow> 0 < e \<Longrightarrow> round_f64 m = round_up e (m div 2 ^ e) (m mod 2 ^ e) * 2 ^ e"
  by (simp add: round_f64_def round_up_def Let_def)

lemma round_up_mono:
  assumes "m \<le> n"
  shows "round_up e (m div 2 ^ e) (m mod 2 ^ e) \<le> round_up e (n div 2 ^ e) (n mod 2 ^ e)"
proof (cases "m div 2 ^ e = n div 2 ^ e")
  case True
  have "m mod 2 ^ e \<le> n mod 2 ^ e"
    using assms div_mult_mod_eq [of m "2 ^ e"] div_mult_mod_eq [of n "2 ^ e"] unfolding True by linarith
  with True show ?thesis by (auto simp: round_up_def)
next
  case False
  with div_le_mono [OF assms, of "2 ^ e"] show ?thesis by (auto simp: round_up_def)
qed

lemma round_f64_between:
  assumes m: "bit_count m = 53 + e"
  shows "2 ^ (52 + e) \<le> round_f64 m" "round_f64 m \<le> 2 ^ (53 + e)"
proof -
  have "0 < m" using m by (cases m) (auto simp: bit_count.simps)
  then have low: "2 ^ (52 + e) \<le> m" using bit_count_lower [of m] m by simp
  have up: "m < 2 ^ (53 + e)" using bit_count_upper [of m] m by simp
  show "2 ^ (52 + e) \<le> round_f64 m"
  proof (cases "e = 0")
    case False
    have "2 ^ 52 \<le> m div 2 ^ e" using low by (simp add: power_add less_eq_div_iff_mult_less_eq)
    then have "2 ^ 52 \<le> round_up e (m div 2 ^ e) (m mod 2 ^ e)" by (simp add: round_up_def)
    then have "2 ^ 52 * 2 ^ e \<le> round_up e (m div 2 ^ e) (m mod 2 ^ e) * 2 ^ e" by (rule mult_right_mono) simp
    with False m show ?thesis by (simp add: round_f64_split power_add)
  qed (use low m in \<open>simp add: round_f64_exact\<close>)
  show "round_f64 m \<le> 2 ^ (53 + e)"
  proof (cases "e = 0")
    case False
    have "m div 2 ^ e < 2 ^ 53" using up by (simp add: power_add less_mult_imp_div_less)
    then have "round_up e (m div 2 ^ e) (m mod 2 ^ e) \<le> 2 ^ 53" by (simp add: round_up_def)
    then have "round_up e (m div 2 ^ e) (m mod 2 ^ e) * 2 ^ e \<le> 2 ^ 53 * 2 ^ e" by (rule mult_right_mono) simp
    with False m show ?thesis by (simp add: round_f64_split power_add)
  qed (use up m in \<open>simp add: round_f64_exact\<close>)
qed

lemma round_f64_mono:
  assumes "m \<le> n"
  shows "round_f64 m \<le> round_f64 n"
proof (cases "bit_count n \<le> 53")
  case True
  with bit_count_mono [OF assms] assms show ?thesis by (simp add: round_f64_exact)
next
  case False
  then obtain e where n: "bit_count n = 53 + e" "0 < e" by (metis less_imp_add_positive not_le)
  consider "bit_count m \<le> 53" | d where "bit_count m = 53 + d" "0 < d" "d < e" | "bit_count m = 53 + e"
    using bit_count_mono [OF assms] n by (metis add_le_cancel_left le_neq_implies_less less_imp_add_positive not_le)
  then show ?thesis
  proof cases
    case 1
    have "m < 2 ^ 53"
      using bit_count_upper [of m] power_increasing [OF 1, of "2 :: nat"] by linarith
    also have "(2 :: nat) ^ 53 \<le> 2 ^ (52 + e)" using n(2) by (intro power_increasing) auto
    also have "\<dots> \<le> round_f64 n" using n(1) by (rule round_f64_between)
    finally show ?thesis using 1 by (simp add: round_f64_exact)
  next
    case 2
    have "round_f64 m \<le> 2 ^ (53 + d)" using 2(1) by (rule round_f64_between)
    also have "(2 :: nat) ^ (53 + d) \<le> 2 ^ (52 + e)" using 2(3) by (intro power_increasing) auto
    also have "\<dots> \<le> round_f64 n" using n(1) by (rule round_f64_between)
    finally show ?thesis .
  next
    case 3
    with n show ?thesis by (simp add: round_f64_split round_up_mono [OF assms])
  qed
qed

lemma round_f64_near:
  assumes q: "2 ^ 52 \<le> q" "q < 2 ^ 53" and e: "0 < e" and d: "d < 2 ^ (e - 1)"
  shows "round_f64 (q * 2 ^ e + d) = q * 2 ^ e"
proof -
  have "d < 2 ^ e" using d by (rule less_le_trans) simp
  have "q * 2 ^ e + d < (q + 1) * 2 ^ e" using \<open>d < 2 ^ e\<close> by simp
  also have "\<dots> \<le> 2 ^ 53 * 2 ^ e" using q(2) by (intro mult_right_mono) auto
  finally have up: "q * 2 ^ e + d < 2 ^ Suc (52 + e)" by (simp add: power_add)
  have "2 ^ 52 * 2 ^ e \<le> q * 2 ^ e" using q(1) by (rule mult_right_mono) simp
  then have "2 ^ (52 + e) \<le> q * 2 ^ e + d" unfolding power_add by linarith
  then have "bit_count (q * 2 ^ e + d) = 53 + e" using up by (simp add: bit_count_eqI)
  with e \<open>d < 2 ^ e\<close> d show ?thesis by (simp add: round_f64_split round_up_def)
qed

lemma maximum_accepts:
  "validate_value (JObject [(''maximum'', JNumber (Unsigned m))]) (JNumber (Unsigned v)) path = Some [] \<longleftrightarrow>
   round_f64 (unat v) \<le> round_f64 (unat m)"
proof -
  have "conforms (JObject [(''maximum'', JNumber (Unsigned m))]) (JNumber (Unsigned v)) \<longleftrightarrow>
    round_f64 (unat v) \<le> round_f64 (unat m)"
    by (subst conforms.simps)
      (auto simp: type_conforms_def enum_conforms_def const_conforms_def schema_list_def number_conforms_def number_bound_def)
  moreover have "decides (JObject [(''maximum'', JNumber (Unsigned m))])"
    by (rule accepted_decides) (subst validate_schema.simps, simp add: allowed_keywords_def when_present_def check_with_def)
  ultimately show ?thesis by (simp add: decidesD(2))
qed

text \<open>
  C31: Numeric bounds are compared as 64-bit floats. A maximum accepts an unsigned integer exactly
  when it is not larger or is rounded to the same float: nothing within the bound is refused, a
  maximum below 2^53 is exact, and above that the integers in the lower half of the gap between a
  representable maximum and the next float are accepted although they are larger.
\<close>

theorem bound_rounding:
  "(validate_value (JObject [(''maximum'', JNumber (Unsigned m))]) (JNumber (Unsigned v)) path = Some [] \<longleftrightarrow>
      v \<le> m \<or> round_f64 (unat v) = round_f64 (unat m)) \<and>
   (unat m < 2 ^ 53 \<longrightarrow>
      (validate_value (JObject [(''maximum'', JNumber (Unsigned m))]) (JNumber (Unsigned v)) path = Some [] \<longleftrightarrow> v \<le> m)) \<and>
   (unat m = q * 2 ^ e \<and> 2 ^ 52 \<le> q \<and> q < 2 ^ 53 \<and> 0 < e \<and> unat v = unat m + d \<and> 0 < d \<and> d < 2 ^ (e - 1) \<longrightarrow>
      m < v \<and> validate_value (JObject [(''maximum'', JNumber (Unsigned m))]) (JNumber (Unsigned v)) path = Some [])"
proof (intro conjI impI)
  show exact: "validate_value (JObject [(''maximum'', JNumber (Unsigned m))]) (JNumber (Unsigned v)) path = Some [] \<longleftrightarrow>
      v \<le> m \<or> round_f64 (unat v) = round_f64 (unat m)"
    unfolding maximum_accepts word_le_nat_alt
    using round_f64_mono [of "unat v" "unat m"] round_f64_mono [of "unat m" "unat v"] by linarith
  show "validate_value (JObject [(''maximum'', JNumber (Unsigned m))]) (JNumber (Unsigned v)) path = Some [] \<longleftrightarrow> v \<le> m"
    if m: "unat m < 2 ^ 53"
  proof -
    have "round_f64 (unat m) = unat m" "round_f64 (Suc (unat m)) = Suc (unat m)"
      using m by (simp_all add: round_f64_small)
    with round_f64_mono [of "Suc (unat m)" "unat v"] have "round_f64 (unat v) = round_f64 (unat m) \<Longrightarrow> v \<le> m"
      unfolding word_le_nat_alt by linarith
    with exact show ?thesis by blast
  qed
  assume gap: "unat m = q * 2 ^ e \<and> 2 ^ 52 \<le> q \<and> q < 2 ^ 53 \<and> 0 < e \<and> unat v = unat m + d \<and> 0 < d \<and> d < 2 ^ (e - 1)"
  then show "m < v" by (simp add: word_less_nat_alt)
  show "validate_value (JObject [(''maximum'', JNumber (Unsigned m))]) (JNumber (Unsigned v)) path = Some []"
    using gap round_f64_near [of q e d] round_f64_near [of q e 0] by (simp add: maximum_accepts)
qed

theorem bound_rounding_witness:
  "(18014398509481984 :: u64) < 18014398509481985 \<and>
   validate_value (JObject [(''maximum'', JNumber (Unsigned 18014398509481984))]) (JNumber (Unsigned 18014398509481985)) [] =
     Some [] \<and>
   validate_value (JObject [(''maximum'', JNumber (Unsigned 7))]) (JNumber (Unsigned 8)) [] \<noteq> Some []"
  using bound_rounding [of 18014398509481984 18014398509481985 "[]" "2 ^ 52" 2 1] bound_rounding [of 7 8 "[]" 0 0 0]
  by (simp add: round_f64_small)

end
