(* ===== verification/Agent_Config.thy ===== *)
theory Agent_Config
  imports Tea_Json
begin

text \<open>
  The configuration a model sees, \<open>crates/tea-core/src/state/configuration.rs\<close>: prompt sections and
  declared tools, the updates that change them at a point of the conversation, and the difference of
  two configurations. \<open>ToolDeclaration\<close> is from \<open>tool.rs\<close>.

  A \<open>BTreeSet\<close> of names that is only asked for membership is the list of the names put in so far.
\<close>

section \<open>Prompts and updates\<close>

record prompt_section =
  pn_id :: string
  pn_content :: string

record system_prompt =
  sp_sections :: "prompt_section list"

record tool_declaration =
  tn_name :: string
  tn_description :: string
  tn_schema :: json_value

record section_change =
  sx_id :: string
  sx_content :: "string option"

record configuration_update =
  up_sections :: "section_change list"
  up_tools_added :: "tool_declaration list"
  up_tools_removed :: "string list"

record effective_configuration =
  ec_sections :: "prompt_section list"
  ec_tools :: "tool_declaration list"

datatype configuration_error =
    InvalidSectionId string
  | DuplicateSection string
  | EmptyToolName
  | DuplicateTool string

definition MAX_PROMPT_SECTION_ID_BYTES :: nat where
  "MAX_PROMPT_SECTION_ID_BYTES = 200"

definition validate_section_id :: "string \<Rightarrow> (configuration_error, unit) result" where
  "validate_section_id name =
     (if name = [] \<or> length name > MAX_PROMPT_SECTION_ID_BYTES \<or> has_control name
      then Err (InvalidSectionId name) else Ok ())"

text \<open>The bodies of the checking loops: \<open>seen.insert(..)\<close> refuses a name that was seen.\<close>

definition note_section :: "string list \<Rightarrow> string \<Rightarrow> (configuration_error, string list) result" where
  "note_section seen name =
     and_then (validate_section_id name) (\<lambda>_.
       if name \<in> set seen then Err (DuplicateSection name) else Ok (name # seen))"

definition note_tool :: "string list \<Rightarrow> string \<Rightarrow> (configuration_error, string list) result" where
  "note_tool seen name =
     (if name = [] then Err EmptyToolName
      else if name \<in> set seen then Err (DuplicateTool name)
      else Ok (name # seen))"

definition new_system_prompt :: "prompt_section list \<Rightarrow> (configuration_error, system_prompt) result" where
  "new_system_prompt sections =
     and_then (try_fold note_section [] (map pn_id sections)) (\<lambda>_. Ok \<lparr>sp_sections = sections\<rparr>)"

definition DEFAULT_PROMPT_SECTION_ID :: string where
  "DEFAULT_PROMPT_SECTION_ID = ''system''"

definition single_prompt :: "string \<Rightarrow> system_prompt" where
  "single_prompt content =
     (if content = [] then \<lparr>sp_sections = []\<rparr>
      else \<lparr>sp_sections = [\<lparr>pn_id = DEFAULT_PROMPT_SECTION_ID, pn_content = content\<rparr>]\<rparr>)"

text \<open>\<open>join\<close> with a blank line.\<close>

fun join_blank :: "string list \<Rightarrow> string" where
  "join_blank [] = []"
| "join_blank [part] = part"
| "join_blank (part # parts) = part @ [char_of (10 :: nat), char_of (10 :: nat)] @ join_blank parts"

definition render_sections :: "prompt_section list \<Rightarrow> string" where
  "render_sections sections = join_blank (filter (\<lambda>content. content \<noteq> []) (map pn_content sections))"

definition update_is_empty :: "configuration_update \<Rightarrow> bool" where
  "update_is_empty update \<longleftrightarrow> up_sections update = [] \<and> up_tools_added update = [] \<and> up_tools_removed update = []"

definition validate_update :: "configuration_update \<Rightarrow> (configuration_error, unit) result" where
  "validate_update update =
     and_then (try_fold note_section [] (map sx_id (up_sections update))) (\<lambda>_.
     and_then (try_fold note_tool [] (map tn_name (up_tools_added update))) (\<lambda>_.
     and_then (try_fold note_tool [] (up_tools_removed update)) (\<lambda>_. Ok ())))"

definition render_change :: "section_change \<Rightarrow> string" where
  "render_change change =
     (case sx_content change of
        Some content \<Rightarrow>
          ''Updated system prompt section '' @ [char_of (34 :: nat)] @ sx_id change @ [char_of (34 :: nat)] @ '':'' @
          [char_of (10 :: nat), char_of (10 :: nat)] @ content
      | None \<Rightarrow>
          ''Removed system prompt section '' @ [char_of (34 :: nat)] @ sx_id change @ [char_of (34 :: nat)] @ ''.'')"

definition render_update_text :: "configuration_update \<Rightarrow> string" where
  "render_update_text update = join_blank (map render_change (up_sections update))"

section \<open>Configurations\<close>

definition new_configuration :: "system_prompt \<Rightarrow> tool_declaration list \<Rightarrow> effective_configuration" where
  "new_configuration prompt tools = \<lparr>ec_sections = sp_sections prompt, ec_tools = tools\<rparr>"

definition empty_configuration :: effective_configuration where
  "empty_configuration = \<lparr>ec_sections = [], ec_tools = []\<rparr>"

text \<open>A change replaces or removes the first section of its identity, or appends a new one.\<close>

fun set_section :: "string \<Rightarrow> string \<Rightarrow> prompt_section list \<Rightarrow> prompt_section list" where
  "set_section name content [] = [\<lparr>pn_id = name, pn_content = content\<rparr>]"
| "set_section name content (s # ss) =
     (if pn_id s = name then s\<lparr>pn_content := content\<rparr> # ss else s # set_section name content ss)"

fun remove_section :: "string \<Rightarrow> prompt_section list \<Rightarrow> prompt_section list" where
  "remove_section name [] = []"
| "remove_section name (s # ss) = (if pn_id s = name then ss else s # remove_section name ss)"

definition apply_change :: "section_change \<Rightarrow> prompt_section list \<Rightarrow> prompt_section list" where
  "apply_change change sections =
     (case sx_content change of
        Some content \<Rightarrow> set_section (sx_id change) content sections
      | None \<Rightarrow> remove_section (sx_id change) sections)"

definition retain_other :: "string \<Rightarrow> tool_declaration list \<Rightarrow> tool_declaration list" where
  "retain_other name tools = filter (\<lambda>tool. tn_name tool \<noteq> name) tools"

definition add_tool :: "tool_declaration \<Rightarrow> tool_declaration list \<Rightarrow> tool_declaration list" where
  "add_tool tool tools = retain_other (tn_name tool) tools @ [tool]"

definition apply_update :: "configuration_update \<Rightarrow> effective_configuration \<Rightarrow> effective_configuration" where
  "apply_update update configuration =
     \<lparr>ec_sections = fold apply_change (up_sections update) (ec_sections configuration),
      ec_tools = fold add_tool (up_tools_added update)
        (fold retain_other (up_tools_removed update) (ec_tools configuration))\<rparr>"

definition find_tool :: "effective_configuration \<Rightarrow> string \<Rightarrow> tool_declaration option" where
  "find_tool configuration name = find (\<lambda>tool. tn_name tool = name) (ec_tools configuration)"

definition as_initial_update :: "effective_configuration \<Rightarrow> configuration_update" where
  "as_initial_update configuration =
     \<lparr>up_sections = map (\<lambda>s. \<lparr>sx_id = pn_id s, sx_content = Some (pn_content s)\<rparr>) (ec_sections configuration),
      up_tools_added = ec_tools configuration, up_tools_removed = []\<rparr>"

definition same_content :: "effective_configuration \<Rightarrow> effective_configuration \<Rightarrow> bool" where
  "same_content this other \<longleftrightarrow>
     length (ec_sections this) = length (ec_sections other) \<and>
     length (ec_tools this) = length (ec_tools other) \<and>
     list_all (\<lambda>s. s \<in> set (ec_sections other)) (ec_sections this) \<and>
     list_all (\<lambda>tool. find_tool other (tn_name tool) = Some tool) (ec_tools this)"

definition find_section :: "effective_configuration \<Rightarrow> string \<Rightarrow> prompt_section option" where
  "find_section configuration name = find (\<lambda>s. pn_id s = name) (ec_sections configuration)"

definition diff_configuration ::
    "effective_configuration \<Rightarrow> effective_configuration \<Rightarrow> configuration_update option" where
  "diff_configuration this desired =
     (if same_content this desired then None
      else Some
        \<lparr>up_sections =
           map (\<lambda>s. \<lparr>sx_id = pn_id s, sx_content = Some (pn_content s)\<rparr>)
             (filter (\<lambda>s. map_option pn_content (find_section this (pn_id s)) \<noteq> Some (pn_content s)) (ec_sections desired)) @
           map (\<lambda>s. \<lparr>sx_id = pn_id s, sx_content = None\<rparr>)
             (filter (\<lambda>s. \<not> list_ex (\<lambda>candidate. pn_id candidate = pn_id s) (ec_sections desired)) (ec_sections this)),
         up_tools_added = filter (\<lambda>tool. find_tool this (tn_name tool) \<noteq> Some tool) (ec_tools desired),
         up_tools_removed =
           map tn_name (filter (\<lambda>tool. find_tool desired (tn_name tool) \<noteq> Some tool) (ec_tools this))\<rparr>)"

section \<open>Configurations as maps\<close>

text \<open>Section identities and tool names are unique; sections and tools are then finite maps.\<close>

definition configuration_ok :: "effective_configuration \<Rightarrow> bool" where
  "configuration_ok c \<longleftrightarrow> distinct (map pn_id (ec_sections c)) \<and> distinct (map tn_name (ec_tools c))"

definition sections_map :: "prompt_section list \<Rightarrow> string \<rightharpoonup> string" where
  "sections_map ss = map_of (map (\<lambda>s. (pn_id s, pn_content s)) ss)"

definition tools_map :: "tool_declaration list \<Rightarrow> string \<rightharpoonup> tool_declaration" where
  "tools_map ts = map_of (map (\<lambda>t. (tn_name t, t)) ts)"

lemma sections_map_simps [simp]:
  "sections_map [] = Map.empty"
  "sections_map (s # ss) = (sections_map ss)(pn_id s \<mapsto> pn_content s)"
  by (simp_all add: sections_map_def)

lemma tools_map_simps [simp]:
  "tools_map [] = Map.empty"
  "tools_map (t # ts) = (tools_map ts)(tn_name t \<mapsto> t)"
  by (simp_all add: tools_map_def)

lemma sections_map_None: "sections_map ss n = None \<longleftrightarrow> n \<notin> pn_id ` set ss"
  by (induction ss) auto

lemma tools_map_None: "tools_map ts n = None \<longleftrightarrow> n \<notin> tn_name ` set ts"
  by (induction ts) auto

lemma sections_map_Some: "distinct (map pn_id ss) \<Longrightarrow> s \<in> set ss \<Longrightarrow> sections_map ss (pn_id s) = Some (pn_content s)"
  by (induction ss) (auto simp: image_iff)

lemma tools_map_Some: "distinct (map tn_name ts) \<Longrightarrow> t \<in> set ts \<Longrightarrow> tools_map ts (tn_name t) = Some t"
  by (induction ts) (auto simp: image_iff)

lemma find_tool_map: "find_tool c n = tools_map (ec_tools c) n"
proof -
  have "find (\<lambda>t. tn_name t = n) ts = tools_map ts n" for ts by (induction ts) auto
  then show ?thesis by (simp add: find_tool_def)
qed

lemma find_section_map: "map_option pn_content (find_section c n) = sections_map (ec_sections c) n"
proof -
  have "map_option pn_content (find (\<lambda>s. pn_id s = n) ss) = sections_map ss n" for ss by (induction ss) auto
  then show ?thesis by (simp add: find_section_def)
qed

lemma set_section_ids: "pn_id ` set (set_section n c ss) = insert n (pn_id ` set ss)"
  by (induction ss) auto

lemma set_section_distinct: "distinct (map pn_id ss) \<Longrightarrow> distinct (map pn_id (set_section n c ss))"
  by (induction ss) (auto simp: set_section_ids)

lemma set_section_map: "sections_map (set_section n c ss) = (sections_map ss)(n \<mapsto> c)"
  by (induction ss) (auto simp: fun_upd_twist)

lemma remove_section_subset: "set (remove_section n ss) \<subseteq> set ss"
  by (induction ss) auto

lemma remove_section_distinct: "distinct (map pn_id ss) \<Longrightarrow> distinct (map pn_id (remove_section n ss))"
  by (induction ss) (use remove_section_subset in \<open>auto simp: image_iff\<close>)

lemma remove_section_map:
  "distinct (map pn_id ss) \<Longrightarrow> sections_map (remove_section n ss) = (sections_map ss)(n := None)"
proof (induction ss)
  case (Cons s ss)
  have "sections_map ss (pn_id s) = None" using Cons.prems by (simp add: sections_map_None)
  with Cons show ?case by (auto simp: fun_upd_twist intro!: ext)
qed simp

lemma apply_change_distinct: "distinct (map pn_id ss) \<Longrightarrow> distinct (map pn_id (apply_change ch ss))"
  by (auto simp: apply_change_def set_section_distinct remove_section_distinct split: option.split)

lemma apply_change_map:
  "distinct (map pn_id ss) \<Longrightarrow> sections_map (apply_change ch ss) = (sections_map ss)(sx_id ch := sx_content ch)"
  by (auto simp: apply_change_def set_section_map remove_section_map split: option.split)

lemma add_tool_distinct: "distinct (map tn_name ts) \<Longrightarrow> distinct (map tn_name (add_tool t ts))"
  by (auto simp: add_tool_def retain_other_def distinct_map intro: inj_on_subset)

lemma retain_other_map: "tools_map (retain_other n ts) = (tools_map ts)(n := None)"
  by (induction ts) (auto simp: retain_other_def fun_upd_twist)

lemma tools_map_append: "tools_map (xs @ ys) = tools_map ys ++ tools_map xs"
  by (simp add: tools_map_def)

lemma add_tool_map: "tools_map (add_tool t ts) = (tools_map ts)(tn_name t \<mapsto> t)"
  by (auto simp: add_tool_def tools_map_append retain_other_map map_add_def split: option.split)

text \<open>Applying an update keeps the configuration well-formed.\<close>

lemma apply_update_ok: "configuration_ok c \<Longrightarrow> configuration_ok (apply_update u c)"
proof -
  assume ok: "configuration_ok c"
  have "distinct (map pn_id (fold apply_change chs ss))" if "distinct (map pn_id ss)" for chs ss
    using that by (induction chs arbitrary: ss) (simp_all add: apply_change_distinct)
  moreover have "distinct (map tn_name (fold retain_other ns ts))" if "distinct (map tn_name ts)" for ns ts
    using that by (induction ns arbitrary: ts) (simp_all add: retain_other_def distinct_map_filter)
  moreover have "distinct (map tn_name (fold add_tool xs ts))" if "distinct (map tn_name ts)" for xs ts
    using that by (induction xs arbitrary: ts) (simp_all add: add_tool_distinct)
  ultimately show ?thesis
    using ok by (simp add: configuration_ok_def apply_update_def)
qed

lemma empty_configuration_ok: "configuration_ok empty_configuration"
  by (simp add: configuration_ok_def empty_configuration_def)

section \<open>Comparing configurations\<close>

lemma sections_map_eq:
  assumes "distinct (map pn_id xs)" "distinct (map pn_id ys)"
  shows "sections_map xs = sections_map ys \<longleftrightarrow> set xs = set ys"
proof -
  have inj: "inj (\<lambda>s :: prompt_section. (pn_id s, pn_content s))" by (rule injI) simp
  have "sections_map xs = sections_map ys \<longleftrightarrow>
      set (map (\<lambda>s. (pn_id s, pn_content s)) xs) = set (map (\<lambda>s. (pn_id s, pn_content s)) ys)"
    unfolding sections_map_def by (rule map_of_inject_set) (use assms in \<open>simp_all add: comp_def\<close>)
  then show ?thesis by (simp add: inj_image_eq_iff [OF inj])
qed

lemma tools_map_eq:
  assumes "distinct (map tn_name xs)" "distinct (map tn_name ys)"
  shows "tools_map xs = tools_map ys \<longleftrightarrow> set xs = set ys"
proof -
  have inj: "inj (\<lambda>t :: tool_declaration. (tn_name t, t))" by (rule injI) simp
  have "tools_map xs = tools_map ys \<longleftrightarrow>
      set (map (\<lambda>t. (tn_name t, t)) xs) = set (map (\<lambda>t. (tn_name t, t)) ys)"
    unfolding tools_map_def by (rule map_of_inject_set) (use assms in \<open>simp_all add: comp_def\<close>)
  then show ?thesis by (simp add: inj_image_eq_iff [OF inj])
qed

lemma tools_map_member: "distinct (map tn_name ts) \<Longrightarrow> tools_map ts (tn_name t) = Some t \<longleftrightarrow> t \<in> set ts"
proof
  assume "tools_map ts (tn_name t) = Some t"
  then show "t \<in> set ts" by (auto simp: tools_map_def dest!: map_of_SomeD)
qed (rule tools_map_Some)

lemma tools_map_SomeD: "tools_map ts n = Some t \<Longrightarrow> t \<in> set ts \<and> tn_name t = n"
  by (auto simp: tools_map_def dest!: map_of_SomeD)

lemma same_elements: "distinct xs \<Longrightarrow> distinct ys \<Longrightarrow> length xs = length ys \<and> set xs \<subseteq> set ys \<longleftrightarrow> set xs = set ys"
  by (metis card_subset_eq distinct_card finite_set subset_refl)

text \<open>Two well-formed configurations have the same content when they are the same maps.\<close>

lemma same_content_maps:
  assumes "configuration_ok a" "configuration_ok b"
  shows "same_content a b \<longleftrightarrow>
    sections_map (ec_sections a) = sections_map (ec_sections b) \<and> tools_map (ec_tools a) = tools_map (ec_tools b)"
proof -
  have d: "distinct (map pn_id (ec_sections a))" "distinct (map pn_id (ec_sections b))"
    "distinct (map tn_name (ec_tools a))" "distinct (map tn_name (ec_tools b))"
    using assms by (simp_all add: configuration_ok_def)
  then have e: "distinct (ec_sections a)" "distinct (ec_sections b)" "distinct (ec_tools a)" "distinct (ec_tools b)"
    by (simp_all add: distinct_map)
  have "same_content a b \<longleftrightarrow> set (ec_sections a) = set (ec_sections b) \<and> set (ec_tools a) = set (ec_tools b)"
    using same_elements [OF e(1,2)] same_elements [OF e(3,4)]
    by (auto simp: same_content_def list_all_iff find_tool_map tools_map_member [OF d(4)])
  with d show ?thesis by (simp add: sections_map_eq tools_map_eq)
qed

section \<open>Reaching a configuration\<close>

lemma fold_changes_map:
  "distinct (map pn_id ss) \<Longrightarrow>
   sections_map (fold apply_change chs ss) = fold (\<lambda>ch m. m(sx_id ch := sx_content ch)) chs (sections_map ss)"
  by (induction chs arbitrary: ss) (simp_all add: apply_change_distinct apply_change_map)

lemma fold_changes_at:
  "\<forall>ch \<in> set chs. sx_id ch = n \<longrightarrow> sx_content ch = v \<Longrightarrow>
   fold (\<lambda>ch m. m(sx_id ch := sx_content ch)) chs m n = (if \<exists>ch \<in> set chs. sx_id ch = n then v else m n)"
  by (induction chs arbitrary: m) auto

lemma fold_added_at:
  "\<forall>t \<in> set xs. tn_name t = n \<longrightarrow> Some t = v \<Longrightarrow>
   tools_map (fold add_tool xs ts) n = (if \<exists>t \<in> set xs. tn_name t = n then v else tools_map ts n)"
  by (induction xs arbitrary: ts) (auto simp: add_tool_map)

lemma fold_removed_at: "tools_map (fold retain_other ns ts) n = (if n \<in> set ns then None else tools_map ts n)"
  by (induction ns arbitrary: ts) (auto simp: retain_other_map)

lemma diff_sections:
  assumes ok: "configuration_ok a" "configuration_ok b" and diff: "diff_configuration a b = Some u"
  shows "sections_map (ec_sections (apply_update u a)) = sections_map (ec_sections b)"
proof
  fix n
  have da: "distinct (map pn_id (ec_sections a))" and db: "distinct (map pn_id (ec_sections b))"
    using ok by (simp_all add: configuration_ok_def)
  define ups where "ups = filter (\<lambda>s. sections_map (ec_sections a) (pn_id s) \<noteq> Some (pn_content s)) (ec_sections b)"
  define dels where "dels = filter (\<lambda>s. \<forall>c \<in> set (ec_sections b). pn_id c \<noteq> pn_id s) (ec_sections a)"
  have u: "up_sections u = map (\<lambda>s. \<lparr>sx_id = pn_id s, sx_content = Some (pn_content s)\<rparr>) ups @
      map (\<lambda>s. \<lparr>sx_id = pn_id s, sx_content = None\<rparr>) dels"
    using diff by (auto simp: diff_configuration_def find_section_map ups_def dels_def list_ex_iff split: if_splits)
  let ?v = "sections_map (ec_sections b) n"
  have all: "\<forall>ch \<in> set (up_sections u). sx_id ch = n \<longrightarrow> sx_content ch = ?v"
    using sections_map_Some [OF db] sections_map_None [of "ec_sections b" n] by (auto simp: u ups_def dels_def)
  have unchanged: "sections_map (ec_sections a) n = ?v" if none: "\<not> (\<exists>ch \<in> set (up_sections u). sx_id ch = n)"
  proof (cases ?v)
    case None
    then have absent: "\<forall>c \<in> set (ec_sections b). pn_id c \<noteq> n" by (auto simp: sections_map_None)
    have "n \<notin> pn_id ` set (ec_sections a)"
    proof
      assume "n \<in> pn_id ` set (ec_sections a)"
      then obtain s where "s \<in> set dels" "pn_id s = n" using absent by (auto simp: dels_def)
      with none show False by (simp add: u ball_Un)
    qed
    then have "sections_map (ec_sections a) n = None" by (simp add: sections_map_None)
    with None show ?thesis by simp
  next
    case (Some c)
    then obtain s where s: "s \<in> set (ec_sections b)" "pn_id s = n" "pn_content s = c"
      by (auto simp: sections_map_def dest!: map_of_SomeD)
    with none Some show ?thesis by (auto simp: u ups_def ball_Un)
  qed
  show "sections_map (ec_sections (apply_update u a)) n = ?v"
    using fold_changes_at [OF all, of "sections_map (ec_sections a)"] unchanged
    by (auto simp: apply_update_def fold_changes_map [OF da] split: if_splits)
qed

lemma diff_tools:
  assumes ok: "configuration_ok a" "configuration_ok b" and diff: "diff_configuration a b = Some u"
  shows "tools_map (ec_tools (apply_update u a)) = tools_map (ec_tools b)"
proof
  fix n
  have da: "distinct (map tn_name (ec_tools a))" and db: "distinct (map tn_name (ec_tools b))"
    using ok by (simp_all add: configuration_ok_def)
  have added: "up_tools_added u = filter (\<lambda>t. tools_map (ec_tools a) (tn_name t) \<noteq> Some t) (ec_tools b)"
    and removed: "up_tools_removed u = map tn_name (filter (\<lambda>t. tools_map (ec_tools b) (tn_name t) \<noteq> Some t) (ec_tools a))"
    using diff by (auto simp: diff_configuration_def find_tool_map split: if_splits)
  let ?v = "tools_map (ec_tools b) n"
  have all: "\<forall>t \<in> set (up_tools_added u). tn_name t = n \<longrightarrow> Some t = ?v"
    using tools_map_Some [OF db] by (auto simp: added)
  have kept: "(if n \<in> set (up_tools_removed u) then None else tools_map (ec_tools a) n) = ?v"
    if none: "\<not> (\<exists>t \<in> set (up_tools_added u). tn_name t = n)"
  proof (cases ?v)
    case None
    then show ?thesis
      using tools_map_SomeD [of "ec_tools a" n] by (cases "tools_map (ec_tools a) n") (force simp: removed)+
  next
    case (Some t)
    then have t: "t \<in> set (ec_tools b)" "tn_name t = n" by (auto dest: tools_map_SomeD)
    with none have "tools_map (ec_tools a) n = Some t" by (auto simp: added)
    moreover from this have "n \<notin> set (up_tools_removed u)"
      using Some tools_map_Some [OF da] by (auto simp: removed)
    ultimately show ?thesis using Some by simp
  qed
  show "tools_map (ec_tools (apply_update u a)) n = ?v"
    using fold_added_at [OF all, of "fold retain_other (up_tools_removed u) (ec_tools a)"] kept
    by (auto simp: apply_update_def fold_removed_at split: if_splits)
qed

lemma diff_reaches:
  assumes "configuration_ok a" "configuration_ok b" "diff_configuration a b = Some u"
  shows "same_content (apply_update u a) b"
  using assms by (simp add: same_content_maps apply_update_ok diff_sections diff_tools)

section \<open>Valid updates\<close>

lemma note_sections_ok:
  "is_ok (try_fold note_section seen names) \<longleftrightarrow>
   (\<forall>n \<in> set names. validate_section_id n = Inr ()) \<and> distinct names \<and> set names \<inter> set seen = {}"
proof (induction names arbitrary: seen)
  case (Cons n names)
  show ?case
    by (cases "validate_section_id n") (use Cons.IH in \<open>auto simp: note_section_def\<close>)
qed simp

lemma note_tools_ok:
  "is_ok (try_fold note_tool seen names) \<longleftrightarrow> (\<forall>n \<in> set names. n \<noteq> []) \<and> distinct names \<and> set names \<inter> set seen = {}"
proof (induction names arbitrary: seen)
  case (Cons n names)
  then show ?case by (auto simp: note_tool_def)
qed simp

lemma validate_update_ok:
  "validate_update u = Inr () \<longleftrightarrow>
   (\<forall>ch \<in> set (up_sections u). validate_section_id (sx_id ch) = Inr ()) \<and> distinct (map sx_id (up_sections u)) \<and>
   (\<forall>t \<in> set (up_tools_added u). tn_name t \<noteq> []) \<and> distinct (map tn_name (up_tools_added u)) \<and>
   (\<forall>n \<in> set (up_tools_removed u). n \<noteq> []) \<and> distinct (up_tools_removed u)"
proof -
  have "validate_update u = Inr () \<longleftrightarrow> is_ok (try_fold note_section [] (map sx_id (up_sections u))) \<and>
      is_ok (try_fold note_tool [] (map tn_name (up_tools_added u))) \<and> is_ok (try_fold note_tool [] (up_tools_removed u))"
    by (auto simp: validate_update_def and_then_ok is_ok_iff)
  then show ?thesis by (auto simp: note_sections_ok note_tools_ok)
qed

text \<open>The names of a configuration that an update may mention.\<close>

definition names_ok :: "effective_configuration \<Rightarrow> bool" where
  "names_ok c \<longleftrightarrow> list_all (\<lambda>s. validate_section_id (pn_id s) = Inr ()) (ec_sections c) \<and>
     list_all (\<lambda>t. tn_name t \<noteq> []) (ec_tools c)"

lemma diff_valid:
  assumes "configuration_ok a" "configuration_ok b" "names_ok a" "names_ok b" "diff_configuration a b = Some u"
  shows "validate_update u = Inr ()"
proof -
  have ids: "map sx_id (up_sections u) =
      map pn_id (filter (\<lambda>s. map_option pn_content (find_section a (pn_id s)) \<noteq> Some (pn_content s)) (ec_sections b)) @
      map pn_id (filter (\<lambda>s. \<not> list_ex (\<lambda>c. pn_id c = pn_id s) (ec_sections b)) (ec_sections a))"
    and added: "up_tools_added u = filter (\<lambda>t. find_tool a (tn_name t) \<noteq> Some t) (ec_tools b)"
    and removed: "up_tools_removed u = map tn_name (filter (\<lambda>t. find_tool b (tn_name t) \<noteq> Some t) (ec_tools a))"
    using assms(5) by (auto simp: diff_configuration_def comp_def split: if_splits)
  have "distinct (map sx_id (up_sections u))"
    unfolding ids using assms(1,2) by (auto simp: configuration_ok_def distinct_map_filter list_ex_iff)
  moreover have "\<forall>n \<in> set (map sx_id (up_sections u)). validate_section_id n = Inr ()"
    unfolding ids using assms(3,4) by (auto simp: names_ok_def list_all_iff)
  moreover have "\<forall>n \<in> set (up_tools_removed u). n \<noteq> []"
    unfolding removed using assms(3) by (force simp: names_ok_def list_all_iff)
  ultimately show ?thesis
    using assms(1-4)
    by (simp add: validate_update_ok added removed configuration_ok_def names_ok_def list_all_iff distinct_map_filter)
qed

end
