(* ===== verification/Agent_Transcript.thy ===== *)
theory Agent_Transcript
  imports Agent_Config Tea_Ids
begin

text \<open>
  The typed conversation a provider request carries: the messages of
  \<open>crates/tea-core/src/state/messages.rs\<close> and the transcript of \<open>transcript.rs\<close>, with its configuration, its
  projection for a transport, its preparation for replay to a model and its canonical JSON.

  The data a message only carries along keeps the shape of the source: usage (\<open>state/accounting.rs\<close>),
  tool failures (\<open>tool.rs\<close>), stop reasons (\<open>state/lifecycle.rs\<close>), model identities and tool-call
  identities (\<open>state/identifiers.rs\<close>).
\<close>

section \<open>Messages\<close>

type_synonym message_id = u64
type_synonym tool_call_id = string
type_synonym serialized_json = string

record model_descriptor =
  md_provider :: string
  md_model :: string
  md_revision :: "string option"

datatype stop_reason = Stop | ToolUse | LengthLimit | AbortedResponse | CancelledRun | ErrorResponse

fun stop_reason_name :: "stop_reason \<Rightarrow> string" where
  "stop_reason_name Stop = ''Stop''"
| "stop_reason_name ToolUse = ''ToolUse''"
| "stop_reason_name LengthLimit = ''Length''"
| "stop_reason_name AbortedResponse = ''Aborted''"
| "stop_reason_name CancelledRun = ''Cancelled''"
| "stop_reason_name ErrorResponse = ''Error''"

record agent_usage =
  ag_total_tokens :: "u64 option"
  ag_input_tokens :: "u64 option"
  ag_output_tokens :: "u64 option"
  ag_reasoning_tokens :: "u64 option"
  ag_cache_read_tokens :: "u64 option"
  ag_cache_write_tokens :: "u64 option"
  ag_cost :: "string option"

datatype tool_failure_disposition =
  CancelledTool | InvalidArguments | Recoverable | RetryableFailure | Fatal

record tool_failure =
  fl_disposition :: tool_failure_disposition
  fl_signature :: "string option"
  fl_recovery_guidance :: "string option"

record opaque_provider_context_item =
  oi_provider :: string
  oi_kind :: string
  oi_item_id :: "string option"
  oi_payload :: string

datatype assistant_content =
    ContentText string
  | ContentThinking string "opaque_provider_context_item option"
  | ContentRedacted opaque_provider_context_item

record agent_tool_call =
  ac_id :: tool_call_id
  ac_name :: string
  ac_arguments :: serialized_json

record assistant_message =
  ma_id :: message_id
  ma_content :: "assistant_content list"
  ma_tool_calls :: "agent_tool_call list"
  ma_stop_reason :: "stop_reason option"
  ma_error_message :: "string option"
  ma_opaque_context :: "opaque_provider_context_item list"
  ma_origin :: "model_descriptor option"

record tool_result_message =
  mr_id :: message_id
  mr_tool_call_id :: tool_call_id
  mr_tool_name :: string
  mr_content :: string
  mr_details :: "serialized_json option"
  mr_usage :: "agent_usage option"
  mr_added_tool_names :: "string list"
  mr_terminate :: bool
  mr_is_error :: bool
  mr_failure :: "tool_failure option"

datatype agent_message =
    UserMsg message_id string
  | AssistantMsg assistant_message
  | ToolResultMsg tool_result_message
  | SystemMsg message_id configuration_update

fun message_id_of :: "agent_message \<Rightarrow> message_id" where
  "message_id_of (UserMsg i _) = i"
| "message_id_of (AssistantMsg m) = ma_id m"
| "message_id_of (ToolResultMsg m) = mr_id m"
| "message_id_of (SystemMsg i _) = i"

section \<open>Transcripts and their configuration\<close>

record transcript =
  tx_messages :: "agent_message list"
  tx_host_notes :: "string list"

datatype configuration_projection = InPlace | Collapsed

record resolved_transcript =
  rt_leading :: effective_configuration
  rt_messages :: "agent_message list"
  rt_host_notes :: "string list"

fun is_system :: "agent_message \<Rightarrow> bool" where
  "is_system (SystemMsg _ _) = True"
| "is_system _ = False"

fun message_update :: "agent_message \<Rightarrow> configuration_update option" where
  "message_update (SystemMsg _ update) = Some update"
| "message_update _ = None"

definition message_updates :: "agent_message list \<Rightarrow> configuration_update list" where
  "message_updates messages = List.map_filter message_update messages"

fun replay_step :: "agent_message \<Rightarrow> effective_configuration option \<Rightarrow> effective_configuration option" where
  "replay_step (SystemMsg _ update) configuration =
     Some (apply_update update (case configuration of None \<Rightarrow> empty_configuration | Some c \<Rightarrow> c))"
| "replay_step _ configuration = configuration"

definition replay_configuration :: "agent_message list \<Rightarrow> effective_configuration option" where
  "replay_configuration messages = fold replay_step messages None"

definition current_configuration :: "transcript \<Rightarrow> effective_configuration" where
  "current_configuration t =
     (case replay_configuration (tx_messages t) of None \<Rightarrow> empty_configuration | Some c \<Rightarrow> c)"

definition initial_configuration :: "transcript \<Rightarrow> effective_configuration" where
  "initial_configuration t =
     (case message_updates (tx_messages t) of
        [] \<Rightarrow> empty_configuration
      | update # _ \<Rightarrow> apply_update update empty_configuration)"

definition resolved_configuration :: "resolved_transcript \<Rightarrow> effective_configuration" where
  "resolved_configuration r =
     fold (\<lambda>message configuration. case message_update message of
             None \<Rightarrow> configuration | Some update \<Rightarrow> apply_update update configuration)
       (rt_messages r) (rt_leading r)"

text \<open>The first system message is dropped by its position.\<close>

fun drop_first_system :: "agent_message list \<Rightarrow> agent_message list" where
  "drop_first_system [] = []"
| "drop_first_system (m # ms) = (if is_system m then ms else m # drop_first_system ms)"

fun resolve :: "configuration_projection \<Rightarrow> transcript \<Rightarrow> resolved_transcript" where
  "resolve Collapsed t =
     \<lparr>rt_leading = current_configuration t,
      rt_messages = filter (\<lambda>m. \<not> is_system m) (tx_messages t), rt_host_notes = tx_host_notes t\<rparr>"
| "resolve InPlace t =
     \<lparr>rt_leading = initial_configuration t,
      rt_messages = drop_first_system (tx_messages t), rt_host_notes = tx_host_notes t\<rparr>"

fun with_message_id :: "message_id \<Rightarrow> agent_message \<Rightarrow> agent_message" where
  "with_message_id i (UserMsg _ content) = UserMsg i content"
| "with_message_id i (AssistantMsg m) = AssistantMsg (m\<lparr>ma_id := i\<rparr>)"
| "with_message_id i (ToolResultMsg m) = ToolResultMsg (m\<lparr>mr_id := i\<rparr>)"
| "with_message_id i (SystemMsg _ update) = SystemMsg i update"

definition standalone :: "system_prompt \<Rightarrow> tool_declaration list \<Rightarrow> agent_message list \<Rightarrow> transcript" where
  "standalone prompt tools conversation =
     (let update = as_initial_update (new_configuration prompt tools);
          leading = (if update_is_empty update then [] else [SystemMsg 1 update])
      in \<lparr>tx_messages = fold (\<lambda>message messages.
             messages @ [with_message_id (of_nat (length messages) + 1) message]) conversation leading,
          tx_host_notes = []\<rparr>)"

subsection \<open>Declared tools\<close>

definition added_tools :: "transcript \<Rightarrow> tool_declaration list" where
  "added_tools t = concat (map up_tools_added (message_updates (tx_messages t)))"

text \<open>Names in the order of their first declaration, each with its latest definition.\<close>

definition declare_tool ::
    "tool_declaration \<Rightarrow> string list \<times> (string, tool_declaration) btree \<Rightarrow>
     string list \<times> (string, tool_declaration) btree" where
  "declare_tool tool acc =
     (let (order, definitions) = acc in
      (if btree_contains definitions (tn_name tool) then order else order @ [tn_name tool],
       btree_insert (tn_name tool) tool definitions))"

definition declared_tools :: "transcript \<Rightarrow> tool_declaration list" where
  "declared_tools t =
     (let (order, definitions) = fold declare_tool (added_tools t) ([], []) in
      List.map_filter (btree_get definitions) order)"

text \<open>The loop of \<open>has_tool_redefinitions\<close>, with the declarations so far.\<close>

fun redefines :: "(string, tool_declaration) btree \<Rightarrow> tool_declaration list \<Rightarrow> bool" where
  "redefines declared [] = False"
| "redefines declared (tool # tools) =
     (case btree_get declared (tn_name tool) of
        Some previous \<Rightarrow> previous \<noteq> tool \<or> redefines (btree_insert (tn_name tool) tool declared) tools
      | None \<Rightarrow> redefines (btree_insert (tn_name tool) tool declared) tools)"

definition has_tool_redefinitions :: "transcript \<Rightarrow> bool" where
  "has_tool_redefinitions t = redefines [] (added_tools t)"

fun redeclares :: "string list \<Rightarrow> tool_declaration list \<Rightarrow> bool \<times> string list" where
  "redeclares declared [] = (False, declared)"
| "redeclares declared (tool # tools) =
     (if tn_name tool \<in> set declared then (True, declared) else redeclares (tn_name tool # declared) tools)"

fun non_additive :: "string list \<Rightarrow> configuration_update list \<Rightarrow> bool" where
  "non_additive declared [] = False"
| "non_additive declared (update # updates) =
     (up_tools_removed update \<noteq> [] \<or>
      (case redeclares declared (up_tools_added update) of
         (True, _) \<Rightarrow> True
       | (False, declared') \<Rightarrow> non_additive declared' updates))"

definition has_non_additive_tool_changes :: "transcript \<Rightarrow> bool" where
  "has_non_additive_tool_changes t = non_additive [] (message_updates (tx_messages t))"

section \<open>Preparing a replay\<close>

definition same_physical_model :: "model_descriptor option \<Rightarrow> model_descriptor option \<Rightarrow> bool" where
  "same_physical_model origin target =
     (case (origin, target) of
        (Some o', Some t) \<Rightarrow> md_provider o' = md_provider t \<and> md_model o' = md_model t
      | _ \<Rightarrow> False)"

fun replay_block :: "bool \<Rightarrow> assistant_content \<Rightarrow> assistant_content option" where
  "replay_block same_model (ContentText content) = (if content = [] then None else Some (ContentText content))"
| "replay_block same_model (ContentThinking content signature) =
     (if \<not> same_model then None
      else if is_blank content \<and> signature = None then None
      else Some (ContentThinking content signature))"
| "replay_block same_model (ContentRedacted data) = (if same_model then Some (ContentRedacted data) else None)"

text \<open>The variables of the loop in \<open>prepared_for\<close>.\<close>

record replay_state =
  rs_output :: "agent_message list"
  rs_pending_calls :: "agent_tool_call list"
  rs_answered :: "tool_call_id list"
  rs_held_system :: "agent_message list"
  rs_synthetic_id :: message_id

definition missing_result :: "message_id \<Rightarrow> agent_tool_call \<Rightarrow> agent_message" where
  "missing_result i call = ToolResultMsg
     \<lparr>mr_id = i, mr_tool_call_id = ac_id call, mr_tool_name = ac_name call, mr_content = ''No result provided'',
      mr_details = None, mr_usage = None, mr_added_tool_names = [], mr_terminate = False, mr_is_error = True,
      mr_failure = None\<rparr>"

definition answer_call :: "agent_tool_call \<Rightarrow> replay_state \<Rightarrow> replay_state" where
  "answer_call call st =
     (if ac_id call \<in> set (rs_answered st) then st
      else let i = saturating_add (rs_synthetic_id st) 1 in
        st\<lparr>rs_synthetic_id := i, rs_output := rs_output st @ [missing_result i call]\<rparr>)"

definition close_pending :: "replay_state \<Rightarrow> replay_state" where
  "close_pending st =
     (let st1 = fold answer_call (rs_pending_calls st) st in
      st1\<lparr>rs_pending_calls := [], rs_answered := [], rs_output := rs_output st1 @ rs_held_system st1,
          rs_held_system := []\<rparr>)"

definition incomplete_turn :: "assistant_message \<Rightarrow> bool" where
  "incomplete_turn m \<longleftrightarrow> ma_stop_reason m = Some ErrorResponse \<or> ma_stop_reason m = Some AbortedResponse"

definition replayed_message :: "model_descriptor option \<Rightarrow> assistant_message \<Rightarrow> assistant_message" where
  "replayed_message target m =
     m\<lparr>ma_content := List.map_filter (replay_block (same_physical_model (ma_origin m) target)) (ma_content m)\<rparr>"

fun prepare_step :: "model_descriptor option \<Rightarrow> agent_message \<Rightarrow> replay_state \<Rightarrow> replay_state" where
  "prepare_step target (AssistantMsg m) st =
     (let st = close_pending st in
      if incomplete_turn m then st
      else st\<lparr>rs_pending_calls := ma_tool_calls m, rs_output := rs_output st @ [AssistantMsg (replayed_message target m)]\<rparr>)"
| "prepare_step target (ToolResultMsg m) st =
     st\<lparr>rs_answered := mr_tool_call_id m # rs_answered st, rs_output := rs_output st @ [ToolResultMsg m]\<rparr>"
| "prepare_step target (SystemMsg i update) st =
     (if rs_pending_calls st = [] then st\<lparr>rs_output := rs_output st @ [SystemMsg i update]\<rparr>
      else st\<lparr>rs_held_system := rs_held_system st @ [SystemMsg i update]\<rparr>)"
| "prepare_step target (UserMsg i content) st =
     (let st = close_pending st in st\<lparr>rs_output := rs_output st @ [UserMsg i content]\<rparr>)"

definition largest_id :: "agent_message list \<Rightarrow> message_id" where
  "largest_id messages = fold max (map message_id_of messages) 0"

definition prepared_messages :: "model_descriptor option \<Rightarrow> agent_message list \<Rightarrow> agent_message list" where
  "prepared_messages target messages =
     rs_output (close_pending (fold (prepare_step target) messages
       \<lparr>rs_output = [], rs_pending_calls = [], rs_answered = [], rs_held_system = [],
        rs_synthetic_id = largest_id messages\<rparr>))"

definition prepared_for :: "model_descriptor option \<Rightarrow> transcript \<Rightarrow> transcript" where
  "prepared_for target t =
     \<lparr>tx_messages = prepared_messages target (tx_messages t), tx_host_notes = tx_host_notes t\<rparr>"

section \<open>Canonical JSON\<close>

definition opaque_digest :: "(u8 list \<Rightarrow> digest) \<Rightarrow> string \<Rightarrow> json_value" where
  "opaque_digest blake3 payload = JString (to_hex (blake3 (str_bytes payload)))"

definition tool_declaration_json :: "tool_declaration \<Rightarrow> json_value" where
  "tool_declaration_json tool = object
     [(''name'', JString (tn_name tool)), (''description'', JString (tn_description tool)), (''schema'', tn_schema tool)]"

definition section_change_json :: "section_change \<Rightarrow> json_value" where
  "section_change_json change = object
     [(''id'', JString (sx_id change)),
      (''content'', case sx_content change of None \<Rightarrow> JNull | Some content \<Rightarrow> JString content)]"

definition configuration_update_json :: "configuration_update \<Rightarrow> json_value" where
  "configuration_update_json update = object
     [(''sections'', JArray (map section_change_json (up_sections update))),
      (''tools_added'', JArray (map tool_declaration_json (up_tools_added update))),
      (''tools_removed'', JArray (map JString (up_tools_removed update)))]"

fun canonical_block :: "(u8 list \<Rightarrow> digest) \<Rightarrow> assistant_content \<Rightarrow> json_value" where
  "canonical_block blake3 (ContentText content) = object [(''type'', JString ''text''), (''text'', JString content)]"
| "canonical_block blake3 (ContentThinking content signature) = object
     [(''type'', JString ''thinking''), (''text'', JString content),
      (''signature_digest'', case signature of None \<Rightarrow> JNull | Some s \<Rightarrow> opaque_digest blake3 (oi_payload s))]"
| "canonical_block blake3 (ContentRedacted data) = object
     [(''type'', JString ''redacted_thinking''), (''data_digest'', opaque_digest blake3 (oi_payload data))]"

definition canonical_call :: "agent_tool_call \<Rightarrow> json_value" where
  "canonical_call call = object
     [(''id'', JString (ac_id call)), (''name'', JString (ac_name call)), (''arguments'', JString (ac_arguments call))]"

definition canonical_context :: "(u8 list \<Rightarrow> digest) \<Rightarrow> opaque_provider_context_item \<Rightarrow> json_value" where
  "canonical_context blake3 item = object
     [(''provider'', JString (oi_provider item)), (''kind'', JString (oi_kind item)),
      (''payload_digest'', opaque_digest blake3 (oi_payload item))]"

fun canonical_message :: "(u8 list \<Rightarrow> digest) \<Rightarrow> agent_message \<Rightarrow> json_value" where
  "canonical_message blake3 (UserMsg _ content) = object [(''role'', JString ''user''), (''content'', JString content)]"
| "canonical_message blake3 (AssistantMsg m) = object
     [(''role'', JString ''assistant''),
      (''content'', JArray (map (canonical_block blake3) (ma_content m))),
      (''tool_calls'', JArray (map canonical_call (ma_tool_calls m))),
      (''stop_reason'', case ma_stop_reason m of None \<Rightarrow> JNull | Some reason \<Rightarrow> JString (stop_reason_name reason)),
      (''opaque_context'', JArray (map (canonical_context blake3) (ma_opaque_context m)))]"
| "canonical_message blake3 (ToolResultMsg m) = object
     [(''role'', JString ''tool_result''),
      (''tool_call_id'', JString (mr_tool_call_id m)),
      (''tool_name'', JString (mr_tool_name m)),
      (''content'', JString (mr_content m)),
      (''details'', case mr_details m of None \<Rightarrow> JNull | Some details \<Rightarrow> JString details),
      (''is_error'', JBool (mr_is_error m))]"
| "canonical_message blake3 (SystemMsg _ update) = object
     [(''role'', JString ''system''), (''update'', configuration_update_json update)]"

definition canonical_json :: "(u8 list \<Rightarrow> digest) \<Rightarrow> transcript \<Rightarrow> json_value" where
  "canonical_json blake3 t = object
     [(''messages'', JArray (map (canonical_message blake3) (tx_messages t))),
      (''host_notes'', JArray (map JString (tx_host_notes t)))]"

text \<open>\<open>layout_context\<close> expects every line to be encodable; \<open>None\<close> is the failing \<open>expect\<close>.\<close>

definition layout_line :: "(json_value \<Rightarrow> string) \<Rightarrow> json_value \<Rightarrow> string option" where
  "layout_line miniserde v =
     (case to_json_string miniserde v of Inl _ \<Rightarrow> None | Inr line \<Rightarrow> Some (line @ [char_of (10 :: nat)]))"

definition layout_context ::
    "(u8 list \<Rightarrow> digest) \<Rightarrow> (json_value \<Rightarrow> string) \<Rightarrow> configuration_projection \<Rightarrow> transcript \<Rightarrow> string option" where
  "layout_context blake3 miniserde projection t =
     (let resolved = resolve projection t;
          lines = map (layout_line miniserde)
            (map (canonical_message blake3) (rt_messages resolved) @
             map (\<lambda>note. object [(''host_note'', JString note)]) (rt_host_notes resolved))
      in if None \<in> set lines then None else Some (concat (map the lines)))"

section \<open>Reading updates back\<close>

datatype update_problem =
    UpdateNotObject
  | NotAnArray string
  | NotAString string
  | NoSchema
  | RemovedName
  | InvalidUpdate configuration_error

definition array_member :: "(string, json_value) btree \<Rightarrow> string \<Rightarrow> (update_problem, json_value list) result" where
  "array_member obj name =
     (case Option.bind (btree_get obj name) as_array of None \<Rightarrow> Err (NotAnArray name) | Some values \<Rightarrow> Ok values)"

definition string_member :: "json_value \<Rightarrow> string \<Rightarrow> (update_problem, string) result" where
  "string_member v name =
     (case Option.bind (get_member v name) as_str of None \<Rightarrow> Err (NotAString name) | Some s \<Rightarrow> Ok s)"

definition section_change_from_json :: "json_value \<Rightarrow> (update_problem, section_change) result" where
  "section_change_from_json change =
     and_then (string_member change ''id'') (\<lambda>name.
       (case get_member change ''content'' of
          None \<Rightarrow> Ok \<lparr>sx_id = name, sx_content = None\<rparr>
        | Some JNull \<Rightarrow> Ok \<lparr>sx_id = name, sx_content = None\<rparr>
        | Some _ \<Rightarrow>
            and_then (string_member change ''content'') (\<lambda>content. Ok \<lparr>sx_id = name, sx_content = Some content\<rparr>)))"

definition tool_declaration_from_json :: "json_value \<Rightarrow> (update_problem, tool_declaration) result" where
  "tool_declaration_from_json tool =
     and_then (string_member tool ''name'') (\<lambda>name.
     and_then (string_member tool ''description'') (\<lambda>description.
       (case get_member tool ''schema'' of
          None \<Rightarrow> Err NoSchema
        | Some schema \<Rightarrow> Ok \<lparr>tn_name = name, tn_description = description, tn_schema = schema\<rparr>)))"

definition removed_name :: "json_value \<Rightarrow> (update_problem, string) result" where
  "removed_name v = (case as_str v of None \<Rightarrow> Err RemovedName | Some name \<Rightarrow> Ok name)"

definition configuration_update_from_json :: "json_value \<Rightarrow> (update_problem, configuration_update) result" where
  "configuration_update_from_json v =
     (case as_object v of
        None \<Rightarrow> Err UpdateNotObject
      | Some obj \<Rightarrow>
          and_then (and_then (array_member obj ''sections'') (try_map section_change_from_json)) (\<lambda>sections.
          and_then (and_then (array_member obj ''tools_added'') (try_map tool_declaration_from_json)) (\<lambda>tools_added.
          and_then (and_then (array_member obj ''tools_removed'') (try_map removed_name)) (\<lambda>tools_removed.
            let update = \<lparr>up_sections = sections, up_tools_added = tools_added, up_tools_removed = tools_removed\<rparr>
            in and_then (map_err InvalidUpdate (validate_update update)) (\<lambda>_. Ok update)))))"

end
