(* ===== verification/Transcript_Guarantees.thy ===== *)
theory Transcript_Guarantees
  imports Agent_Transcript "HOL-Library.Sublist"
begin

text \<open>
  What a provider may rely on in the transcript of a request: the configuration does not depend on how
  it is carried, every tool call is followed by its result, and updates survive their JSON form.
\<close>

section \<open>The configuration of a transcript\<close>

lemma message_updates_simps [simp]:
  "message_updates [] = []"
  "message_updates (m # ms) = (case message_update m of None \<Rightarrow> message_updates ms | Some u \<Rightarrow> u # message_updates ms)"
  "message_updates (ms @ ns) = message_updates ms @ message_updates ns"
  by (auto simp: message_updates_def List.map_filter_def split: option.split)

lemma is_system_iff: "is_system m \<longleftrightarrow> message_update m \<noteq> None"
  by (cases m) auto

lemma fold_replay_step:
  "fold replay_step ms c =
   (if message_updates ms = [] then c
    else Some (fold apply_update (message_updates ms) (case c of None \<Rightarrow> empty_configuration | Some c' \<Rightarrow> c')))"
proof (induction ms arbitrary: c)
  case (Cons m ms)
  then show ?case by (cases m) auto
qed simp

lemma current_configuration_fold:
  "current_configuration t = fold apply_update (message_updates (tx_messages t)) empty_configuration"
  by (simp add: current_configuration_def replay_configuration_def fold_replay_step)

lemma resolved_configuration_fold:
  "resolved_configuration r = fold apply_update (message_updates (rt_messages r)) (rt_leading r)"
proof -
  have "fold (\<lambda>m c. case message_update m of None \<Rightarrow> c | Some u \<Rightarrow> apply_update u c) ms c =
      fold apply_update (message_updates ms) c" for ms c
    by (induction ms arbitrary: c) (auto split: option.split)
  then show ?thesis by (simp add: resolved_configuration_def)
qed

lemma updates_without_systems: "message_updates (filter (\<lambda>m. \<not> is_system m) ms) = []"
  by (induction ms) (auto simp: is_system_iff)

lemma updates_drop_first: "message_updates (drop_first_system ms) = tl (message_updates ms)"
  by (induction ms) (auto simp: is_system_iff split: option.split)

lemma resolved_current: "resolved_configuration (resolve p t) = current_configuration t"
proof (cases p)
  case InPlace
  then show ?thesis
    by (cases "message_updates (tx_messages t)")
      (simp_all add: resolved_configuration_fold current_configuration_fold initial_configuration_def updates_drop_first)
next
  case Collapsed
  then show ?thesis by (simp add: resolved_configuration_fold updates_without_systems)
qed

section \<open>Preparing a replay\<close>

fun is_result :: "agent_message \<Rightarrow> bool" where
  "is_result (ToolResultMsg _) = True"
| "is_result _ = False"

fun result_id :: "agent_message \<Rightarrow> tool_call_id" where
  "result_id (ToolResultMsg m) = mr_tool_call_id m"
| "result_id _ = []"

text \<open>Every call of an assistant message is answered by the results that directly follow it.\<close>

fun calls_settled :: "agent_message list \<Rightarrow> bool" where
  "calls_settled [] = True"
| "calls_settled (AssistantMsg m # ms) =
     (ac_id ` set (ma_tool_calls m) \<subseteq> result_id ` set (takeWhile is_result ms) \<and> calls_settled ms)"
| "calls_settled (_ # ms) = calls_settled ms"

lemma calls_settled_append: "calls_settled xs \<Longrightarrow> calls_settled ys \<Longrightarrow> calls_settled (xs @ ys)"
proof (induction xs rule: calls_settled.induct)
  case (2 m ms)
  have "set (takeWhile is_result ms) \<subseteq> set (takeWhile is_result (ms @ ys))"
    by (cases "\<forall>x \<in> set ms. is_result x") (auto simp: takeWhile_append dest: set_takeWhileD)
  from subset_trans [OF _ image_mono [OF this, of result_id]] 2 show ?case by simp
qed auto

lemma calls_settled_no_assistant: "(\<And>m. AssistantMsg m \<notin> set ms) \<Longrightarrow> calls_settled ms"
  by (induction ms rule: calls_settled.induct) auto

lemma missing_result_simps [simp]:
  "is_result (missing_result i call)" "result_id (missing_result i call) = ac_id call"
  "message_update (missing_result i call) = None" "\<not> is_system (missing_result i call)"
  "missing_result i call \<noteq> AssistantMsg m"
  by (simp_all add: missing_result_def)

definition supplied :: "agent_tool_call list \<Rightarrow> agent_message \<Rightarrow> bool" where
  "supplied calls m \<longleftrightarrow> (\<exists>i. \<exists>call \<in> set calls. m = missing_result i call)"

lemma supplied_Cons: "list_all (supplied calls) rs \<Longrightarrow> list_all (supplied (call # calls)) rs"
  by (induction rs) (auto simp: supplied_def)

lemma supplied_one: "supplied (call # calls) (missing_result i call)"
  by (auto simp: supplied_def)

lemma supplied_simps:
  "supplied calls m \<Longrightarrow> is_result m" "supplied calls m \<Longrightarrow> message_update m = None"
  "supplied calls m \<Longrightarrow> m \<noteq> AssistantMsg a"
  by (auto simp: supplied_def)

text \<open>What closing a turn appends: a result for each call without one, in order, then the held updates.\<close>

lemma answer_calls:
  obtains rs where "fold answer_call calls st = st\<lparr>rs_output := rs_output st @ rs,
      rs_synthetic_id := rs_synthetic_id (fold answer_call calls st)\<rparr>"
    "list_all (supplied calls) rs"
    "map result_id rs = filter (\<lambda>i. i \<notin> set (rs_answered st)) (map ac_id calls)"
proof (induction calls arbitrary: st thesis)
  case Nil
  then show ?case by (auto intro: Nil [of "[]"])
next
  case (Cons call calls)
  obtain rs where rs: "fold answer_call calls (answer_call call st) = (answer_call call st)\<lparr>
        rs_output := rs_output (answer_call call st) @ rs,
        rs_synthetic_id := rs_synthetic_id (fold answer_call calls (answer_call call st))\<rparr>"
    "list_all (supplied calls) rs"
    "map result_id rs = filter (\<lambda>i. i \<notin> set (rs_answered (answer_call call st))) (map ac_id calls)"
    using Cons.IH by blast
  have answered: "rs_answered (answer_call call st) = rs_answered st"
    by (simp add: answer_call_def Let_def)
  show ?case
  proof (cases "ac_id call \<in> set (rs_answered st)")
    case True
    then have "answer_call call st = st" by (simp add: answer_call_def)
    with rs True show ?thesis by (intro Cons.prems [of rs]) (simp_all add: supplied_Cons)
  next
    case False
    then have step: "answer_call call st = st\<lparr>rs_synthetic_id := saturating_add (rs_synthetic_id st) 1,
        rs_output := rs_output st @ [missing_result (saturating_add (rs_synthetic_id st) 1) call]\<rparr>"
      by (simp add: answer_call_def Let_def)
    show ?thesis
    proof (rule Cons.prems [of "missing_result (saturating_add (rs_synthetic_id st) 1) call # rs"])
      show "fold answer_call (call # calls) st = st\<lparr>rs_output := rs_output st @
          missing_result (saturating_add (rs_synthetic_id st) 1) call # rs,
          rs_synthetic_id := rs_synthetic_id (fold answer_call (call # calls) st)\<rparr>"
        using rs(1) by (simp add: step)
    next
      show "list_all (supplied (call # calls)) (missing_result (saturating_add (rs_synthetic_id st) 1) call # rs)"
        using rs(2) by (simp add: supplied_Cons supplied_one)
    next
      show "map result_id (missing_result (saturating_add (rs_synthetic_id st) 1) call # rs) =
          filter (\<lambda>i. i \<notin> set (rs_answered st)) (map ac_id (call # calls))"
        using rs(3) False answered by simp
    qed
  qed
qed

lemma close_pending_form:
  obtains rs where "rs_output (close_pending st) = rs_output st @ rs @ rs_held_system st"
    "rs_pending_calls (close_pending st) = []" "rs_answered (close_pending st) = []"
    "rs_held_system (close_pending st) = []" "list_all (supplied (rs_pending_calls st)) rs"
    "map result_id rs = filter (\<lambda>i. i \<notin> set (rs_answered st)) (map ac_id (rs_pending_calls st))"
proof -
  obtain rs where rs: "fold answer_call (rs_pending_calls st) st = st\<lparr>rs_output := rs_output st @ rs,
      rs_synthetic_id := rs_synthetic_id (fold answer_call (rs_pending_calls st) st)\<rparr>"
    "list_all (supplied (rs_pending_calls st)) rs"
    "map result_id rs = filter (\<lambda>i. i \<notin> set (rs_answered st)) (map ac_id (rs_pending_calls st))"
    by (rule answer_calls)
  have held: "rs_held_system (fold answer_call (rs_pending_calls st) st) = rs_held_system st"
    and out: "rs_output (fold answer_call (rs_pending_calls st) st) = rs_output st @ rs"
    by (subst rs(1), simp)+
  show thesis
    by (rule that [of rs]) (simp_all add: close_pending_def Let_def held out rs(2,3))
qed

definition replay_ok :: "replay_state \<Rightarrow> bool" where
  "replay_ok st \<longleftrightarrow>
     rs_pending_calls st = [] \<and> rs_held_system st = [] \<and> calls_settled (rs_output st) \<or>
     rs_pending_calls st \<noteq> [] \<and>
     (\<exists>us m rs. rs_output st = us @ AssistantMsg m # rs \<and> calls_settled us \<and> ma_tool_calls m = rs_pending_calls st \<and>
        list_all is_result rs \<and> set (rs_answered st) = result_id ` set rs \<and> list_all is_system (rs_held_system st))"

lemma replay_ok_cases [consumes 1, case_names idle turn]:
  assumes "replay_ok st"
  obtains "rs_pending_calls st = []" "rs_held_system st = []" "calls_settled (rs_output st)"
    | us m rs where "rs_pending_calls st \<noteq> []" "rs_output st = us @ AssistantMsg m # rs" "calls_settled us"
        "ma_tool_calls m = rs_pending_calls st" "list_all is_result rs"
        "set (rs_answered st) = result_id ` set rs" "list_all is_system (rs_held_system st)"
  using assms by (auto simp: replay_ok_def)

lemma replay_ok_turn:
  "rs_pending_calls st \<noteq> [] \<Longrightarrow> rs_output st = us @ AssistantMsg m # rs \<Longrightarrow> calls_settled us \<Longrightarrow> ma_tool_calls m = rs_pending_calls st \<Longrightarrow>
   list_all is_result rs \<Longrightarrow> set (rs_answered st) = result_id ` set rs \<Longrightarrow> list_all is_system (rs_held_system st) \<Longrightarrow>
   replay_ok st"
  unfolding replay_ok_def by blast

lemma replay_ok_idle:
  "rs_pending_calls st = [] \<Longrightarrow> rs_held_system st = [] \<Longrightarrow> calls_settled (rs_output st) \<Longrightarrow> replay_ok st"
  by (simp add: replay_ok_def)

lemma no_assistants:
  "list_all is_result rs \<Longrightarrow> AssistantMsg m \<notin> set rs" "list_all is_system ss \<Longrightarrow> AssistantMsg m \<notin> set ss"
  by (auto simp: list_all_iff)

lemma close_pending_answered:
  assumes "replay_ok st"
  shows "calls_settled (rs_output (close_pending st))"
proof -
  obtain new where out: "rs_output (close_pending st) = rs_output st @ new @ rs_held_system st"
    and new: "list_all (supplied (rs_pending_calls st)) new"
    and ids: "map result_id new = filter (\<lambda>i. i \<notin> set (rs_answered st)) (map ac_id (rs_pending_calls st))"
    by (rule close_pending_form [of st])
  from assms show ?thesis
  proof (cases rule: replay_ok_cases)
    case idle
    with ids show ?thesis by (simp add: out)
  next
    case (turn us m rs)
    have results: "list_all is_result (rs @ new)"
      using turn(5) new supplied_simps(1) by (auto simp: list_all_iff)
    have "ac_id ` set (ma_tool_calls m) \<subseteq> result_id ` set (rs @ new)"
      using arg_cong [OF ids, of set] turn(4,6) by (auto simp: image_Un)
    moreover have "set (rs @ new) \<subseteq> set (takeWhile is_result (rs @ new @ rs_held_system st))"
      using takeWhile_append2 [of "rs @ new" is_result "rs_held_system st"] results by (auto simp: list_all_iff)
    ultimately have "ac_id ` set (ma_tool_calls m) \<subseteq> result_id ` set (takeWhile is_result (rs @ new @ rs_held_system st))"
      by (meson image_mono subset_trans)
    moreover have "calls_settled (rs @ new @ rs_held_system st)"
      using no_assistants(1) [OF results] no_assistants(2) [OF turn(7)] by (intro calls_settled_no_assistant) auto
    ultimately show ?thesis
      using calls_settled_append [OF turn(3)] by (simp add: out turn(2))
  qed
qed

lemma prepare_step_ok:
  assumes "replay_ok st"
  shows "replay_ok (prepare_step target m st)"
proof (cases m)
  case (UserMsg i c)
  obtain rs where "rs_pending_calls (close_pending st) = []" "rs_held_system (close_pending st) = []"
    by (rule close_pending_form [of st])
  then show ?thesis
    using close_pending_answered [OF assms] by (simp add: UserMsg Let_def replay_ok_def calls_settled_append)
next
  case (AssistantMsg a)
  obtain rs where "rs_pending_calls (close_pending st) = []" "rs_held_system (close_pending st) = []"
    "rs_answered (close_pending st) = []"
    by (rule close_pending_form [of st])
  note closed = this close_pending_answered [OF assms]
  show ?thesis
  proof (cases "incomplete_turn a \<or> ma_tool_calls a = []")
    case True
    with closed show ?thesis
      by (intro replay_ok_idle) (auto simp: AssistantMsg Let_def replayed_message_def intro: calls_settled_append)
  next
    case False
    with closed show ?thesis
      by (intro replay_ok_turn [of _ "rs_output (close_pending st)" "replayed_message target a" "[]"])
        (auto simp: AssistantMsg Let_def replayed_message_def)
  qed
next
  case (ToolResultMsg r)
  from assms show ?thesis
  proof (cases rule: replay_ok_cases)
    case idle
    then show ?thesis by (intro replay_ok_idle) (simp_all add: ToolResultMsg calls_settled_append)
  next
    case (turn us a rs)
    then show ?thesis by (intro replay_ok_turn [of _ us a "rs @ [ToolResultMsg r]"]) (simp_all add: ToolResultMsg)
  qed
next
  case (SystemMsg i u)
  show ?thesis
  proof (cases "rs_pending_calls st = []")
    case True
    with assms show ?thesis
      by (cases rule: replay_ok_cases) (simp_all add: SystemMsg replay_ok_def calls_settled_append)
  next
    case False
    from assms show ?thesis
    proof (cases rule: replay_ok_cases)
      case (turn us a rs)
      then show ?thesis using False by (intro replay_ok_turn [of _ us a rs]) (simp_all add: SystemMsg)
    qed (simp add: False)
  qed
qed

lemma fold_prepare_ok: "replay_ok st \<Longrightarrow> replay_ok (fold (prepare_step target) ms st)"
  by (induction ms arbitrary: st) (simp_all add: prepare_step_ok)

abbreviation replay_start :: "agent_message list \<Rightarrow> replay_state" where
  "replay_start ms \<equiv> \<lparr>rs_output = [], rs_pending_calls = [], rs_answered = [], rs_held_system = [],
     rs_synthetic_id = largest_id ms\<rparr>"

lemma replay_start_ok: "replay_ok (replay_start ms)"
  by (simp add: replay_ok_def)

lemma prepared_answered: "calls_settled (prepared_messages target ms)"
  unfolding prepared_messages_def by (intro close_pending_answered fold_prepare_ok replay_start_ok)

subsection \<open>Updates keep their order\<close>

lemma supplied_updates: "list_all (supplied calls) rs \<Longrightarrow> message_updates rs = []"
  by (induction rs) (auto simp: supplied_simps(2))

lemma close_pending_updates:
  "message_updates (rs_output (close_pending st)) = message_updates (rs_output st @ rs_held_system st)"
  by (rule close_pending_form [of st]) (simp add: supplied_updates)

lemma prepare_step_updates:
  assumes "replay_ok st"
  shows "message_updates (rs_output (prepare_step target m st) @ rs_held_system (prepare_step target m st)) =
    message_updates (rs_output st @ rs_held_system st) @ message_updates [m]"
proof (cases m)
  case (UserMsg i c)
  then show ?thesis
    by (rule_tac close_pending_form [of st]) (simp add: Let_def close_pending_updates supplied_updates)
next
  case (AssistantMsg a)
  then show ?thesis
    by (rule_tac close_pending_form [of st]) (simp add: Let_def close_pending_updates supplied_updates)
next
  case (SystemMsg i u)
  with assms show ?thesis by (auto elim!: replay_ok_cases)
qed simp

lemma fold_prepare_updates:
  "replay_ok st \<Longrightarrow>
   message_updates (rs_output (fold (prepare_step target) ms st) @ rs_held_system (fold (prepare_step target) ms st)) =
   message_updates (rs_output st @ rs_held_system st) @ message_updates ms"
proof (induction ms arbitrary: st)
  case (Cons m ms)
  show ?case
    using Cons.IH [OF prepare_step_ok [OF Cons.prems]] prepare_step_updates [OF Cons.prems, of target m]
    by (simp split: option.splits)
qed simp

lemma prepared_updates: "message_updates (prepared_messages target ms) = message_updates ms"
  using fold_prepare_updates [OF replay_start_ok, of target ms ms]
  by (simp add: prepared_messages_def close_pending_updates)

subsection \<open>What is kept\<close>

fun kept_message :: "model_descriptor option \<Rightarrow> agent_message \<Rightarrow> agent_message option" where
  "kept_message target (AssistantMsg m) =
     (if incomplete_turn m then None else Some (AssistantMsg (replayed_message target m)))"
| "kept_message target (SystemMsg _ _) = None"
| "kept_message target m = Some m"

definition conversation :: "model_descriptor option \<Rightarrow> agent_message list \<Rightarrow> agent_message list" where
  "conversation target ms = List.map_filter (kept_message target) ms"

lemma conversation_simps [simp]:
  "conversation target [] = []"
  "conversation target (m # ms) =
     (case kept_message target m of None \<Rightarrow> conversation target ms | Some k \<Rightarrow> k # conversation target ms)"
  "conversation target (ms @ ns) = conversation target ms @ conversation target ns"
  by (auto simp: conversation_def List.map_filter_def split: option.split)

lemma prepare_step_output:
  obtains extra where "rs_output (prepare_step target m st) = rs_output st @ extra @ conversation target [m]"
    | i u where "m = SystemMsg i u" "rs_output (prepare_step target m st) = rs_output st @ [m]"
proof (cases m)
  case (UserMsg i c)
  obtain rs where "rs_output (close_pending st) = rs_output st @ rs @ rs_held_system st"
    by (rule close_pending_form [of st])
  then show ?thesis by (intro that(1) [of "rs @ rs_held_system st"]) (simp add: UserMsg Let_def)
next
  case (AssistantMsg a)
  obtain rs where "rs_output (close_pending st) = rs_output st @ rs @ rs_held_system st"
    by (rule close_pending_form [of st])
  then show ?thesis by (intro that(1) [of "rs @ rs_held_system st"]) (simp add: AssistantMsg Let_def)
next
  case (ToolResultMsg r)
  then show ?thesis by (intro that(1) [of "[]"]) simp
next
  case (SystemMsg i u)
  then show ?thesis using that(1) [of "[]"] that(2) by (cases "rs_pending_calls st = []") auto
qed

lemma subseq_extend: "subseq xs ys \<Longrightarrow> subseq xs (ys @ zs)"
  using list_emb_append_mono [of "(=)" xs ys "[]" zs] by simp

lemma fold_prepare_subseq:
  "subseq c (rs_output st) \<Longrightarrow> subseq (c @ conversation target ms) (rs_output (fold (prepare_step target) ms st))"
proof (induction ms arbitrary: c st)
  case (Cons m ms)
  have "subseq (c @ conversation target [m]) (rs_output (prepare_step target m st))"
  proof (rule prepare_step_output [of target m st])
    fix extra assume "rs_output (prepare_step target m st) = rs_output st @ extra @ conversation target [m]"
    then show ?thesis
      using list_emb_append_mono [OF subseq_extend [OF Cons.prems, of extra], of "conversation target [m]"] by simp
  next
    fix i u assume "m = SystemMsg i u" "rs_output (prepare_step target m st) = rs_output st @ [m]"
    then show ?thesis using subseq_extend [OF Cons.prems] by simp
  qed
  from Cons.IH [OF this] show ?case by (simp split: option.splits)
qed simp

lemma prepared_keeps: "subseq (conversation target ms) (prepared_messages target ms)"
proof -
  let ?st = "fold (prepare_step target) ms (replay_start ms)"
  have "subseq (conversation target ms) (rs_output ?st)"
    using fold_prepare_subseq [of "[]" "replay_start ms" target ms] by simp
  moreover obtain rs where "rs_output (close_pending ?st) = rs_output ?st @ rs @ rs_held_system ?st"
    by (rule close_pending_form [of ?st])
  ultimately show ?thesis by (simp add: prepared_messages_def subseq_extend)
qed

text \<open>Every message is one that is kept, a configuration update or a supplied result.\<close>

lemma close_pending_all:
  assumes "\<forall>k \<in> set (rs_output st @ rs_held_system st). Q k" and "\<And>i call. Q (missing_result i call)"
  shows "\<forall>k \<in> set (rs_output (close_pending st)). Q k"
proof (rule close_pending_form [of st])
  fix rs assume "rs_output (close_pending st) = rs_output st @ rs @ rs_held_system st"
    and rs: "list_all (supplied (rs_pending_calls st)) rs"
  moreover from rs have "\<forall>k \<in> set rs. Q k" using assms(2) by (auto simp: list_all_iff supplied_def)
  ultimately show ?thesis using assms(1) by auto
qed

lemma prepare_step_all:
  assumes all: "\<forall>k \<in> set (rs_output st @ rs_held_system st). Q k" and supplied: "\<And>i call. Q (missing_result i call)"
    and kept: "\<And>k. kept_message target m = Some k \<Longrightarrow> Q k" and systems: "is_system m \<Longrightarrow> Q m"
  shows "\<forall>k \<in> set (rs_output (prepare_step target m st) @ rs_held_system (prepare_step target m st)). Q k"
proof -
  have held: "rs_held_system (close_pending st) = []" by (rule close_pending_form [of st])
  show ?thesis
    using close_pending_all [OF all supplied] all kept systems by (cases m) (auto simp: Let_def held)
qed

lemma prepared_all:
  assumes "\<And>k. k \<in> set (conversation target ms) \<Longrightarrow> Q k" "\<And>k. k \<in> set ms \<Longrightarrow> is_system k \<Longrightarrow> Q k"
    and supplied: "\<And>i call. Q (missing_result i call)" and m: "m \<in> set (prepared_messages target ms)"
  shows "Q m"
proof -
  have "\<forall>k \<in> set (rs_output (fold (prepare_step target) xs st) @ rs_held_system (fold (prepare_step target) xs st)). Q k"
    if "\<forall>k \<in> set (rs_output st @ rs_held_system st). Q k" "set (conversation target xs) \<subseteq> set (conversation target ms)"
      "set xs \<subseteq> set ms" for xs st
    using that
  proof (induction xs arbitrary: st)
    case (Cons x xs)
    have "\<forall>k \<in> set (rs_output (prepare_step target x st) @ rs_held_system (prepare_step target x st)). Q k"
      using Cons.prems assms(1,2) by (intro prepare_step_all supplied) auto
    from Cons.IH [OF this] Cons.prems(2,3) show ?case by (simp split: option.splits)
  qed simp
  note steps = this
  have "\<forall>k \<in> set (rs_output (fold (prepare_step target) ms (replay_start ms)) @
      rs_held_system (fold (prepare_step target) ms (replay_start ms))). Q k"
    by (rule steps) simp_all
  then have "\<forall>k \<in> set (prepared_messages target ms). Q k"
    unfolding prepared_messages_def by (rule close_pending_all) (rule supplied)
  with m show ?thesis by blast
qed

lemma prepared_assistant:
  assumes "AssistantMsg a \<in> set (prepared_messages target ms)"
  obtains m where "AssistantMsg m \<in> set ms" "\<not> incomplete_turn m" "a = replayed_message target m"
proof -
  have "AssistantMsg a \<in> set (conversation target ms)"
    by (rule prepared_all [OF _ _ _ assms, where Q = "\<lambda>k. k = AssistantMsg a \<longrightarrow> k \<in> set (conversation target ms)",
        THEN mp, OF _ _ _ refl]) auto
  then have "\<exists>m. AssistantMsg m \<in> set ms \<and> \<not> incomplete_turn m \<and> a = replayed_message target m"
  proof (induction ms)
    case (Cons x xs)
    then show ?case by (cases x) (auto split: if_splits)
  qed simp
  with that show thesis by blast
qed

lemma replay_block_foreign: "replay_block False b = Some b' \<Longrightarrow> \<exists>t. b' = ContentText t"
  by (cases b) (auto split: if_splits)

lemma replayed_foreign:
  assumes "\<not> same_physical_model (ma_origin m) target" "b \<in> set (ma_content (replayed_message target m))"
  shows "\<exists>t. b = ContentText t"
  using assms replay_block_foreign by (auto simp: replayed_message_def List.map_filter_def)

section \<open>Transports that only add tools\<close>

lemma redeclares_fresh:
  "distinct (rev (map tn_name ts) @ declared) \<Longrightarrow> redeclares declared ts = (False, rev (map tn_name ts) @ declared)"
  by (induction ts arbitrary: declared) auto

lemma redeclares_again:
  "distinct declared \<Longrightarrow> \<not> distinct (rev (map tn_name ts) @ declared) \<Longrightarrow> fst (redeclares declared ts)"
proof (induction ts arbitrary: declared)
  case (Cons t ts)
  show ?case
  proof (cases "tn_name t \<in> set declared")
    case False
    with Cons.prems have "distinct (tn_name t # declared)" "\<not> distinct (rev (map tn_name ts) @ tn_name t # declared)" by auto
    with Cons.IH False show ?thesis by simp
  qed simp
qed simp

lemma non_additive_spec:
  "distinct declared \<Longrightarrow>
   \<not> non_additive declared us \<longleftrightarrow>
   (\<forall>u \<in> set us. up_tools_removed u = []) \<and> distinct (rev (map tn_name (concat (map up_tools_added us))) @ declared)"
proof (induction us arbitrary: declared)
  case (Cons u us)
  show ?case
  proof (cases "distinct (rev (map tn_name (up_tools_added u)) @ declared)")
    case True
    note redeclares_fresh [OF this]
    with Cons.IH [OF True] show ?thesis by simp
  next
    case False
    with redeclares_again [OF Cons.prems False] show ?thesis by (auto split: prod.splits)
  qed
qed simp

lemma fold_add_distinct: "distinct (map tn_name (ts @ xs)) \<Longrightarrow> fold add_tool xs ts = ts @ xs"
proof (induction xs arbitrary: ts)
  case (Cons x xs)
  have "retain_other (tn_name x) ts = ts"
    using Cons.prems by (auto simp: retain_other_def filter_id_conv image_iff)
  then have "add_tool x ts = ts @ [x]" by (simp add: add_tool_def)
  with Cons.IH [of "ts @ [x]"] Cons.prems show ?case by simp
qed simp

lemma additive_tools:
  "\<forall>u \<in> set us. up_tools_removed u = [] \<Longrightarrow> distinct (map tn_name (ec_tools c @ concat (map up_tools_added us))) \<Longrightarrow>
   ec_tools (fold apply_update us c) = ec_tools c @ concat (map up_tools_added us)"
proof (induction us arbitrary: c)
  case (Cons u us)
  have "distinct (map tn_name (ec_tools c @ up_tools_added u))" using Cons.prems(2) by auto
  then have "ec_tools (apply_update u c) = ec_tools c @ up_tools_added u"
    using Cons.prems(1) by (simp add: apply_update_def fold_add_distinct)
  with Cons.IH [of "apply_update u c"] Cons.prems show ?case by simp
qed simp

lemma fresh_after_insert:
  fixes m :: "(string, tool_declaration) btree"
  assumes "distinct (map tn_name (t # ts))" "\<forall>x \<in> set ts. btree_get m (tn_name x) = None"
  shows "\<forall>x \<in> set ts. btree_get (btree_insert (tn_name t) t m) (tn_name x) = None"
proof
  fix x assume x: "x \<in> set ts"
  then have "tn_name x \<in> tn_name ` set ts" by (rule imageI)
  with assms(1) have "tn_name x \<noteq> tn_name t" by auto
  with assms(2) x show "btree_get (btree_insert (tn_name t) t m) (tn_name x) = None" by simp
qed

lemma declare_distinct:
  "distinct (map tn_name ts) \<Longrightarrow> \<forall>t \<in> set ts. btree_get definitions (tn_name t) = None \<Longrightarrow>
   \<exists>definitions'. fold declare_tool ts (order, definitions) = (order @ map tn_name ts, definitions') \<and>
     btree_get definitions' = btree_get definitions ++ tools_map ts"
proof (induction ts arbitrary: order definitions)
  case (Cons t ts)
  have fresh: "\<not> btree_contains definitions (tn_name t)"
    using Cons.prems by (simp add: btree_contains_def)
  obtain definitions' where d: "fold declare_tool ts (order @ [tn_name t], btree_insert (tn_name t) t definitions) =
      ((order @ [tn_name t]) @ map tn_name ts, definitions')"
    "btree_get definitions' = btree_get (btree_insert (tn_name t) t definitions) ++ tools_map ts"
    using Cons.IH [of "btree_insert (tn_name t) t definitions" "order @ [tn_name t]"]
      fresh_after_insert [of t ts definitions] Cons.prems by fastforce
  have "tools_map ts (tn_name t) = None" using Cons.prems by (simp add: tools_map_None)
  then have get: "btree_get definitions' = btree_get definitions ++ tools_map (t # ts)"
    by (auto simp: d(2) map_add_def intro!: ext split: option.split)
  have "declare_tool t (order, definitions) = (order @ [tn_name t], btree_insert (tn_name t) t definitions)"
    using fresh by (simp add: declare_tool_def)
  with d(1) show ?case by (intro exI [of _ definitions'] conjI get) simp
qed simp

lemma declared_distinct: "distinct (map tn_name (added_tools t)) \<Longrightarrow> declared_tools t = added_tools t"
proof -
  assume d: "distinct (map tn_name (added_tools t))"
  obtain definitions where f: "fold declare_tool (added_tools t) ([], []) = ([] @ map tn_name (added_tools t), definitions)"
    "btree_get definitions = tools_map (added_tools t)"
    using declare_distinct [OF d, of "[]" "[]"] by auto
  have "List.map_filter (tools_map ts) (map tn_name xs) = xs" if "\<forall>x \<in> set xs. tools_map ts (tn_name x) = Some x" for ts xs
    using that by (induction xs) (simp_all add: List.map_filter_def)
  with tools_map_Some [OF d] show ?thesis by (simp add: declared_tools_def f)
qed

lemma redefines_distinct:
  "distinct (map tn_name ts) \<Longrightarrow> \<forall>t \<in> set ts. btree_get declared (tn_name t) = None \<Longrightarrow> \<not> redefines declared ts"
proof (induction ts arbitrary: declared)
  case (Cons t ts)
  with Cons.IH [OF _ fresh_after_insert [of t ts declared]] show ?case by simp
qed simp

section \<open>Updates as JSON\<close>

lemma section_change_roundtrip: "section_change_from_json (section_change_json ch) = Inr ch"
  by (cases "sx_content ch")
    (simp_all add: section_change_from_json_def section_change_json_def object_def btree_of_def string_member_def)

lemma tool_declaration_roundtrip: "tool_declaration_from_json (tool_declaration_json t) = Inr t"
  by (simp add: tool_declaration_from_json_def tool_declaration_json_def object_def btree_of_def string_member_def)

lemma try_map_roundtrip: "(\<And>x. f (g x) = Inr x) \<Longrightarrow> try_map f (map g xs) = Inr xs"
  by (induction xs) simp_all

lemma update_roundtrip:
  "configuration_update_from_json (configuration_update_json u) =
   (case validate_update u of Inl e \<Rightarrow> Err (InvalidUpdate e) | Inr _ \<Rightarrow> Ok u)"
proof -
  have "try_map section_change_from_json (map section_change_json (up_sections u)) = Inr (up_sections u)"
    "try_map tool_declaration_from_json (map tool_declaration_json (up_tools_added u)) = Inr (up_tools_added u)"
    "try_map removed_name (map JString (up_tools_removed u)) = Inr (up_tools_removed u)"
    by (simp_all add: try_map_roundtrip section_change_roundtrip tool_declaration_roundtrip removed_name_def)
  then show ?thesis
    by (cases u) (simp add: configuration_update_from_json_def configuration_update_json_def object_def btree_of_def
        array_member_def split: sum.split)
qed

section \<open>Layout lines\<close>

lemma opaque_digest_encodable: "encodable (opaque_digest blake3 payload)"
  by (simp add: opaque_digest_def)

lemma update_json_encodable:
  assumes "list_all (\<lambda>t. encodable (tn_schema t)) (up_tools_added u)"
  shows "encodable (configuration_update_json u)"
proof -
  have "encodable (section_change_json ch)" for ch
    unfolding section_change_json_def by (rule object_encodable) (auto split: option.split)
  moreover have "encodable (tool_declaration_json t)" if "encodable (tn_schema t)" for t
    unfolding tool_declaration_json_def by (rule object_encodable) (use that in auto)
  ultimately show ?thesis
    unfolding configuration_update_json_def
    by (intro object_encodable) (use assms in \<open>auto simp: list_all_iff\<close>)
qed

fun schemas_encodable :: "agent_message \<Rightarrow> bool" where
  "schemas_encodable (SystemMsg _ u) = list_all (\<lambda>t. encodable (tn_schema t)) (up_tools_added u)"
| "schemas_encodable _ = True"

lemma canonical_message_encodable: "schemas_encodable m \<Longrightarrow> encodable (canonical_message blake3 m)"
proof -
  have block: "encodable (canonical_block blake3 b)" for b
    by (cases b) (auto simp: opaque_digest_encodable split: option.split intro!: object_encodable)
  have call: "encodable (canonical_call c)" for c
    unfolding canonical_call_def by (rule object_encodable) auto
  have item: "encodable (canonical_context blake3 c)" for c
    unfolding canonical_context_def by (rule object_encodable) (auto simp: opaque_digest_encodable)
  assume "schemas_encodable m"
  then show ?thesis
    by (cases m) (auto simp: block call item update_json_encodable split: option.split intro!: object_encodable)
qed

lemma drop_first_subset: "set (drop_first_system ms) \<subseteq> set ms"
  by (induction ms) auto

lemma resolved_subset: "set (rt_messages (resolve p t)) \<subseteq> set (tx_messages t)"
  using drop_first_subset by (cases p) auto

lemma layout_total:
  assumes "list_all schemas_encodable (tx_messages t)"
  shows "\<exists>lines. layout_context blake3 miniserde p t = Some lines"
proof -
  have "encodable (canonical_message blake3 m)" if "m \<in> set (rt_messages (resolve p t))" for m
    using that assms resolved_subset [of p t] by (auto simp: list_all_iff intro: canonical_message_encodable)
  moreover have "encodable (object [(''host_note'', JString text')])" for text'
    by (rule object_encodable) auto
  ultimately show ?thesis
    by (auto simp: layout_context_def Let_def layout_line_def to_json_string_def)
qed

section \<open>Properties\<close>

text \<open>
  C35: The configuration a model sees does not depend on how it is carried: whichever projection a
  transport uses, and whichever model the conversation is prepared for, replaying the system messages
  gives the same sections and tools, and no section or tool is declared twice in it.
\<close>

theorem transcript_configuration:
  "resolved_configuration (resolve p t) = current_configuration t \<and>
   current_configuration (prepared_for target t) = current_configuration t \<and>
   configuration_ok (current_configuration t)"
proof (intro conjI)
  have "configuration_ok c \<Longrightarrow> configuration_ok (fold apply_update us c)" for us c
    by (induction us arbitrary: c) (simp_all add: apply_update_ok)
  then show "configuration_ok (current_configuration t)"
    by (simp add: current_configuration_fold empty_configuration_ok)
qed (simp_all add: resolved_current current_configuration_fold prepared_for_def prepared_updates)

text \<open>An assistant message that may be sent to the target: complete, and without foreign thinking.\<close>

fun is_text :: "assistant_content \<Rightarrow> bool" where
  "is_text (ContentText _) = True"
| "is_text _ = False"

fun sendable :: "model_descriptor option \<Rightarrow> agent_message \<Rightarrow> bool" where
  "sendable target (AssistantMsg m) \<longleftrightarrow> \<not> incomplete_turn m \<and>
     (if same_physical_model (ma_origin m) target then True else list_all is_text (ma_content m))"
| "sendable target _ = True"

lemma prepared_sendable: "list_all (sendable target) (prepared_messages target ms)"
  unfolding list_all_iff
proof
  fix k assume k: "k \<in> set (prepared_messages target ms)"
  show "sendable target k"
  proof (cases k)
    case (AssistantMsg a)
    then obtain m where m: "\<not> incomplete_turn m" "a = replayed_message target m"
      using k by (auto elim: prepared_assistant)
    have "list_all is_text (ma_content a)" if "\<not> same_physical_model (ma_origin m) target"
      using replayed_foreign [OF that] by (fastforce simp: list_all_iff m(2))
    moreover have "ma_origin a = ma_origin m" "incomplete_turn a \<longleftrightarrow> incomplete_turn m"
      by (simp_all add: m(2) replayed_message_def incomplete_turn_def)
    ultimately show ?thesis using m(1) by (simp add: AssistantMsg)
  qed simp_all
qed

text \<open>
  C36: A conversation prepared for a model can be sent to it: every tool call is answered by the
  results that directly follow its message, no turn is incomplete, no thinking of another model is
  left, and of the conversation nothing else is lost: the user messages, the tool results and the
  complete turns are there in their order.
\<close>

theorem replay_prepared:
  "calls_settled (tx_messages (prepared_for target t)) \<and>
   list_all (sendable target) (tx_messages (prepared_for target t)) \<and>
   subseq (conversation target (tx_messages t)) (tx_messages (prepared_for target t)) \<and>
   tx_host_notes (prepared_for target t) = tx_host_notes t"
  by (simp add: prepared_for_def prepared_answered prepared_sendable prepared_keeps)

text \<open>
  C37: The difference of two configurations is a valid update that leads from the first to the second,
  up to the order of sections and tools; there is no update exactly when both have the same content.
\<close>

theorem configuration_diff_exact:
  assumes "configuration_ok a" "configuration_ok b" "names_ok a" "names_ok b"
  shows "case diff_configuration a b of
      None \<Rightarrow> same_content a b
    | Some u \<Rightarrow> \<not> same_content a b \<and> validate_update u = Ok () \<and> same_content (apply_update u a) b"
proof (cases "diff_configuration a b")
  case None
  then show ?thesis by (simp add: diff_configuration_def split: if_splits)
next
  case (Some u)
  with diff_reaches [OF assms(1,2) Some] diff_valid [OF assms Some] show ?thesis
    by (simp add: diff_configuration_def split: if_splits)
qed

definition ex_before :: effective_configuration where
  "ex_before = \<lparr>ec_sections = [\<lparr>pn_id = ''a'', pn_content = ''x''\<rparr>, \<lparr>pn_id = ''b'', pn_content = ''y''\<rparr>],
     ec_tools = [\<lparr>tn_name = ''read'', tn_description = ''r'', tn_schema = JNull\<rparr>]\<rparr>"

definition ex_desired :: effective_configuration where
  "ex_desired = \<lparr>ec_sections = [\<lparr>pn_id = ''c'', pn_content = ''z''\<rparr>, \<lparr>pn_id = ''b'', pn_content = ''w''\<rparr>],
     ec_tools = [\<lparr>tn_name = ''read'', tn_description = ''new'', tn_schema = JNull\<rparr>]\<rparr>"

theorem configuration_diff_exact_witness:
  "\<exists>u. diff_configuration ex_before ex_desired = Some u \<and> same_content (apply_update u ex_before) ex_desired"
proof -
  have "configuration_ok ex_before" "configuration_ok ex_desired" "names_ok ex_before" "names_ok ex_desired"
    "\<not> same_content ex_before ex_desired"
    by code_simp+
  from configuration_diff_exact [OF this(1-4)] this(5) show ?thesis
    by (auto split: option.splits)
qed

text \<open>
  An update that is written as JSON is read back unchanged when it is valid, and refused with the
  reason when it is not.
\<close>

theorem update_json_roundtrip:
  "configuration_update_from_json (configuration_update_json u) =
   (case validate_update u of Inl e \<Rightarrow> Err (InvalidUpdate e) | Inr _ \<Rightarrow> Ok u)"
  by (rule update_roundtrip)

text \<open>
  A transport that can only add tools replays the declarations exactly: without removals and
  redeclarations the tools ever declared are the tools in force.
\<close>

theorem additive_transport:
  assumes "\<not> has_non_additive_tool_changes t"
  shows "declared_tools t = ec_tools (current_configuration t) \<and> \<not> has_tool_redefinitions t"
proof -
  have additive: "\<forall>u \<in> set (message_updates (tx_messages t)). up_tools_removed u = []"
    and names: "distinct (map tn_name (added_tools t))"
    using assms non_additive_spec [of "[]" "message_updates (tx_messages t)"]
    by (simp_all add: has_non_additive_tool_changes_def added_tools_def)
  have "ec_tools (current_configuration t) = added_tools t"
    using additive_tools [OF additive, of empty_configuration] names
    by (simp add: current_configuration_fold empty_configuration_def added_tools_def)
  with declared_distinct [OF names] redefines_distinct [OF names, of "[]"] show ?thesis
    by (simp add: has_tool_redefinitions_def)
qed

end
