(* ===== verification/Run_Scheduler.thy ===== *)
theory Run_Scheduler
  imports Agent_Transcript
begin

text \<open>
  The scheduling seams of a run: the queues of steering and follow-up messages
  (\<open>crates/tea-core/src/queue.rs\<close>), the batches of tool calls with their completions and the cancellation
  token (\<open>scheduler.rs\<close>). The calls and results of tools are from \<open>tool.rs\<close>.
\<close>

section \<open>Queues\<close>

record queued_message =
  qm_sequence :: u64
  qm_content :: string

datatype queue_mode = OneAtATime | All

record message_queue =
  mq_next_sequence :: u64
  mq_entries :: "queued_message list"

definition new_queue :: message_queue where
  "new_queue = \<lparr>mq_next_sequence = 0, mq_entries = []\<rparr>"

definition queue_push :: "string \<Rightarrow> message_queue \<Rightarrow> u64 \<times> message_queue" where
  "queue_push content q =
     (let sequence = saturating_add (mq_next_sequence q) 1 in
      (sequence, \<lparr>mq_next_sequence = sequence,
                  mq_entries = mq_entries q @ [\<lparr>qm_sequence = sequence, qm_content = content\<rparr>]\<rparr>))"

definition queue_pop :: "message_queue \<Rightarrow> queued_message option \<times> message_queue" where
  "queue_pop q =
     (case mq_entries q of [] \<Rightarrow> (None, q) | message # rest \<Rightarrow> (Some message, q\<lparr>mq_entries := rest\<rparr>))"

fun queue_drain :: "queue_mode \<Rightarrow> message_queue \<Rightarrow> queued_message list \<times> message_queue" where
  "queue_drain OneAtATime q =
     (case queue_pop q of (None, q') \<Rightarrow> ([], q') | (Some message, q') \<Rightarrow> ([message], q'))"
| "queue_drain All q = (mq_entries q, q\<lparr>mq_entries := []\<rparr>)"

definition queue_clear :: "message_queue \<Rightarrow> message_queue" where
  "queue_clear q = q\<lparr>mq_entries := []\<rparr>"

record agent_queues =
  aq_steering :: message_queue
  aq_follow_up :: message_queue

definition queues_clear :: "agent_queues \<Rightarrow> agent_queues" where
  "queues_clear q = \<lparr>aq_steering = queue_clear (aq_steering q), aq_follow_up = queue_clear (aq_follow_up q)\<rparr>"

section \<open>Tool batches\<close>

datatype tool_execution_mode = Sequential | Parallel

record tool_call =
  tl_id :: tool_call_id
  tl_name :: string
  tl_arguments :: serialized_json

record agent_tool_result =
  ar_tool_call_id :: tool_call_id
  ar_content :: string
  ar_details :: "serialized_json option"
  ar_usage :: "agent_usage option"
  ar_added_tool_names :: "string list"
  ar_terminate :: bool
  ar_is_error :: bool
  ar_failure :: "tool_failure option"

datatype scheduler_error =
    UnknownToolCall tool_call_id
  | DuplicateCompletion tool_call_id

record planned_tool_call =
  pt_source_index :: nat
  pt_call :: tool_call
  pt_execution_mode :: tool_execution_mode

type_synonym tool_batch = "planned_tool_call list"
type_synonym completion_set = "(tool_call_id, agent_tool_result) btree"

definition prepare_batch :: "(tool_call \<times> tool_execution_mode) list \<Rightarrow> tool_batch" where
  "prepare_batch calls =
     map (\<lambda>(source_index, call, mode). \<lparr>pt_source_index = source_index, pt_call = call, pt_execution_mode = mode\<rparr>)
       (enumerate 0 calls)"

text \<open>\<open>insert\<close> replaces the result of a call before it reports that there was one.\<close>

definition insert_completion ::
    "agent_tool_result \<Rightarrow> completion_set \<Rightarrow> (scheduler_error, unit) result \<times> completion_set" where
  "insert_completion r results =
     ((if btree_contains results (ar_tool_call_id r) then Err (DuplicateCompletion (ar_tool_call_id r)) else Ok ()),
      btree_insert (ar_tool_call_id r) r results)"

definition record_completion ::
    "tool_batch \<Rightarrow> agent_tool_result \<Rightarrow> completion_set \<Rightarrow> (scheduler_error, unit) result \<times> completion_set" where
  "record_completion batch r results =
     (if \<not> list_ex (\<lambda>call. tl_id (pt_call call) = ar_tool_call_id r) batch
      then (Err (UnknownToolCall (ar_tool_call_id r)), results)
      else insert_completion r results)"

definition in_source_order :: "tool_batch \<Rightarrow> completion_set \<Rightarrow> agent_tool_result list" where
  "in_source_order batch results = List.map_filter (\<lambda>call. btree_get results (tl_id (pt_call call))) batch"

section \<open>Cancellation\<close>

text \<open>
  The token is shared by threads. A step is one access to the shared state: reading or swapping the
  flag, taking the lock, or the work done while the lock is held together with its release. Locking
  and atomic accesses are interleaved in one order. A thread is between two accesses in one of the
  following places; \<open>Wait\<close> futures are named by their waiter identity, and a waker by the task it wakes,
  so that \<open>will_wake\<close> is equality. Fewer than 2^64 waiters are made, so identities are \<open>nat\<close>.
\<close>

type_synonym waker = nat
type_synonym thread = nat
type_synonym waiters = "(nat \<times> waker) list"

datatype activity =
    Resting
  | PollChecked nat waker
  | PollLocked nat waker
  | PollPushing nat waker
  | DropChecked nat
  | DropLocked nat
  | RegisterChecked waker
  | RegisterLocked waker
  | RegisterPushing waker
  | CancelSwapped
  | CancelLocked
  | Waking "waker list"

text \<open>
  The state of a token and its threads. The last three fields record what happened: which futures
  returned \<open>Pending\<close> from their last poll, with which waker; which wakers were registered; which were
  woken.
\<close>

record token_state =
  ts_cancelled :: bool
  ts_next_waiter_id :: nat
  ts_waiters :: waiters
  ts_lock :: "thread option"
  ts_threads :: "thread \<Rightarrow> activity"
  ts_pending :: "nat \<rightharpoonup> waker"
  ts_registered :: "waker set"
  ts_woken :: "waker set"

definition new_token :: token_state where
  "new_token = \<lparr>ts_cancelled = False, ts_next_waiter_id = 0, ts_waiters = [], ts_lock = None,
     ts_threads = (\<lambda>_. Resting), ts_pending = Map.empty, ts_registered = {}, ts_woken = {}\<rparr>"

text \<open>The body of \<open>poll\<close> under the lock: the waiter's entry gets the current waker.\<close>

fun update_waiter :: "nat \<Rightarrow> waker \<Rightarrow> waiters \<Rightarrow> waiters" where
  "update_waiter i w [] = [(i, w)]"
| "update_waiter i w ((j, v) # rest) = (if j = i then (j, w) # rest else (j, v) # update_waiter i w rest)"

definition retain_waiters :: "nat \<Rightarrow> waiters \<Rightarrow> waiters" where
  "retain_waiters i ws = filter (\<lambda>(j, _). j \<noteq> i) ws"

fun busy_with :: "nat \<Rightarrow> activity \<Rightarrow> bool" where
  "busy_with i (PollChecked j _) = (i = j)"
| "busy_with i (PollLocked j _) = (i = j)"
| "busy_with i (PollPushing j _) = (i = j)"
| "busy_with i (DropChecked j) = (i = j)"
| "busy_with i (DropLocked j) = (i = j)"
| "busy_with i _ = False"

text \<open>A future is polled or dropped by one thread at a time, since both borrow it exclusively.\<close>

abbreviation unshared :: "token_state \<Rightarrow> nat \<Rightarrow> bool" where
  "unshared s i \<equiv> i < ts_next_waiter_id s \<and> (\<forall>t. \<not> busy_with i (ts_threads s t))"

abbreviation goes :: "thread \<Rightarrow> activity \<Rightarrow> token_state \<Rightarrow> token_state" where
  "goes t a s \<equiv> s\<lparr>ts_threads := (ts_threads s)(t := a)\<rparr>"

abbreviation locks :: "thread \<Rightarrow> activity \<Rightarrow> token_state \<Rightarrow> token_state" where
  "locks t a s \<equiv> goes t a s\<lparr>ts_lock := Some t\<rparr>"

abbreviation unlocks :: "thread \<Rightarrow> activity \<Rightarrow> token_state \<Rightarrow> token_state" where
  "unlocks t a s \<equiv> goes t a s\<lparr>ts_lock := None\<rparr>"

inductive token_step :: "token_state \<Rightarrow> token_state \<Rightarrow> bool" where
  cancelled_new: "token_step s (s\<lparr>ts_next_waiter_id := Suc (ts_next_waiter_id s)\<rparr>)"
| poll_ready: "ts_threads s t = Resting \<Longrightarrow> unshared s i \<Longrightarrow> ts_cancelled s \<Longrightarrow>
    token_step s (s\<lparr>ts_pending := (ts_pending s)(i := None)\<rparr>)"
| poll_check: "ts_threads s t = Resting \<Longrightarrow> unshared s i \<Longrightarrow> \<not> ts_cancelled s \<Longrightarrow>
    token_step s (goes t (PollChecked i w) s\<lparr>ts_pending := (ts_pending s)(i := None)\<rparr>)"
| poll_lock: "ts_threads s t = PollChecked i w \<Longrightarrow> ts_lock s = None \<Longrightarrow> token_step s (locks t (PollLocked i w) s)"
| poll_ready_locked: "ts_threads s t = PollLocked i w \<Longrightarrow> ts_cancelled s \<Longrightarrow> token_step s (unlocks t Resting s)"
| poll_recheck: "ts_threads s t = PollLocked i w \<Longrightarrow> \<not> ts_cancelled s \<Longrightarrow> token_step s (goes t (PollPushing i w) s)"
| poll_push: "ts_threads s t = PollPushing i w \<Longrightarrow>
    token_step s (unlocks t Resting s\<lparr>ts_waiters := update_waiter i w (ts_waiters s),
      ts_pending := (ts_pending s)(i \<mapsto> w)\<rparr>)"
| drop_cancelled: "ts_threads s t = Resting \<Longrightarrow> unshared s i \<Longrightarrow> ts_cancelled s \<Longrightarrow>
    token_step s (s\<lparr>ts_pending := (ts_pending s)(i := None)\<rparr>)"
| drop_check: "ts_threads s t = Resting \<Longrightarrow> unshared s i \<Longrightarrow> \<not> ts_cancelled s \<Longrightarrow>
    token_step s (goes t (DropChecked i) s\<lparr>ts_pending := (ts_pending s)(i := None)\<rparr>)"
| drop_lock: "ts_threads s t = DropChecked i \<Longrightarrow> ts_lock s = None \<Longrightarrow> token_step s (locks t (DropLocked i) s)"
| drop_retain: "ts_threads s t = DropLocked i \<Longrightarrow>
    token_step s (unlocks t Resting s\<lparr>ts_waiters := retain_waiters i (ts_waiters s)\<rparr>)"
| register_cancelled: "ts_threads s t = Resting \<Longrightarrow> ts_cancelled s \<Longrightarrow>
    token_step s (s\<lparr>ts_woken := insert w (ts_woken s)\<rparr>)"
| register_check: "ts_threads s t = Resting \<Longrightarrow> \<not> ts_cancelled s \<Longrightarrow> token_step s (goes t (RegisterChecked w) s)"
| register_lock: "ts_threads s t = RegisterChecked w \<Longrightarrow> ts_lock s = None \<Longrightarrow> token_step s (locks t (RegisterLocked w) s)"
| register_late: "ts_threads s t = RegisterLocked w \<Longrightarrow> ts_cancelled s \<Longrightarrow>
    token_step s (unlocks t Resting s\<lparr>ts_woken := insert w (ts_woken s)\<rparr>)"
| register_recheck: "ts_threads s t = RegisterLocked w \<Longrightarrow> \<not> ts_cancelled s \<Longrightarrow> token_step s (goes t (RegisterPushing w) s)"
| register_known: "ts_threads s t = RegisterPushing w \<Longrightarrow> w \<in> snd ` set (ts_waiters s) \<Longrightarrow>
    token_step s (unlocks t Resting s\<lparr>ts_registered := insert w (ts_registered s)\<rparr>)"
| register_push: "ts_threads s t = RegisterPushing w \<Longrightarrow> w \<notin> snd ` set (ts_waiters s) \<Longrightarrow>
    token_step s (unlocks t Resting s\<lparr>ts_waiters := ts_waiters s @ [(ts_next_waiter_id s, w)],
      ts_next_waiter_id := Suc (ts_next_waiter_id s), ts_registered := insert w (ts_registered s)\<rparr>)"
| cancel_swap: "ts_threads s t = Resting \<Longrightarrow> \<not> ts_cancelled s \<Longrightarrow> token_step s (goes t CancelSwapped s\<lparr>ts_cancelled := True\<rparr>)"
| cancel_lock: "ts_threads s t = CancelSwapped \<Longrightarrow> ts_lock s = None \<Longrightarrow> token_step s (locks t CancelLocked s)"
| cancel_take: "ts_threads s t = CancelLocked \<Longrightarrow>
    token_step s (unlocks t (Waking (map snd (ts_waiters s))) s\<lparr>ts_waiters := []\<rparr>)"
| cancel_wake: "ts_threads s t = Waking (w # ws) \<Longrightarrow>
    token_step s (goes t (Waking ws) s\<lparr>ts_woken := insert w (ts_woken s)\<rparr>)"
| cancel_done: "ts_threads s t = Waking [] \<Longrightarrow> token_step s (goes t Resting s)"

text \<open>
  The methods of the token as one thread performs them when no other runs, including the branches
  taken once the token is cancelled.
\<close>

definition register_waker :: "waker \<Rightarrow> token_state \<Rightarrow> token_state" where
  "register_waker w s =
     (if ts_cancelled s then s\<lparr>ts_woken := insert w (ts_woken s)\<rparr>
      else if w \<in> snd ` set (ts_waiters s) then s\<lparr>ts_registered := insert w (ts_registered s)\<rparr>
      else s\<lparr>ts_waiters := ts_waiters s @ [(ts_next_waiter_id s, w)],
        ts_next_waiter_id := Suc (ts_next_waiter_id s), ts_registered := insert w (ts_registered s)\<rparr>)"

definition poll_wait :: "nat \<Rightarrow> waker \<Rightarrow> token_state \<Rightarrow> token_state" where
  "poll_wait i w s =
     (if ts_cancelled s then s\<lparr>ts_pending := (ts_pending s)(i := None)\<rparr>
      else s\<lparr>ts_waiters := update_waiter i w (ts_waiters s), ts_pending := (ts_pending s)(i \<mapsto> w)\<rparr>)"

definition drop_wait :: "nat \<Rightarrow> token_state \<Rightarrow> token_state" where
  "drop_wait i s =
     (if ts_cancelled s then s\<lparr>ts_pending := (ts_pending s)(i := None)\<rparr>
      else s\<lparr>ts_waiters := retain_waiters i (ts_waiters s), ts_pending := (ts_pending s)(i := None)\<rparr>)"

definition cancel_token :: "token_state \<Rightarrow> token_state" where
  "cancel_token s =
     (if ts_cancelled s then s
      else s\<lparr>ts_cancelled := True, ts_waiters := [], ts_woken := ts_woken s \<union> snd ` set (ts_waiters s)\<rparr>)"

inductive reachable :: "token_state \<Rightarrow> bool" where
  reach_new: "reachable new_token"
| reach_step: "reachable s \<Longrightarrow> token_step s s' \<Longrightarrow> reachable s'"

end
