(* ===== verification/Scheduler_Guarantees.thy ===== *)
theory Scheduler_Guarantees
  imports Run_Scheduler "HOL-Library.Multiset"
begin

text \<open>
  Cancellation wakes every waiting future, whatever the interleaving of threads; the results of a
  batch come in source order, whatever the order in which its calls complete; queues keep their order.
\<close>

section \<open>Cancellation\<close>

fun holds_lock :: "activity \<Rightarrow> bool" where
  "holds_lock (PollLocked _ _) = True"
| "holds_lock (PollPushing _ _) = True"
| "holds_lock (DropLocked _) = True"
| "holds_lock (RegisterLocked _) = True"
| "holds_lock (RegisterPushing _) = True"
| "holds_lock CancelLocked = True"
| "holds_lock _ = False"

fun pushing :: "activity \<Rightarrow> bool" where
  "pushing (PollPushing _ _) = True"
| "pushing (RegisterPushing _) = True"
| "pushing _ = False"

text \<open>A thread that has set the flag and not yet taken the waiters.\<close>

fun cancelling :: "activity \<Rightarrow> bool" where
  "cancelling CancelSwapped = True"
| "cancelling CancelLocked = True"
| "cancelling _ = False"

fun waking :: "activity \<Rightarrow> waker set" where
  "waking (Waking ws) = set ws"
| "waking _ = {}"

text \<open>
  The invariants, over the parts of the state they speak of: exactly the owner of the lock is in a
  locked section; once the flag is set, the waiters are about to be taken or there are none and none
  is being added; one thread at a time is busy with a future; and a future that returned \<open>Pending\<close> is
  in the list, woken, or among those being woken.
\<close>

definition lock_ok :: "(thread \<Rightarrow> activity) \<Rightarrow> thread option \<Rightarrow> bool" where
  "lock_ok th l \<longleftrightarrow> (\<forall>t. holds_lock (th t) \<longleftrightarrow> l = Some t)"

definition flag_ok :: "bool \<Rightarrow> (thread \<Rightarrow> activity) \<Rightarrow> waiters \<Rightarrow> bool" where
  "flag_ok c th ws \<longleftrightarrow> (c \<longrightarrow> (\<exists>t. cancelling (th t)) \<or> ws = [] \<and> (\<forall>t. \<not> pushing (th t)))"

definition exclusive :: "(thread \<Rightarrow> activity) \<Rightarrow> bool" where
  "exclusive th \<longleftrightarrow> (\<forall>i t t'. busy_with i (th t) \<longrightarrow> busy_with i (th t') \<longrightarrow> t = t')"

definition pending_ok :: "(nat \<rightharpoonup> waker) \<Rightarrow> (thread \<Rightarrow> activity) \<Rightarrow> waiters \<Rightarrow> waker set \<Rightarrow> bool" where
  "pending_ok p th ws woken \<longleftrightarrow> (\<forall>i w. p i = Some w \<longrightarrow>
     ((i, w) \<in> set ws \<or> w \<in> woken \<or> (\<exists>t. w \<in> waking (th t))) \<and> (\<forall>t. \<not> busy_with i (th t)))"

lemma pushing_holds_lock: "pushing a \<Longrightarrow> holds_lock a"
  by (cases a) auto

lemma lock_ok_upd: "lock_ok th l \<Longrightarrow> holds_lock a = holds_lock (th t) \<Longrightarrow> lock_ok (th(t := a)) l"
  by (simp add: lock_ok_def)

lemma lock_ok_lock: "lock_ok th None \<Longrightarrow> holds_lock a \<Longrightarrow> lock_ok (th(t := a)) (Some t)"
  by (auto simp: lock_ok_def)

lemma lock_ok_unlock: "lock_ok th l \<Longrightarrow> holds_lock (th t) \<Longrightarrow> \<not> holds_lock a \<Longrightarrow> lock_ok (th(t := a)) None"
  by (auto simp: lock_ok_def)

lemma lock_step: "token_step s s' \<Longrightarrow> lock_ok (ts_threads s) (ts_lock s) \<Longrightarrow> lock_ok (ts_threads s') (ts_lock s')"
  by (induction rule: token_step.induct) (auto intro: lock_ok_upd lock_ok_lock lock_ok_unlock)

lemma flag_ok_upd:
  "flag_ok c th ws \<Longrightarrow> cancelling a = cancelling (th t) \<Longrightarrow> (pushing a \<Longrightarrow> c \<Longrightarrow> pushing (th t)) \<Longrightarrow>
   (ws = [] \<Longrightarrow> ws' = []) \<Longrightarrow> flag_ok c (th(t := a)) ws'"
  unfolding flag_ok_def by (metis fun_upd_apply)

lemma flag_ok_push:
  "flag_ok c th ws \<Longrightarrow> pushing (th t) \<Longrightarrow> flag_ok c (th(t := a)) ws'"
  unfolding flag_ok_def by (metis fun_upd_other pushing.simps cancelling.elims(2))

lemma flag_ok_take:
  assumes "lock_ok th l" "holds_lock (th t)" "\<not> pushing a"
  shows "flag_ok c (th(t := a)) []"
  using assms pushing_holds_lock unfolding flag_ok_def lock_ok_def by (metis fun_upd_apply option.inject)

lemma flag_ok_swap: "flag_ok c (th(t := CancelSwapped)) ws"
  unfolding flag_ok_def by (metis cancelling.simps(1) fun_upd_same)

lemma flag_step:
  assumes "token_step s s'" "lock_ok (ts_threads s) (ts_lock s)" "flag_ok (ts_cancelled s) (ts_threads s) (ts_waiters s)"
  shows "flag_ok (ts_cancelled s') (ts_threads s') (ts_waiters s')"
  using assms
proof (induction rule: token_step.induct)
  case (cancel_take s t)
  have "flag_ok (ts_cancelled s) ((ts_threads s)(t := Waking (map snd (ts_waiters s)))) []"
    by (rule flag_ok_take [of _ "ts_lock s"]) (use cancel_take in simp_all)
  then show ?case by (simp add: fun_upd_def)
qed (auto simp: retain_waiters_def intro: flag_ok_upd flag_ok_push flag_ok_swap)

lemma exclusive_upd:
  "exclusive th \<Longrightarrow> (\<And>i. busy_with i a \<Longrightarrow> busy_with i (th t) \<or> (\<forall>t'. \<not> busy_with i (th t'))) \<Longrightarrow> exclusive (th(t := a))"
  unfolding exclusive_def by (metis fun_upd_apply)

lemma exclusive_step: "token_step s s' \<Longrightarrow> exclusive (ts_threads s) \<Longrightarrow> exclusive (ts_threads s')"
  by (induction rule: token_step.induct) (auto intro: exclusive_upd)

lemma update_waiter_in: "(i, w) \<in> set (update_waiter i w ws)"
  by (induction i w ws rule: update_waiter.induct) auto

lemma update_waiter_keeps: "(j, v) \<in> set ws \<Longrightarrow> j \<noteq> i \<Longrightarrow> (j, v) \<in> set (update_waiter i w ws)"
  by (induction i w ws rule: update_waiter.induct) auto

text \<open>A step of thread \<open>t\<close> that makes no future pending keeps those that are.\<close>

lemma pending_ok_upd:
  assumes ok: "pending_ok p th ws woken"
    and fewer: "\<And>i w. p' i = Some w \<Longrightarrow> p i = Some w"
    and busy: "\<And>i w. busy_with i a \<Longrightarrow> p' i = Some w \<Longrightarrow> busy_with i (th t)"
    and wakes: "waking (th t) \<subseteq> woken' \<union> waking a" "woken \<subseteq> woken'"
    and entries: "\<And>i w. p' i = Some w \<Longrightarrow> (i, w) \<in> set ws \<Longrightarrow> (i, w) \<in> set ws' \<or> w \<in> waking a"
  shows "pending_ok p' (th(t := a)) ws' woken'"
  unfolding pending_ok_def
proof (intro allI impI conjI)
  fix i w assume p': "p' i = Some w"
  with fewer ok have ok_i: "(i, w) \<in> set ws \<or> w \<in> woken \<or> (\<exists>t. w \<in> waking (th t))" "\<And>t. \<not> busy_with i (th t)"
    by (auto simp: pending_ok_def)
  from ok_i(1) show "(i, w) \<in> set ws' \<or> w \<in> woken' \<or> (\<exists>t'. w \<in> waking ((th(t := a)) t'))"
  proof (elim disjE exE)
    assume "(i, w) \<in> set ws"
    with entries [OF p'] show ?thesis by (metis fun_upd_same)
  next
    fix t' assume "w \<in> waking (th t')"
    with wakes(1) show ?thesis by (cases "t' = t") (auto intro: exI [of _ t] exI [of _ t'])
  qed (use wakes(2) in blast)
  fix t' show "\<not> busy_with i ((th(t := a)) t')"
    using ok_i(2) busy [OF _ p'] by (metis fun_upd_apply)
qed

lemma pending_step:
  assumes "token_step s s'" "exclusive (ts_threads s)"
    "pending_ok (ts_pending s) (ts_threads s) (ts_waiters s) (ts_woken s)"
  shows "pending_ok (ts_pending s') (ts_threads s') (ts_waiters s') (ts_woken s')"
  using assms
proof (induction rule: token_step.induct)
  case (poll_push s t i w)
  have others: "\<not> busy_with i (ts_threads s t')" if "t' \<noteq> t" for t'
    using poll_push that by (auto simp: exclusive_def)
  have "pending_ok ((ts_pending s)(i := None)) ((ts_threads s)(t := Resting)) (update_waiter i w (ts_waiters s)) (ts_woken s)"
    by (rule pending_ok_upd [OF poll_push.prems(2)])
      (use poll_push.hyps in \<open>auto intro: update_waiter_keeps split: if_splits\<close>)
  then show ?case
    using others update_waiter_in [of i w "ts_waiters s"] by (auto simp: pending_ok_def)
next
  case (drop_retain s t i)
  have "ts_pending s i = None"
  proof (cases "ts_pending s i")
    case (Some w)
    then have "\<not> busy_with i (ts_threads s t)" using drop_retain.prems(2) by (simp add: pending_ok_def)
    with drop_retain.hyps show ?thesis by simp
  qed
  then have "pending_ok (ts_pending s) ((ts_threads s)(t := Resting)) (retain_waiters i (ts_waiters s)) (ts_woken s)"
    by (intro pending_ok_upd [OF drop_retain.prems(2)]) (use drop_retain.hyps in \<open>auto simp: retain_waiters_def\<close>)
  then show ?case by (simp add: fun_upd_def)
next
  case (cancel_take s t)
  have "pending_ok (ts_pending s) ((ts_threads s)(t := Waking (map snd (ts_waiters s)))) [] (ts_woken s)"
    by (rule pending_ok_upd [OF cancel_take.prems(2)]) (use cancel_take.hyps in force)+
  then show ?case by (simp add: fun_upd_def)
qed (auto intro!: pending_ok_upd split: if_splits, (auto simp: pending_ok_def)?)

lemma reachable_ok:
  "reachable s \<Longrightarrow> lock_ok (ts_threads s) (ts_lock s) \<and> flag_ok (ts_cancelled s) (ts_threads s) (ts_waiters s) \<and>
   exclusive (ts_threads s) \<and> pending_ok (ts_pending s) (ts_threads s) (ts_waiters s) (ts_woken s)"
proof (induction rule: reachable.induct)
  case reach_new
  show ?case by (simp add: new_token_def lock_ok_def flag_ok_def exclusive_def pending_ok_def)
next
  case (reach_step s s')
  then show ?case by (auto dest: lock_step flag_step exclusive_step pending_step)
qed

subsection \<open>Methods of one thread\<close>



lemma reachable_steps: "token_step\<^sup>*\<^sup>* s s' \<Longrightarrow> reachable s \<Longrightarrow> reachable s'"
  by (induction rule: rtranclp_induct) (auto intro: reach_step)

abbreviation token :: "bool \<Rightarrow> nat \<Rightarrow> waiters \<Rightarrow> thread option \<Rightarrow> activity \<Rightarrow> (nat \<rightharpoonup> waker) \<Rightarrow> waker set \<Rightarrow> waker set \<Rightarrow> token_state" where
  "token c n ws l a p registered woken \<equiv> \<lparr>ts_cancelled = c, ts_next_waiter_id = n, ts_waiters = ws, ts_lock = l,
     ts_threads = (\<lambda>_. Resting)(0 := a), ts_pending = p, ts_registered = registered, ts_woken = woken\<rparr>"


lemma poll_steps:
  assumes "i < n"
  shows "token_step\<^sup>*\<^sup>* (token False n ws None Resting p r k) (poll_wait i w (token False n ws None Resting p r k))"
proof -
  have "token_step (token False n ws None Resting p r k) (token False n ws None (PollChecked i w) (p(i := None)) r k)"
    using poll_check [of "token False n ws None Resting p r k" 0 i w] assms by simp
  moreover have "token_step (token False n ws None (PollChecked i w) q r k) (token False n ws (Some 0) (PollLocked i w) q r k)" for q
    using poll_lock [of "token False n ws None (PollChecked i w) q r k" 0 i w] by simp
  moreover have "token_step (token False n ws (Some 0) (PollLocked i w) q r k) (token False n ws (Some 0) (PollPushing i w) q r k)" for q
    using poll_recheck [of "token False n ws (Some 0) (PollLocked i w) q r k" 0 i w] by simp
  moreover have "token_step (token False n ws (Some 0) (PollPushing i w) q r k)
      (token False n (update_waiter i w ws) None Resting (q(i \<mapsto> w)) r k)" for q
    using poll_push [of "token False n ws (Some 0) (PollPushing i w) q r k" 0 i w] by simp
  ultimately have "token_step\<^sup>*\<^sup>* (token False n ws None Resting p r k)
      (token False n (update_waiter i w ws) None Resting (p(i := None, i \<mapsto> w)) r k)"
    by (blast intro: converse_rtranclp_into_rtranclp r_into_rtranclp)
  then show ?thesis by (simp add: poll_wait_def)
qed



lemma wake_steps:
  "token_step\<^sup>*\<^sup>* (token True n ws l (Waking vs) p r k) (token True n ws l Resting p r (k \<union> set vs))"
proof (induction vs arbitrary: k)
  case Nil
  have "token_step (token True n ws l (Waking []) p r k) (token True n ws l Resting p r k)"
    using cancel_done [of "token True n ws l (Waking []) p r k" 0] by simp
  then show ?case unfolding list.set Un_empty_right by (rule r_into_rtranclp)
next
  case (Cons v vs)
  have "token_step (token True n ws l (Waking (v # vs)) p r k) (token True n ws l (Waking vs) p r (insert v k))"
    using cancel_wake [of "token True n ws l (Waking (v # vs)) p r k" 0] by simp
  from converse_rtranclp_into_rtranclp [OF this Cons.IH] show ?case
    unfolding list.set Un_insert_right Un_insert_left .
qed

lemma cancel_steps:
  "token_step\<^sup>*\<^sup>* (token False n ws None Resting p r k) (cancel_token (token False n ws None Resting p r k))"
proof -
  have "token_step (token False n ws None Resting p r k) (token True n ws None CancelSwapped p r k)"
    using cancel_swap [of "token False n ws None Resting p r k" 0] by simp
  moreover have "token_step (token True n ws None CancelSwapped p r k) (token True n ws (Some 0) CancelLocked p r k)"
    using cancel_lock [of "token True n ws None CancelSwapped p r k" 0] by simp
  moreover have "token_step (token True n ws (Some 0) CancelLocked p r k) (token True n [] None (Waking (map snd ws)) p r k)"
    using cancel_take [of "token True n ws (Some 0) CancelLocked p r k" 0] by simp
  moreover note wake_steps [of n "[]" None "map snd ws" p r k]
  ultimately have "token_step\<^sup>*\<^sup>* (token False n ws None Resting p r k) (token True n [] None Resting p r (k \<union> set (map snd ws)))"
    by (blast intro: converse_rtranclp_into_rtranclp)
  then show ?thesis by (simp add: cancel_token_def)
qed



text \<open>A token with one wait, polled once with waker 7.\<close>

lemma one_wait: "reachable (token False 1 [(0, 7)] None Resting [0 \<mapsto> 7] {} {})"
proof -
  have "new_token = token False 0 [] None Resting Map.empty {} {}" by (auto simp: new_token_def)
  with reach_new have "reachable (token False 0 [] None Resting Map.empty {} {})" by simp
  from reach_step [OF this cancelled_new] have "reachable (token False 1 [] None Resting Map.empty {} {})" by simp
  from reachable_steps [OF poll_steps [of 0 1 "[]" Map.empty "{}" "{}" 7] this] show ?thesis by (simp add: poll_wait_def)
qed

text \<open>
  C38: No wake-up is lost. However threads that poll and drop waits, register wakers and cancel are
  interleaved, and also when the flag is set between the two checks of a poll: once the token is
  cancelled and the threads are at rest, every wait whose last poll returned \<open>Pending\<close> had its waker woken.
\<close>

theorem cancellation_wakes:
  assumes "reachable s" "ts_cancelled s" "ts_threads s = (\<lambda>_. Resting)" "ts_pending s i = Some w"
  shows "w \<in> ts_woken s"
proof -
  have "ts_waiters s = []"
    using reachable_ok [OF assms(1)] assms(2,3) by (simp add: flag_ok_def)
  with reachable_ok [OF assms(1)] assms(3,4) show ?thesis by (simp add: pending_ok_def)
qed

theorem cancellation_wakes_witness:
  "\<exists>s. reachable s \<and> ts_cancelled s \<and> ts_pending s 0 = Some 7 \<and> 7 \<in> ts_woken s"
proof -
  let ?s = "token True 1 [] None Resting [0 \<mapsto> 7] {} {7}"
  have r: "reachable ?s"
    using reachable_steps [OF cancel_steps one_wait] by (simp add: cancel_token_def)
  have "7 \<in> ts_woken ?s"
    by (rule cancellation_wakes [OF r, of 0]) auto
  with r show ?thesis by (intro exI [of _ ?s]) auto
qed



section \<open>Completions\<close>

text \<open>Recording results in the order in which calls complete.\<close>

fun record_all :: "tool_batch \<Rightarrow> agent_tool_result list \<Rightarrow> completion_set \<Rightarrow> (scheduler_error, unit) result \<times> completion_set" where
  "record_all batch [] results = (Ok (), results)"
| "record_all batch (r # rs) results =
     (case record_completion batch r results of
        (Inl e, results') \<Rightarrow> (Err e, results')
      | (Inr _, results') \<Rightarrow> record_all batch rs results')"

abbreviation call_ids :: "tool_batch \<Rightarrow> tool_call_id list" where
  "call_ids batch \<equiv> map (\<lambda>call. tl_id (pt_call call)) batch"

lemma record_all_ok:
  assumes "distinct (map ar_tool_call_id rs)" "set (map ar_tool_call_id rs) \<subseteq> set (call_ids batch)"
    and "\<forall>r \<in> set rs. btree_get results (ar_tool_call_id r) = None"
  shows "\<exists>results'. record_all batch rs results = (Ok (), results') \<and>
    btree_get results' = btree_get results ++ map_of (map (\<lambda>r. (ar_tool_call_id r, r)) rs)"
  using assms
proof (induction rs arbitrary: results)
  case (Cons r rs)
  let ?results = "btree_insert (ar_tool_call_id r) r results"
  have fresh: "ar_tool_call_id r \<notin> ar_tool_call_id ` set rs" using Cons.prems(1) by simp
  have known: "list_ex (\<lambda>call. tl_id (pt_call call) = ar_tool_call_id r) batch"
    using Cons.prems(2) by (auto simp: list_ex_iff)
  have step: "record_completion batch r results = (Ok (), ?results)"
    using known Cons.prems(3) by (simp add: record_completion_def insert_completion_def btree_contains_def)
  have free: "\<forall>x \<in> set rs. btree_get ?results (ar_tool_call_id x) = None"
    using Cons.prems(3) fresh by (auto simp: image_iff)
  have "distinct (map ar_tool_call_id rs)" "set (map ar_tool_call_id rs) \<subseteq> set (call_ids batch)"
    using Cons.prems(1,2) by auto
  from Cons.IH [OF this free] obtain results' where IH: "record_all batch rs ?results = (Ok (), results')"
    "btree_get results' = btree_get ?results ++ map_of (map (\<lambda>r. (ar_tool_call_id r, r)) rs)"
    by blast
  have "map_of (map (\<lambda>r. (ar_tool_call_id r, r)) rs) (ar_tool_call_id r) = None"
    using fresh by (auto simp: map_of_eq_None_iff image_iff)
  then have got: "btree_get results' = btree_get results ++ map_of (map (\<lambda>r. (ar_tool_call_id r, r)) (r # rs))"
    by (auto simp: IH(2) map_add_def intro!: ext split: option.split)
  show ?case by (intro exI [of _ results'] conjI got) (simp add: step IH(1))
qed simp

lemma set_map_filter_iff: "x \<in> set (List.map_filter f xs) \<longleftrightarrow> (\<exists>i \<in> set xs. f i = Some x)"
  by (induction xs) (auto simp: List.map_filter_simps split: option.split)

lemma in_source_order_get:
  "btree_get results = map_of (map (\<lambda>r. (ar_tool_call_id r, r)) rs) \<Longrightarrow>
   in_source_order batch results = List.map_filter (map_of (map (\<lambda>r. (ar_tool_call_id r, r)) rs)) (call_ids batch)"
  by (simp add: in_source_order_def List.map_filter_def comp_def filter_map)

lemma map_of_permuted:
  assumes "mset rs' = mset rs" "distinct (map ar_tool_call_id rs)"
  shows "map_of (map (\<lambda>r. (ar_tool_call_id r, r)) rs') = map_of (map (\<lambda>r. (ar_tool_call_id r, r)) rs)"
proof -
  have "distinct (map ar_tool_call_id rs')"
    using assms by (metis mset_eq_imp_distinct_iff mset_map)
  moreover have "set rs' = set rs" using assms(1) by (rule mset_eq_setD)
  ultimately show ?thesis
    using assms(2) by (subst map_of_inject_set) (simp_all add: comp_def)
qed

text \<open>
  C40: The results of a batch do not depend on the order in which its calls complete: when every call
  completes once, all completions are accepted, and the results come in the order of the calls, the
  same for every completion order.
\<close>

theorem completions_in_source_order:
  assumes "distinct (call_ids batch)" "mset (map ar_tool_call_id rs) = mset (call_ids batch)" "mset rs' = mset rs"
  shows "\<exists>results results'. record_all batch rs [] = (Ok (), results) \<and> record_all batch rs' [] = (Ok (), results') \<and>
    in_source_order batch results' = in_source_order batch results \<and>
    map ar_tool_call_id (in_source_order batch results) = call_ids batch \<and>
    set (in_source_order batch results) = set rs"
proof -
  have ids: "set (map ar_tool_call_id rs) = set (call_ids batch)"
    using assms(2) by (rule mset_eq_setD)
  have d: "distinct (map ar_tool_call_id rs)"
    using assms(1,2) mset_eq_imp_distinct_iff by blast
  have d': "distinct (map ar_tool_call_id rs')" and ids': "set (map ar_tool_call_id rs') = set (call_ids batch)"
    using d ids assms(3) by (metis mset_eq_imp_distinct_iff mset_map, metis mset_eq_setD mset_map)
  obtain results where r: "record_all batch rs [] = (Ok (), results)"
    "btree_get results = map_of (map (\<lambda>r. (ar_tool_call_id r, r)) rs)"
    using record_all_ok [OF d, of batch "[]"] ids by auto
  obtain results' where r': "record_all batch rs' [] = (Ok (), results')"
    "btree_get results' = map_of (map (\<lambda>r. (ar_tool_call_id r, r)) rs')"
    using record_all_ok [OF d', of batch "[]"] ids' by auto
  let ?get = "map_of (map (\<lambda>r. (ar_tool_call_id r, r)) rs)"
  have get: "\<exists>x \<in> set rs. ?get i = Some x \<and> ar_tool_call_id x = i" if "i \<in> set (call_ids batch)" for i
  proof -
    from that have "i \<in> set (map ar_tool_call_id rs)" by (simp only: ids)
    then obtain x where x: "x \<in> set rs" "ar_tool_call_id x = i" by auto
    then have "?get i = Some x" using d by (intro map_of_is_SomeI) (auto simp: comp_def)
    with x show ?thesis by blast
  qed
  have named: "map ar_tool_call_id (List.map_filter ?get xs) = xs" if "set xs \<subseteq> set (call_ids batch)" for xs
    using that
  proof (induction xs)
    case (Cons i xs)
    with get [of i] show ?case by (auto simp: List.map_filter_simps)
  qed (simp add: List.map_filter_simps)
  have source: "in_source_order batch results = List.map_filter ?get (call_ids batch)"
    using r(2) by (rule in_source_order_get)
  have "set (in_source_order batch results) = set rs"
  proof -
    have "x \<in> set (List.map_filter ?get (call_ids batch))" if "x \<in> set rs" for x
    proof -
      have "?get (ar_tool_call_id x) = Some x" using that d by (intro map_of_is_SomeI) (auto simp: comp_def)
      moreover have "ar_tool_call_id x \<in> set (call_ids batch)" using that ids by auto
      ultimately show ?thesis unfolding set_map_filter_iff by blast
    qed
    moreover have "x \<in> set rs" if "x \<in> set (List.map_filter ?get (call_ids batch))" for x
      using that unfolding set_map_filter_iff by (auto dest!: map_of_SomeD)
    ultimately show ?thesis by (auto simp: source)
  qed
  moreover have "in_source_order batch results' = in_source_order batch results"
    using in_source_order_get [OF r'(2)] source by (simp add: map_of_permuted [OF assms(3) d])
  ultimately show ?thesis using r(1) r'(1) named [of "call_ids batch"] source by auto
qed

theorem completions_in_source_order_witness:
  "\<exists>batch rs results. call_ids batch = [''a'', ''b''] \<and> map ar_tool_call_id rs = [''b'', ''a''] \<and>
     record_all batch rs [] = (Ok (), results) \<and> map ar_tool_call_id (in_source_order batch results) = [''a'', ''b'']"
proof -
  define call where "call = (\<lambda>i. \<lparr>pt_source_index = 0, pt_call = \<lparr>tl_id = i, tl_name = ''read'', tl_arguments = ''{}''\<rparr>,
    pt_execution_mode = Parallel\<rparr>)"
  define res where "res = (\<lambda>i. \<lparr>ar_tool_call_id = i, ar_content = ''ok'', ar_details = None, ar_usage = None,
    ar_added_tool_names = [], ar_terminate = False, ar_is_error = False, ar_failure = None\<rparr>)"
  have ids: "call_ids [call ''a'', call ''b''] = [''a'', ''b'']" "map ar_tool_call_id [res ''b'', res ''a''] = [''b'', ''a'']"
    by (simp_all add: call_def res_def)
  have "distinct (call_ids [call ''a'', call ''b''])"
    "mset (map ar_tool_call_id [res ''b'', res ''a'']) = mset (call_ids [call ''a'', call ''b''])"
    unfolding ids by simp_all
  from completions_in_source_order [OF this refl] ids show ?thesis by metis
qed

section \<open>Queues\<close>

datatype queue_use = Push string | Drain queue_mode

fun use_queue :: "queue_use list \<Rightarrow> message_queue \<Rightarrow> queued_message list \<times> message_queue" where
  "use_queue [] q = ([], q)"
| "use_queue (Push content # us) q = use_queue us (snd (queue_push content q))"
| "use_queue (Drain mode # us) q =
     (let (out, q1) = queue_drain mode q; (later, q2) = use_queue us q1 in (out @ later, q2))"

fun pushed :: "queue_use list \<Rightarrow> string list" where
  "pushed [] = []"
| "pushed (Push content # us) = content # pushed us"
| "pushed (Drain _ # us) = pushed us"

lemma drain_splits: "fst (queue_drain mode q) @ mq_entries (snd (queue_drain mode q)) = mq_entries q"
  by (cases mode; cases "mq_entries q") (simp_all add: queue_pop_def)

text \<open>Messages leave a queue once each and in the order they were pushed, however it is drained.\<close>

theorem queue_fifo:
  "map qm_content (fst (use_queue us q) @ mq_entries (snd (use_queue us q))) = map qm_content (mq_entries q) @ pushed us"
proof (induction us q rule: use_queue.induct)
  case (3 mode us q)
  obtain out q1 where d: "queue_drain mode q = (out, q1)" by fastforce
  show ?case
    using 3 [OF d [symmetric] refl] arg_cong [OF drain_splits [of mode q], of "map qm_content"]
    by (auto simp: d split: prod.split)
qed (simp_all add: queue_push_def Let_def)

end
