(* ===== verification/Spec2Isabelle.thy ===== *)
theory Spec2Isabelle
  imports Lane_Guarantees Agent_Guarantees Store_Guarantees Data_Guarantees File_Guarantees Artifact_Guarantees Schema_Guarantees
    Transcript_Guarantees Scheduler_Guarantees
begin

text \<open>
  A verification development for the durable session layer of tea.

  \<^bold>\<open>The program.\<close> Tea is a durable agent harness. A session is an append-only timeline of commits;
  each commit holds entries (the conversation), lane records (the lifecycle of operations, epochs,
  steps, provider requests, tools and inputs), lane creations and facts. Everything the harness
  knows is recomputed from the timeline: the state of each lane and the plan to recover it after a
  crash (\<open>reduction.rs\<close>), and the graph of child agents (\<open>agents.rs\<close>). The writer (\<open>store.rs\<close>) seals,
  validates and appends commits; to avoid replaying the timeline for every append it keeps an
  index and validates the common cases against the index alone. A session is kept in a file of JSON
  lines, one header and one line per commit (\<open>jsonl.rs\<close>): a line without its line break is the torn
  tail of an interrupted append, which opening refuses and an explicit repair cuts off. All sources named here are under
  \<open>crates/tea-session/src\<close> unless said otherwise.

  \<^bold>\<open>The model.\<close>
  \<^item> \<open>Tea_Prelude\<close>: results, early-return loops, saturating words, ordered maps, and the locales
    of replayed structures (\<open>checked_replay\<close>, \<open>monotone_replay\<close>, \<open>panic_free_fold\<close>).
  \<^item> \<open>Tea_Json\<close> (\<open>crates/tea-protocol/src/json.rs\<close>), \<open>Tea_Ids\<close> (\<open>ids.rs\<close>): JSON values, digests,
    canonical hash streams, identifiers and paths.
  \<^item> \<open>Session_Model\<close>, \<open>Session_Usage\<close> (\<open>model.rs\<close>): the data of the timeline, the snapshot with its
    typed views, usage arithmetic.
  \<^item> \<open>Lane_Reduction\<close>, \<open>Lane_Recovery\<close> (\<open>reduction.rs\<close>): the replay loop, one definition per arm of
    its match, and what is derived after it: tool-result checks, the configuration of a branch,
    the pending activation and the recovery plan.
  \<^item> \<open>Agent_Graph\<close> (\<open>agents.rs\<close>): the collecting loop and the six phases of the graph reduction.
  \<^item> \<open>Session_Store\<close> (\<open>store.rs\<close>, sealing in \<open>jsonl.rs\<close>): headers and commits are sealed with
    digests; the append index; preparing, validating, previewing and applying commits.
  \<^item> \<open>Codec_Fields\<close>, \<open>Codec_Entries\<close>, \<open>Codec_Records\<close>, \<open>Session_Codec\<close> (\<open>jsonl.rs\<close>): the field readers and
    writers, and the encoder and decoder of every payload, entry, lane record, lane mutation and
    fact; one definition per arm of the decoders' matches.
  \<^item> \<open>Session_File\<close> (\<open>jsonl.rs\<close>): header and commit lines, the bounded line reader over the pieces in
    which a file is read, the replay of a file, the format boundary, the append of one line with
    every point at which it can fail, the \<open>HEAD\<close> cache, and \<open>create\<close>, \<open>open\<close>, \<open>inspect\<close>,
    \<open>repair_torn_tail\<close> and \<open>write_commit\<close>.
  \<^item> \<open>Artifact_Store\<close> (\<open>artifact.rs\<close>): the content-addressed stores in memory and in a directory tree,
    with publication through a private temporary file and a hard link, pages, search over read
    buffers, listing and removal; a collector or verifier sees either store as a record of functions,
    \<open>artifact_ops\<close>. \<open>Artifact_Gc\<close> (\<open>gc.rs\<close>, \<open>verification.rs\<close>, \<open>collect_unreferenced_artifacts\<close> of \<open>jsonl.rs\<close>):
    the roots of a session, planning and applying a collection, quotas, and the verification of a
    session with its artifacts.
  \<^item> \<open>Schema_Validation\<close> (\<open>crates/tea-core/src/schema_validation.rs\<close>, the indented printer of \<open>json.rs\<close>):
    the check of a tool's schema and of the arguments of a call.
  \<^item> \<open>Agent_Config\<close>, \<open>Agent_Transcript\<close> (\<open>state/configuration.rs\<close>, \<open>state/messages.rs\<close>, \<open>transcript.rs\<close> of
    \<open>crates/tea-core/src\<close>): prompt sections and tools in force, updates and their difference; the
    messages of a conversation, the two ways of carrying its configuration, its preparation for the
    model it is sent to, and its canonical JSON.
  \<^item> \<open>Run_Scheduler\<close> (\<open>queue.rs\<close>, \<open>scheduler.rs\<close> of \<open>crates/tea-core/src\<close>): the message queues of a run,
    tool batches with their completions, and the cancellation token as a step relation \<open>token_step\<close>
    whose steps are the single accesses of each thread to the flag, the lock and the waiters.
  State is passed explicitly in records; a failing operation returns \<open>Inl\<close> of an error that names
  the source's branch; an \<open>expect\<close> or an index that could panic is an error of its own (\<open>Panic\<close>,
  \<open>GraphPanic\<close>, \<open>IndexPanic\<close>) that the theorems show unreachable. Integers keep their width.

  \<^bold>\<open>Parameters.\<close> The hash function (\<open>blake3\<close>), the JSON printer and the JSON parser (\<open>miniserde\<close>) are
  packages: they are fields of \<open>codec\<close> and \<open>session_io\<close>. The clock's reading is an argument. The
  operating system is one too: a \<open>disk\<close> says at which byte or call an append fails, \<open>head_outcome\<close>
  and \<open>cut_outcome\<close> how replacing \<open>HEAD\<close> and truncating the file end, a list of buffers in which
  pieces a file is read, and a boolean whether another writer holds the lock; files are lists of
  bytes. For artifacts, a \<open>publication\<close> says which call of publishing an object fails and whether its
  temporary file stays, and a function to \<open>removal\<close> how deleting each object ends. The texts of errors are constructors, not rendered messages. Theorems that rely on a
  package say so in a hypothesis: that digests have 32 bytes, and that a printed line is
  \<open>readable\<close> (short enough, without line break, and parsed to the value that was printed). A line is
  \<open>legible\<close> when it is readable and its commit is well-formed for the decoder: identifiers, bounds of
  opaque provider contexts, and no reply of one empty text block. The writer checks neither this nor
  that a user entry leaves reserved identities alone (\<open>unreserved\<close>); both are hypotheses where they
  are needed, and \<open>unreadable_context\<close> and \<open>fast_path_reserved_gap\<close> show what happens without them.

  \<^bold>\<open>The theorems.\<close>
  \<^item> \<open>Lane_Invariants\<close>, \<open>Lane_Lifecycle\<close>, \<open>Lane_History\<close>, \<open>Lane_Order\<close>: the arms as a step relation
    \<open>lane_step\<close>, the invariants of the reducer as interpretations of \<open>lane_invariant\<close>, and how the
    state grows. \<open>Lane_Guarantees\<close>: the reduction is total, recovery is safe, tools start once,
    inputs progress, history is immutable, checkpoints are settled and forks restore them.
  \<^item> \<open>Agent_Properties\<close>, \<open>Agent_Guarantees\<close>: the phases as folds that keep invariants and never
    panic; identities of children are derived and distinct; an applied delta was authorised.
  \<^item> \<open>Store_Refinement\<close>: the snapshot's views refine one list of mutations, and the append index is a
    function of the reducer's state. \<open>Graph_Extension\<close>, \<open>Local_Validation\<close>: what the index validates
    alone the reducers accept. \<open>Store_Invariants\<close>: the writer as an interpretation of \<open>session_writer\<close>.
    \<open>Store_Commits\<close>: what a commit stores, said on the commit and the timeline alone, and the fate of a
    user entry with a reserved identity. \<open>Store_Guarantees\<close>: the log is exact and hash-chained, the fast path is
    equivalent to the full validation on unreserved commits and only on those, a commit stores exactly
    its items or changes nothing, a preview is what the commit does.
  \<^item> \<open>Codec_*\<close> and \<open>Session_Codec\<close> show, as interpretations of \<open>wire_codec\<close>, \<open>object_codec\<close> and
    \<open>name_codec\<close>, that each decoder inverts its encoder on well-formed data. \<open>File_Replay\<close>: the
    reader finds the same lines whatever the buffers are, and a file of encoded commits replays to
    them. \<open>File_Writer\<close>: a file session simulates the in-memory session. \<open>File_Guarantees\<close>: a crash
    at any byte of an append of legible lines loses at most that commit; the writer refines the in-memory writer; the
    contexts the writer accepts and no reader decodes.
  \<^item> \<open>Artifact_Contract\<close>: the locale \<open>artifact_contract\<close> of a store seen as a map from identities to bytes,
    in which collection and verification are proved once; its interpretation on the store in memory,
    and in \<open>Artifact_Tree\<close> on the directory tree. \<open>Artifact_Search\<close>: the search over buffers equals the
    search of the whole object for queries without a border. \<open>Artifact_Publication\<close>, \<open>Artifact_Roots\<close>: the
    effect of a publication with every failure; what a session refers to, case by case on its data
    (\<open>refers_to\<close>), that the collector's roots are exactly this, and what a collection keeps and deletes.
    \<open>Artifact_Guarantees\<close>: collections keep the roots and complete, verified artifacts are intact and
    stay so, publication is safe, pages reassemble; and the two ways in which a collection deletes
    what a session still needs.
  \<^item> \<open>Schema_Guarantees\<close>: \<open>conforms\<close>, what a value must satisfy for a schema, keyword by keyword on the data and
    without the checks of the validator; the validator decides it for every accepted schema and never
    panics. The rounding of integers to floats is monotone, which says exactly which integers a maximum
    accepts.
  \<^item> \<open>Transcript_Guarantees\<close>: every projection and preparation of a transcript ends in the same
    configuration, prepared conversations can be sent, differences lead to the desired configuration,
    updates survive their JSON form. \<open>Scheduler_Guarantees\<close>: no wake-up of a cancelled wait is lost
    in any interleaving, by rule induction over the reachable states; each method run alone is a
    sequence of steps, and exactly when a registration is lost; completions come in source order.
  \<^item> \<open>Data_Guarantees\<close>: round trip of digests, validity of derived identities, framing, paths,
    exact costs and saturating counters.
  \<^item> \<open>Session_Example\<close>, \<open>Agent_Example\<close>, \<open>Store_Example\<close>, \<open>File_Example\<close>, \<open>Artifact_Example\<close>: concrete
    sessions and stores, evaluated by the kernel, on which the theorems are applied.

  \<^bold>\<open>Fuel.\<close> The walk along parent links in \<open>derive_configuration\<close> has fuel one more than the number
  of entries; \<open>reduce_lane_total\<close> shows that the fuel never runs out on a replayed timeline. The loop
  over the lines of a file needs none: every line consumes bytes.
  The identities of cancellation waiters, a 64-bit counter in the code, are natural numbers: fewer than
  2^64 waits are made.
  The digits of \<open>decimal_add\<close> wrap as in a release build; the overflow checks of a debug build and a
  failing allocation for a huge exponent are not represented. A publication does not show the removal
  of a stale file under its own temporary name, which holds no object.

  \<^bold>\<open>Not modelled.\<close> The directory layout of a session and its publication by renaming, the export of
  \<open>jsonl.rs\<close>, failing reads of the artifact store, the
  asynchronous run loop and supervisor of \<open>tea-core\<close>, provider and HTTP clients, the Luau host and
  the terminal application.
\<close>

end
